(* ===== verification/Prelude.thy ===== *)
theory Prelude
  imports Main "HOL-Library.Word" "HOL-Library.Sublist" "HOL-Library.AList"
begin

text \<open>
  Shared vocabulary of the development.

  \<^item> Machine integers of the Rust sources (\<open>u8\<close>, \<open>u32\<close>, \<open>u64\<close>, and \<open>usize\<close> on a 64-bit target)
    as words, with the saturating operations of the standard library.
  \<^item> \<open>outcome\<close>: what a Rust function returning \<open>Result<T, E>\<close> can do, panics included, and
    \<open>and_then\<close>, the \<open>?\<close> operator over an explicit state.
  \<^item> The string functions of the standard library that the sources call. A Rust \<open>str\<close> is its
    sequence of UTF-8 bytes, so \<open>string\<close> (a list of 8-bit characters) is the type itself, \<open>len()\<close>
    is \<open>length\<close>, and searching for an ASCII character over bytes or over code points is the same
    search, because UTF-8 never uses an ASCII byte inside a multi-byte sequence.
  \<^item> \<open>HashMap\<close> as an association list with distinct keys. The order of the list stands for the
    iteration order, which Rust leaves unspecified; no theorem depends on it except through sets
    and multisets.
\<close>

section \<open>Collections of facts\<close>

named_theorems path_simps "evaluation of path operations"
named_theorems step_inv "an operation keeps the invariant of its component"
named_theorems map_simps "lookup after update of an association list"

section \<open>Machine integers\<close>

type_synonym u8 = "8 word"
type_synonym u32 = "32 word"
type_synonym u64 = "64 word"
type_synonym usize = "64 word"
type_synonym bytes = "u8 list"

definition sat_add :: "'a::len word \<Rightarrow> 'a word \<Rightarrow> 'a word" where
  "sat_add a b = (if unat a + unat b < 2 ^ LENGTH('a) then a + b else - 1)"

definition sat_sub :: "'a::len word \<Rightarrow> 'a word \<Rightarrow> 'a word" where
  "sat_sub a b = (if b \<le> a then a - b else 0)"

lemma unat_max_word: "unat (- 1 :: 'a::len word) = 2 ^ LENGTH('a) - 1"
  by (simp add: unsigned_minus_1_eq_mask mask_eq_exp_minus_1)

lemma unat_sat_add:
  "unat (sat_add a b) = min (unat a + unat b) (2 ^ LENGTH('a) - 1)" for a b :: "'a::len word"
proof (cases "unat a + unat b < 2 ^ LENGTH('a)")
  case True
  then have "unat (a + b) = unat a + unat b"
    by (simp add: unat_word_ariths)
  with True show ?thesis by (simp add: sat_add_def)
next
  case False
  then show ?thesis by (simp add: sat_add_def unat_max_word)
qed

lemma unat_sat_sub: "unat (sat_sub a b) = unat a - unat b"
  by (simp add: sat_sub_def unat_sub word_le_nat_alt)

lemma unat_le_max: "unat a \<le> 2 ^ LENGTH('a) - 1" for a :: "'a::len word"
proof -
  have "unat a < 2 ^ LENGTH('a)" by (rule unsigned_less)
  then show ?thesis by linarith
qed

lemma sat_add_mono: "a \<le> sat_add a b" for a b :: "'a::len word"
proof -
  have "unat a \<le> 2 ^ LENGTH('a) - 1"
    using unat_le_max [of a] by simp
  then show ?thesis by (simp add: word_le_nat_alt unat_sat_add)
qed

lemma unat_of_nat_le: "n < 2 ^ LENGTH('a) \<Longrightarrow> unat (of_nat n :: 'a::len word) = n"
  by (simp add: unsigned_of_nat take_bit_nat_eq_self)

lemma unat_add_nowrap: "unat a + unat b < 2 ^ LENGTH('a) \<Longrightarrow> unat (a + b) = unat a + unat b"
  for a b :: "'a::len word"
  by (simp add: unat_word_ariths)

lemma unat_u64_less: "unat (a :: u64) < 2 ^ 64"
  using unsigned_less [of a] by simp

section \<open>Outcomes and the question-mark operator\<close>

text \<open>\<open>Ok\<close> and \<open>Err\<close> are Rust's; \<open>Panic\<close> is a call that unwinds (or aborts, in the release
  profile) and returns nothing.\<close>

datatype ('e, 'a) outcome = Ok 'a | Err 'e | Panic

type_synonym ('s, 'e, 'a) act = "'s \<Rightarrow> ('e, 'a) outcome \<times> 's"

definition and_then ::
    "('s, 'e, 'a) act \<Rightarrow> ('a \<Rightarrow> ('s, 'e, 'b) act) \<Rightarrow> ('s, 'e, 'b) act" where
  "and_then m f s =
     (case m s of
        (Ok a, s') \<Rightarrow> f a s'
      | (Err e, s') \<Rightarrow> (Err e, s')
      | (Panic, s') \<Rightarrow> (Panic, s'))"

definition map_err :: "('e \<Rightarrow> 'f) \<Rightarrow> ('s, 'e, 'a) act \<Rightarrow> ('s, 'f, 'a) act" where
  "map_err g m s =
     (case m s of
        (Ok a, s') \<Rightarrow> (Ok a, s')
      | (Err e, s') \<Rightarrow> (Err (g e), s')
      | (Panic, s') \<Rightarrow> (Panic, s'))"

lemma and_then_Ok_iff:
  "and_then m f s = (Ok b, s'') \<longleftrightarrow> (\<exists>a s'. m s = (Ok a, s') \<and> f a s' = (Ok b, s''))"
  by (auto simp: and_then_def split: prod.splits outcome.splits)

lemma map_err_Ok_iff [simp]: "map_err g m s = (Ok a, s') \<longleftrightarrow> m s = (Ok a, s')"
  by (auto simp: map_err_def split: prod.splits outcome.splits)

lemma and_then_Ok [simp]: "m s = (Ok a, s') \<Longrightarrow> and_then m f s = f a s'"
  by (simp add: and_then_def)

lemma and_then_Err [simp]: "m s = (Err e, s') \<Longrightarrow> and_then m f s = (Err e, s')"
  by (simp add: and_then_def)

text \<open>A sequence of operations on one state; \<open>run_ops\<close> collects what each returned.\<close>

fun run_ops :: "('op \<Rightarrow> 's \<Rightarrow> 'r \<times> 's) \<Rightarrow> 'op list \<Rightarrow> 's \<Rightarrow> 'r list \<times> 's" where
  "run_ops f [] s = ([], s)"
| "run_ops f (x # xs) s =
     (let (r, s') = f x s; (rs, s'') = run_ops f xs s' in (r # rs, s''))"

lemma run_ops_append:
  "run_ops f (xs @ ys) s =
     (let (rs, s') = run_ops f xs s; (rs', s'') = run_ops f ys s' in (rs @ rs', s''))"
  by (induction xs arbitrary: s) (simp_all add: case_prod_beta Let_def)

lemma length_run_ops [simp]: "length (fst (run_ops f xs s)) = length xs"
  by (induction xs arbitrary: s) (simp_all add: case_prod_beta)

section \<open>Strings\<close>

abbreviation slash :: char where "slash \<equiv> CHR ''/''"
abbreviation backslash :: char where "backslash \<equiv> CHR 0x5C"
abbreviation nul :: char where "nul \<equiv> CHR 0x00"

text \<open>\<open>str::split(c)\<close>: the pieces between occurrences of \<open>c\<close>; at least one piece.\<close>

fun split_on :: "('a \<Rightarrow> bool) \<Rightarrow> 'a list \<Rightarrow> 'a list list" where
  "split_on P [] = [[]]"
| "split_on P (c # cs) =
     (if P c then [] # split_on P cs
      else (case split_on P cs of [] \<Rightarrow> [[c]] | w # ws \<Rightarrow> (c # w) # ws))"

text \<open>\<open>str::rsplit_once(c)\<close>: what is before and after the last occurrence of \<open>c\<close>.\<close>

fun rsplit_once :: "char \<Rightarrow> string \<Rightarrow> (string \<times> string) option" where
  "rsplit_once c [] = None"
| "rsplit_once c (x # xs) =
     (case rsplit_once c xs of
        Some (a, b) \<Rightarrow> Some (x # a, b)
      | None \<Rightarrow> if x = c then Some ([], xs) else None)"

text \<open>\<open>str::trim_start_matches(c)\<close> and \<open>str::trim_matches(c)\<close>.\<close>

definition trim_start_matches :: "char \<Rightarrow> string \<Rightarrow> string" where
  "trim_start_matches c s = dropWhile (\<lambda>x. x = c) s"

definition trim_matches :: "char \<Rightarrow> string \<Rightarrow> string" where
  "trim_matches c s = rev (dropWhile (\<lambda>x. x = c) (rev (dropWhile (\<lambda>x. x = c) s)))"

text \<open>\<open>str::strip_prefix(p)\<close>.\<close>

fun strip_prefix :: "string \<Rightarrow> string \<Rightarrow> string option" where
  "strip_prefix [] s = Some s"
| "strip_prefix (p # ps) [] = None"
| "strip_prefix (p # ps) (c # cs) = (if p = c then strip_prefix ps cs else None)"

lemma strip_prefix_Some_iff: "strip_prefix p s = Some t \<longleftrightarrow> s = p @ t"
  by (induction p s rule: strip_prefix.induct) auto

lemma strip_prefix_append [simp]: "strip_prefix p (p @ t) = Some t"
  by (simp add: strip_prefix_Some_iff)

lemma strip_prefix_snoc [simp]: "strip_prefix (p @ [c]) (p @ c # t) = Some t"
  by (simp add: strip_prefix_Some_iff)

lemma split_on_not_Nil [simp]: "split_on P xs \<noteq> []"
  by (cases xs) (auto split: list.splits)

lemma split_on_no_sep: "w \<in> set (split_on P xs) \<Longrightarrow> x \<in> set w \<Longrightarrow> \<not> P x"
proof (induction xs arbitrary: w)
  case Nil
  then show ?case by simp
next
  case (Cons c cs)
  obtain v vs where vs: "split_on P cs = v # vs"
    by (cases "split_on P cs") auto
  with Cons.prems have "w = [] \<or> w = c # v \<and> \<not> P c \<or> w \<in> set (split_on P cs)"
    by (auto split: if_splits)
  with Cons vs show ?case by fastforce
qed

lemma set_split_on: "w \<in> set (split_on P xs) \<Longrightarrow> set w \<subseteq> set xs"
proof (induction xs arbitrary: w)
  case Nil
  then show ?case by simp
next
  case (Cons c cs)
  obtain v vs where vs: "split_on P cs = v # vs"
    by (cases "split_on P cs") auto
  with Cons.prems have "w = [] \<or> w = c # v \<or> w \<in> set (split_on P cs)"
    by (auto split: if_splits)
  with Cons.IH vs show ?case by fastforce
qed

lemma split_on_single: "\<forall>x\<in>set w. \<not> P x \<Longrightarrow> split_on P w = [w]"
  by (induction w) auto

lemma split_on_append:
  "\<forall>x\<in>set w. \<not> P x \<Longrightarrow> P c \<Longrightarrow> split_on P (w @ c # xs) = w # split_on P xs"
  by (induction w) auto

lemma rsplit_once_None: "c \<notin> set xs \<Longrightarrow> rsplit_once c xs = None"
  by (induction xs) auto

lemma rsplit_once_last:
  "c \<notin> set b \<Longrightarrow> rsplit_once c (a @ c # b) = Some (a, b)"
  by (induction a) (auto simp: rsplit_once_None)

lemma rsplit_once_SomeD:
  "rsplit_once c xs = Some (a, b) \<Longrightarrow> xs = a @ c # b \<and> c \<notin> set b"
proof (induction xs arbitrary: a)
  case Nil
  then show ?case by simp
next
  case (Cons x xs)
  show ?case
  proof (cases "rsplit_once c xs")
    case None
    have "c \<notin> set xs"
    proof
      assume "c \<in> set xs"
      then obtain ys zs where "xs = ys @ c # zs" "c \<notin> set zs"
        by (meson split_list_last)
      with None show False by (simp add: rsplit_once_last)
    qed
    with None Cons.prems show ?thesis by (auto split: if_splits)
  next
    case (Some ab)
    with Cons show ?thesis by (cases ab) auto
  qed
qed

lemma rsplit_once_Some_iff:
  "rsplit_once c xs = Some (a, b) \<longleftrightarrow> xs = a @ c # b \<and> c \<notin> set b"
  using rsplit_once_SomeD rsplit_once_last by blast

text \<open>Decimal notation, as \<open>format!("{}", n)\<close> prints an unsigned integer, and its reading back.\<close>

definition digit :: "nat \<Rightarrow> char" where
  "digit d = char_of (48 + d)"

fun dec :: "nat \<Rightarrow> string" where
  "dec n = (if n < 10 then [digit n] else dec (n div 10) @ [digit (n mod 10)])"

declare dec.simps [simp del]

definition undec :: "string \<Rightarrow> nat" where
  "undec s = foldl (\<lambda>n c. 10 * n + (of_char c - 48)) 0 s"

lemma of_char_digit: "d < 10 \<Longrightarrow> (of_char (digit d) :: nat) = 48 + d"
  by (simp add: digit_def)

lemma undec_dec: "undec (dec n) = n"
proof (induction n rule: dec.induct)
  case (1 n)
  then show ?case by (subst dec.simps) (auto simp: undec_def of_char_digit)
qed

lemma dec_inj: "dec m = dec n \<longleftrightarrow> m = n"
  by (metis undec_dec)

lemma dec_chars: "c \<in> set (dec n) \<Longrightarrow> (of_char c :: nat) \<in> {48..57}"
proof (induction n rule: dec.induct)
  case (1 n)
  have "n mod 10 < 10" by simp
  with 1 show ?case by (subst (asm) dec.simps) (auto simp: of_char_digit split: if_splits)
qed

lemma dec_no_special: "slash \<notin> set (dec n)" "backslash \<notin> set (dec n)" "nul \<notin> set (dec n)"
  using dec_chars [of slash n] dec_chars [of backslash n] dec_chars [of nul n] by auto

lemma dec_not_Nil [simp]: "dec n \<noteq> []" "[] \<noteq> dec n"
  by (subst dec.simps, simp)+

text \<open>\<open>str::contains(p)\<close>.\<close>

fun str_contains :: "string \<Rightarrow> string \<Rightarrow> bool" where
  "str_contains p [] = (p = [])"
| "str_contains p (c # cs) = (strip_prefix p (c # cs) \<noteq> None \<or> str_contains p cs)"

lemma str_contains_append: "str_contains p b \<Longrightarrow> str_contains p (a @ b)"
  by (induction a) auto

text \<open>\<open>str::to_lowercase\<close> on ASCII letters.\<close>

definition to_lowercase :: "string \<Rightarrow> string" where
  "to_lowercase s = map (\<lambda>c. if (of_char c :: nat) \<in> {65..90} then char_of ((of_char c :: nat) + 32) else c) s"

text \<open>On the bits of a character, which is how it is evaluated.\<close>

fun lower_char :: "char \<Rightarrow> char" where
  "lower_char (Char b0 b1 b2 b3 b4 b5 b6 b7) =
     Char b0 b1 b2 b3 b4 (b5 \<or> b6 \<and> \<not> b7 \<and> (b0 \<or> b1 \<or> b2 \<or> b3 \<or> b4) \<and> \<not> (b4 \<and> b3 \<and> (b2 \<or> b1 \<and> b0))) b6 b7"

lemma lower_char: "(if (of_char c :: nat) \<in> {65..90} then char_of ((of_char c :: nat) + 32) else c) = lower_char c"
proof (cases c)
  case (Char b0 b1 b2 b3 b4 b5 b6 b7)
  show ?thesis unfolding Char
    by (cases b0; cases b1; cases b2; cases b3; cases b4; cases b5; cases b6; cases b7) (simp_all add: char_of_def bit_0)
qed

lemma to_lowercase_code [code]: "to_lowercase s = map lower_char s"
  unfolding to_lowercase_def lower_char ..

lemma to_lowercase_append: "to_lowercase (a @ b) = to_lowercase a @ to_lowercase b"
  by (simp add: to_lowercase_def)

text \<open>\<open>Path::join\<close> on a Unix host.\<close>

definition path_join :: "string \<Rightarrow> string \<Rightarrow> string" where
  "path_join base p =
     (if p \<noteq> [] \<and> hd p = slash then p
      else if base \<noteq> [] \<and> last base \<noteq> slash then base @ slash # p
      else base @ p)"

section \<open>Writing a file\<close>

text \<open>What the file system does with a write: it succeeds, it refuses and leaves the file alone, or it fails after
  it has left other bytes than those asked for.\<close>

datatype write_result = Written | Refused | Torn bytes

section \<open>Hash maps\<close>

type_synonym ('k, 'v) hash_map = "('k \<times> 'v) list"

abbreviation hm_get :: "('k, 'v) hash_map \<Rightarrow> 'k \<Rightarrow> 'v option" where
  "hm_get \<equiv> map_of"

abbreviation hm_insert :: "'k \<Rightarrow> 'v \<Rightarrow> ('k, 'v) hash_map \<Rightarrow> ('k, 'v) hash_map" where
  "hm_insert \<equiv> AList.update"

abbreviation hm_remove :: "'k \<Rightarrow> ('k, 'v) hash_map \<Rightarrow> ('k, 'v) hash_map" where
  "hm_remove \<equiv> AList.delete"

abbreviation hm_keys :: "('k, 'v) hash_map \<Rightarrow> 'k list" where
  "hm_keys m \<equiv> map fst m"

definition hm_wf :: "('k, 'v) hash_map \<Rightarrow> bool" where
  "hm_wf m \<longleftrightarrow> distinct (hm_keys m)"

lemma hm_get_insert [map_simps, simp]:
  "hm_get (hm_insert k v m) k' = (if k' = k then Some v else hm_get m k')"
  by (simp add: update_conv')

lemma hm_get_remove [map_simps, simp]:
  "hm_get (hm_remove k m) k' = (if k' = k then None else hm_get m k')"
  by (simp add: delete_conv')

lemma hm_wf_insert [simp, intro]: "hm_wf m \<Longrightarrow> hm_wf (hm_insert k v m)"
  by (simp add: hm_wf_def distinct_update)

lemma hm_wf_remove [simp, intro]: "hm_wf m \<Longrightarrow> hm_wf (hm_remove k m)"
  by (simp add: hm_wf_def distinct_delete)

lemma hm_wf_Nil [simp]: "hm_wf []"
  by (simp add: hm_wf_def)

lemma hm_keys_iff: "k \<in> set (hm_keys m) \<longleftrightarrow> hm_get m k \<noteq> None"
  by (force simp: map_of_eq_None_iff)

lemma list_ex_keys: "list_ex P (hm_keys m) \<longleftrightarrow> (\<exists>k v. hm_get m k = Some v \<and> P k)"
  unfolding list_ex_iff using hm_keys_iff [of _ m] by fastforce

lemma set_keys_filter: "set (filter P (hm_keys m)) = {k. P k \<and> hm_get m k \<noteq> None}"
  using hm_keys_iff [of _ m] by auto

lemma hm_get_fold_remove: "hm_get (fold hm_remove ks m) k = (if k \<in> set ks then None else hm_get m k)"
  by (induction ks arbitrary: m) auto

lemma hm_get_filter:
  "hm_wf m \<Longrightarrow>
   hm_get (filter P m) k = (case hm_get m k of None \<Rightarrow> None | Some v \<Rightarrow> if P (k, v) then Some v else None)"
  by (induction m) (auto simp: hm_wf_def map_of_eq_None_iff split: option.splits)

lemma hm_wf_filter [simp, intro]: "hm_wf m \<Longrightarrow> hm_wf (filter P m)"
  by (simp add: hm_wf_def distinct_map_filter)

lemma hm_wf_fold_remove: "hm_wf m \<Longrightarrow> hm_wf (fold hm_remove ks m)"
  by (induction ks arbitrary: m) auto

lemma hm_get_set: "hm_wf m \<Longrightarrow> (k, v) \<in> set m \<longleftrightarrow> hm_get m k = Some v"
  by (simp add: hm_wf_def)

lemma hm_insert_new: "hm_get m k = None \<Longrightarrow> hm_insert k v m = m @ [(k, v)]"
  by (induction m) (auto split: if_splits)

end
