(* ===== verification/Vfs_Path.thy ===== *)
theory Vfs_Path
  imports Prelude
begin

text \<open>
  The path type of \<open>crates/diaspor-core/src/path.rs\<close>.

  \<open>VfsPath\<close> wraps a string that is meant to be absolute and normalised. The definitions follow the
  source function by function; \<open>normalize_loop\<close> is the character loop of \<open>VfsPath::new\<close>. The abstract
  reading of a path is its list of components: \<open>path_of\<close> renders one, \<open>components\<close> reads one back,
  \<open>wf_path\<close> says that a path is such a rendering. The lemmas show that \<open>new\<close> computes exactly the
  rendering of the non-empty pieces of its argument, that it is the identity on well-formed paths,
  and that \<open>parent\<close>, \<open>name\<close> and \<open>join\<close> act on the component list as \<open>butlast\<close>, \<open>last\<close> and append.
\<close>

section \<open>The operations\<close>

datatype vfs_path = VfsPath (inner: string)

definition root :: vfs_path where
  "root = VfsPath ''/''"

fun normalize_loop :: "bool \<Rightarrow> string \<Rightarrow> string" where
  "normalize_loop last_was_slash [] = []"
| "normalize_loop last_was_slash (c # cs) =
     (let ch = (if c = backslash then slash else c) in
      if ch = slash then
        (if last_was_slash then normalize_loop last_was_slash cs
         else ch # normalize_loop True cs)
      else ch # normalize_loop False cs)"

definition strip_trailing_slash :: "string \<Rightarrow> string" where
  "strip_trailing_slash n = (if length n > 1 \<and> last n = slash then butlast n else n)"

definition vfs_path_new :: "string \<Rightarrow> vfs_path option" where
  "vfs_path_new s =
     (if s = [] \<or> nul \<in> set s then None
      else
        let lead = (if hd s \<noteq> slash \<and> hd s \<noteq> backslash then [slash] else [])
        in Some (VfsPath (strip_trailing_slash (lead @ normalize_loop False s))))"

definition as_str :: "vfs_path \<Rightarrow> string" where
  "as_str p = inner p"

definition is_root :: "vfs_path \<Rightarrow> bool" where
  "is_root p \<longleftrightarrow> inner p = ''/''"

definition parent :: "vfs_path \<Rightarrow> vfs_path option" where
  "parent p =
     (if is_root p then None
      else
        case rsplit_once slash (inner p) of
          None \<Rightarrow> None
        | Some (trimmed, _) \<Rightarrow> if trimmed = [] then Some root else Some (VfsPath trimmed))"

definition path_name :: "vfs_path \<Rightarrow> string option" where
  "path_name p = (if is_root p then None else map_option snd (rsplit_once slash (inner p)))"

definition join :: "vfs_path \<Rightarrow> string \<Rightarrow> vfs_path" where
  "join p segment =
     (let segment = trim_matches slash segment in
      if segment = [] then p
      else if is_root p then VfsPath (slash # segment)
      else VfsPath (inner p @ slash # segment))"

section \<open>Paths as lists of components\<close>

definition sep :: "char \<Rightarrow> bool" where
  "sep c \<longleftrightarrow> c = slash \<or> c = backslash"

definition wf_comp :: "string \<Rightarrow> bool" where
  "wf_comp w \<longleftrightarrow> w \<noteq> [] \<and> slash \<notin> set w \<and> backslash \<notin> set w \<and> nul \<notin> set w"

definition render :: "string list \<Rightarrow> string" where
  "render cs = concat (map (\<lambda>w. slash # w) cs)"

definition path_of :: "string list \<Rightarrow> vfs_path" where
  "path_of cs = (if cs = [] then root else VfsPath (render cs))"

definition segments :: "string \<Rightarrow> string list" where
  "segments s = filter (\<lambda>w. w \<noteq> []) (split_on sep s)"

definition components :: "vfs_path \<Rightarrow> string list" where
  "components p = segments (inner p)"

definition wf_path :: "vfs_path \<Rightarrow> bool" where
  "wf_path p \<longleftrightarrow> p = path_of (components p) \<and> (\<forall>w\<in>set (components p). wf_comp w)"

subsection \<open>Rendering and reading back\<close>

lemma sep_slash [simp]: "sep slash" "sep backslash"
  by (simp_all add: sep_def)

lemma render_Nil [simp]: "render [] = []"
  by (simp add: render_def)

lemma render_Cons [simp]: "render (w # ws) = slash # w @ render ws"
  by (simp add: render_def)

lemma render_append [simp]: "render (xs @ ys) = render xs @ render ys"
  by (simp add: render_def)

lemma render_eq_Nil [simp]: "render cs = [] \<longleftrightarrow> cs = []"
  by (cases cs) auto

lemma wf_compD:
  assumes "wf_comp w"
  shows "w \<noteq> []" "slash \<notin> set w" "backslash \<notin> set w" "nul \<notin> set w" "\<forall>x\<in>set w. \<not> sep x"
  using assms by (auto simp: wf_comp_def sep_def)

lemma segments_comp: "wf_comp w \<Longrightarrow> segments w = [w]"
  unfolding segments_def using split_on_single [of w sep] wf_compD by simp

lemma split_on_render:
  "\<forall>w\<in>set ws. wf_comp w \<Longrightarrow> \<forall>x\<in>set v. \<not> sep x \<Longrightarrow> split_on sep (v @ render ws) = v # ws"
proof (induction ws arbitrary: v)
  case Nil
  then show ?case by (simp add: split_on_single)
next
  case (Cons w ws)
  from Cons.prems(1) have "\<forall>x\<in>set w. \<not> sep x" and "\<forall>w\<in>set ws. wf_comp w"
    by (auto dest: wf_compD(5))
  then have "split_on sep (w @ render ws) = w # ws" using Cons.IH by blast
  with Cons.prems show ?case by (simp add: split_on_append)
qed

lemma segments_render: "\<forall>w\<in>set cs. wf_comp w \<Longrightarrow> segments (render cs) = cs"
  using split_on_render [of cs "[]"]
  by (auto simp: segments_def filter_id_conv wf_comp_def)

lemma segments_slash: "segments ''/'' = []"
  by (simp add: segments_def)

lemma components_path_of [simp]: "\<forall>w\<in>set cs. wf_comp w \<Longrightarrow> components (path_of cs) = cs"
  by (simp add: components_def path_of_def root_def segments_render segments_slash)

lemma wf_path_of [simp, intro]: "\<forall>w\<in>set cs. wf_comp w \<Longrightarrow> wf_path (path_of cs)"
  by (simp add: wf_path_def)

lemma wf_pathE:
  assumes "wf_path p"
  obtains cs where "p = path_of cs" "\<forall>w\<in>set cs. wf_comp w" "components p = cs"
  using assms by (auto simp: wf_path_def)

lemma wf_path_root [simp]: "wf_path root"
  using wf_path_of [of "[]"] by (simp add: path_of_def)

lemma components_root [simp]: "components root = []"
  by (simp add: components_def root_def segments_slash)

lemma components_inj: "wf_path p \<Longrightarrow> wf_path q \<Longrightarrow> components p = components q \<Longrightarrow> p = q"
  by (metis wf_path_def)

lemma is_root_iff: "is_root p \<longleftrightarrow> p = root"
  by (cases p) (simp add: is_root_def root_def)

lemma render_eq_slash: "\<forall>w\<in>set cs. wf_comp w \<Longrightarrow> render cs \<noteq> ''/''"
  by (cases cs) (auto simp: wf_comp_def)

lemma path_of_eq_root [simp]: "\<forall>w\<in>set cs. wf_comp w \<Longrightarrow> path_of cs = root \<longleftrightarrow> cs = []"
  by (simp add: path_of_def root_def render_eq_slash)

subsection \<open>The normalisation loop\<close>

text \<open>Inside a run of separators the loop skips to the next component; after a character it either
  extends the component or starts a separator. Its output, once a trailing separator is removed, is
  the rendering of the non-empty pieces.\<close>

lemma segments_sep [simp]: "sep c \<Longrightarrow> segments (c # s) = segments s"
  by (simp add: segments_def)

lemma segments_empty [simp]: "segments [] = []"
  by (simp add: segments_def)

definition nonempty :: "string list \<Rightarrow> string list" where
  "nonempty ws = filter (\<lambda>w. w \<noteq> []) ws"

definition trailing :: "string list \<Rightarrow> string" where
  "trailing ws =
     (if ws = [] then [] else render (nonempty ws) @ (if last ws = [] then [slash] else []))"

lemma nonempty_simps [simp]:
  "nonempty [] = []" "nonempty ([] # ws) = nonempty ws"
  "nonempty ((c # v) # ws) = (c # v) # nonempty ws"
  by (simp_all add: nonempty_def)

lemma trailing_simps [simp]:
  "trailing [] = []" "trailing [[]] = [slash]"
  "trailing ((c # v) # ws) = slash # c # v @ trailing ws"
  "trailing ([] # w # ws) = trailing (w # ws)"
  by (simp_all add: trailing_def)

lemma segments_split: "segments s = nonempty (split_on sep s)"
  by (simp add: segments_def nonempty_def)

lemma normalize_loop_sep:
  assumes "sep c"
  shows "normalize_loop b (c # cs) = (if b then [] else [slash]) @ normalize_loop True cs"
  using assms by (cases b) (auto simp: sep_def)

lemma normalize_loop_char:
  assumes "\<not> sep c"
  shows "normalize_loop b (c # cs) = c # normalize_loop False cs"
  using assms by (simp add: sep_def)

lemma normalize_loop_closed:
  assumes "split_on sep s = v # ws"
  shows "normalize_loop False s = v @ trailing ws \<and>
         slash # normalize_loop True s = trailing (v # ws)"
  using assms
proof (induction s arbitrary: v ws)
  case Nil
  then show ?case by simp
next
  case (Cons c cs)
  obtain v' ws' where split: "split_on sep cs = v' # ws'"
    by (cases "split_on sep cs") auto
  note IH = Cons.IH [OF split]
  show ?case
  proof (cases "sep c")
    case True
    with Cons.prems split have "v = []" "ws = v' # ws'" by simp_all
    with True IH show ?thesis by (simp add: normalize_loop_sep del: normalize_loop.simps)
  next
    case False
    with Cons.prems split have "v = c # v'" "ws = ws'" by simp_all
    with False IH show ?thesis by (simp add: normalize_loop_char del: normalize_loop.simps)
  qed
qed

lemma last_render:
  "\<forall>w\<in>set cs. w \<noteq> [] \<and> slash \<notin> set w \<Longrightarrow> cs \<noteq> [] \<Longrightarrow> last (render cs) \<noteq> slash"
proof (induction cs rule: rev_induct)
  case (snoc w cs)
  then have "last (render (cs @ [w])) = last w" by simp
  with snoc.prems show ?case by (metis last_in_set list.set_intros(1) set_append Un_iff)
qed simp

lemma strip_trailing:
  assumes "ws \<noteq> []" and "\<forall>w\<in>set ws. slash \<notin> set w"
  shows "VfsPath (strip_trailing_slash (trailing ws)) = path_of (nonempty ws)"
proof (cases "nonempty ws = []")
  case True
  then have "last ws = []" using assms(1) last_in_set by (fastforce simp: nonempty_def filter_empty_conv)
  with True assms(1) show ?thesis
    by (simp add: trailing_def strip_trailing_slash_def path_of_def root_def)
next
  case False
  have "last (render (nonempty ws)) \<noteq> slash"
    using False assms(2) by (intro last_render) (auto simp: nonempty_def)
  with False assms(1) show ?thesis
    by (auto simp: trailing_def strip_trailing_slash_def path_of_def)
qed

lemma split_on_sep_no_slash: "w \<in> set (split_on sep s) \<Longrightarrow> slash \<notin> set w"
  using split_on_no_sep [of w sep s slash] by auto

lemma vfs_path_new_eq:
  "vfs_path_new s = (if s = [] \<or> nul \<in> set s then None else Some (path_of (segments s)))"
proof (cases "s = [] \<or> nul \<in> set s")
  case True
  then show ?thesis by (simp add: vfs_path_new_def)
next
  case False
  let ?lead = "if hd s \<noteq> slash \<and> hd s \<noteq> backslash then [slash] else []"
  obtain c cs where s: "s = c # cs" using False by (cases s) auto
  obtain v ws where split: "split_on sep s = v # ws" by (cases "split_on sep s") auto
  define xs where "xs = (if v = [] then ws else v # ws)"
  have v: "v = [] \<longleftrightarrow> sep c" and ws: "sep c \<Longrightarrow> ws \<noteq> []"
    using split s by (auto split: list.splits if_splits)
  have "?lead @ normalize_loop False s = trailing xs"
    using normalize_loop_closed [OF split] v s
    by (cases v) (auto simp: xs_def sep_def)
  moreover have "nonempty xs = segments s"
    using split by (simp add: xs_def segments_split)
  moreover have "xs \<noteq> []" "\<forall>w\<in>set xs. slash \<notin> set w"
    using v ws split split_on_sep_no_slash [of _ s] by (auto simp: xs_def split: if_splits)
  ultimately show ?thesis
    using False strip_trailing [of xs] by (simp add: vfs_path_new_def Let_def)
qed

lemma wf_segments: "nul \<notin> set s \<Longrightarrow> w \<in> set (segments s) \<Longrightarrow> wf_comp w"
  using split_on_no_sep [of w sep s] set_split_on [of w sep s]
  by (auto simp: segments_def wf_comp_def sep_def)

lemma wf_vfs_path_new: "vfs_path_new s = Some p \<Longrightarrow> wf_path p"
  by (auto simp: vfs_path_new_eq wf_segments split: if_splits)

lemma inner_path_of: "inner (path_of cs) = (if cs = [] then ''/'' else render cs)"
  by (simp add: path_of_def root_def)

lemma nul_not_in_render: "\<forall>w\<in>set cs. wf_comp w \<Longrightarrow> nul \<notin> set (render cs)"
  by (induction cs) (auto simp: wf_comp_def)

lemma vfs_path_new_as_str:
  assumes "wf_path p"
  shows "vfs_path_new (as_str p) = Some p"
proof -
  from assms obtain cs where cs: "p = path_of cs" "\<forall>w\<in>set cs. wf_comp w" "components p = cs"
    by (rule wf_pathE)
  have "inner p \<noteq> []" "nul \<notin> set (inner p)"
    using cs nul_not_in_render [of cs] by (auto simp: inner_path_of)
  with cs show ?thesis by (simp add: vfs_path_new_eq as_str_def flip: components_def)
qed

subsection \<open>Parent, name and join on components\<close>

lemma rsplit_once_path_of:
  assumes "\<forall>w\<in>set (cs @ [w]). wf_comp w"
  shows "rsplit_once slash (inner (path_of (cs @ [w]))) = Some (render cs, w)"
  using assms by (simp add: inner_path_of rsplit_once_last wf_comp_def)

lemma parent_root [simp]: "parent root = None"
  by (simp add: parent_def is_root_iff)

lemma path_name_root: "path_name root = None"
  by (simp add: path_name_def is_root_iff)

lemma parent_snoc:
  assumes "\<forall>v\<in>set (cs @ [w]). wf_comp v"
  shows "parent (path_of (cs @ [w])) = Some (path_of cs)"
proof -
  have "\<not> is_root (path_of (cs @ [w]))"
    using path_of_eq_root [OF assms] by (simp add: is_root_iff)
  then show ?thesis
    using rsplit_once_path_of [OF assms] by (simp add: parent_def path_of_def)
qed

lemma path_name_snoc:
  assumes "\<forall>v\<in>set (cs @ [w]). wf_comp v"
  shows "path_name (path_of (cs @ [w])) = Some w"
proof -
  have "\<not> is_root (path_of (cs @ [w]))"
    using path_of_eq_root [OF assms] by (simp add: is_root_iff)
  then show ?thesis
    using rsplit_once_path_of [OF assms] by (simp add: path_name_def)
qed

lemma trim_matches_id:
  assumes "slash \<notin> set w" shows "trim_matches slash w = w"
proof -
  have *: "dropWhile (\<lambda>x. x = slash) v = v" if "slash \<notin> set v" for v
    using that by (cases v) auto
  show ?thesis using assms by (simp add: trim_matches_def *)
qed

lemma join_comp:
  assumes "\<forall>v\<in>set cs. wf_comp v" "wf_comp w"
  shows "join (path_of cs) w = path_of (cs @ [w])"
proof (cases cs)
  case Nil
  with assms show ?thesis
    by (simp add: join_def trim_matches_id wf_comp_def path_of_def is_root_def root_def)
next
  case (Cons v vs)
  have "path_of cs \<noteq> root" using assms(1) Cons by simp
  then have "\<not> is_root (path_of cs)" by (simp add: is_root_iff)
  with assms Cons show ?thesis
    by (simp add: join_def trim_matches_id wf_comp_def path_of_def)
qed

lemma join_inner:
  assumes "wf_path p" "wf_comp w"
  shows "wf_path (join p w)" "components (join p w) = components p @ [w]"
  using assms by (auto elim!: wf_pathE simp: join_comp)

lemma wf_path_snocE:
  assumes "wf_path p" "p \<noteq> root"
  obtains cs w where "p = path_of (cs @ [w])" "\<forall>v\<in>set (cs @ [w]). wf_comp v"
    "components p = cs @ [w]"
proof -
  from assms(1) obtain cs where cs: "p = path_of cs" "\<forall>w\<in>set cs. wf_comp w" "components p = cs"
    by (rule wf_pathE)
  with assms(2) have "cs \<noteq> []" by (auto simp: path_of_def)
  then obtain ds w where "cs = ds @ [w]" by (metis rev_exhaust)
  with cs that show ?thesis by blast
qed

lemma parent_components:
  assumes "wf_path p" "p \<noteq> root"
  obtains q where "parent p = Some q" "wf_path q" "components q = butlast (components p)"
  using assms
proof (rule wf_path_snocE)
  fix cs w
  assume "p = path_of (cs @ [w])" and wf: "\<forall>v\<in>set (cs @ [w]). wf_comp v"
    and "components p = cs @ [w]"
  with parent_snoc [OF wf] that [of "path_of cs"] show thesis by auto
qed

lemma parent_Some_iff:
  assumes "wf_path p" "wf_path q"
  shows "parent p = Some q \<longleftrightarrow> components p \<noteq> [] \<and> components q = butlast (components p)"
proof (cases "p = root")
  case True
  then show ?thesis by simp
next
  case False
  with assms(1) obtain q' where q': "parent p = Some q'" "wf_path q'"
    "components q' = butlast (components p)" by (rule parent_components)
  have "components p \<noteq> []" using False assms(1) by (auto simp: wf_path_def path_of_def)
  with q' assms(2) show ?thesis using components_inj [of q q'] by auto
qed

lemma wf_parent: "wf_path p \<Longrightarrow> parent p = Some q \<Longrightarrow> wf_path q"
  by (metis option.distinct(1) option.inject parent_components parent_root)

lemma path_name_components:
  assumes "wf_path p" "p \<noteq> root"
  shows "path_name p = Some (last (components p))"
  using assms
proof (rule wf_path_snocE)
  fix cs w
  assume "p = path_of (cs @ [w])" and wf: "\<forall>v\<in>set (cs @ [w]). wf_comp v"
    and "components p = cs @ [w]"
  with path_name_snoc [OF wf] show ?thesis by simp
qed

lemma join_parent_name:
  assumes "wf_path p" "parent p = Some q" "path_name p = Some w"
  shows "join q w = p"
proof -
  have "p \<noteq> root" using assms(2) by auto
  with assms(1) show ?thesis
  proof (rule wf_path_snocE)
    fix cs v
    assume p: "p = path_of (cs @ [v])" and wf: "\<forall>u\<in>set (cs @ [v]). wf_comp u"
      and "components p = cs @ [v]"
    with assms parent_snoc [OF wf] path_name_snoc [OF wf] show ?thesis
      using join_comp [of cs v] by auto
  qed
qed

lemma parent_join: "wf_path p \<Longrightarrow> wf_comp w \<Longrightarrow> parent (join p w) = Some p"
  using join_inner [of p w] parent_Some_iff [of "join p w" p] by simp

lemma path_name_join:
  assumes "wf_path p" "wf_comp w" shows "path_name (join p w) = Some w"
proof -
  have "join p w \<noteq> root" using join_inner [OF assms] by (metis append_is_Nil_conv components_root not_Cons_self2)
  with path_name_components [of "join p w"] join_inner [OF assms] show ?thesis by simp
qed

subsection \<open>Prefixes of renderings\<close>

lemma render_inj:
  "\<forall>w\<in>set cs. wf_comp w \<Longrightarrow> \<forall>w\<in>set ds. wf_comp w \<Longrightarrow> render cs = render ds \<Longrightarrow> cs = ds"
  by (metis segments_render)

lemma takeWhile_comp:
  assumes "slash \<notin> set w"
  shows "takeWhile (\<lambda>x. x \<noteq> slash) (w @ render ws) = w"
    and "takeWhile (\<lambda>x. x \<noteq> slash) (w @ slash # xs) = w"
  using assms by (cases ws; auto simp: takeWhile_append2 takeWhile_eq_all_conv takeWhile_append)+

lemma render_prefix:
  assumes "\<forall>w\<in>set cs. wf_comp w" "\<forall>w\<in>set ds. wf_comp w" "render ds = render cs @ slash # rest"
  shows "\<exists>w ws. ds = cs @ w # ws"
  using assms
proof (induction cs arbitrary: ds)
  case Nil
  then show ?case by (cases ds) auto
next
  case (Cons c cs)
  from Cons.prems obtain d ds' where ds: "ds = d # ds'" by (cases ds) auto
  with Cons.prems have eq: "d @ render ds' = c @ render cs @ slash # rest"
    and wf: "slash \<notin> set d" "slash \<notin> set c" by (auto simp: wf_comp_def)
  obtain xs where "render cs @ slash # rest = slash # xs" by (cases cs) auto
  then have "c = takeWhile (\<lambda>x. x \<noteq> slash) (c @ render cs @ slash # rest)"
    using takeWhile_comp(2) [OF wf(2)] by simp
  also have "\<dots> = d" unfolding eq [symmetric] using wf(1) by (simp add: takeWhile_comp)
  finally have "c = d" .
  with eq Cons ds show ?case by auto
qed

lemma render_last:
  assumes "\<forall>w\<in>set cs. wf_comp w" "\<forall>w\<in>set ds. wf_comp w"
    and "render ds = render cs @ slash # tail" "slash \<notin> set tail"
  shows "ds = cs @ [tail]"
proof -
  have "ds \<noteq> []" using assms(3) by auto
  then obtain es w where ds: "ds = es @ [w]" by (metis rev_exhaust)
  have "slash \<notin> set w" using assms(2) ds by (simp add: wf_comp_def)
  then have "rsplit_once slash (render ds) = Some (render es, w)"
    using rsplit_once_last [of slash w "render es"] ds by simp
  moreover have "rsplit_once slash (render ds) = Some (render cs, tail)"
    unfolding assms(3) using assms(4) by (rule rsplit_once_last)
  ultimately have "render es = render cs" "w = tail" by simp_all
  with assms(1,2) ds render_inj [of es cs] show ?thesis by simp
qed

section \<open>Properties\<close>

lemmas path_eval = vfs_path_new_def strip_trailing_slash_def parent_def
  path_name_def join_def is_root_def root_def as_str_def components_def segments_def sep_def
  wf_path_def path_of_def wf_comp_def render_def trim_matches_def Let_def

text \<open>(C2) \<open>VfsPath::new\<close> is normalisation: it refuses exactly the empty string and strings with a NUL
  byte, otherwise it returns the rendering of the non-empty pieces between separators (slash or
  backslash), which is a well-formed path, and normalising a path it returned gives the same path.\<close>

theorem new_normalises:
  "vfs_path_new s = (if s = [] \<or> nul \<in> set s then None else Some (path_of (segments s))) \<and>
   (\<forall>p. vfs_path_new s = Some p \<longrightarrow> wf_path p \<and> vfs_path_new (as_str p) = Some p)"
  using vfs_path_new_eq wf_vfs_path_new vfs_path_new_as_str by blast

theorem new_normalises_witness:
  "vfs_path_new (''a'' @ [backslash] @ ''b//c/'') = Some (VfsPath ''/a/b/c'') \<and>
   wf_path (VfsPath ''/a/b/c'') \<and> vfs_path_new ''/a/b/c'' = Some (VfsPath ''/a/b/c'')"
proof -
  have "vfs_path_new (''a'' @ [backslash] @ ''b//c/'') = Some (VfsPath ''/a/b/c'')"
    by (simp add: path_eval)
  with new_normalises [THEN conjunct2, rule_format, OF this] show ?thesis by (simp add: as_str_def)
qed

text \<open>On well-formed paths, \<open>parent\<close>, \<open>name\<close> and \<open>join\<close> are \<open>butlast\<close>, \<open>last\<close> and append on
  the component list: a path other than the root has a parent and a name, and joining them gives the
  path back; joining a component and taking parent and name gives the two back.\<close>

theorem path_navigation:
  assumes "wf_path p" and "wf_comp w"
  shows "(p \<noteq> root \<longrightarrow>
           (\<exists>q. parent p = Some q \<and> wf_path q \<and> components q = butlast (components p) \<and>
                path_name p = Some (last (components p)) \<and> join q (last (components p)) = p)) \<and>
         parent root = None \<and> path_name root = None \<and>
         wf_path (join p w) \<and> parent (join p w) = Some p \<and> path_name (join p w) = Some w"
proof -
  have "\<exists>q. parent p = Some q \<and> wf_path q \<and> components q = butlast (components p) \<and>
          path_name p = Some (last (components p)) \<and> join q (last (components p)) = p" if "p \<noteq> root"
    using assms(1) that by (metis join_parent_name parent_components path_name_components)
  then show ?thesis
    using join_inner(1) [OF assms] parent_join [OF assms] path_name_join [OF assms]
    by (simp add: path_name_root)
qed

theorem path_navigation_witness:
  "parent (VfsPath ''/a/b'') = Some (VfsPath ''/a'') \<and> join (VfsPath ''/a'') ''b'' = VfsPath ''/a/b'' \<and>
   parent (join (VfsPath ''/a/b'') ''c'') = Some (VfsPath ''/a/b'')"
proof -
  have wf: "wf_path (VfsPath ''/a/b'')" "wf_comp ''c''" "components (VfsPath ''/a/b'') = [''a'', ''b'']"
    by (simp_all add: path_eval)
  have "VfsPath ''/a/b'' \<noteq> root" "parent (VfsPath ''/a/b'') = Some (VfsPath ''/a'')"
    by (simp_all add: path_eval)
  with path_navigation [OF wf(1,2)] wf(3) show ?thesis by simp
qed

end
