(* ===== verification/Vfs_Types.thy ===== *)
theory Vfs_Types
  imports Vfs_Path
begin

text \<open>
  The shared types of \<open>crates/diaspor-core/src\<close> (\<open>error.rs\<close>, \<open>types.rs\<close>) and the traits of
  \<open>traits.rs\<close>.

  The trait object \<open>dyn VfsBackend\<close> is its table of methods, the record \<open>vfs_backend\<close>: the state
  type \<open>'s\<close> is what the implementation shares behind its \<open>Arc\<close>, the type \<open>'h\<close> its open handles.
  The second half states what a backend promises: an abstract file tree maps component lists to
  nodes, \<open>spec_create_dir\<close>, \<open>spec_remove\<close>, \<open>spec_open\<close>, \<open>spec_read\<close> and \<open>spec_write\<close> are the
  operations on it, and the locale \<open>tree_backend\<close> says that a table of methods implements them
  through an abstraction function.
\<close>

section \<open>Errors\<close>

text \<open>Of \<open>std::io::Error\<close> the development distinguishes the kinds the sources look at.\<close>

datatype io_kind = IoNotFound | IoAlreadyExists | IoPermissionDenied | IoOther

datatype io_error = IoError (io_kind: io_kind) (io_message: string)

datatype vfs_error =
    NotFound string
  | AlreadyExists string
  | PermissionDenied string
  | InvalidPath string
  | KindMismatch string (expected: string) (found: string)
  | Unsupported string
  | Io io_error
  | Backend string

section \<open>Node kinds, open flags and metadata\<close>

datatype node_kind = File | Directory | Symlink

fun kind_as_str :: "node_kind \<Rightarrow> string" where
  "kind_as_str File = ''file''"
| "kind_as_str Directory = ''directory''"
| "kind_as_str Symlink = ''symlink''"

type_synonym open_flags = u32

definition READ :: open_flags where "READ = 1"
definition WRITE :: open_flags where "WRITE = 2"
definition CREATE :: open_flags where "CREATE = 4"
definition EXCL :: open_flags where "EXCL = 8"
definition TRUNC :: open_flags where "TRUNC = 16"
definition APPEND :: open_flags where "APPEND = 32"

lemmas flag_defs = READ_def WRITE_def CREATE_def EXCL_def TRUNC_def APPEND_def

definition contains :: "open_flags \<Rightarrow> open_flags \<Rightarrow> bool" where
  "contains flags other \<longleftrightarrow> and flags other = other"

text \<open>An \<open>OffsetDateTime\<close> is a number of nanoseconds since the Unix epoch.\<close>

type_synonym timestamp = int

record vfs_metadata =
  md_kind :: node_kind
  md_size :: u64
  md_modified :: "timestamp option"
  md_created :: "timestamp option"
  md_read_only :: bool

definition file_metadata :: "u64 \<Rightarrow> vfs_metadata" where
  "file_metadata sz =
     \<lparr>md_kind = File, md_size = sz, md_modified = None, md_created = None, md_read_only = False\<rparr>"

definition directory_metadata :: vfs_metadata where
  "directory_metadata =
     \<lparr>md_kind = Directory, md_size = 0, md_modified = None, md_created = None, md_read_only = False\<rparr>"

section \<open>The backend trait as a table of methods\<close>

record ('s, 'h) vfs_backend =
  be_name :: string
  be_metadata :: "vfs_path \<Rightarrow> ('s, vfs_error, vfs_metadata) act"
  be_list :: "vfs_path \<Rightarrow> ('s, vfs_error, vfs_path list) act"
  be_open :: "vfs_path \<Rightarrow> open_flags \<Rightarrow> ('s, vfs_error, 'h) act"
  be_create_dir :: "vfs_path \<Rightarrow> ('s, vfs_error, unit) act"
  be_remove :: "vfs_path \<Rightarrow> ('s, vfs_error, unit) act"
  h_read :: "'h \<Rightarrow> u64 \<Rightarrow> usize \<Rightarrow> ('s, vfs_error, bytes) act"
  h_write :: "'h \<Rightarrow> u64 \<Rightarrow> bytes \<Rightarrow> ('s, vfs_error, usize) act"
  h_flush :: "'h \<Rightarrow> ('s, vfs_error, unit) act"

section \<open>What a backend promises\<close>

datatype tnode = TDir | TFile bytes

type_synonym tree = "string list \<rightharpoonup> tnode"

fun tkind :: "tnode \<Rightarrow> node_kind" where
  "tkind TDir = Directory"
| "tkind (TFile _) = File"

definition path_str :: "string list \<Rightarrow> string" where
  "path_str cs = as_str (path_of cs)"

definition children :: "tree \<Rightarrow> string list \<Rightarrow> string list set" where
  "children t cs = {ds. ds \<in> dom t \<and> ds \<noteq> [] \<and> butlast ds = cs}"

definition tree_ok :: "tree \<Rightarrow> bool" where
  "tree_ok t \<longleftrightarrow>
     finite (dom t) \<and> t [] = Some TDir \<and>
     (\<forall>cs\<in>dom t. (\<forall>w\<in>set cs. wf_comp w) \<and> (cs \<noteq> [] \<longrightarrow> t (butlast cs) = Some TDir))"

text \<open>The check of the parent directory shared by \<open>create_dir\<close> and a creating \<open>open\<close>.\<close>

definition spec_parent :: "string list \<Rightarrow> tree \<Rightarrow> vfs_error option" where
  "spec_parent cs t =
     (case t (butlast cs) of
        None \<Rightarrow> Some (NotFound (path_str (butlast cs)))
      | Some n \<Rightarrow>
          if n = TDir then None
          else Some (KindMismatch (path_str (butlast cs)) ''directory'' (kind_as_str (tkind n))))"

definition spec_create_dir :: "string list \<Rightarrow> (tree, vfs_error, unit) act" where
  "spec_create_dir cs t =
     (if cs = [] then (Err (InvalidPath (path_str cs)), t)
      else case spec_parent cs t of
        Some e \<Rightarrow> (Err e, t)
      | None \<Rightarrow>
          if t cs \<noteq> None then (Err (AlreadyExists (path_str cs)), t)
          else (Ok (), t(cs \<mapsto> TDir)))"

definition spec_remove :: "string list \<Rightarrow> (tree, vfs_error, unit) act" where
  "spec_remove cs t =
     (if cs = [] then (Err (PermissionDenied (path_str cs)), t)
      else case t cs of
        None \<Rightarrow> (Err (NotFound (path_str cs)), t)
      | Some n \<Rightarrow>
          if n = TDir \<and> children t cs \<noteq> {} then (Err (Backend ''directory not empty''), t)
          else (Ok (), t(cs := None)))"

text \<open>A successful \<open>open\<close> gives a handle on the opened path.\<close>

definition spec_open :: "string list \<Rightarrow> open_flags \<Rightarrow> (tree, vfs_error, string list) act" where
  "spec_open cs flags t =
     (case t cs of
        Some TDir \<Rightarrow>
          if cs \<noteq> [] \<and> contains flags CREATE \<and> contains flags EXCL
          then (Err (AlreadyExists (path_str cs)), t)
          else (Err (KindMismatch (path_str cs) ''file'' ''directory''), t)
      | Some (TFile d) \<Rightarrow>
          if contains flags CREATE \<and> contains flags EXCL
          then (Err (AlreadyExists (path_str cs)), t)
          else (Ok cs, if contains flags TRUNC then t(cs \<mapsto> TFile []) else t)
      | None \<Rightarrow>
          if \<not> contains flags CREATE then (Err (NotFound (path_str cs)), t)
          else case spec_parent cs t of
            Some e \<Rightarrow> (Err e, t)
          | None \<Rightarrow> (Ok cs, t(cs \<mapsto> TFile [])))"

definition spec_file :: "string list \<Rightarrow> tree \<Rightarrow> (vfs_error, bytes) outcome" where
  "spec_file cs t =
     (case t cs of
        None \<Rightarrow> Err (NotFound (path_str cs))
      | Some TDir \<Rightarrow> Err (KindMismatch (path_str cs) ''file'' ''directory'')
      | Some (TFile d) \<Rightarrow> Ok d)"

definition spec_read :: "string list \<Rightarrow> nat \<Rightarrow> nat \<Rightarrow> (tree, vfs_error, bytes) act" where
  "spec_read cs off len t =
     (case spec_file cs t of
        Ok d \<Rightarrow> (Ok (take len (drop off d)), t)
      | Err e \<Rightarrow> (Err e, t)
      | Panic \<Rightarrow> (Panic, t))"

text \<open>The contents after writing \<open>new\<close> at \<open>off\<close>: a gap is filled with zeros, what lies before and
  after the written range stays. A \<open>Vec\<close> holds at most \<open>isize::MAX\<close> bytes; growing one beyond that
  panics.\<close>

definition overwrite :: "nat \<Rightarrow> bytes \<Rightarrow> bytes \<Rightarrow> bytes" where
  "overwrite off new old =
     take off (old @ replicate (off - length old) 0) @ new @ drop (off + length new) old"

definition isize_max :: nat where
  "isize_max = 2 ^ 63 - 1"

definition spec_write :: "string list \<Rightarrow> nat \<Rightarrow> bytes \<Rightarrow> (tree, vfs_error, nat) act" where
  "spec_write cs off new t =
     (case spec_file cs t of
        Ok d \<Rightarrow>
          if off + length new > isize_max then (Panic, t)
          else (Ok (length new), t(cs \<mapsto> TFile (overwrite off new d)))
      | Err e \<Rightarrow> (Err e, t)
      | Panic \<Rightarrow> (Panic, t))"

subsection \<open>Facts about the specification\<close>

lemma length_overwrite: "length (overwrite off new old) = max (length old) (off + length new)"
  by (simp add: overwrite_def)

lemma nth_overwrite:
  assumes "i < length (overwrite off new old)"
  shows "overwrite off new old ! i =
           (if off \<le> i \<and> i < off + length new then new ! (i - off)
            else if i < length old then old ! i else 0)"
proof -
  have "length (take off (old @ replicate (off - length old) 0)) = off" by simp
  then show ?thesis using assms
    by (auto simp: overwrite_def nth_append length_overwrite)
qed

lemma read_overwrite: "take (length new) (drop off (overwrite off new old)) = new"
  by (simp add: overwrite_def)

lemma spec_parent_None: "spec_parent cs t = None \<longleftrightarrow> t (butlast cs) = Some TDir"
  by (auto simp: spec_parent_def split: option.splits if_splits)

text \<open>Every operation keeps the tree a tree.\<close>

lemma tree_ok_update_file:
  assumes "tree_ok t" "t cs = Some (TFile d)"
  shows "tree_ok (t(cs \<mapsto> TFile d'))"
proof -
  have "butlast ds \<noteq> cs" if "ds \<in> dom t" "ds \<noteq> []" for ds
    using assms that by (force simp: tree_ok_def)
  moreover have "cs \<in> dom t" "cs \<noteq> []" using assms by (auto simp: tree_ok_def)
  ultimately show ?thesis using assms(1) by (auto simp: tree_ok_def)
qed

lemma tree_ok_insert:
  assumes ok: "tree_ok t" and new: "t cs = None" "t (butlast cs) = Some TDir" "cs \<noteq> []"
    and wf: "\<forall>w\<in>set cs. wf_comp w"
  shows "tree_ok (t(cs \<mapsto> n))"
proof -
  have "butlast cs \<noteq> cs" using new by auto
  moreover have "butlast ds \<noteq> cs" if "ds \<in> dom t" "ds \<noteq> []" for ds
    using ok that new(1) by (force simp: tree_ok_def)
  ultimately show ?thesis using ok new wf by (auto simp: tree_ok_def)
qed

lemma tree_ok_delete:
  assumes ok: "tree_ok t" and "cs \<noteq> []" and "children t cs = {}"
  shows "tree_ok (t(cs := None))"
proof -
  have "butlast ds \<noteq> cs" if "ds \<in> dom t" "ds \<noteq> []" for ds
    using that assms(3) by (auto simp: children_def)
  then show ?thesis using ok assms(2) by (auto simp: tree_ok_def)
qed

lemma file_has_no_children:
  assumes "tree_ok t" "t cs = Some (TFile d)"
  shows "children t cs = {}"
proof (rule ccontr)
  assume "children t cs \<noteq> {}"
  then obtain ds where "ds \<in> dom t" "ds \<noteq> []" "butlast ds = cs"
    by (auto simp: children_def)
  with assms show False by (force simp: tree_ok_def)
qed

lemma tree_ok_prefix:
  assumes "tree_ok t" "cs @ ws \<in> dom t" shows "cs \<in> dom t"
  using assms(2)
proof (induction ws rule: rev_induct)
  case (snoc w ws)
  then have "t (butlast (cs @ ws @ [w])) = Some TDir"
    using assms(1) unfolding tree_ok_def by blast
  with snoc.IH show ?case by (auto simp: butlast_append)
qed simp

lemma children_iff_descendants:
  assumes "tree_ok t"
  shows "children t cs \<noteq> {} \<longleftrightarrow> (\<exists>w ws. cs @ w # ws \<in> dom t)"
proof
  assume "children t cs \<noteq> {}"
  then obtain ds where "ds \<in> dom t" "ds \<noteq> []" "butlast ds = cs" by (auto simp: children_def)
  then have "cs @ last ds # [] \<in> dom t" by auto
  then show "\<exists>w ws. cs @ w # ws \<in> dom t" by blast
next
  assume "\<exists>w ws. cs @ w # ws \<in> dom t"
  then obtain w ws where "(cs @ [w]) @ ws \<in> dom t" by auto
  then have "cs @ [w] \<in> dom t" using tree_ok_prefix [OF assms] by blast
  then have "cs @ [w] \<in> children t cs" by (simp add: children_def)
  then show "children t cs \<noteq> {}" by blast
qed

lemma tree_ok_spec_create_dir:
  assumes "tree_ok t" "\<forall>w\<in>set cs. wf_comp w" "spec_create_dir cs t = (r, t')"
  shows "tree_ok t'"
  using assms tree_ok_insert [of t cs TDir]
  by (auto simp: spec_create_dir_def spec_parent_None split: if_splits option.splits)

lemma tree_ok_spec_remove:
  assumes "tree_ok t" "spec_remove cs t = (r, t')"
  shows "tree_ok t'"
proof (cases "t cs")
  case None
  with assms show ?thesis by (auto simp: spec_remove_def split: if_splits)
next
  case (Some n)
  have "tree_ok (t(cs := None))" if "cs \<noteq> []" "n = TDir \<longrightarrow> children t cs = {}"
    using tree_ok_delete [OF assms(1) that(1)] file_has_no_children [OF assms(1)] Some that(2)
    by (cases n) auto
  with Some assms show ?thesis by (auto simp: spec_remove_def split: if_splits)
qed

lemma tree_ok_spec_open:
  assumes "tree_ok t" "\<forall>w\<in>set cs. wf_comp w" "spec_open cs flags t = (r, t')"
  shows "tree_ok t'"
proof (cases "t cs")
  case None
  then have "cs \<noteq> []" using assms(1) by (auto simp: tree_ok_def)
  with None assms show ?thesis using tree_ok_insert [of t cs "TFile []"]
    by (auto simp: spec_open_def spec_parent_None split: if_splits option.splits)
next
  case (Some n)
  with assms show ?thesis using tree_ok_update_file [of t cs]
    by (auto simp: spec_open_def split: if_splits tnode.splits)
qed

lemma tree_ok_spec_write:
  assumes "tree_ok t" "spec_write cs off new t = (r, t')"
  shows "tree_ok t'"
  using assms tree_ok_update_file [of t cs]
  by (auto simp: spec_write_def spec_file_def split: if_splits option.splits tnode.splits)

section \<open>Runs of operations\<close>

text \<open>A run is a sequence of calls on one shared backend, each atomic (\<open>run_ops\<close>). \<open>exec_op\<close> performs a call on a backend, \<open>spec_op\<close> on the abstract tree, with the
  handle read as the path it is open on.\<close>

datatype 'h fs_op =
    OpCreateDir vfs_path
  | OpRemove vfs_path
  | OpOpen vfs_path open_flags
  | OpRead 'h u64 usize
  | OpWrite 'h u64 bytes

datatype fs_result =
    RUnit "(vfs_error, unit) outcome"
  | ROpen "(vfs_error, string list) outcome"
  | RBytes "(vfs_error, bytes) outcome"
  | RCount "(vfs_error, nat) outcome"

fun exec_op :: "('s, 'h) vfs_backend \<Rightarrow> ('h \<Rightarrow> vfs_path) \<Rightarrow> 'h fs_op \<Rightarrow> 's \<Rightarrow> fs_result \<times> 's" where
  "exec_op B hp (OpCreateDir p) s = apfst RUnit (be_create_dir B p s)"
| "exec_op B hp (OpRemove p) s = apfst RUnit (be_remove B p s)"
| "exec_op B hp (OpOpen p flags) s =
     apfst (\<lambda>r. ROpen (map_outcome id (\<lambda>h. components (hp h)) r)) (be_open B p flags s)"
| "exec_op B hp (OpRead h off len) s = apfst RBytes (h_read B h off len s)"
| "exec_op B hp (OpWrite h off new) s = apfst (\<lambda>r. RCount (map_outcome id unat r)) (h_write B h off new s)"

fun spec_op :: "('h \<Rightarrow> vfs_path) \<Rightarrow> 'h fs_op \<Rightarrow> tree \<Rightarrow> fs_result \<times> tree" where
  "spec_op hp (OpCreateDir p) t = apfst RUnit (spec_create_dir (components p) t)"
| "spec_op hp (OpRemove p) t = apfst RUnit (spec_remove (components p) t)"
| "spec_op hp (OpOpen p flags) t = apfst ROpen (spec_open (components p) flags t)"
| "spec_op hp (OpRead h off len) t = apfst RBytes (spec_read (components (hp h)) (unat off) (unat len) t)"
| "spec_op hp (OpWrite h off new) t = apfst RCount (spec_write (components (hp h)) (unat off) new t)"

fun op_ok :: "('h \<Rightarrow> vfs_path) \<Rightarrow> 'h fs_op \<Rightarrow> bool" where
  "op_ok hp (OpCreateDir p) \<longleftrightarrow> wf_path p"
| "op_ok hp (OpRemove p) \<longleftrightarrow> wf_path p"
| "op_ok hp (OpOpen p flags) \<longleftrightarrow> wf_path p"
| "op_ok hp (OpRead h off len) \<longleftrightarrow> wf_path (hp h)"
| "op_ok hp (OpWrite h off new) \<longleftrightarrow> wf_path (hp h) \<and> length new \<le> isize_max"

section \<open>The contract of a backend\<close>

text \<open>\<open>inv\<close> is the implementation's invariant, \<open>abs\<close> reads its tree, \<open>hpath\<close> the path a handle is
  open on. Each law says that a method returns what the specification returns on the tree and moves
  the tree the same way. Writes are contracted for slices, which Rust never makes longer than
  \<open>isize::MAX\<close>.\<close>

locale tree_backend =
  fixes B :: "('s, 'h) vfs_backend"
    and inv :: "'s \<Rightarrow> bool"
    and abs :: "'s \<Rightarrow> tree"
    and hpath :: "'h \<Rightarrow> vfs_path"
  assumes inv_tree: "inv s \<Longrightarrow> tree_ok (abs s)"
    and create_dir_spec:
      "inv s \<Longrightarrow> wf_path p \<Longrightarrow> be_create_dir B p s = (r, s') \<Longrightarrow>
         inv s' \<and> spec_create_dir (components p) (abs s) = (r, abs s')"
    and remove_spec:
      "inv s \<Longrightarrow> wf_path p \<Longrightarrow> be_remove B p s = (r, s') \<Longrightarrow>
         inv s' \<and> spec_remove (components p) (abs s) = (r, abs s')"
    and open_spec:
      "inv s \<Longrightarrow> wf_path p \<Longrightarrow> be_open B p flags s = (ro, s') \<Longrightarrow>
         inv s' \<and>
         (case ro of
            Ok h \<Rightarrow> hpath h = p \<and> spec_open (components p) flags (abs s) = (Ok (components p), abs s')
          | Err e \<Rightarrow> spec_open (components p) flags (abs s) = (Err e, abs s')
          | Panic \<Rightarrow> False)"
    and read_spec:
      "inv s \<Longrightarrow> wf_path (hpath h) \<Longrightarrow>
         h_read B h off len s =
           (fst (spec_read (components (hpath h)) (unat off) (unat len) (abs s)), s)"
    and write_spec:
      "inv s \<Longrightarrow> wf_path (hpath h) \<Longrightarrow> length new \<le> isize_max \<Longrightarrow> h_write B h off new s = (rw, s') \<Longrightarrow>
         inv s' \<and>
         (case rw of
            Ok n \<Rightarrow> spec_write (components (hpath h)) (unat off) new (abs s) = (Ok (unat n), abs s')
          | Err e \<Rightarrow> spec_write (components (hpath h)) (unat off) new (abs s) = (Err e, abs s')
          | Panic \<Rightarrow> spec_write (components (hpath h)) (unat off) new (abs s) = (Panic, abs s'))"
    and flush_spec: "h_flush B h s = (Ok (), s)"
begin

lemma create_dir_Ok:
  assumes "inv s" "wf_path p" "components p \<noteq> []" "abs s (butlast (components p)) = Some TDir"
    "abs s (components p) = None"
  obtains s' where "be_create_dir B p s = (Ok (), s')" "inv s'"
    "abs s' = (abs s)(components p \<mapsto> TDir)"
proof -
  obtain r s' where rs: "be_create_dir B p s = (r, s')" by (cases "be_create_dir B p s")
  from create_dir_spec [OF assms(1,2) rs] assms(3-5)
  have "inv s'" "r = Ok ()" "abs s' = (abs s)(components p \<mapsto> TDir)"
    by (auto simp: spec_create_dir_def spec_parent_None [THEN iffD2])
  with rs that show thesis by blast
qed

lemma create_dir_exists:
  assumes "inv s" "wf_path p" "components p \<noteq> []" "abs s (components p) = Some n"
  obtains s' where "be_create_dir B p s = (Err (AlreadyExists (path_str (components p))), s')"
    "inv s'" "abs s' = abs s"
proof -
  obtain r s' where rs: "be_create_dir B p s = (r, s')" by (cases "be_create_dir B p s")
  have "abs s (butlast (components p)) = Some TDir"
    using inv_tree [OF assms(1)] assms(3,4) by (auto simp: tree_ok_def)
  with create_dir_spec [OF assms(1,2) rs] assms(3-4)
  have "inv s'" "r = Err (AlreadyExists (path_str (components p)))" "abs s' = abs s"
    by (auto simp: spec_create_dir_def spec_parent_None [THEN iffD2])
  with rs that show thesis by blast
qed

lemma exec_op_refines:
  assumes "inv s" "op_ok hpath x" "exec_op B hpath x s = (r, s')"
  shows "inv s' \<and> spec_op hpath x (abs s) = (r, abs s')"
proof (cases x)
  case (OpCreateDir p)
  with assms show ?thesis using create_dir_spec [of s p]
    by (cases "be_create_dir B p s") auto
next
  case (OpRemove p)
  with assms show ?thesis using remove_spec [of s p]
    by (cases "be_remove B p s") auto
next
  case (OpOpen p flags)
  with assms show ?thesis using open_spec [of s p flags]
    by (cases "be_open B p flags s") (auto split: outcome.splits)
next
  case (OpRead h off len)
  have "snd (spec_read (components (hpath h)) (unat off) (unat len) (abs s)) = abs s"
    by (simp add: spec_read_def split: outcome.split)
  with OpRead assms show ?thesis using read_spec [of s h off len]
    by (cases "spec_read (components (hpath h)) (unat off) (unat len) (abs s)") auto
next
  case (OpWrite h off new)
  with assms show ?thesis using write_spec [of s h new off]
    by (cases "h_write B h off new s") (auto split: outcome.splits)
qed

lemma run_ops_refines:
  assumes "inv s" "\<forall>x\<in>set xs. op_ok hpath x" "run_ops (exec_op B hpath) xs s = (rs, s')"
  shows "inv s' \<and> run_ops (spec_op hpath) xs (abs s) = (rs, abs s')"
  using assms
proof (induction xs arbitrary: s rs s')
  case (Cons x xs)
  obtain r s1 where r: "exec_op B hpath x s = (r, s1)" by (cases "exec_op B hpath x s")
  obtain rs1 s2 where rs: "run_ops (exec_op B hpath) xs s1 = (rs1, s2)"
    by (cases "run_ops (exec_op B hpath) xs s1")
  from Cons.prems r rs have "rs = r # rs1" "s' = s2" by simp_all
  moreover have "inv s1" "spec_op hpath x (abs s) = (r, abs s1)"
    using exec_op_refines [OF Cons.prems(1) _ r] Cons.prems(2) by simp_all
  moreover have "inv s2 \<and> run_ops (spec_op hpath) xs (abs s1) = (rs1, abs s2)"
    using Cons.IH [OF \<open>inv s1\<close> _ rs] Cons.prems(2) by simp
  ultimately show ?case by simp
qed simp

end

end
