(* ===== verification/Memory_Backend.thy ===== *)
theory Memory_Backend
  imports Vfs_Types
begin

text \<open>
  The in-memory backend, \<open>crates/diaspor-backend-memory/src/lib.rs\<close>.

  The shared state is the map behind the \<open>RwLock\<close>, together with the clock that
  \<open>OffsetDateTime::now_utc\<close> reads: \<open>clock\<close> gives the successive readings, \<open>ticks\<close> counts how many
  have been taken. Every method holds the lock for its whole body, so a method is one atomic step and
  a concurrent run is a sequence of steps (\<open>mem_step\<close>, \<open>mem_reach\<close>). \<open>mem_inv\<close> is the well-formedness
  of the map, \<open>mem_abs\<close> the tree it stands for; the interpretation \<open>mem\<close> of the locale
  \<open>tree_backend\<close> discharges the contract of a backend for these methods.
\<close>

section \<open>Nodes and state\<close>

record mem_node =
  n_kind :: node_kind
  n_data :: bytes
  n_modified :: timestamp
  n_created :: timestamp

record memory_backend =
  nodes :: "(vfs_path, mem_node) hash_map"
  clock :: "nat \<Rightarrow> timestamp"
  ticks :: nat

definition now_utc :: "memory_backend \<Rightarrow> timestamp \<times> memory_backend" where
  "now_utc s = (clock s (ticks s), s\<lparr>ticks := Suc (ticks s)\<rparr>)"

definition node_file :: "timestamp \<Rightarrow> mem_node" where
  "node_file now = \<lparr>n_kind = File, n_data = [], n_modified = now, n_created = now\<rparr>"

definition node_directory :: "timestamp \<Rightarrow> mem_node" where
  "node_directory now = \<lparr>n_kind = Directory, n_data = [], n_modified = now, n_created = now\<rparr>"

definition node_metadata :: "mem_node \<Rightarrow> vfs_metadata" where
  "node_metadata n =
     \<lparr>md_kind = n_kind n, md_size = of_nat (length (n_data n)),
      md_modified = Some (n_modified n), md_created = Some (n_created n), md_read_only = False\<rparr>"

definition memory_new :: "(nat \<Rightarrow> timestamp) \<Rightarrow> memory_backend" where
  "memory_new clk =
     (let (now, s) = now_utc \<lparr>nodes = [], clock = clk, ticks = 0\<rparr>
      in s\<lparr>nodes := hm_insert root (node_directory now) (nodes s)\<rparr>)"

definition memory_default :: "(nat \<Rightarrow> timestamp) \<Rightarrow> memory_backend" where
  "memory_default clk = \<lparr>nodes = [], clock = clk, ticks = 0\<rparr>"

section \<open>The methods of the backend\<close>

definition mem_metadata :: "vfs_path \<Rightarrow> (memory_backend, vfs_error, vfs_metadata) act" where
  "mem_metadata path s =
     (case hm_get (nodes s) path of
        Some n \<Rightarrow> (Ok (node_metadata n), s)
      | None \<Rightarrow> (Err (NotFound (as_str path)), s))"

text \<open>The filter of \<open>list\<close> on the keys: \<open>tail\<close> is what follows the prefix.\<close>

definition is_direct_child :: "string \<Rightarrow> vfs_path \<Rightarrow> bool" where
  "is_direct_child pre k =
     (if as_str k = ''/'' then False
      else case strip_prefix pre (as_str k) of
        None \<Rightarrow> False
      | Some tail \<Rightarrow> tail \<noteq> [] \<and> slash \<notin> set tail)"

definition mem_list :: "vfs_path \<Rightarrow> (memory_backend, vfs_error, vfs_path list) act" where
  "mem_list path s =
     (case hm_get (nodes s) path of
        None \<Rightarrow> (Err (NotFound (as_str path)), s)
      | Some node \<Rightarrow>
          if n_kind node \<noteq> Directory
          then (Err (KindMismatch (as_str path) ''directory'' (kind_as_str (n_kind node))), s)
          else
            let pre = (if is_root path then ''/'' else as_str path @ ''/'')
            in (Ok (filter (is_direct_child pre) (hm_keys (nodes s))), s))"

text \<open>A handle keeps the path it was opened on; its backend is the shared state.\<close>

datatype memory_handle = MemoryHandle (mh_path: vfs_path)

definition open_existing :: "vfs_path \<Rightarrow> open_flags \<Rightarrow> mem_node \<Rightarrow> (memory_backend, vfs_error, unit) act" where
  "open_existing path flags n s =
     (if contains flags CREATE \<and> contains flags EXCL then (Err (AlreadyExists (as_str path)), s)
      else if n_kind n \<noteq> File
      then (Err (KindMismatch (as_str path) ''file'' (kind_as_str (n_kind n))), s)
      else (Ok (), s))"

definition check_parent :: "vfs_path \<Rightarrow> (memory_backend, vfs_error, unit) act" where
  "check_parent path s =
     (case parent path of
        None \<Rightarrow> (Err (InvalidPath (as_str path)), s)
      | Some par \<Rightarrow>
          case hm_get (nodes s) par of
            None \<Rightarrow> (Err (NotFound (as_str par)), s)
          | Some p \<Rightarrow>
              if n_kind p \<noteq> Directory
              then (Err (KindMismatch (as_str par) ''directory'' (kind_as_str (n_kind p))), s)
              else (Ok (), s))"

definition insert_node :: "vfs_path \<Rightarrow> (timestamp \<Rightarrow> mem_node) \<Rightarrow> memory_backend \<Rightarrow> memory_backend" where
  "insert_node path mk s =
     (let (now, s) = now_utc s in s\<lparr>nodes := hm_insert path (mk now) (nodes s)\<rparr>)"

definition open_missing :: "vfs_path \<Rightarrow> open_flags \<Rightarrow> (memory_backend, vfs_error, unit) act" where
  "open_missing path flags s =
     (if \<not> contains flags CREATE then (Err (NotFound (as_str path)), s)
      else and_then (check_parent path) (\<lambda>_ s. (Ok (), insert_node path node_file s)) s)"

definition open_trunc :: "vfs_path \<Rightarrow> open_flags \<Rightarrow> memory_backend \<Rightarrow> memory_backend" where
  "open_trunc path flags s =
     (if contains flags TRUNC then
        (case hm_get (nodes s) path of
           None \<Rightarrow> s
         | Some n \<Rightarrow> insert_node path (\<lambda>now. n\<lparr>n_data := [], n_modified := now\<rparr>) s)
      else s)"

definition mem_open :: "vfs_path \<Rightarrow> open_flags \<Rightarrow> (memory_backend, vfs_error, memory_handle) act" where
  "mem_open path flags s =
     (if is_root path then (Err (KindMismatch (as_str path) ''file'' ''directory''), s)
      else
        and_then
          (\<lambda>s. case hm_get (nodes s) path of
                 Some n \<Rightarrow> open_existing path flags n s
               | None \<Rightarrow> open_missing path flags s)
          (\<lambda>_ s. (Ok (MemoryHandle path), open_trunc path flags s)) s)"

definition mem_create_dir :: "vfs_path \<Rightarrow> (memory_backend, vfs_error, unit) act" where
  "mem_create_dir path =
     and_then (check_parent path)
       (\<lambda>_ s.
          if hm_get (nodes s) path \<noteq> None then (Err (AlreadyExists (as_str path)), s)
          else (Ok (), insert_node path node_directory s))"

definition mem_remove :: "vfs_path \<Rightarrow> (memory_backend, vfs_error, unit) act" where
  "mem_remove path s =
     (if is_root path then (Err (PermissionDenied (as_str path)), s)
      else case hm_get (nodes s) path of
        None \<Rightarrow> (Err (NotFound (as_str path)), s)
      | Some node \<Rightarrow>
          if n_kind node = Directory \<and>
             list_ex (\<lambda>k. strip_prefix (as_str path @ ''/'') (as_str k) \<noteq> None) (hm_keys (nodes s))
          then (Err (Backend ''directory not empty''), s)
          else (Ok (), s\<lparr>nodes := hm_remove path (nodes s)\<rparr>))"

section \<open>The methods of a handle\<close>

definition mem_read :: "memory_handle \<Rightarrow> u64 \<Rightarrow> usize \<Rightarrow> (memory_backend, vfs_error, bytes) act" where
  "mem_read h offset len s =
     (let path = mh_path h in
      case hm_get (nodes s) path of
        None \<Rightarrow> (Err (NotFound (as_str path)), s)
      | Some node \<Rightarrow>
          if n_kind node \<noteq> File
          then (Err (KindMismatch (as_str path) ''file'' (kind_as_str (n_kind node))), s)
          else
            let start = offset in
            if unat start \<ge> length (n_data node) then (Ok [], s)
            else
              let end_pos = min (unat (sat_add start len)) (length (n_data node))
              in (Ok (take (end_pos - unat start) (drop (unat start) (n_data node))), s))"

text \<open>\<open>Vec::resize\<close> panics with a capacity overflow beyond \<open>isize::MAX\<close> bytes; the lock guard is
  released and the map is as before. The slice assignment \<open>data[start..start + len]\<close> is then in range.\<close>

definition mem_write :: "memory_handle \<Rightarrow> u64 \<Rightarrow> bytes \<Rightarrow> (memory_backend, vfs_error, usize) act" where
  "mem_write h offset dat s =
     (let path = mh_path h in
      case hm_get (nodes s) path of
        None \<Rightarrow> (Err (NotFound (as_str path)), s)
      | Some node \<Rightarrow>
          if n_kind node \<noteq> File
          then (Err (KindMismatch (as_str path) ''file'' (kind_as_str (n_kind node))), s)
          else
            let start = offset;
                needed = unat (sat_add start (of_nat (length dat)));
                old = n_data node
            in
            if needed > length old \<and> needed > isize_max then (Panic, s)
            else
              let resized = (if needed > length old then old @ replicate (needed - length old) 0 else old);
                  written = take (unat start) resized @ dat @ drop (unat start + length dat) resized
              in (Ok (of_nat (length dat)),
                  insert_node path (\<lambda>now. node\<lparr>n_data := written, n_modified := now\<rparr>) s))"

definition mem_flush :: "memory_handle \<Rightarrow> (memory_backend, vfs_error, unit) act" where
  "mem_flush h s = (Ok (), s)"

definition memory_vtable :: "(memory_backend, memory_handle) vfs_backend" where
  "memory_vtable =
     \<lparr>be_name = ''memory'', be_metadata = mem_metadata, be_list = mem_list, be_open = mem_open,
      be_create_dir = mem_create_dir, be_remove = mem_remove, h_read = mem_read,
      h_write = mem_write, h_flush = mem_flush\<rparr>"

section \<open>The invariant and the abstraction\<close>

definition node_ok :: "mem_node \<Rightarrow> bool" where
  "node_ok n \<longleftrightarrow>
     n_kind n \<noteq> Symlink \<and> length (n_data n) \<le> isize_max \<and> (n_kind n = Directory \<longrightarrow> n_data n = [])"

definition is_dir_at :: "(vfs_path, mem_node) hash_map \<Rightarrow> vfs_path \<Rightarrow> bool" where
  "is_dir_at m p = (case hm_get m p of None \<Rightarrow> False | Some n \<Rightarrow> n_kind n = Directory)"

definition entry_ok :: "(vfs_path, mem_node) hash_map \<Rightarrow> vfs_path \<times> mem_node \<Rightarrow> bool" where
  "entry_ok m = (\<lambda>(k, n). wf_path k \<and> node_ok n \<and>
     (case parent k of None \<Rightarrow> True | Some q \<Rightarrow> is_dir_at m q))"

definition mem_inv :: "memory_backend \<Rightarrow> bool" where
  "mem_inv s \<longleftrightarrow>
     hm_wf (nodes s) \<and> is_dir_at (nodes s) root \<and> list_all (entry_ok (nodes s)) (nodes s)"

definition tnode_of :: "mem_node \<Rightarrow> tnode" where
  "tnode_of n = (if n_kind n = File then TFile (n_data n) else TDir)"

definition mem_abs :: "memory_backend \<Rightarrow> tree" where
  "mem_abs s cs =
     (if \<forall>w\<in>set cs. wf_comp w then map_option tnode_of (hm_get (nodes s) (path_of cs)) else None)"

lemma mem_abs_components [simp]:
  "wf_path p \<Longrightarrow> mem_abs s (components p) = map_option tnode_of (hm_get (nodes s) p)"
  by (auto elim!: wf_pathE simp: mem_abs_def)

lemma mem_abs_nodes:
  assumes "wf_path p" "hm_get (nodes s') = (hm_get (nodes s))(p := n)"
  shows "mem_abs s' = (mem_abs s)(components p := map_option tnode_of n)"
proof
  fix cs
  from assms(1) obtain ds where ds: "p = path_of ds" "\<forall>w\<in>set ds. wf_comp w" "components p = ds"
    by (rule wf_pathE)
  have "path_of cs = p \<longleftrightarrow> cs = ds" if "\<forall>w\<in>set cs. wf_comp w"
    using that ds by (metis components_path_of)
  with ds show "mem_abs s' cs = ((mem_abs s)(components p := map_option tnode_of n)) cs"
    by (simp add: mem_abs_def assms(2))
qed

lemma insert_node_simps [simp]:
  "nodes (insert_node p mk s) = hm_insert p (mk (clock s (ticks s))) (nodes s)"
  "clock (insert_node p mk s) = clock s"
  "ticks (insert_node p mk s) = Suc (ticks s)"
  by (simp_all add: insert_node_def now_utc_def)

lemma mem_abs_insert_node:
  assumes "wf_path p" "tnode_of (mk (clock s (ticks s))) = n"
  shows "mem_abs (insert_node p mk s) = (mem_abs s)(components p \<mapsto> n)"
proof -
  have "mem_abs (insert_node p mk s) =
          (mem_abs s)(components p := map_option tnode_of (Some (mk (clock s (ticks s)))))"
    using assms(1) by (rule mem_abs_nodes) (simp add: fun_eq_iff)
  with assms(2) show ?thesis by simp
qed

lemma mem_abs_Some:
  "mem_abs s cs = Some t \<Longrightarrow> (\<forall>w\<in>set cs. wf_comp w) \<and> (\<exists>n. hm_get (nodes s) (path_of cs) = Some n)"
  by (auto simp: mem_abs_def split: if_splits)

lemma finite_dom_mem_abs: "finite (dom (mem_abs s))"
proof (rule finite_subset)
  show "dom (mem_abs s) \<subseteq> components ` dom (hm_get (nodes s))"
  proof
    fix cs
    assume "cs \<in> dom (mem_abs s)"
    then have "\<forall>w\<in>set cs. wf_comp w" "path_of cs \<in> dom (hm_get (nodes s))"
      using mem_abs_Some by blast+
    then show "cs \<in> components ` dom (hm_get (nodes s))" by (metis components_path_of imageI)
  qed
qed (simp add: finite_dom_map_of)

text \<open>The executable invariant says the same as: distinct well-formed keys, well-formed nodes, and a
  tree.\<close>

lemma is_dir_at_abs:
  assumes "wf_path p" "\<And>n. hm_get m p = Some n \<Longrightarrow> node_ok n"
  shows "is_dir_at m p \<longleftrightarrow> map_option tnode_of (hm_get m p) = Some TDir"
  using assms(2) unfolding is_dir_at_def tnode_of_def node_ok_def
  by (cases "hm_get m p"; cases "n_kind (the (hm_get m p))") auto

lemma dom_mem_abs:
  assumes "\<And>k n. hm_get (nodes s) k = Some n \<Longrightarrow> wf_path k"
  shows "dom (mem_abs s) = components ` dom (hm_get (nodes s))"
proof (intro equalityI subsetI)
  fix cs
  assume "cs \<in> dom (mem_abs s)"
  then have "\<forall>w\<in>set cs. wf_comp w" "path_of cs \<in> dom (hm_get (nodes s))"
    using mem_abs_Some by blast+
  then show "cs \<in> components ` dom (hm_get (nodes s))" by (metis components_path_of imageI)
next
  fix cs
  assume "cs \<in> components ` dom (hm_get (nodes s))"
  then obtain k n where "hm_get (nodes s) k = Some n" "cs = components k" by blast
  with assms [of k n] show "cs \<in> dom (mem_abs s)" by (simp add: dom_def)
qed

lemma tree_ok_mem_abs:
  assumes "\<And>k n. hm_get (nodes s) k = Some n \<Longrightarrow> wf_path k"
  shows "tree_ok (mem_abs s) \<longleftrightarrow> mem_abs s [] = Some TDir \<and>
      (\<forall>k n. hm_get (nodes s) k = Some n \<longrightarrow>
         components k \<noteq> [] \<longrightarrow> mem_abs s (butlast (components k)) = Some TDir)"
proof -
  have wf: "\<forall>w\<in>set (components k). wf_comp w" if "hm_get (nodes s) k = Some n" for k n
    using assms [OF that] by (simp add: wf_path_def)
  have D: "dom (mem_abs s) = components ` dom (hm_get (nodes s))"
    using assms by (rule dom_mem_abs)
  show ?thesis
    unfolding tree_ok_def D using wf finite_dom_mem_abs [of s] unfolding D by fastforce
qed

lemma mem_inv_iff:
  "mem_inv s \<longleftrightarrow>
     hm_wf (nodes s) \<and> (\<forall>k n. hm_get (nodes s) k = Some n \<longrightarrow> wf_path k \<and> node_ok n) \<and>
     tree_ok (mem_abs s)" (is "?L \<longleftrightarrow> ?W \<and> ?N \<and> ?T")
proof (cases "?W \<and> ?N")
  case False
  then show ?thesis by (auto simp: mem_inv_def list_all_iff entry_ok_def hm_wf_def)
next
  case True
  then have N: "wf_path k" "node_ok n" if "hm_get (nodes s) k = Some n" for k n
    using that by auto
  have dir: "is_dir_at (nodes s) p \<longleftrightarrow> mem_abs s (components p) = Some TDir" if "wf_path p" for p
    using is_dir_at_abs [OF that] that N by simp
  have par: "(case parent k of None \<Rightarrow> True | Some q \<Rightarrow> is_dir_at (nodes s) q) \<longleftrightarrow>
      (components k \<noteq> [] \<longrightarrow> mem_abs s (butlast (components k)) = Some TDir)" if k: "wf_path k" for k
  proof (cases "k = root")
    case False
    with k obtain q where "parent k = Some q" "wf_path q" "components q = butlast (components k)"
      by (rule parent_components)
    moreover have "components k \<noteq> []" using k False by (auto simp: wf_path_def path_of_def)
    ultimately show ?thesis using dir [of q] by (metis option.simps(5))
  qed simp
  have "?T \<longleftrightarrow> mem_abs s [] = Some TDir \<and>
      (\<forall>k n. hm_get (nodes s) k = Some n \<longrightarrow>
         components k \<noteq> [] \<longrightarrow> mem_abs s (butlast (components k)) = Some TDir)"
    using N(1) by (rule tree_ok_mem_abs)
  moreover have "?L \<longleftrightarrow> mem_abs s [] = Some TDir \<and>
      (\<forall>k n. hm_get (nodes s) k = Some n \<longrightarrow>
         (case parent k of None \<Rightarrow> True | Some q \<Rightarrow> is_dir_at (nodes s) q))"
    using True dir [OF wf_path_root] by (auto simp: mem_inv_def list_all_iff entry_ok_def hm_wf_def)
  ultimately show ?thesis using True par N(1) by auto
qed

lemma mem_invI:
  assumes "hm_wf (nodes s)" "\<And>k n. hm_get (nodes s) k = Some n \<Longrightarrow> wf_path k \<and> node_ok n"
    "tree_ok (mem_abs s)"
  shows "mem_inv s"
  using assms by (simp add: mem_inv_iff)

lemma mem_invD:
  assumes "mem_inv s"
  shows "hm_wf (nodes s)" "tree_ok (mem_abs s)"
    "hm_get (nodes s) k = Some n \<Longrightarrow> wf_path k" "hm_get (nodes s) k = Some n \<Longrightarrow> node_ok n"
  using assms by (auto simp: mem_inv_iff)

lemma mem_inv_insert_node:
  assumes "mem_inv s" "wf_path p" "node_ok (mk (clock s (ticks s)))"
    "tree_ok (mem_abs (insert_node p mk s))"
  shows "mem_inv (insert_node p mk s)"
  using assms mem_invD [OF assms(1)] by (intro mem_invI) (auto split: if_splits)

section \<open>Each method implements its specification\<close>

lemma path_str_components [simp]: "wf_path p \<Longrightarrow> path_str (components p) = as_str p"
  by (simp add: path_str_def flip: wf_path_def [THEN iffD1, THEN conjunct1])

lemma path_str_Nil [simp]: "path_str [] = as_str root"
  by (simp add: path_str_def path_of_def)

lemma components_eq_Nil: "wf_path p \<Longrightarrow> components p = [] \<longleftrightarrow> p = root"
  by (auto simp: wf_path_def path_of_def)

lemma kind_of_dir:
  assumes "node_ok n"
  shows "tnode_of n = TDir \<longleftrightarrow> n_kind n = Directory" "tkind (tnode_of n) = n_kind n"
  using assms by (cases "n_kind n"; simp add: tnode_of_def node_ok_def)+

lemma check_parent_spec:
  assumes "mem_inv s" "wf_path p" "p \<noteq> root"
  shows "check_parent p s =
           ((case spec_parent (components p) (mem_abs s) of None \<Rightarrow> Ok () | Some e \<Rightarrow> Err e), s)"
proof -
  from assms(2,3) obtain q where q: "parent p = Some q" "wf_path q"
    "components q = butlast (components p)" by (rule parent_components)
  have "spec_parent (components p) (mem_abs s) =
      (case hm_get (nodes s) q of None \<Rightarrow> Some (NotFound (as_str q))
       | Some n \<Rightarrow> if n_kind n = Directory then None
                  else Some (KindMismatch (as_str q) ''directory'' (kind_as_str (n_kind n))))"
    using q(2) mem_invD(4) [OF assms(1), of q]
    unfolding spec_parent_def q(3) [symmetric]
    by (auto simp: kind_of_dir split: option.splits)
  then show ?thesis using q(1) by (auto simp: check_parent_def split: option.splits)
qed

lemma mem_create_dir_refines:
  assumes inv: "mem_inv s" and p: "wf_path p" and run: "mem_create_dir p s = (r, s')"
  shows "mem_inv s' \<and> spec_create_dir (components p) (mem_abs s) = (r, mem_abs s')"
proof (cases "p = root")
  case True
  with run have "r = Err (InvalidPath (as_str root))" "s' = s"
    by (simp_all add: mem_create_dir_def check_parent_def and_then_def)
  with True inv show ?thesis
    using path_str_components [OF wf_path_root] by (simp add: spec_create_dir_def)
next
  case False
  let ?t = "mem_abs s" and ?cs = "components p" and ?s = "insert_node p node_directory s"
  have cs: "?cs \<noteq> []" using False p by (simp add: components_eq_Nil)
  note chk = check_parent_spec [OF inv p False]
  show ?thesis
  proof (cases "spec_parent ?cs ?t = None \<and> hm_get (nodes s) p = None")
    case True
    have abs: "mem_abs ?s = ?t(?cs \<mapsto> TDir)"
      using p by (rule mem_abs_insert_node) (simp add: node_directory_def tnode_of_def)
    have "tree_ok (mem_abs ?s)" unfolding abs
      using True cs p mem_invD(2) [OF inv] by (intro tree_ok_insert) (auto simp: spec_parent_None wf_path_def)
    then have "mem_inv ?s"
      using inv p by (intro mem_inv_insert_node) (auto simp: node_ok_def node_directory_def)
    with True abs run chk cs p show ?thesis
      by (simp add: mem_create_dir_def and_then_def spec_create_dir_def)
  next
    case False
    with run chk cs p inv show ?thesis
      by (auto simp: mem_create_dir_def and_then_def spec_create_dir_def split: option.splits if_splits)
  qed
qed

text \<open>Replacing the contents of a file, as a truncating \<open>open\<close> and a \<open>write\<close> do.\<close>

lemma set_file_contents:
  assumes inv: "mem_inv s" and n: "hm_get (nodes s) p = Some n" "n_kind n = File"
    and d: "length d \<le> isize_max"
  shows "mem_inv (insert_node p (\<lambda>now. n\<lparr>n_data := d, n_modified := now\<rparr>) s)" (is "mem_inv ?s")
    and "mem_abs (insert_node p (\<lambda>now. n\<lparr>n_data := d, n_modified := now\<rparr>) s) =
           (mem_abs s)(components p \<mapsto> TFile d)"
proof -
  have p: "wf_path p" using mem_invD(3) [OF inv n(1)] .
  show abs: "mem_abs ?s = (mem_abs s)(components p \<mapsto> TFile d)"
    using p by (rule mem_abs_insert_node) (simp add: tnode_of_def n)
  have "tree_ok (mem_abs ?s)" unfolding abs
    using mem_invD(2) [OF inv] by (rule tree_ok_update_file) (use p n in \<open>simp add: tnode_of_def\<close>)
  then show "mem_inv ?s"
    using inv p n d by (intro mem_inv_insert_node) (simp_all add: node_ok_def)
qed

lemma open_trunc_file:
  assumes "mem_inv s" "hm_get (nodes s) p = Some n" "n_kind n = File"
  shows "mem_inv (open_trunc p flags s)"
    and "mem_abs (open_trunc p flags s) =
           (if contains flags TRUNC then (mem_abs s)(components p \<mapsto> TFile []) else mem_abs s)"
  using set_file_contents [OF assms, of "[]"] assms(1,2) by (simp_all add: open_trunc_def)

lemma create_file:
  assumes inv: "mem_inv s" and p: "wf_path p" "p \<noteq> root"
    and new: "spec_parent (components p) (mem_abs s) = None" "hm_get (nodes s) p = None"
  shows "mem_inv (insert_node p node_file s)" (is "mem_inv ?s")
    and "mem_abs (insert_node p node_file s) = (mem_abs s)(components p \<mapsto> TFile [])"
proof -
  show abs: "mem_abs ?s = (mem_abs s)(components p \<mapsto> TFile [])"
    using p(1) by (rule mem_abs_insert_node) (simp add: node_file_def tnode_of_def)
  have "tree_ok (mem_abs ?s)" unfolding abs
    using new p mem_invD(2) [OF inv]
    by (intro tree_ok_insert) (auto simp: spec_parent_None components_eq_Nil wf_path_def)
  then show "mem_inv ?s"
    using inv p by (intro mem_inv_insert_node) (auto simp: node_ok_def node_file_def)
qed

lemma mem_open_refines:
  assumes inv: "mem_inv s" and p: "wf_path p" and run: "mem_open p flags s = (r, s')"
  shows "mem_inv s' \<and>
     (case r of
        Ok h \<Rightarrow> mh_path h = p \<and> spec_open (components p) flags (mem_abs s) = (Ok (components p), mem_abs s')
      | Err e \<Rightarrow> spec_open (components p) flags (mem_abs s) = (Err e, mem_abs s')
      | Panic \<Rightarrow> False)"
proof (cases "p = root")
  case True
  have "mem_abs s [] = Some TDir" using mem_invD(2) [OF inv] by (simp add: tree_ok_def)
  with True run inv show ?thesis
    using path_str_components [OF wf_path_root] by (auto simp: mem_open_def spec_open_def is_root_iff)
next
  case root: False
  then have cs: "components p \<noteq> []" using p by (simp add: components_eq_Nil)
  show ?thesis
  proof (cases "hm_get (nodes s) p")
    case None
    show ?thesis
    proof (cases "contains flags CREATE \<and> spec_parent (components p) (mem_abs s) = None")
      case True
      note new = create_file [OF inv p root conjunct2 [OF True] None]
      have "hm_get (nodes (insert_node p node_file s)) p = Some (node_file (clock s (ticks s)))" by simp
      note tr = open_trunc_file [OF new(1) this, of flags]
      have "r = Ok (MemoryHandle p)" "s' = open_trunc p flags (insert_node p node_file s)"
        using run True None root check_parent_spec [OF inv p root]
        by (simp_all add: mem_open_def open_missing_def is_root_iff and_then_def)
      with tr new True None p show ?thesis
        by (simp add: spec_open_def node_file_def)
    next
      case False
      with None run root inv p check_parent_spec [OF inv p root] show ?thesis
        by (auto simp: mem_open_def open_missing_def is_root_iff and_then_def spec_open_def
            split: option.splits if_splits)
    qed
  next
    case (Some n)
    have "node_ok n" using mem_invD(4) [OF inv Some] .
    with Some run root inv p cs open_trunc_file [OF inv Some, of flags] show ?thesis
      by (cases "n_kind n")
        (auto simp: mem_open_def open_existing_def is_root_iff and_then_def spec_open_def tnode_of_def
          node_ok_def split: if_splits)
  qed
qed

lemma descendant_key:
  assumes inv: "mem_inv s" and p: "wf_path p" "p \<noteq> root"
  shows "list_ex (\<lambda>k. strip_prefix (as_str p @ ''/'') (as_str k) \<noteq> None) (hm_keys (nodes s)) \<longleftrightarrow>
           children (mem_abs s) (components p) \<noteq> {}" (is "?L \<longleftrightarrow> ?R")
proof -
  let ?cs = "components p"
  have cs: "p = path_of ?cs" "\<forall>w\<in>set ?cs. wf_comp w" "?cs \<noteq> []"
    using p by (auto simp: wf_path_def components_eq_Nil)
  then have str: "as_str p = render ?cs" by (metis as_str_def inner_path_of)
  have "?L \<longleftrightarrow> (\<exists>k n rest. hm_get (nodes s) k = Some n \<and> as_str k = render ?cs @ slash # rest)"
    unfolding list_ex_keys str by (auto simp: strip_prefix_Some_iff)
  also have "\<dots> \<longleftrightarrow> (\<exists>w ws. ?cs @ w # ws \<in> dom (mem_abs s))"
  proof
    assume "\<exists>k n rest. hm_get (nodes s) k = Some n \<and> as_str k = render ?cs @ slash # rest"
    then obtain k n rest where k: "hm_get (nodes s) k = Some n" "as_str k = render ?cs @ slash # rest"
      by blast
    then have "wf_path k" using mem_invD(3) [OF inv] by blast
    moreover then have wfk: "\<forall>w\<in>set (components k). wf_comp w" "k = path_of (components k)"
      by (auto simp: wf_path_def)
    moreover have "k \<noteq> root" using k(2) cs(3) by (cases ?cs) (auto simp: root_def as_str_def)
    ultimately have "render (components k) = render ?cs @ slash # rest"
      using k(2) by (metis as_str_def inner_path_of components_eq_Nil)
    from render_prefix [OF cs(2) wfk(1) this] obtain w ws where "components k = ?cs @ w # ws" by blast
    moreover have "components k \<in> dom (mem_abs s)" using k(1) \<open>wf_path k\<close> by auto
    ultimately show "\<exists>w ws. ?cs @ w # ws \<in> dom (mem_abs s)" by metis
  next
    assume "\<exists>w ws. ?cs @ w # ws \<in> dom (mem_abs s)"
    then obtain w ws n where "hm_get (nodes s) (path_of (?cs @ w # ws)) = Some n"
      using mem_abs_Some by blast
    moreover have "as_str (path_of (?cs @ w # ws)) = render ?cs @ slash # (w @ render ws)"
      by (simp add: as_str_def inner_path_of)
    ultimately show "\<exists>k n rest. hm_get (nodes s) k = Some n \<and> as_str k = render ?cs @ slash # rest"
      by blast
  qed
  also have "\<dots> \<longleftrightarrow> ?R" using children_iff_descendants [OF mem_invD(2) [OF inv]] by blast
  finally show ?thesis .
qed

lemma mem_remove_refines:
  assumes inv: "mem_inv s" and p: "wf_path p" and run: "mem_remove p s = (r, s')"
  shows "mem_inv s' \<and> spec_remove (components p) (mem_abs s) = (r, mem_abs s')"
proof (cases "p = root \<or> hm_get (nodes s) p = None")
  case True
  with run inv p show ?thesis using path_str_components [OF p]
    by (auto simp: mem_remove_def spec_remove_def is_root_iff components_eq_Nil split: if_splits)
next
  case False
  then obtain n where n: "hm_get (nodes s) p = Some n" and root: "p \<noteq> root" by blast
  let ?s = "s\<lparr>nodes := hm_remove p (nodes s)\<rparr>"
  have "hm_get (nodes ?s) = (hm_get (nodes s))(p := None)" by (simp add: fun_eq_iff)
  then have abs: "mem_abs ?s = (mem_abs s)(components p := None)"
    using mem_abs_nodes [OF p, of ?s s None] by simp
  note dir = kind_of_dir(1) [OF mem_invD(4) [OF inv n]]
  show ?thesis
  proof (cases "n_kind n = Directory \<and> children (mem_abs s) (components p) \<noteq> {}")
    case True
    with run n root p inv dir descendant_key [OF inv p root] show ?thesis
      by (auto simp: mem_remove_def spec_remove_def is_root_iff components_eq_Nil)
  next
    case False
    then have r: "r = Ok ()" "s' = ?s"
      using run n root descendant_key [OF inv p root] by (auto simp: mem_remove_def is_root_iff)
    have spec: "spec_remove (components p) (mem_abs s) = (r, mem_abs s')"
      using False n root p dir abs r by (auto simp: spec_remove_def components_eq_Nil)
    have "mem_inv ?s"
      using mem_invD [OF inv] tree_ok_spec_remove [OF mem_invD(2) [OF inv] spec] r
      by (intro mem_invI) (auto split: if_splits)
    with spec r show ?thesis by simp
  qed
qed

lemma mem_file_lookup:
  assumes "mem_inv s" "wf_path p"
  shows "spec_file (components p) (mem_abs s) =
           (case hm_get (nodes s) p of
              None \<Rightarrow> Err (NotFound (as_str p))
            | Some n \<Rightarrow> if n_kind n \<noteq> File
                        then Err (KindMismatch (as_str p) ''file'' (kind_as_str (n_kind n)))
                        else Ok (n_data n))"
proof (cases "hm_get (nodes s) p")
  case (Some n)
  then have "node_ok n" using mem_invD(4) [OF assms(1)] by blast
  with Some assms(2) show ?thesis
    by (cases "n_kind n") (simp_all add: spec_file_def tnode_of_def node_ok_def)
qed (simp add: spec_file_def assms(2))

lemma mem_read_refines:
  assumes "mem_inv s" "wf_path (mh_path h)"
  shows "mem_read h off len s =
           (fst (spec_read (components (mh_path h)) (unat off) (unat len) (mem_abs s)), s)"
proof (cases "hm_get (nodes s) (mh_path h)")
  case None
  then show ?thesis using mem_file_lookup [OF assms] by (simp add: mem_read_def spec_read_def)
next
  case (Some n)
  then have "length (n_data n) \<le> isize_max" using mem_invD(4) [OF assms(1)] by (auto simp: node_ok_def)
  then have "min (unat (sat_add off len)) (length (n_data n)) = min (unat off + unat len) (length (n_data n))"
    by (simp add: unat_sat_add isize_max_def)
  moreover have "take (min (a + b) (length d) - a) (drop a d) = take b (drop a d)" for a b and d :: bytes
    by (cases "a + b \<le> length d") (simp_all add: min_def)
  ultimately show ?thesis using Some mem_file_lookup [OF assms]
    by (simp add: mem_read_def spec_read_def Let_def)
qed

lemma mem_write_refines:
  assumes inv: "mem_inv s" and h: "wf_path (mh_path h)" and len: "length new \<le> isize_max"
    and run: "mem_write h off new s = (r, s')"
  shows "mem_inv s' \<and>
     (case r of
        Ok n \<Rightarrow> spec_write (components (mh_path h)) (unat off) new (mem_abs s) = (Ok (unat n), mem_abs s')
      | Err e \<Rightarrow> spec_write (components (mh_path h)) (unat off) new (mem_abs s) = (Err e, mem_abs s')
      | Panic \<Rightarrow> spec_write (components (mh_path h)) (unat off) new (mem_abs s) = (Panic, mem_abs s'))"
proof (cases "\<exists>n. hm_get (nodes s) (mh_path h) = Some n \<and> n_kind n = File")
  case False
  with run inv mem_file_lookup [OF inv h] show ?thesis
    by (auto simp: mem_write_def spec_write_def Let_def split: option.splits if_splits)
next
  case True
  then obtain n where n: "hm_get (nodes s) (mh_path h) = Some n" "n_kind n = File" by blast
  have contents: "spec_file (components (mh_path h)) (mem_abs s) = Ok (n_data n)"
    using mem_file_lookup [OF inv h] n by simp
  have old: "length (n_data n) \<le> isize_max" using mem_invD(4) [OF inv n(1)] by (simp add: node_ok_def)
  have lw: "unat (of_nat (length new) :: usize) = length new"
    using len by (intro unat_of_nat_le) (simp add: isize_max_def)
  show ?thesis
  proof (cases "unat off + length new > isize_max")
    case True
    then have "unat (sat_add off (of_nat (length new))) > isize_max"
      by (simp add: unat_sat_add lw isize_max_def)
    with n run old True contents inv show ?thesis
      by (auto simp: mem_write_def Let_def spec_write_def)
  next
    case False
    then have needed: "unat (sat_add off (of_nat (length new))) = unat off + length new"
      by (simp add: unat_sat_add lw isize_max_def)
    let ?d = "overwrite (unat off) new (n_data n)"
    have "r = Ok (of_nat (length new))"
      "s' = insert_node (mh_path h) (\<lambda>now. n\<lparr>n_data := ?d, n_modified := now\<rparr>) s"
      using n run old False by (auto simp: mem_write_def Let_def needed overwrite_def min_def)
    moreover have "length ?d \<le> isize_max" using old False by (simp add: length_overwrite)
    ultimately show ?thesis
      using set_file_contents [OF inv n, of ?d] False contents lw by (simp add: spec_write_def)
  qed
qed

lemma memory_vtable_simps [simp]:
  "be_name memory_vtable = ''memory''" "be_metadata memory_vtable = mem_metadata"
  "be_list memory_vtable = mem_list" "be_open memory_vtable = mem_open"
  "be_create_dir memory_vtable = mem_create_dir" "be_remove memory_vtable = mem_remove"
  "h_read memory_vtable = mem_read" "h_write memory_vtable = mem_write"
  "h_flush memory_vtable = mem_flush"
  by (simp_all add: memory_vtable_def)

interpretation mem: tree_backend memory_vtable mem_inv mem_abs mh_path
proof (unfold_locales, unfold memory_vtable_simps)
qed (fact mem_invD(2) mem_create_dir_refines mem_remove_refines mem_open_refines mem_read_refines
    mem_write_refines mem_flush_def)+

section \<open>Reachable states\<close>

text \<open>The states of a backend made by \<open>MemoryBackend::new\<close>, under any interleaving of calls from any
  number of tasks: each call is one step, on a normalised path or on a handle of such a path.\<close>

inductive mem_step :: "memory_backend \<Rightarrow> memory_backend \<Rightarrow> bool" where
  step_metadata: "wf_path p \<Longrightarrow> mem_metadata p s = (r, s') \<Longrightarrow> mem_step s s'"
| step_list: "wf_path p \<Longrightarrow> mem_list p s = (r, s') \<Longrightarrow> mem_step s s'"
| step_open: "wf_path p \<Longrightarrow> mem_open p flags s = (r, s') \<Longrightarrow> mem_step s s'"
| step_create_dir: "wf_path p \<Longrightarrow> mem_create_dir p s = (r, s') \<Longrightarrow> mem_step s s'"
| step_remove: "wf_path p \<Longrightarrow> mem_remove p s = (r, s') \<Longrightarrow> mem_step s s'"
| step_read: "wf_path (mh_path h) \<Longrightarrow> mem_read h off len s = (r, s') \<Longrightarrow> mem_step s s'"
| step_write:
    "wf_path (mh_path h) \<Longrightarrow> length new \<le> isize_max \<Longrightarrow> mem_write h off new s = (r, s') \<Longrightarrow> mem_step s s'"
| step_flush: "mem_flush h s = (r, s') \<Longrightarrow> mem_step s s'"

inductive mem_reach :: "(nat \<Rightarrow> timestamp) \<Rightarrow> memory_backend \<Rightarrow> bool" for clk where
  reach_new: "mem_reach clk (memory_new clk)"
| reach_step: "mem_reach clk s \<Longrightarrow> mem_step s s' \<Longrightarrow> mem_reach clk s'"

inductive_cases mem_stepE: "mem_step s s'"

lemma mem_metadata_state: "mem_metadata p s = (r, s') \<Longrightarrow> s' = s"
  by (auto simp: mem_metadata_def split: option.splits)

lemma mem_list_state: "mem_list p s = (r, s') \<Longrightarrow> s' = s"
  by (auto simp: mem_list_def Let_def split: option.splits if_splits)

lemma mem_step_inv [step_inv]: "mem_step s s' \<Longrightarrow> mem_inv s \<Longrightarrow> mem_inv s'"
proof (erule mem_stepE)
  fix h off len r
  assume "wf_path (mh_path h)" "mem_read h off len s = (r, s')" "mem_inv s"
  then show "mem_inv s'" using mem_read_refines by simp
qed (auto simp: mem_flush_def dest: mem_metadata_state mem_list_state mem_open_refines
    mem_create_dir_refines mem_remove_refines mem_write_refines)

definition init_tree :: tree where
  "init_tree = [[] \<mapsto> TDir]"

lemma memory_new_nodes: "nodes (memory_new clk) = [(root, node_directory (clk 0))]"
  by (simp add: memory_new_def now_utc_def)

lemma mem_inv_new [simp]: "mem_inv (memory_new clk)"
  by (simp add: mem_inv_def memory_new_nodes is_dir_at_def entry_ok_def node_ok_def
      node_directory_def hm_wf_def isize_max_def)

lemma mem_abs_new [simp]: "mem_abs (memory_new clk) = init_tree"
  by (rule ext)
    (auto simp: mem_abs_def memory_new_nodes init_tree_def node_directory_def tnode_of_def path_of_def
      dest: path_of_eq_root split: if_splits)

text \<open>The direct children of a directory.\<close>

lemma children_keys:
  assumes "mem_inv s" "wf_path p"
  shows "children (mem_abs s) (components p) \<noteq> {} \<longleftrightarrow>
           (\<exists>k. hm_get (nodes s) k \<noteq> None \<and> parent k = Some p)"
proof
  assume "children (mem_abs s) (components p) \<noteq> {}"
  then obtain ds where ds: "ds \<in> dom (mem_abs s)" "ds \<noteq> []" "butlast ds = components p"
    by (auto simp: children_def)
  then obtain n where n: "hm_get (nodes s) (path_of ds) = Some n" "\<forall>w\<in>set ds. wf_comp w"
    using mem_abs_Some by blast
  then have "parent (path_of ds) = Some p"
    using ds parent_Some_iff [OF wf_path_of [OF n(2)] assms(2)] by simp
  with n(1) show "\<exists>k. hm_get (nodes s) k \<noteq> None \<and> parent k = Some p" by blast
next
  assume "\<exists>k. hm_get (nodes s) k \<noteq> None \<and> parent k = Some p"
  then obtain k n where k: "hm_get (nodes s) k = Some n" "parent k = Some p" by blast
  have "wf_path k" using mem_invD(3) [OF assms(1) k(1)] .
  with k parent_Some_iff [OF this assms(2)] have "components k \<in> children (mem_abs s) (components p)"
    by (auto simp: children_def)
  then show "children (mem_abs s) (components p) \<noteq> {}" by blast
qed

lemma is_direct_child_iff:
  assumes "wf_path p" "wf_path k"
  shows "is_direct_child (if is_root p then ''/'' else as_str p @ ''/'') k \<longleftrightarrow> parent k = Some p"
proof -
  let ?cs = "components p" and ?ds = "components k"
  have p: "p = path_of ?cs" "\<forall>w\<in>set ?cs. wf_comp w" and k: "k = path_of ?ds" "\<forall>w\<in>set ?ds. wf_comp w"
    using assms by (auto simp: wf_path_def)
  have pre: "(if is_root p then ''/'' else as_str p @ ''/'') = render ?cs @ [slash]"
    using p assms by (metis append_Nil as_str_def components_eq_Nil inner_path_of is_root_iff render_Nil)
  have str: "as_str k = (if k = root then ''/'' else render ?ds)"
    using k assms by (metis as_str_def components_eq_Nil inner_path_of)
  have "is_direct_child (render ?cs @ [slash]) k \<longleftrightarrow>
      k \<noteq> root \<and> (\<exists>tail. render ?ds = render ?cs @ slash # tail \<and> tail \<noteq> [] \<and> slash \<notin> set tail)"
    using str render_eq_slash [OF k(2)]
    by (auto simp: is_direct_child_def strip_prefix_Some_iff split: option.splits)
  also have "\<dots> \<longleftrightarrow> ?ds \<noteq> [] \<and> ?cs = butlast ?ds"
  proof (intro iffI conjI; (elim conjE exE)?)
    fix tail
    assume "render ?ds = render ?cs @ slash # tail" "slash \<notin> set tail"
    with render_last [OF p(2) k(2)] show "?ds \<noteq> []" "?cs = butlast ?ds" by auto
  next
    assume ds: "?ds \<noteq> []" and cs: "?cs = butlast ?ds"
    show "k \<noteq> root" using ds assms(2) by (simp add: components_eq_Nil)
    have "render ?ds = render ?cs @ slash # last ?ds"
      using ds cs by (metis append_Nil2 append_butlast_last_id render_Cons render_Nil render_append)
    moreover have "wf_comp (last ?ds)" using k(2) ds by simp
    ultimately show "\<exists>tail. render ?ds = render ?cs @ slash # tail \<and> tail \<noteq> [] \<and> slash \<notin> set tail"
      using wf_compD by blast
  qed
  also have "\<dots> \<longleftrightarrow> parent k = Some p" using parent_Some_iff [OF assms(2,1)] by simp
  finally show ?thesis using pre by simp
qed

lemma mem_list_children:
  assumes "mem_inv s" "wf_path p" "mem_abs s (components p) = Some TDir"
  obtains ks where "mem_list p s = (Ok ks, s)" "distinct ks"
    "set ks = {k. hm_get (nodes s) k \<noteq> None \<and> parent k = Some p}"
proof -
  obtain n where n: "hm_get (nodes s) p = Some n" "tnode_of n = TDir"
    using assms(2,3) by auto
  then have dir: "n_kind n = Directory" using kind_of_dir(1) [OF mem_invD(4) [OF assms(1) n(1)]] by simp
  let ?pre = "if is_root p then ''/'' else as_str p @ ''/''"
  let ?ks = "filter (is_direct_child ?pre) (hm_keys (nodes s))"
  have "mem_list p s = (Ok ?ks, s)" using n(1) dir by (simp add: mem_list_def Let_def)
  moreover have "distinct ?ks" using mem_invD(1) [OF assms(1)] by (simp add: hm_wf_def)
  moreover have "set ?ks = {k. hm_get (nodes s) k \<noteq> None \<and> parent k = Some p}"
    unfolding set_keys_filter
    using is_direct_child_iff [OF assms(2)] mem_invD(3) [OF assms(1)] by auto
  ultimately show thesis by (rule that)
qed

section \<open>Properties\<close>

lemmas mem_eval = mem_create_dir_def mem_open_def mem_remove_def mem_read_def mem_write_def
  check_parent_def and_then_def insert_node_def now_utc_def open_existing_def open_missing_def
  open_trunc_def node_file_def node_directory_def memory_new_def contains_def flag_defs sat_add_def
  isize_max_def mem_list_def is_direct_child_def

text \<open>(C11) Every state a backend made by \<open>MemoryBackend::new\<close> can reach, under any interleaving of
  calls, is well-formed: keys are distinct normalised paths, the root is a directory, every other
  node lies in a directory of the map, directories hold no data and no file exceeds \<open>isize::MAX\<close>.\<close>

theorem mem_reachable_ok: "mem_reach clk s \<Longrightarrow> mem_inv s"
  by (induction rule: mem_reach.induct) (simp_all add: step_inv)

theorem mem_reachable_ok_witness:
  "mem_inv (snd (mem_create_dir (VfsPath ''/a'') (memory_new (\<lambda>_. 0)))) \<and>
   fst (mem_create_dir (VfsPath ''/a'') (memory_new (\<lambda>_. 0))) = Ok ()"
proof -
  have "wf_path (VfsPath ''/a'')" by (simp add: path_eval)
  then have "mem_reach (\<lambda>_. 0) (snd (mem_create_dir (VfsPath ''/a'') (memory_new (\<lambda>_. 0))))"
    using reach_new step_create_dir by (metis prod.collapse reach_step)
  then show ?thesis by (simp add: mem_reachable_ok) (simp add: mem_eval path_eval)
qed

text \<open>(C1) The in-memory backend is a file tree: along every sequence of calls on normalised paths,
  starting from a new backend, each call returns exactly what the abstract tree operation returns,
  errors included, and the map always stands for the abstract tree.\<close>

theorem mem_runs_refine_tree:
  assumes "\<forall>x\<in>set xs. op_ok mh_path x"
    and "run_ops (exec_op memory_vtable mh_path) xs (memory_new clk) = (rs, s')"
  shows "run_ops (spec_op mh_path) xs init_tree = (rs, mem_abs s')"
  using mem.run_ops_refines [OF mem_inv_new assms] by simp

definition sample_ops :: "memory_handle fs_op list" where
  "sample_ops =
     [OpCreateDir (VfsPath ''/a''), OpOpen (VfsPath ''/a/f'') CREATE,
      OpWrite (MemoryHandle (VfsPath ''/a/f'')) 2 [7, 8],
      OpRead (MemoryHandle (VfsPath ''/a/f'')) 1 9, OpRemove (VfsPath ''/a'')]"

theorem mem_runs_refine_tree_witness:
  "fst (run_ops (spec_op mh_path) sample_ops init_tree) =
     [RUnit (Ok ()), ROpen (Ok [''a'', ''f'']), RCount (Ok 2), RBytes (Ok [0, 7, 8]),
      RUnit (Err (Backend ''directory not empty''))]"
proof -
  let ?run = "run_ops (exec_op memory_vtable mh_path) sample_ops (memory_new (\<lambda>_. 0))"
  have ok: "\<forall>x\<in>set sample_ops. op_ok mh_path x"
    by (simp add: sample_ops_def path_eval isize_max_def)
  have "fst ?run = [RUnit (Ok ()), ROpen (Ok [''a'', ''f'']), RCount (Ok 2), RBytes (Ok [0, 7, 8]),
      RUnit (Err (Backend ''directory not empty''))]"
    by (simp add: sample_ops_def mem_eval path_eval)
  moreover have "run_ops (spec_op mh_path) sample_ops init_tree = (fst ?run, mem_abs (snd ?run))"
    by (rule mem_runs_refine_tree [OF ok]) simp
  ultimately show ?thesis by simp
qed

text \<open>A successful \<open>write\<close> reports the whole slice, makes the file the old contents overwritten
  at the offset (a gap filled with zeros), reads back as what was written, and touches no other
  node.\<close>

theorem mem_write_read:
  assumes "mem_inv s" "wf_path (mh_path h)" "length new \<le> isize_max"
    and "mem_write h off new s = (Ok n, s')"
  shows "unat n = length new \<and> mem_read h off n s' = (Ok new, s') \<and>
    (\<exists>old. mem_abs s (components (mh_path h)) = Some (TFile old) \<and>
       mem_abs s' = (mem_abs s)(components (mh_path h) \<mapsto> TFile (overwrite (unat off) new old)))"
proof -
  from mem_write_refines [OF assms(1-4)] obtain old where
    old: "mem_abs s (components (mh_path h)) = Some (TFile old)" and n: "unat n = length new"
    and abs: "mem_abs s' = (mem_abs s)(components (mh_path h) \<mapsto> TFile (overwrite (unat off) new old))"
    and inv: "mem_inv s'"
    by (fastforce simp: spec_write_def spec_file_def split: option.splits tnode.splits if_splits)
  have "mem_read h off n s' = (Ok new, s')"
    unfolding mem_read_refines [OF inv assms(2)] abs
    by (simp add: spec_read_def spec_file_def n read_overwrite)
  with old n abs show ?thesis by blast
qed

definition sample_file :: memory_backend where
  "sample_file =
     \<lparr>nodes = [(root, node_directory 0), (VfsPath ''/f'', \<lparr>n_kind = File, n_data = [1], n_modified = 0, n_created = 0\<rparr>)],
      clock = (\<lambda>_. 0), ticks = 0\<rparr>"

lemma sample_file_ok: "mem_inv sample_file"
  by (auto simp: sample_file_def mem_inv_def hm_wf_def is_dir_at_def entry_ok_def node_ok_def mem_eval path_eval)

theorem mem_write_read_witness:
  "mem_read (MemoryHandle (VfsPath ''/f'')) 3 2
     (snd (mem_write (MemoryHandle (VfsPath ''/f'')) 3 [5, 6] sample_file)) =
   (Ok [5, 6], snd (mem_write (MemoryHandle (VfsPath ''/f'')) 3 [5, 6] sample_file))"
proof -
  let ?h = "MemoryHandle (VfsPath ''/f'')"
  have "mem_write ?h 3 [5, 6] sample_file = (Ok 2, snd (mem_write ?h 3 [5, 6] sample_file))"
    by (simp add: sample_file_def mem_eval path_eval)
  from mem_write_read [OF sample_file_ok _ _ this] show ?thesis
    by (simp add: path_eval isize_max_def)
qed

text \<open>\<open>list\<close> of a directory returns, without repetition, exactly the stored paths whose parent
  it is.\<close>

theorem mem_list_exact:
  assumes "mem_inv s" "wf_path p" "mem_abs s (components p) = Some TDir"
  shows "\<exists>ks. mem_list p s = (Ok ks, s) \<and> distinct ks \<and>
           set ks = {k. hm_get (nodes s) k \<noteq> None \<and> parent k = Some p}"
  using assms by (rule mem_list_children) blast

theorem mem_list_exact_witness:
  "mem_list root sample_file = (Ok [VfsPath ''/f''], sample_file) \<and>
   {k. hm_get (nodes sample_file) k \<noteq> None \<and> parent k = Some root} = {VfsPath ''/f''}"
proof -
  have "mem_abs sample_file (components root) = Some TDir"
    using mem_abs_components [OF wf_path_root, of sample_file]
    by (simp add: sample_file_def node_directory_def tnode_of_def)
  moreover have "mem_list root sample_file = (Ok [VfsPath ''/f''], sample_file)"
    by (simp add: sample_file_def mem_eval path_eval)
  ultimately show ?thesis using mem_list_exact [OF sample_file_ok wf_path_root] by auto
qed

text \<open>\<open>remove\<close> behaves like \<open>rmdir\<close> and \<open>unlink\<close>: the root is refused, a missing path is not
  found, a directory that contains something is refused and nothing changes; otherwise exactly the
  named entry disappears.\<close>

theorem mem_remove_behaviour:
  assumes "mem_inv s" "wf_path p"
  shows "mem_remove p s =
     (if p = root then (Err (PermissionDenied ''/''), s)
      else case hm_get (nodes s) p of
        None \<Rightarrow> (Err (NotFound (as_str p)), s)
      | Some n \<Rightarrow>
          if n_kind n = Directory \<and> (\<exists>k. hm_get (nodes s) k \<noteq> None \<and> parent k = Some p)
          then (Err (Backend ''directory not empty''), s)
          else (Ok (), s\<lparr>nodes := hm_remove p (nodes s)\<rparr>))"
proof (cases "p = root")
  case True
  then show ?thesis by (simp add: mem_remove_def is_root_def as_str_def root_def)
next
  case False
  have "children (mem_abs s) (components p) \<noteq> {} \<longleftrightarrow>
      (\<exists>k. hm_get (nodes s) k \<noteq> None \<and> parent k = Some p)" (is "?L \<longleftrightarrow> ?R")
    using children_keys [OF assms] .
  with False descendant_key [OF assms False] show ?thesis
    by (auto simp: mem_remove_def is_root_iff split: option.splits)
qed

theorem mem_remove_behaviour_witness:
  "mem_remove (VfsPath ''/f'') sample_file =
     (Ok (), sample_file\<lparr>nodes := [(root, node_directory 0)]\<rparr>)"
  using mem_remove_behaviour [OF sample_file_ok, of "VfsPath ''/f''"]
  by (simp add: sample_file_def path_eval)

text \<open>The only panic of the backend: on a file, \<open>write\<close> panics exactly when the written range would
  end beyond \<open>isize::MAX\<close>, and then leaves the state as it was.\<close>

theorem mem_write_panic_iff:
  assumes "mem_inv s" "wf_path (mh_path h)" "length new \<le> isize_max"
    and "mem_abs s (components (mh_path h)) = Some (TFile old)"
  shows "(fst (mem_write h off new s) = Panic \<longleftrightarrow> unat off + length new > isize_max) \<and>
         (unat off + length new > isize_max \<longrightarrow> mem_abs (snd (mem_write h off new s)) = mem_abs s)"
proof -
  obtain r s' where run: "mem_write h off new s = (r, s')" by fastforce
  from mem_write_refines [OF assms(1-3) run] assms(4) show ?thesis
    by (auto simp: run spec_write_def spec_file_def split: outcome.splits if_splits)
qed

theorem mem_write_panic_iff_witness:
  "fst (mem_write (MemoryHandle (VfsPath ''/f'')) (- 1) [5] sample_file) = Panic"
proof -
  have "mem_abs sample_file (components (VfsPath ''/f'')) = Some (TFile [1])"
    by (simp add: mem_abs_def sample_file_def path_eval tnode_of_def)
  moreover have "wf_path (VfsPath ''/f'')" by (simp add: path_eval)
  ultimately show ?thesis
    using mem_write_panic_iff [OF sample_file_ok, of "MemoryHandle (VfsPath ''/f'')" "[5]" "[1]" "- 1"]
    by (simp add: isize_max_def unat_max_word)
qed

end
