(* ===== verification/Local_Backend.thy ===== *)
theory Local_Backend
  imports Vfs_Types
begin

text \<open>
  The host-directory backend, \<open>crates/diaspor-backend-local/src/lib.rs\<close>.

  The operating system is a parameter: the record \<open>host_os\<close> holds the calls of \<open>tokio::fs\<close> that the
  source makes, on a host state of type \<open>'o\<close> with file descriptors \<open>'f\<close>. Everything else is the code's
  own logic: the translation of a virtual path into a host path, which open options a set of flags
  asks for, which call a removal makes, and how errors are passed on. \<open>std::path::Path::join\<close> is
  \<open>path_join\<close>.
\<close>

section \<open>The host\<close>

record host_meta =
  hst_is_dir :: bool
  hst_is_symlink :: bool
  hst_len :: u64
  hst_modified :: "timestamp option"
  hst_created :: "timestamp option"
  hst_readonly :: bool

record open_options =
  oo_read :: bool
  oo_write :: bool
  oo_create :: bool
  oo_create_new :: bool
  oo_truncate :: bool
  oo_append :: bool

record ('o, 'f) host_os =
  os_is_dir :: "string \<Rightarrow> 'o \<Rightarrow> bool"
  os_metadata :: "string \<Rightarrow> ('o, io_error, host_meta) act"
  os_read_dir :: "string \<Rightarrow> ('o, io_error, (io_error + string) list) act"
  os_lossy :: "string \<Rightarrow> string"
  os_open :: "string \<Rightarrow> open_options \<Rightarrow> ('o, io_error, 'f) act"
  os_create_dir :: "string \<Rightarrow> ('o, io_error, unit) act"
  os_remove_dir :: "string \<Rightarrow> ('o, io_error, unit) act"
  os_remove_file :: "string \<Rightarrow> ('o, io_error, unit) act"
  fd_seek :: "'f \<Rightarrow> u64 \<Rightarrow> ('o, io_error, u64) act"
  fd_read :: "'f \<Rightarrow> usize \<Rightarrow> ('o, io_error, bytes) act"
  fd_write_all :: "'f \<Rightarrow> bytes \<Rightarrow> ('o, io_error, unit) act"
  fd_flush :: "'f \<Rightarrow> ('o, io_error, unit) act"

section \<open>The backend\<close>

record local_backend =
  lb_root :: string

definition local_new :: "('o, 'f) host_os \<Rightarrow> string \<Rightarrow> ('o, vfs_error, local_backend) act" where
  "local_new os r s =
     (if \<not> os_is_dir os r s then (Err (InvalidPath r), s) else (Ok \<lparr>lb_root = r\<rparr>, s))"

definition host_path :: "local_backend \<Rightarrow> vfs_path \<Rightarrow> (vfs_error, string) outcome" where
  "host_path b p =
     (let trimmed = trim_start_matches slash (as_str p) in
      if list_ex (\<lambda>seg. seg = ''..'' \<or> seg = ''.'') (split_on (\<lambda>c. c = slash) trimmed)
      then Err (InvalidPath (as_str p))
      else Ok (path_join (lb_root b) trimmed))"

definition with_host ::
    "local_backend \<Rightarrow> vfs_path \<Rightarrow> (string \<Rightarrow> ('o, vfs_error, 'a) act) \<Rightarrow> ('o, vfs_error, 'a) act" where
  "with_host b p f s =
     (case host_path b p of Ok h \<Rightarrow> f h s | Err e \<Rightarrow> (Err e, s) | Panic \<Rightarrow> (Panic, s))"

definition local_metadata ::
    "('o, 'f) host_os \<Rightarrow> local_backend \<Rightarrow> vfs_path \<Rightarrow> ('o, vfs_error, vfs_metadata) act" where
  "local_metadata os b p =
     with_host b p (\<lambda>h.
       and_then (map_err Io (os_metadata os h)) (\<lambda>m s.
         let kind = (if hst_is_dir m then Directory else if hst_is_symlink m then Symlink else File)
         in (Ok \<lparr>md_kind = kind, md_size = hst_len m, md_modified = hst_modified m,
                 md_created = hst_created m, md_read_only = hst_readonly m\<rparr>, s)))"

fun list_entries :: "('o, 'f) host_os \<Rightarrow> vfs_path \<Rightarrow> (io_error + string) list \<Rightarrow> (vfs_error, vfs_path list) outcome" where
  "list_entries os p [] = Ok []"
| "list_entries os p (Inl e # es) = Err (Io e)"
| "list_entries os p (Inr n # es) =
     (case list_entries os p es of
        Ok out \<Rightarrow> Ok (join p (os_lossy os n) # out)
      | Err e \<Rightarrow> Err e
      | Panic \<Rightarrow> Panic)"

definition local_list :: "('o, 'f) host_os \<Rightarrow> local_backend \<Rightarrow> vfs_path \<Rightarrow> ('o, vfs_error, vfs_path list) act" where
  "local_list os b p =
     with_host b p (\<lambda>h.
       and_then (map_err Io (os_read_dir os h)) (\<lambda>es s. (list_entries os p es, s)))"

definition open_options_of :: "open_flags \<Rightarrow> open_options" where
  "open_options_of flags =
     \<lparr>oo_read = contains flags READ, oo_write = contains flags WRITE,
      oo_create = contains flags CREATE, oo_create_new = contains flags (or CREATE EXCL),
      oo_truncate = contains flags TRUNC, oo_append = contains flags APPEND\<rparr>"

definition local_open :: "('o, 'f) host_os \<Rightarrow> local_backend \<Rightarrow> vfs_path \<Rightarrow> open_flags \<Rightarrow> ('o, vfs_error, 'f) act" where
  "local_open os b p flags = with_host b p (\<lambda>h. map_err Io (os_open os h (open_options_of flags)))"

definition local_create_dir :: "('o, 'f) host_os \<Rightarrow> local_backend \<Rightarrow> vfs_path \<Rightarrow> ('o, vfs_error, unit) act" where
  "local_create_dir os b p = with_host b p (\<lambda>h. map_err Io (os_create_dir os h))"

definition local_remove :: "('o, 'f) host_os \<Rightarrow> local_backend \<Rightarrow> vfs_path \<Rightarrow> ('o, vfs_error, unit) act" where
  "local_remove os b p =
     with_host b p (\<lambda>h.
       and_then (map_err Io (os_metadata os h)) (\<lambda>m.
         if hst_is_dir m then map_err Io (os_remove_dir os h)
         else map_err Io (os_remove_file os h)))"

definition local_read :: "('o, 'f) host_os \<Rightarrow> 'f \<Rightarrow> u64 \<Rightarrow> usize \<Rightarrow> ('o, vfs_error, bytes) act" where
  "local_read os f off len =
     and_then (map_err Io (fd_seek os f off)) (\<lambda>_. map_err Io (fd_read os f len))"

definition local_write :: "('o, 'f) host_os \<Rightarrow> 'f \<Rightarrow> u64 \<Rightarrow> bytes \<Rightarrow> ('o, vfs_error, usize) act" where
  "local_write os f off new =
     and_then (map_err Io (fd_seek os f off)) (\<lambda>_.
       and_then (map_err Io (fd_write_all os f new)) (\<lambda>_ s. (Ok (of_nat (length new)), s)))"

definition local_flush :: "('o, 'f) host_os \<Rightarrow> 'f \<Rightarrow> ('o, vfs_error, unit) act" where
  "local_flush os f = map_err Io (fd_flush os f)"

definition local_vtable :: "('o, 'f) host_os \<Rightarrow> local_backend \<Rightarrow> ('o, 'f) vfs_backend" where
  "local_vtable os b =
     \<lparr>be_name = ''local'', be_metadata = local_metadata os b, be_list = local_list os b,
      be_open = local_open os b, be_create_dir = local_create_dir os b,
      be_remove = local_remove os b, h_read = local_read os, h_write = local_write os,
      h_flush = local_flush os\<rparr>"

section \<open>Confinement\<close>

text \<open>The steps the host's path resolution takes: the non-empty pieces between slashes.\<close>

definition host_steps :: "string \<Rightarrow> string list" where
  "host_steps h = filter (\<lambda>w. w \<noteq> []) (split_on (\<lambda>c. c = slash) h)"

lemma split_on_sep_append:
  "P c \<Longrightarrow> split_on P (xs @ c # ys) = split_on P xs @ split_on P ys"
proof (induction xs)
  case (Cons x xs)
  then show ?case by (cases "split_on P xs") auto
qed simp

lemma host_steps_append [simp]: "host_steps (xs @ slash # ys) = host_steps xs @ host_steps ys"
  by (simp add: host_steps_def split_on_sep_append)

lemma host_steps_slash [simp]: "host_steps (slash # ys) = host_steps ys"
  by (simp add: host_steps_def)

lemma host_steps_Nil [simp]: "host_steps [] = []"
  by (simp add: host_steps_def)

lemma host_steps_trim: "host_steps (trim_start_matches slash s) = host_steps s"
  by (induction s) (simp_all add: trim_start_matches_def)

lemma host_steps_join:
  assumes "p = [] \<or> hd p \<noteq> slash"
  shows "host_steps (path_join base p) = host_steps base @ host_steps p"
proof (cases "base \<noteq> [] \<and> last base = slash")
  case True
  then obtain b where b: "base = b @ [slash]" by (metis append_butlast_last_id)
  have "host_steps (b @ [slash]) = host_steps b"
    using host_steps_append [of b "[]"] by (simp add: host_steps_def)
  with b assms show ?thesis by (auto simp: path_join_def)
next
  case False
  then consider "base = []" | "base \<noteq> []" "last base \<noteq> slash" by blast
  then show ?thesis
  proof cases
    case 1
    with assms show ?thesis by (auto simp: path_join_def host_steps_Nil)
  next
    case 2
    with assms have "path_join base p = base @ slash # p" by (auto simp: path_join_def)
    then show ?thesis by simp
  qed
qed

lemma hd_trim_start: "trim_start_matches c s = [] \<or> hd (trim_start_matches c s) \<noteq> c"
  unfolding trim_start_matches_def by (metis (full_types) hd_dropWhile)

lemma dot_segments:
  "list_ex (\<lambda>seg. seg = ''..'' \<or> seg = ''.'') (split_on (\<lambda>c. c = slash) t) \<longleftrightarrow>
     ''..'' \<in> set (host_steps t) \<or> ''.'' \<in> set (host_steps t)"
  by (auto simp: list_ex_iff host_steps_def)

lemma host_path_eq:
  "host_path b p =
     (if ''..'' \<in> set (host_steps (as_str p)) \<or> ''.'' \<in> set (host_steps (as_str p))
      then Err (InvalidPath (as_str p))
      else Ok (path_join (lb_root b) (trim_start_matches slash (as_str p))))"
  by (simp add: host_path_def Let_def dot_segments host_steps_trim)

section \<open>Properties\<close>

text \<open>(C14) The local backend never leaves its root: a virtual path is refused exactly when one of
  its pieces is a dot or a double dot; otherwise the host path walks the root's steps and then the
  path's own steps, none of which goes up or stays. This holds for every path value, normalised or
  not.\<close>

theorem host_path_confined:
  "case host_path b p of
     Ok h \<Rightarrow> host_steps h = host_steps (lb_root b) @ host_steps (as_str p) \<and>
             ''..'' \<notin> set (host_steps (as_str p)) \<and> ''.'' \<notin> set (host_steps (as_str p))
   | Err e \<Rightarrow> e = InvalidPath (as_str p) \<and>
              (''..'' \<in> set (host_steps (as_str p)) \<or> ''.'' \<in> set (host_steps (as_str p)))
   | Panic \<Rightarrow> False"
  using host_steps_join [OF hd_trim_start [of slash "as_str p"], of "lb_root b"]
  by (auto simp: host_path_eq host_steps_trim)

end
