(* ===== verification/Event_Sink.thy ===== *)
theory Event_Sink
  imports Memory_Backend Local_Backend
begin

text \<open>
  The event fan-out layer, \<open>crates/diaspor-events/src\<close> (\<open>event.rs\<close>, \<open>lib.rs\<close>, \<open>sink.rs\<close>).

  An \<open>EventSink\<close> is its table of methods, like a backend. \<open>vfs_emit\<close> is the sink that writes sidecar
  files: it takes the backend's table as an argument, and its correctness is proved once for every
  backend that keeps the contract \<open>tree_backend\<close>, then read off for the in-memory backend through
  the interpretation \<open>mem\<close>. The HMAC and the HTTP client of the webhook sink and the broadcast channel
  of the WebSocket sink are third-party code and arguments of the definitions. \<open>multi_emit\<close> is the
  fan-out: \<open>join_all\<close> may complete the sinks in any order, which is an argument too.
\<close>

section \<open>Events\<close>

datatype severity = Info | Warn | Critical

fun severity_rank :: "severity \<Rightarrow> nat" where
  "severity_rank Info = 0"
| "severity_rank Warn = 1"
| "severity_rank Critical = 2"

instantiation severity :: linorder
begin

definition less_eq_severity :: "severity \<Rightarrow> severity \<Rightarrow> bool" where
  "less_eq_severity a b \<longleftrightarrow> severity_rank a \<le> severity_rank b"

definition less_severity :: "severity \<Rightarrow> severity \<Rightarrow> bool" where
  "less_severity a b \<longleftrightarrow> severity_rank a < severity_rank b"

instance
proof
  fix x y z :: severity
  show "x < y \<longleftrightarrow> x \<le> y \<and> \<not> y \<le> x" by (auto simp: less_eq_severity_def less_severity_def)
  show "x \<le> x" by (simp add: less_eq_severity_def)
  show "x \<le> y \<Longrightarrow> y \<le> z \<Longrightarrow> x \<le> z" by (simp add: less_eq_severity_def)
  show "x \<le> y \<Longrightarrow> y \<le> x \<Longrightarrow> x = y" by (cases x; cases y) (simp_all add: less_eq_severity_def)
  show "x \<le> y \<or> y \<le> x" by (auto simp: less_eq_severity_def)
qed

end

datatype tenant_id = TenantId (tenant_str: string)
datatype session_id = SessionId (session_str: string)

record window_event =
  w_tenant_id :: tenant_id
  w_stream_id :: session_id
  w_t_start_ms :: u64
  w_t_end_ms :: u64
  w_payload_bytes :: bytes

record threshold_event =
  t_tenant_id :: tenant_id
  t_stream_id :: session_id
  t_timestamp_ms :: u64
  t_detector :: string
  t_severity :: severity
  t_payload_bytes :: bytes

datatype event = Window window_event | Threshold threshold_event

fun event_tenant_id :: "event \<Rightarrow> tenant_id" where
  "event_tenant_id (Window e) = w_tenant_id e"
| "event_tenant_id (Threshold e) = t_tenant_id e"

fun event_stream_id :: "event \<Rightarrow> session_id" where
  "event_stream_id (Window e) = w_stream_id e"
| "event_stream_id (Threshold e) = t_stream_id e"

fun event_payload :: "event \<Rightarrow> bytes" where
  "event_payload (Window e) = w_payload_bytes e"
| "event_payload (Threshold e) = t_payload_bytes e"

datatype event_error =
    NotImplemented (err_sink: string)
  | Rejected (err_sink: string) (reason: string)
  | Timeout (err_sink: string) (millis: u64)
  | SigningFailed (err_sink: string) (reason: string)
  | Vfs vfs_error

section \<open>The VFS sink\<close>

record ('s, 'h) vfs_event_sink =
  sink_vfs :: "('s, 'h) vfs_backend"
  sink_root_path :: string

definition ensure_dir :: "('s, 'h) vfs_event_sink \<Rightarrow> vfs_path \<Rightarrow> ('s, event_error, unit) act" where
  "ensure_dir sk p s =
     (case be_create_dir (sink_vfs sk) p s of
        (Ok _, s') \<Rightarrow> (Ok (), s')
      | (Err (AlreadyExists _), s') \<Rightarrow> (Ok (), s')
      | (Err other, s') \<Rightarrow> (Err (Vfs other), s')
      | (Panic, s') \<Rightarrow> (Panic, s'))"

definition prepare_path ::
    "('s, 'h) vfs_event_sink \<Rightarrow> string \<Rightarrow> string \<Rightarrow> string \<Rightarrow> ('s, event_error, vfs_path) act" where
  "prepare_path sk stream_id kind_dir filename s =
     (case vfs_path_new (sink_root_path sk) of
        None \<Rightarrow> (Err (Vfs (InvalidPath (sink_root_path sk))), s)
      | Some rt \<Rightarrow>
          let streams_root = join rt ''.streams'';
              session_root = join streams_root stream_id;
              kind_path = join session_root kind_dir
          in
          and_then (ensure_dir sk streams_root) (\<lambda>_.
          and_then (ensure_dir sk session_root) (\<lambda>_.
          and_then (ensure_dir sk kind_path) (\<lambda>_ s. (Ok (join kind_path filename), s)))) s)"

text \<open>The directory and the file name an event goes to.\<close>

fun event_kind_dir :: "event \<Rightarrow> string" where
  "event_kind_dir (Window e) = ''windows''"
| "event_kind_dir (Threshold e) = ''events''"

fun event_filename :: "event \<Rightarrow> string" where
  "event_filename (Window e) = dec (unat (w_t_start_ms e)) @ ''.score.json''"
| "event_filename (Threshold e) = dec (unat (t_timestamp_ms e)) @ ''.event.json''"

definition vfs_emit :: "('s, 'h) vfs_event_sink \<Rightarrow> event \<Rightarrow> ('s, event_error, unit) act" where
  "vfs_emit sk ev =
     and_then
       (prepare_path sk (session_str (event_stream_id ev)) (event_kind_dir ev) (event_filename ev))
       (\<lambda>path.
          and_then (map_err Vfs (be_open (sink_vfs sk) path (or (or CREATE WRITE) TRUNC))) (\<lambda>h.
          and_then (map_err Vfs (h_write (sink_vfs sk) h 0 (event_payload ev))) (\<lambda>_.
          and_then (map_err Vfs (h_flush (sink_vfs sk) h)) (\<lambda>_ s. (Ok (), s)))))"

section \<open>The other sinks\<close>

text \<open>\<open>bc_send\<close> is \<open>broadcast::Sender::send\<close>; its error (no receiver) is discarded.\<close>

definition websocket_emit :: "(bytes \<Rightarrow> ('s, unit, nat) act) \<Rightarrow> event \<Rightarrow> ('s, event_error, unit) act" where
  "websocket_emit bc_send ev s =
     (case bc_send (event_payload ev) s of
        (Panic, s') \<Rightarrow> (Panic, s')
      | (_, s') \<Rightarrow> (Ok (), s'))"

definition hex_digit :: "nat \<Rightarrow> char" where
  "hex_digit d = (if d < 10 then char_of (48 + d) else char_of (87 + d))"

definition hex_byte :: "u8 \<Rightarrow> string" where
  "hex_byte b = [hex_digit (unat b div 16), hex_digit (unat b mod 16)]"

text \<open>\<open>hmac secret body\<close> is the HMAC-SHA256 of the \<open>hmac\<close> crate.\<close>

definition sign :: "(string \<Rightarrow> bytes \<Rightarrow> bytes) \<Rightarrow> string \<Rightarrow> bytes \<Rightarrow> string" where
  "sign hmac secret body = concat (map hex_byte (hmac secret body))"

record webhook_sink =
  hook_url :: string
  hook_secret :: string
  hook_timeout_ms :: nat

record http_request =
  req_url :: string
  req_headers :: "(string \<times> string) list"
  req_body :: bytes

text \<open>What \<open>reqwest\<close> answers: a response with its status code and its printed status, or an error that
  is a timeout or carries a message.\<close>

datatype http_reply = Reply nat string | SendTimeout | SendFailed string

definition saturate_u64 :: "nat \<Rightarrow> u64" where
  "saturate_u64 n = (if n < 2 ^ 64 then of_nat n else - 1)"

definition webhook_emit ::
    "(string \<Rightarrow> bytes \<Rightarrow> bytes) \<Rightarrow> (http_request \<Rightarrow> 's \<Rightarrow> http_reply \<times> 's) \<Rightarrow> webhook_sink \<Rightarrow>
     event \<Rightarrow> ('s, event_error, unit) act" where
  "webhook_emit hmac post sk ev s =
     (let body = event_payload ev;
          signature = ''sha256='' @ sign hmac (hook_secret sk) body
      in
      case post \<lparr>req_url = hook_url sk,
                 req_headers = [(''Content-Type'', ''application/json''),
                                (''X-Diaspor-Signature'', signature)],
                 req_body = body\<rparr> s of
        (SendTimeout, s') \<Rightarrow> (Err (Timeout ''webhook'' (saturate_u64 (hook_timeout_ms sk))), s')
      | (SendFailed m, s') \<Rightarrow> (Err (Rejected ''webhook'' m), s')
      | (Reply code shown, s') \<Rightarrow>
          if 200 \<le> code \<and> code < 300 then (Ok (), s')
          else (Err (Rejected ''webhook'' (''HTTP '' @ shown)), s'))"

section \<open>Fan-out\<close>

record 's event_sink =
  es_name :: string
  es_emit :: "event \<Rightarrow> ('s, event_error, unit) act"

text \<open>Each sink owns its destination: sink \<open>i\<close> acts on the \<open>i\<close>-th entry of the state. \<open>ord\<close> is the order
  in which \<open>join_all\<close> drives the futures to completion; the results are kept by position. A panic
  unwinds the whole call.\<close>

fun drive :: "'s event_sink list \<Rightarrow> event \<Rightarrow> nat list \<Rightarrow> (event_error, unit) outcome list \<Rightarrow> 's list \<Rightarrow>
    ((event_error, unit) outcome list) option \<times> 's list" where
  "drive sinks ev [] results ss = (Some results, ss)"
| "drive sinks ev (i # is) results ss =
     (case es_emit (sinks ! i) ev (ss ! i) of
        (Panic, s') \<Rightarrow> (None, ss[i := s'])
      | (r, s') \<Rightarrow> drive sinks ev is (results[i := r]) (ss[i := s']))"

fun first_error :: "(event_error, unit) outcome list \<Rightarrow> (event_error, unit) outcome" where
  "first_error [] = Ok ()"
| "first_error (Err e # rs) = Err e"
| "first_error (Ok _ # rs) = first_error rs"
| "first_error (Panic # rs) = Panic"

definition multi_emit :: "'s event_sink list \<Rightarrow> nat list \<Rightarrow> event \<Rightarrow> ('s list, event_error, unit) act" where
  "multi_emit sinks ord ev ss =
     (case drive sinks ev ord (replicate (length sinks) (Ok ())) ss of
        (None, ss') \<Rightarrow> (Panic, ss')
      | (Some results, ss') \<Rightarrow> (first_error results, ss'))"

section \<open>The VFS sink over any tree backend\<close>

definition event_dirs :: "string list \<Rightarrow> event \<Rightarrow> string list list" where
  "event_dirs rt ev =
     (let a = rt @ [''.streams'']; b = a @ [session_str (event_stream_id ev)]
      in [a, b, b @ [event_kind_dir ev]])"

definition event_file :: "string list \<Rightarrow> event \<Rightarrow> string list" where
  "event_file rt ev =
     rt @ [''.streams'', session_str (event_stream_id ev), event_kind_dir ev, event_filename ev]"

text \<open>The tree has room for the event: the root directory exists, nothing but directories is on the
  way, and the leaf is not a directory.\<close>

definition room_for :: "tree \<Rightarrow> string list \<Rightarrow> event \<Rightarrow> bool" where
  "room_for t rt ev \<longleftrightarrow>
     t rt = Some TDir \<and> (\<forall>d\<in>set (event_dirs rt ev). t d = None \<or> t d = Some TDir) \<and>
     t (event_file rt ev) \<noteq> Some TDir"

definition with_event :: "tree \<Rightarrow> string list \<Rightarrow> event \<Rightarrow> tree" where
  "with_event t rt ev =
     (foldl (\<lambda>t d. t(d \<mapsto> TDir)) t (event_dirs rt ev))(event_file rt ev \<mapsto> TFile (event_payload ev))"

lemma wf_event_parts:
  "wf_comp ''.streams''" "wf_comp (event_kind_dir ev)" "wf_comp (event_filename ev)"
  by (cases ev; simp add: wf_comp_def dec_no_special)+

lemma emit_flags:
  "contains (or (or CREATE WRITE) TRUNC) CREATE" "\<not> contains (or (or CREATE WRITE) TRUNC) EXCL"
  "contains (or (or CREATE WRITE) TRUNC) TRUNC"
  by (simp_all add: contains_def flag_defs)

context tree_backend
begin

lemma ensure_dir_Ok:
  assumes "inv s" "wf_path p" "components p \<noteq> []" "sink_vfs sk = B"
    "abs s (butlast (components p)) = Some TDir"
    "abs s (components p) = None \<or> abs s (components p) = Some TDir"
  obtains s' where "ensure_dir sk p s = (Ok (), s')" "inv s'" "abs s' = (abs s)(components p \<mapsto> TDir)"
  using assms(6)
proof
  assume "abs s (components p) = None"
  then obtain s' where "be_create_dir B p s = (Ok (), s')" "inv s'"
    "abs s' = (abs s)(components p \<mapsto> TDir)"
    using create_dir_Ok assms by metis
  with assms(4) that show thesis by (simp add: ensure_dir_def)
next
  assume dir: "abs s (components p) = Some TDir"
  then obtain s' where "be_create_dir B p s = (Err (AlreadyExists (path_str (components p))), s')"
    "inv s'" "abs s' = abs s"
    using create_dir_exists assms by metis
  with assms(4) that dir show thesis by (simp add: ensure_dir_def fun_upd_idem)
qed

lemma open_for_emit:
  assumes "inv s" "wf_path p" "abs s (butlast (components p)) = Some TDir"
    "abs s (components p) \<noteq> Some TDir"
  obtains h s' where "be_open B p (or (or CREATE WRITE) TRUNC) s = (Ok h, s')" "hpath h = p" "inv s'"
    "abs s' = (abs s)(components p \<mapsto> TFile [])"
proof -
  obtain r s' where run: "be_open B p (or (or CREATE WRITE) TRUNC) s = (r, s')" by fastforce
  have "spec_open (components p) (or (or CREATE WRITE) TRUNC) (abs s) =
      (Ok (components p), (abs s)(components p \<mapsto> TFile []))"
    using assms(3,4) emit_flags
    by (auto simp: spec_open_def spec_parent_None [THEN iffD2] split: option.splits tnode.splits)
  with open_spec [OF assms(1,2) run] run that show thesis by (cases r) auto
qed

lemma write_all_file:
  assumes "inv s" "wf_path (hpath h)" "length new \<le> isize_max"
    "abs s (components (hpath h)) = Some (TFile [])"
  obtains n s' where "h_write B h 0 new s = (Ok n, s')" "inv s'"
    "abs s' = (abs s)(components (hpath h) \<mapsto> TFile new)"
proof -
  obtain r s' where run: "h_write B h 0 new s = (r, s')" by fastforce
  have "spec_write (components (hpath h)) 0 new (abs s) =
      (Ok (length new), (abs s)(components (hpath h) \<mapsto> TFile new))"
    using assms(3,4) by (simp add: spec_write_def spec_file_def overwrite_def)
  with write_spec [OF assms(1-3) run] run that show thesis by (cases r) auto
qed

lemma prepare_path_Ok:
  assumes sk: "sink_vfs sk = B" "vfs_path_new (sink_root_path sk) = Some rp" "components rp = rt"
    and inv: "inv s" and id: "wf_comp (session_str (event_stream_id ev))" and room: "room_for (abs s) rt ev"
  obtains s' p where
    "prepare_path sk (session_str (event_stream_id ev)) (event_kind_dir ev) (event_filename ev) s = (Ok p, s')"
    "inv s'" "wf_path p" "components p = event_file rt ev"
    "abs s' = foldl (\<lambda>t d. t(d \<mapsto> TDir)) (abs s) (event_dirs rt ev)"
proof -
  define a where "a = join rp ''.streams''"
  define b where "b = join a (session_str (event_stream_id ev))"
  define c where "c = join b (event_kind_dir ev)"
  note wf = wf_event_parts(1) wf_event_parts(2,3) [of ev] id
  have rp: "wf_path rp" using wf_vfs_path_new [OF sk(2)] .
  have a: "wf_path a" "components a = rt @ [''.streams'']"
    unfolding a_def using join_inner [OF rp wf(1)] sk(3) by simp_all
  have b: "wf_path b" "components b = components a @ [session_str (event_stream_id ev)]"
    unfolding b_def using join_inner [OF a(1) wf(4)] by simp_all
  have c: "wf_path c" "components c = components b @ [event_kind_dir ev]"
    unfolding c_def using join_inner [OF b(1) wf(2)] by simp_all
  have dirs: "event_dirs rt ev = [components a, components b, components c]"
    by (simp add: event_dirs_def Let_def a b c)
  obtain s1 where s1: "ensure_dir sk a s = (Ok (), s1)" "inv s1" "abs s1 = (abs s)(components a \<mapsto> TDir)"
    using ensure_dir_Ok [of s a sk] inv a sk(1) room dirs by (auto simp: room_for_def)
  obtain s2 where s2: "ensure_dir sk b s1 = (Ok (), s2)" "inv s2"
    "abs s2 = (abs s1)(components b \<mapsto> TDir)"
    using ensure_dir_Ok [of s1 b sk] s1 b sk(1) room dirs by (auto simp: room_for_def)
  have "components c \<noteq> []" "abs s2 (butlast (components c)) = Some TDir"
    by (simp_all add: c(2) s2(3))
  moreover have "abs s2 (components c) = None \<or> abs s2 (components c) = Some TDir"
    using room dirs by (auto simp: s1(3) s2(3) room_for_def)
  ultimately obtain s3 where s3: "ensure_dir sk c s2 = (Ok (), s3)" "inv s3"
    "abs s3 = (abs s2)(components c \<mapsto> TDir)"
    using ensure_dir_Ok [OF s2(2) c(1) _ sk(1)] by metis
  have leaf: "wf_path (join c (event_filename ev))"
    "components (join c (event_filename ev)) = event_file rt ev"
    using join_inner [OF c(1) wf(3)] a b c by (simp_all add: event_file_def)
  have "prepare_path sk (session_str (event_stream_id ev)) (event_kind_dir ev) (event_filename ev) s =
      (Ok (join c (event_filename ev)), s3)"
    using sk(2) s1 s2 s3 by (simp add: prepare_path_def Let_def flip: a_def b_def c_def)
  with leaf s1 s2 s3 dirs that show thesis by simp
qed

lemma vfs_emit_Ok:
  assumes sk: "sink_vfs sk = B" "vfs_path_new (sink_root_path sk) = Some rp" "components rp = rt"
    and inv: "inv s" and id: "wf_comp (session_str (event_stream_id ev))" and room: "room_for (abs s) rt ev"
    and len: "length (event_payload ev) \<le> isize_max"
  obtains s' where "vfs_emit sk ev s = (Ok (), s')" "inv s'" "abs s' = with_event (abs s) rt ev"
proof -
  obtain s1 p where p:
    "prepare_path sk (session_str (event_stream_id ev)) (event_kind_dir ev) (event_filename ev) s = (Ok p, s1)"
    "inv s1" "wf_path p" "components p = event_file rt ev"
    "abs s1 = foldl (\<lambda>t d. t(d \<mapsto> TDir)) (abs s) (event_dirs rt ev)"
    using prepare_path_Ok [OF sk inv id room] .
  have "abs s1 (butlast (components p)) = Some TDir" "abs s1 (components p) \<noteq> Some TDir"
    unfolding p(4,5) using room by (simp_all add: room_for_def event_file_def event_dirs_def Let_def butlast_append)
  with p(2,3) obtain h s2 where h: "be_open B p (or (or CREATE WRITE) TRUNC) s1 = (Ok h, s2)"
    "hpath h = p" "inv s2" "abs s2 = (abs s1)(components p \<mapsto> TFile [])"
    by (rule open_for_emit)
  then obtain n s3 where w: "h_write B h 0 (event_payload ev) s2 = (Ok n, s3)" "inv s3"
    "abs s3 = (abs s2)(components p \<mapsto> TFile (event_payload ev))"
    using write_all_file [of s2 h "event_payload ev"] p(3) len by auto
  have "vfs_emit sk ev s = (Ok (), s3)"
    using p(1) h(1) w(1) sk(1) flush_spec [of h] by (simp add: vfs_emit_def)
  with w p h that show thesis by (simp add: with_event_def)
qed

end

section \<open>Fan-out\<close>

lemma drive_all:
  assumes "distinct is" "\<forall>i\<in>set is. i < length sinks" "length ss = length sinks"
    "length results = length sinks"
    "\<forall>i\<in>set is. fst (es_emit (sinks ! i) ev (ss ! i)) \<noteq> Panic"
  shows "\<exists>results' ss'. drive sinks ev is results ss = (Some results', ss') \<and>
    length results' = length sinks \<and> length ss' = length sinks \<and>
    (\<forall>i<length sinks.
       results' ! i = (if i \<in> set is then fst (es_emit (sinks ! i) ev (ss ! i)) else results ! i) \<and>
       ss' ! i = (if i \<in> set is then snd (es_emit (sinks ! i) ev (ss ! i)) else ss ! i))"
  using assms
proof (induction "is" arbitrary: results ss)
  case (Cons i "is")
  obtain r s' where e: "es_emit (sinks ! i) ev (ss ! i) = (r, s')" by fastforce
  have i: "i < length sinks" "i \<notin> set is" "r \<noteq> Panic" using Cons.prems e by auto
  have run: "drive sinks ev (i # is) results ss = drive sinks ev is (results[i := r]) (ss[i := s'])"
    using e i(3) by (cases r) simp_all
  have other: "ss[i := s'] ! j = ss ! j" if "j \<in> set is" for j
    using i(2) that by (metis nth_list_update_neq)
  have "\<exists>results' ss'. drive sinks ev is (results[i := r]) (ss[i := s']) = (Some results', ss') \<and>
    length results' = length sinks \<and> length ss' = length sinks \<and>
    (\<forall>j<length sinks.
       results' ! j = (if j \<in> set is then fst (es_emit (sinks ! j) ev (ss[i := s'] ! j)) else results[i := r] ! j) \<and>
       ss' ! j = (if j \<in> set is then snd (es_emit (sinks ! j) ev (ss[i := s'] ! j)) else ss[i := s'] ! j))"
    using Cons.prems other by (intro Cons.IH) simp_all
  then show ?case unfolding run using Cons.prems e i other
    by (auto simp: nth_list_update)
qed simp

lemma first_error_Ok: "first_error rs = Ok u \<longleftrightarrow> (\<forall>r\<in>set rs. r = Ok ())"
  by (induction rs rule: first_error.induct) auto

lemma first_error_Err:
  assumes "\<forall>r\<in>set rs. r \<noteq> Panic"
  shows "first_error rs = Err e \<longleftrightarrow> (\<exists>i<length rs. rs ! i = Err e \<and> (\<forall>j<i. rs ! j = Ok ()))"
  using assms
proof (induction rs rule: first_error.induct)
  case (2 e' rs)
  have "(\<exists>i<length (Err e' # rs). (Err e' # rs) ! i = Err e \<and> (\<forall>j<i. (Err e' # rs) ! j = Ok ())) \<longleftrightarrow> e' = e"
    by (force simp: nth_Cons')
  then show ?case by simp
next
  case (3 u rs)
  then show ?case by (simp add: Ex_less_Suc2 All_less_Suc2)
qed simp_all

section \<open>Properties\<close>

text \<open>The VFS sink on the in-memory backend: when the stream identifier is a path component and
  nothing but directories is in the way, \<open>emit\<close> succeeds and the tree afterwards is the tree before with
  the three directories present and the sidecar file holding exactly the payload; every other node is
  as before.\<close>

theorem vfs_sink_stores:
  assumes "sink_vfs sk = memory_vtable" "vfs_path_new (sink_root_path sk) = Some rp" "mem_inv s"
    and "wf_comp (session_str (event_stream_id ev))" "room_for (mem_abs s) (components rp) ev"
    and "length (event_payload ev) \<le> isize_max"
  shows "\<exists>s'. vfs_emit sk ev s = (Ok (), s') \<and> mem_inv s' \<and>
           mem_abs s' = with_event (mem_abs s) (components rp) ev"
  using mem.vfs_emit_Ok [OF assms(1,2) refl assms(3-6)] by metis

definition sample_event :: event where
  "sample_event =
     Window \<lparr>w_tenant_id = TenantId ''t'', w_stream_id = SessionId ''s1'', w_t_start_ms = 12,
             w_t_end_ms = 13, w_payload_bytes = [1, 2]\<rparr>"

definition sample_sink :: "(memory_backend, memory_handle) vfs_event_sink" where
  "sample_sink = \<lparr>sink_vfs = memory_vtable, sink_root_path = ''/''\<rparr>"

theorem vfs_sink_stores_witness:
  "\<exists>s'. vfs_emit sample_sink sample_event (memory_new (\<lambda>_. 0)) = (Ok (), s') \<and>
     mem_abs s' [''.streams'', ''s1'', ''windows'', ''12.score.json''] = Some (TFile [1, 2])"
proof -
  have "dec 12 = ''12''" by code_simp
  then have leaf: "event_file [] sample_event = [''.streams'', ''s1'', ''windows'', ''12.score.json'']"
    by (simp add: event_file_def sample_event_def)
  have "vfs_path_new ''/'' = Some root" by (simp add: path_eval)
  moreover have "room_for (mem_abs (memory_new (\<lambda>_. 0))) (components root) sample_event"
    by (simp add: room_for_def init_tree_def event_dirs_def event_file_def)
  ultimately show ?thesis
    using vfs_sink_stores [of sample_sink root "memory_new (\<lambda>_. 0)" sample_event] leaf
    by (auto simp: sample_sink_def sample_event_def wf_comp_def isize_max_def with_event_def)
qed

fun event_key :: "event \<Rightarrow> u64 + u64" where
  "event_key (Window e) = Inl (w_t_start_ms e)"
| "event_key (Threshold e) = Inr (t_timestamp_ms e)"

text \<open>Where an event is stored: two events go to the same sidecar file exactly when they have the
  same stream, the same kind and the same time stamp. (Tenant and detector are not part of the name.)\<close>

theorem event_file_identity:
  "event_file rt e1 = event_file rt e2 \<longleftrightarrow>
     event_stream_id e1 = event_stream_id e2 \<and> event_key e1 = event_key e2"
  by (cases e1; cases e2) (auto simp: event_file_def dec_inj session_id.expand word_unat_eq_iff)

text \<open>\<open>MultiSink::emit\<close>: whatever order the futures complete in, every sink has run exactly once on
  its own destination when the call returns, and the result is the first error in declaration order, or
  success when there is none.\<close>

theorem multi_emit_runs_all:
  assumes "distinct ord" "set ord = {..<length sinks}" "length ss = length sinks"
    and "\<forall>i<length sinks. fst (es_emit (sinks ! i) ev (ss ! i)) \<noteq> Panic"
  shows "\<exists>r ss'. multi_emit sinks ord ev ss = (r, ss') \<and> length ss' = length sinks \<and>
     (\<forall>i<length sinks. ss' ! i = snd (es_emit (sinks ! i) ev (ss ! i))) \<and>
     (r = Ok () \<longleftrightarrow> (\<forall>i<length sinks. fst (es_emit (sinks ! i) ev (ss ! i)) = Ok ())) \<and>
     (\<forall>e. r = Err e \<longleftrightarrow>
        (\<exists>i<length sinks. fst (es_emit (sinks ! i) ev (ss ! i)) = Err e \<and>
           (\<forall>j<i. fst (es_emit (sinks ! j) ev (ss ! j)) = Ok ())))"
proof -
  obtain rs ss' where run: "drive sinks ev ord (replicate (length sinks) (Ok ())) ss = (Some rs, ss')"
    and len: "length rs = length sinks" "length ss' = length sinks"
    and nth: "\<forall>i<length sinks. rs ! i = fst (es_emit (sinks ! i) ev (ss ! i)) \<and>
                ss' ! i = snd (es_emit (sinks ! i) ev (ss ! i))"
    using drive_all [of ord sinks ss "replicate (length sinks) (Ok ())" ev] assms by auto
  have "\<forall>r\<in>set rs. r \<noteq> Panic" using nth assms(4) len by (auto simp: in_set_conv_nth)
  note err = first_error_Err [OF this]
  have "(\<forall>r\<in>set rs. r = Ok ()) \<longleftrightarrow> (\<forall>i<length sinks. fst (es_emit (sinks ! i) ev (ss ! i)) = Ok ())"
    using nth len by (auto simp: all_set_conv_all_nth)
  moreover have "(\<exists>i<length rs. rs ! i = Err e \<and> (\<forall>j<i. rs ! j = Ok ())) \<longleftrightarrow>
      (\<exists>i<length sinks. fst (es_emit (sinks ! i) ev (ss ! i)) = Err e \<and>
           (\<forall>j<i. fst (es_emit (sinks ! j) ev (ss ! j)) = Ok ()))" for e
    by (rule ex_cong1) (auto simp: nth len)
  ultimately show ?thesis using run len nth
    by (simp add: multi_emit_def first_error_Ok err)
qed

definition counting_sink :: "(event_error, unit) outcome \<Rightarrow> nat event_sink" where
  "counting_sink r = \<lparr>es_name = ''test'', es_emit = (\<lambda>ev n. (r, Suc n))\<rparr>"

theorem multi_emit_runs_all_witness:
  "multi_emit [counting_sink (Ok ()), counting_sink (Err (NotImplemented ''vfs'')),
               counting_sink (Err (NotImplemented ''webhook''))] [2, 0, 1] sample_event [0, 0, 0] =
   (Err (NotImplemented ''vfs''), [1, 1, 1])"
proof -
  let ?sinks = "[counting_sink (Ok ()), counting_sink (Err (NotImplemented ''vfs'')),
                 counting_sink (Err (NotImplemented ''webhook''))]"
  have "\<forall>i<length ?sinks. fst (es_emit (?sinks ! i) sample_event ([0, 0, 0] ! i)) \<noteq> Panic"
    by (simp add: counting_sink_def All_less_Suc2)
  moreover have "set [2, 0, 1] = {..<length ?sinks}" by (auto simp: lessThan_Suc)
  ultimately have "\<exists>r ss'. multi_emit ?sinks [2, 0, 1] sample_event [0, 0, 0] = (r, ss')"
    using multi_emit_runs_all [of "[2, 0, 1]" ?sinks "[0, 0, 0]" sample_event] by auto
  then show ?thesis by (simp add: multi_emit_def counting_sink_def)
qed

text \<open>\<open>ensure_dir\<close> is not idempotent on the local backend: the host's refusal to create a directory
  that exists reaches it as an I/O error, which it does not recognise, so the event is lost.\<close>

theorem ensure_dir_local_fails:
  assumes "sink_vfs sk = local_vtable os b" "host_path b p = Ok h"
    and "os_create_dir os h s = (Err (IoError IoAlreadyExists m), s')"
  shows "ensure_dir sk p s = (Err (Vfs (Io (IoError IoAlreadyExists m))), s')"
  using assms by (simp add: ensure_dir_def local_vtable_def local_create_dir_def with_host_def map_err_def)

definition full_host :: "(unit, unit) host_os" where
  "full_host =
     \<lparr>os_is_dir = (\<lambda>_ _. True), os_metadata = (\<lambda>_ s. (Panic, s)), os_read_dir = (\<lambda>_ s. (Ok [], s)),
      os_lossy = id, os_open = (\<lambda>_ _ s. (Ok (), s)),
      os_create_dir = (\<lambda>_ s. (Err (IoError IoAlreadyExists ''File exists''), s)),
      os_remove_dir = (\<lambda>_ s. (Ok (), s)), os_remove_file = (\<lambda>_ s. (Ok (), s)),
      fd_seek = (\<lambda>_ off s. (Ok off, s)), fd_read = (\<lambda>_ _ s. (Ok [], s)),
      fd_write_all = (\<lambda>_ _ s. (Ok (), s)), fd_flush = (\<lambda>_ s. (Ok (), s))\<rparr>"

theorem ensure_dir_local_fails_witness:
  "ensure_dir \<lparr>sink_vfs = local_vtable full_host \<lparr>lb_root = ''/srv''\<rparr>, sink_root_path = ''/''\<rparr>
     (VfsPath ''/.streams'') () = (Err (Vfs (Io (IoError IoAlreadyExists ''File exists''))), ())"
  by (rule ensure_dir_local_fails [where os = full_host and b = "\<lparr>lb_root = ''/srv''\<rparr>" and h = "''/srv/.streams''"])
    (simp_all add: full_host_def host_path_def trim_start_matches_def path_join_def as_str_def Let_def)

end
