(* ===== verification/Api_Auth.thy ===== *)
theory Api_Auth
  imports Prelude
begin

text \<open>
  Configuration, errors and authentication of the API server
  (\<open>crates/diaspor-api-server/src/auth.rs\<close> and \<open>error.rs\<close>).

  The process environment is an argument of \<open>from_env\<close>. The \<open>jsonwebtoken\<close> crate is third-party: its
  \<open>decode\<close> is an argument of \<open>extract_api_key_from_request\<close>, and \<open>jwt_sound\<close> states what the crate
  documents of it (a decoded token carries a valid HS256 signature for the secret, an issuer and an
  audience from the validation's lists and an expiry in the future). The lemmas show what the
  extraction accepts and rejects on every branch, that the vertical names round-trip, and that the set
  printed in refusals is the set the gate uses.
\<close>

section \<open>Errors\<close>

datatype vertical =
    Coaching | SportJudging | InterviewPlatform | DepositionRecording | Research
  | Forensic | Hiring | Insurance | LawEnforcement | EuWorkplace | EuEducation

datatype api_error =
    ApiNotImplemented string
  | VerticalRefused (attested: vertical) (endpoint: string)
  | RateLimited u32
  | BadRequest string
  | Unauthorized
  | Internal string

fun status_code :: "api_error \<Rightarrow> nat" where
  "status_code (ApiNotImplemented _) = 501"
| "status_code (VerticalRefused _ _) = 403"
| "status_code (RateLimited _) = 429"
| "status_code (BadRequest _) = 400"
| "status_code Unauthorized = 401"
| "status_code (Internal _) = 500"

fun error_code :: "api_error \<Rightarrow> string" where
  "error_code (ApiNotImplemented _) = ''not_implemented''"
| "error_code (VerticalRefused _ _) = ''vertical_refused''"
| "error_code (RateLimited _) = ''rate_limited''"
| "error_code (BadRequest _) = ''bad_request''"
| "error_code Unauthorized = ''unauthorized''"
| "error_code (Internal _) = ''internal''"

section \<open>Verticals\<close>

fun is_allowed_for_credibility :: "vertical \<Rightarrow> bool" where
  "is_allowed_for_credibility Coaching = True"
| "is_allowed_for_credibility SportJudging = True"
| "is_allowed_for_credibility InterviewPlatform = True"
| "is_allowed_for_credibility DepositionRecording = True"
| "is_allowed_for_credibility Research = True"
| "is_allowed_for_credibility _ = False"

definition credibility_allowed_set :: "string list" where
  "credibility_allowed_set =
     [''coaching'', ''sport_judging'', ''interview_platform'', ''deposition_recording'', ''research'']"

definition from_snake_case :: "string \<Rightarrow> vertical option" where
  "from_snake_case s =
     (if s = ''coaching'' then Some Coaching
      else if s = ''sport_judging'' then Some SportJudging
      else if s = ''interview_platform'' then Some InterviewPlatform
      else if s = ''deposition_recording'' then Some DepositionRecording
      else if s = ''research'' then Some Research
      else if s = ''forensic'' then Some Forensic
      else if s = ''hiring'' then Some Hiring
      else if s = ''insurance'' then Some Insurance
      else if s = ''law_enforcement'' then Some LawEnforcement
      else if s = ''eu_workplace'' then Some EuWorkplace
      else if s = ''eu_education'' then Some EuEducation
      else None)"

text \<open>The wire form \<open>serde\<close> derives from \<open>rename_all = "snake_case"\<close>.\<close>

fun snake_case :: "vertical \<Rightarrow> string" where
  "snake_case Coaching = ''coaching''"
| "snake_case SportJudging = ''sport_judging''"
| "snake_case InterviewPlatform = ''interview_platform''"
| "snake_case DepositionRecording = ''deposition_recording''"
| "snake_case Research = ''research''"
| "snake_case Forensic = ''forensic''"
| "snake_case Hiring = ''hiring''"
| "snake_case Insurance = ''insurance''"
| "snake_case LawEnforcement = ''law_enforcement''"
| "snake_case EuWorkplace = ''eu_workplace''"
| "snake_case EuEducation = ''eu_education''"

section \<open>Error responses\<close>

datatype json = JString string | JNum nat | JList "json list" | JObj "(string \<times> json) list"

record response =
  rs_status :: nat
  rs_code :: string
  rs_details :: json
  rs_retry_after :: "string option"

fun error_details :: "api_error \<Rightarrow> json" where
  "error_details (ApiNotImplemented component) = JObj [(''component'', JString component)]"
| "error_details (VerticalRefused v ep) =
     JObj [(''attested_vertical'', JString (snake_case v)), (''endpoint'', JString ep),
           (''allowed_verticals'', JList (map JString credibility_allowed_set))]"
| "error_details (RateLimited n) = JObj [(''retry_after_seconds'', JNum (unat n))]"
| "error_details (BadRequest reason) = JObj [(''reason'', JString reason)]"
| "error_details Unauthorized = JObj []"
| "error_details (Internal tag) = JObj [(''tag'', JString tag)]"

definition into_response :: "api_error \<Rightarrow> response" where
  "into_response e =
     \<lparr>rs_status = status_code e, rs_code = error_code e, rs_details = error_details e,
      rs_retry_after = None\<rparr>"

section \<open>Configuration\<close>

datatype env_var = Set string | NotPresent | NotUnicode

datatype config_error = MissingJwtSecret | EmptyJwtSecret | InvalidInt (var: string) (val: string)

record config =
  jwt_secret :: string
  default_rate_limit_per_min :: u32
  default_daily_cap :: u32

definition DEFAULT_RATE_LIMIT_PER_MIN :: u32 where "DEFAULT_RATE_LIMIT_PER_MIN = 60"
definition DEFAULT_DAILY_CAP :: u32 where "DEFAULT_DAILY_CAP = 10000"

text \<open>\<open>str::parse::<u32>\<close>: an optional plus sign, then at least one digit, below \<open>2 ^ 32\<close>.\<close>

definition is_digit :: "char \<Rightarrow> bool" where
  "is_digit c \<longleftrightarrow> (of_char c :: nat) \<in> {48..57}"

definition parse_u32 :: "string \<Rightarrow> u32 option" where
  "parse_u32 s =
     (let ds = (case s of [] \<Rightarrow> [] | c # r \<Rightarrow> if c = CHR ''+'' then r else s) in
      if ds \<noteq> [] \<and> list_all is_digit ds \<and> undec ds < 2 ^ 32 then Some (of_nat (undec ds)) else None)"

definition parse_optional_u32 ::
    "(string \<Rightarrow> env_var) \<Rightarrow> string \<Rightarrow> u32 \<Rightarrow> (config_error, u32) outcome" where
  "parse_optional_u32 env name dflt =
     (case env name of
        Set s \<Rightarrow>
          if s = [] then Ok dflt
          else (case parse_u32 s of Some n \<Rightarrow> Ok n | None \<Rightarrow> Err (InvalidInt name s))
      | _ \<Rightarrow> Ok dflt)"

definition ENV_JWT_SECRET :: string where "ENV_JWT_SECRET = ''DIASPOR_JWT_SECRET''"
definition ENV_DEFAULT_RATE_LIMIT :: string where "ENV_DEFAULT_RATE_LIMIT = ''DIASPOR_DEFAULT_RATE_LIMIT''"
definition ENV_DEFAULT_DAILY_CAP :: string where "ENV_DEFAULT_DAILY_CAP = ''DIASPOR_DEFAULT_DAILY_CAP''"

definition from_env :: "(string \<Rightarrow> env_var) \<Rightarrow> (config_error, config) outcome" where
  "from_env env =
     (case env ENV_JWT_SECRET of
        NotPresent \<Rightarrow> Err MissingJwtSecret
      | NotUnicode \<Rightarrow> Err EmptyJwtSecret
      | Set s \<Rightarrow>
          if s = [] then Err EmptyJwtSecret
          else
            case parse_optional_u32 env ENV_DEFAULT_RATE_LIMIT DEFAULT_RATE_LIMIT_PER_MIN of
              Err e \<Rightarrow> Err e
            | Panic \<Rightarrow> Panic
            | Ok rate \<Rightarrow>
                case parse_optional_u32 env ENV_DEFAULT_DAILY_CAP DEFAULT_DAILY_CAP of
                  Err e \<Rightarrow> Err e
                | Panic \<Rightarrow> Panic
                | Ok cap \<Rightarrow>
                    Ok \<lparr>jwt_secret = s, default_rate_limit_per_min = rate, default_daily_cap = cap\<rparr>)"

section \<open>Tokens\<close>

record api_key =
  key_tenant_id :: string
  key_api_key_id :: string
  key_vertical :: vertical

record claims =
  cl_tenant_id :: string
  cl_api_key_id :: string
  cl_vertical :: vertical
  cl_iss :: string
  cl_aud :: string
  cl_exp :: u64
  cl_iat :: u64

definition JWT_ISSUER :: string where "JWT_ISSUER = ''diaspor''"
definition JWT_AUDIENCE :: string where "JWT_AUDIENCE = ''api.diaspor.io''"

definition fresh_claims :: "u64 \<Rightarrow> string \<Rightarrow> string \<Rightarrow> vertical \<Rightarrow> claims" where
  "fresh_claims now tenant key v =
     \<lparr>cl_tenant_id = tenant, cl_api_key_id = key, cl_vertical = v, cl_iss = JWT_ISSUER,
      cl_aud = JWT_AUDIENCE, cl_exp = now + 3600, cl_iat = now\<rparr>"

text \<open>What the source sets on \<open>Validation::new(Algorithm::HS256)\<close>.\<close>

record validation =
  va_issuers :: "string list"
  va_audiences :: "string list"
  va_leeway :: nat

definition strict_validation :: validation where
  "strict_validation = \<lparr>va_issuers = [JWT_ISSUER], va_audiences = [JWT_AUDIENCE], va_leeway = 0\<rparr>"

text \<open>Headers are byte strings; \<open>HeaderValue::to_str\<close> accepts visible ASCII and tabs only, so the
  white space \<open>trim\<close> can meet afterwards is blanks and tabs.\<close>

definition header_to_str :: "string \<Rightarrow> string option" where
  "header_to_str v =
     (if list_all (\<lambda>c. c = CHR 0x09 \<or> (of_char c :: nat) \<in> {32..126}) v then Some v else None)"

definition blank :: "char \<Rightarrow> bool" where
  "blank c \<longleftrightarrow> c = CHR '' '' \<or> c = CHR 0x09"

definition trim :: "string \<Rightarrow> string" where
  "trim s = rev (dropWhile blank (rev (dropWhile blank s)))"

type_synonym headers = "(string, string) hash_map"

definition bearer_token :: "headers \<Rightarrow> string option" where
  "bearer_token hs =
     (case hm_get hs ''authorization'' of
        None \<Rightarrow> None
      | Some raw \<Rightarrow>
          case header_to_str raw of
            None \<Rightarrow> None
          | Some auth \<Rightarrow>
              case strip_prefix ''Bearer '' auth of
                None \<Rightarrow> None
              | Some rest \<Rightarrow> if trim rest = [] then None else Some (trim rest))"

text \<open>\<open>decode now token secret validation\<close> is the third-party decoder at time \<open>now\<close>.\<close>

type_synonym jwt_decoder = "nat \<Rightarrow> string \<Rightarrow> string \<Rightarrow> validation \<Rightarrow> claims option"

definition extract_api_key_from_request ::
    "jwt_decoder \<Rightarrow> nat \<Rightarrow> headers \<Rightarrow> config \<Rightarrow> (api_error, api_key) outcome" where
  "extract_api_key_from_request decode now hs cfg =
     (case bearer_token hs of
        None \<Rightarrow> Err Unauthorized
      | Some token \<Rightarrow>
          case decode now token (jwt_secret cfg) strict_validation of
            None \<Rightarrow> Err Unauthorized
          | Some c \<Rightarrow>
              Ok \<lparr>key_tenant_id = cl_tenant_id c, key_api_key_id = cl_api_key_id c,
                  key_vertical = cl_vertical c\<rparr>)"

definition extract_vertical_from_headers :: "headers \<Rightarrow> (api_error, vertical) outcome" where
  "extract_vertical_from_headers hs =
     (case hm_get hs ''x-diaspor-vertical'' of
        None \<Rightarrow> Err Unauthorized
      | Some v \<Rightarrow>
          case header_to_str v of
            None \<Rightarrow> Err (BadRequest ''vertical header is not valid utf-8'')
          | Some raw \<Rightarrow>
              case from_snake_case raw of
                Some v \<Rightarrow> Ok v
              | None \<Rightarrow> Err (BadRequest (''unknown vertical attestation: '' @ raw)))"

text \<open>What the decoder's documentation promises: \<open>hs256 secret token c\<close> says that the token is an
  HS256 signature of the claims \<open>c\<close> under the secret.\<close>

definition jwt_sound :: "(string \<Rightarrow> string \<Rightarrow> claims \<Rightarrow> bool) \<Rightarrow> jwt_decoder \<Rightarrow> bool" where
  "jwt_sound hs256 decode \<longleftrightarrow>
     (\<forall>now token secret va c. decode now token secret va = Some c \<longrightarrow>
        hs256 secret token c \<and> cl_iss c \<in> set (va_issuers va) \<and> cl_aud c \<in> set (va_audiences va) \<and>
        now \<le> unat (cl_exp c) + va_leeway va)"

section \<open>Facts\<close>

lemma snake_case_round_trip: "from_snake_case (snake_case v) = Some v"
  by (cases v) (simp_all add: from_snake_case_def)

lemma from_snake_case_Some: "from_snake_case s = Some v \<Longrightarrow> s = snake_case v"
  by (auto simp: from_snake_case_def split: if_splits)

lemma allowed_iff_listed: "is_allowed_for_credibility v \<longleftrightarrow> snake_case v \<in> set credibility_allowed_set"
  by (cases v) (simp_all add: credibility_allowed_set_def)

lemma extract_Ok:
  "extract_api_key_from_request decode now hs cfg = Ok key \<longleftrightarrow>
     (\<exists>token c. bearer_token hs = Some token \<and>
        decode now token (jwt_secret cfg) strict_validation = Some c \<and>
        key = \<lparr>key_tenant_id = cl_tenant_id c, key_api_key_id = cl_api_key_id c, key_vertical = cl_vertical c\<rparr>)"
  by (auto simp: extract_api_key_from_request_def split: option.splits)

lemma extract_cases:
  "extract_api_key_from_request decode now hs cfg = Err Unauthorized \<or>
   (\<exists>key. extract_api_key_from_request decode now hs cfg = Ok key)"
  by (auto simp: extract_api_key_from_request_def split: option.splits)

lemma bearer_token_Some:
  assumes "bearer_token hs = Some token"
  shows "token \<noteq> [] \<and> (\<exists>raw rest. hm_get hs ''authorization'' = Some raw \<and> raw = ''Bearer '' @ rest \<and> token = trim rest)"
  using assms
  by (auto simp: bearer_token_def header_to_str_def strip_prefix_Some_iff split: option.splits if_splits)

lemma list_all_is_digit_dec: "list_all is_digit (dec n)"
  using dec_chars by (auto simp: list_all_iff is_digit_def)

lemma parse_u32_dec: "parse_u32 (dec (unat n)) = Some n"
proof -
  have "hd (dec k) \<noteq> CHR ''+''" for k
  proof
    assume "hd (dec k) = CHR ''+''"
    then have "CHR ''+'' \<in> set (dec k)" using hd_in_set [OF dec_not_Nil(1) [of k]] by simp
    then show False using dec_chars [of "CHR ''+''" k] by simp
  qed
  then have "(case dec (unat n) of [] \<Rightarrow> [] | c # r \<Rightarrow> if c = CHR ''+'' then r else dec (unat n)) = dec (unat n)"
    by (cases "dec (unat n)") (auto, metis list.sel(1))
  moreover have "unat n < 2 ^ 32" using unsigned_less [of n] by simp
  ultimately show ?thesis by (simp add: parse_u32_def list_all_is_digit_dec undec_dec)
qed

end
