(* ===== verification/Rate_Limit.thy ===== *)
theory Rate_Limit
  imports Complex_Main Api_Auth
begin

text \<open>
  Token buckets and daily caps of the API server (\<open>crates/diaspor-api-server/src/rate_limit.rs\<close>).

  The bucket computes in \<open>f64\<close>. Its operations are modelled over the reals with every rounding step
  written out: \<open>fl\<close> is the rounding function, an argument of the definitions; \<open>mul_add\<close> rounds once. What
  the bucket relies on is the locale \<open>rounding\<close> (monotone, exact on natural numbers below \<open>2 ^ 53\<close>); it is
  interpreted on round-to-nearest-even with a 53-bit significand (\<open>f64_round\<close>), and on the identity, which
  is exact arithmetic and evaluates. An \<open>Instant\<close> is a number of nanoseconds of the monotonic clock, an
  \<open>OffsetDateTime\<close> a number of nanoseconds since the epoch, a \<open>Date\<close> its day number.

  Both limits keep the contract \<open>quota_gate\<close>: an invariant is kept and a refusal asks for a wait of at
  least one second.
\<close>

section \<open>The token bucket\<close>

type_synonym instant = nat

record token_bucket =
  tokens :: real
  last_refill_at :: instant
  max_tokens :: real
  refill_per_sec :: real

datatype bucket_outcome = BucketAllowed | BucketLimited u32

definition as_secs_f64 :: "(real \<Rightarrow> real) \<Rightarrow> nat \<Rightarrow> real" where
  "as_secs_f64 fl d =
     fl (fl (of_nat (d div 1000000000)) + fl (of_nat (d mod 1000000000) / 1000000000))"

definition bucket_new :: "(real \<Rightarrow> real) \<Rightarrow> u32 \<Rightarrow> instant \<Rightarrow> token_bucket" where
  "bucket_new fl requests_per_minute now =
     (let m = of_nat (unat requests_per_minute)
      in \<lparr>tokens = m, last_refill_at = now, max_tokens = m, refill_per_sec = fl (m / 60)\<rparr>)"

definition refill :: "(real \<Rightarrow> real) \<Rightarrow> instant \<Rightarrow> token_bucket \<Rightarrow> token_bucket" where
  "refill fl now b =
     (let elapsed = as_secs_f64 fl (now - last_refill_at b)
      in b\<lparr>tokens := min (fl (elapsed * refill_per_sec b + tokens b)) (max_tokens b),
           last_refill_at := now\<rparr>)"

definition u32_max :: int where
  "u32_max = 2 ^ 32 - 1"

definition try_consume :: "(real \<Rightarrow> real) \<Rightarrow> instant \<Rightarrow> token_bucket \<Rightarrow> bucket_outcome \<times> token_bucket" where
  "try_consume fl now b =
     (let b = refill fl now b in
      if tokens b \<ge> 1 then (BucketAllowed, b\<lparr>tokens := fl (tokens b - 1)\<rparr>)
      else
        let needed = fl (1 - tokens b);
            seconds_f = (if refill_per_sec b > 0 then fl (needed / refill_per_sec b) else of_int u32_max)
        in (BucketLimited (of_int (max 1 (min \<lceil>seconds_f\<rceil> u32_max))), b))"

section \<open>The daily counter\<close>

record daily_counter =
  dc_date :: int
  dc_count :: u32

datatype daily_outcome = DailyAllowed | CapReached u32

definition nanos_per_day :: int where
  "nanos_per_day = 86400 * 1000000000"

definition utc_date :: "int \<Rightarrow> int" where
  "utc_date now = now div nanos_per_day"

definition daily_new :: "int \<Rightarrow> daily_counter" where
  "daily_new now = \<lparr>dc_date = utc_date now, dc_count = 0\<rparr>"

definition SECONDS_PER_DAY :: int where
  "SECONDS_PER_DAY = 24 * 60 * 60"

definition seconds_until_utc_midnight :: "int \<Rightarrow> u32" where
  "seconds_until_utc_midnight now =
     (let midnight = utc_date now * nanos_per_day + nanos_per_day;
          secs = (midnight - now) div 1000000000
      in of_int (max 1 (min secs SECONDS_PER_DAY)))"

definition try_increment :: "int \<Rightarrow> u32 \<Rightarrow> daily_counter \<Rightarrow> daily_outcome \<times> daily_counter" where
  "try_increment now cap c =
     (let today = utc_date now;
          c = (if today > dc_date c then c\<lparr>dc_date := today, dc_count := 0\<rparr> else c)
      in if dc_count c \<ge> cap then (CapReached (seconds_until_utc_midnight now), c)
         else (DailyAllowed, c\<lparr>dc_count := sat_add (dc_count c) 1\<rparr>))"

section \<open>The shared state and the two gates in order\<close>

record app_state =
  st_config :: config
  rate_buckets :: "(string, token_bucket) hash_map"
  daily_counts :: "(string, daily_counter) hash_map"

definition app_state_new :: "config \<Rightarrow> app_state" where
  "app_state_new cfg = \<lparr>st_config = cfg, rate_buckets = [], daily_counts = []\<rparr>"

text \<open>The readings of the clocks a request makes: \<open>Instant::now\<close> in \<open>TokenBucket::new\<close> and at the
  call of \<open>try_consume\<close>, and \<open>OffsetDateTime::now_utc\<close>.\<close>

record clock_readings =
  ck_new :: instant
  ck_consume :: instant
  ck_utc :: int

definition bucket_gate :: "(real \<Rightarrow> real) \<Rightarrow> clock_readings \<Rightarrow> string \<Rightarrow> app_state \<Rightarrow> bucket_outcome \<times> app_state" where
  "bucket_gate fl ck key st =
     (let b = (case hm_get (rate_buckets st) key of
                 Some b \<Rightarrow> b
               | None \<Rightarrow> bucket_new fl (default_rate_limit_per_min (st_config st)) (ck_new ck));
          (r, b') = try_consume fl (ck_consume ck) b
      in (r, st\<lparr>rate_buckets := hm_insert key b' (rate_buckets st)\<rparr>))"

definition daily_gate :: "clock_readings \<Rightarrow> string \<Rightarrow> app_state \<Rightarrow> daily_outcome \<times> app_state" where
  "daily_gate ck key st =
     (let c = (case hm_get (daily_counts st) key of Some c \<Rightarrow> c | None \<Rightarrow> daily_new (ck_utc ck));
          (r, c') = try_increment (ck_utc ck) (default_daily_cap (st_config st)) c
      in (r, st\<lparr>daily_counts := hm_insert key c' (daily_counts st)\<rparr>))"

text \<open>\<open>Some n\<close> is a refusal with \<open>Retry-After: n\<close>; \<open>None\<close> lets the request through to \<open>next\<close>.\<close>

definition rate_limit_check :: "(real \<Rightarrow> real) \<Rightarrow> clock_readings \<Rightarrow> string \<Rightarrow> app_state \<Rightarrow> u32 option \<times> app_state" where
  "rate_limit_check fl ck key st =
     (case bucket_gate fl ck key st of
        (BucketLimited n, st1) \<Rightarrow> (Some n, st1)
      | (BucketAllowed, st1) \<Rightarrow>
          (case daily_gate ck key st1 of
             (CapReached n, st2) \<Rightarrow> (Some n, st2)
           | (DailyAllowed, st2) \<Rightarrow> (None, st2)))"

definition rate_limited_response :: "u32 \<Rightarrow> response" where
  "rate_limited_response n = (into_response (RateLimited n))\<lparr>rs_retry_after := Some (dec (unat n))\<rparr>"

section \<open>The contract of a gate\<close>

text \<open>\<open>step\<close> charges one request at a time; \<open>Some n\<close> is a refusal that asks for \<open>n\<close> seconds.\<close>

locale quota_gate =
  fixes step :: "'t \<Rightarrow> 's \<Rightarrow> u32 option \<times> 's"
    and ok :: "'s \<Rightarrow> bool"
  assumes ok_step: "ok s \<Longrightarrow> ok (snd (step t s))"
    and refusal_waits: "ok s \<Longrightarrow> fst (step t s) = Some n \<Longrightarrow> 1 \<le> unat n"
begin

lemma run_ok:
  "ok s \<Longrightarrow> ok (snd (run_ops step ts s)) \<and> (\<forall>n. Some n \<in> set (fst (run_ops step ts s)) \<longrightarrow> 1 \<le> unat n)"
proof (induction ts arbitrary: s)
  case (Cons t ts)
  obtain r s' where st: "step t s = (r, s')" by fastforce
  with Cons.prems have "ok s'" using ok_step [of s t] by simp
  with Cons.IH [of s'] st refusal_waits [OF Cons.prems, of t] show ?case
    by (auto simp: case_prod_beta)
qed simp

end

definition bucket_step :: "(real \<Rightarrow> real) \<Rightarrow> instant \<Rightarrow> token_bucket \<Rightarrow> u32 option \<times> token_bucket" where
  "bucket_step fl now b =
     (case try_consume fl now b of
        (BucketAllowed, b') \<Rightarrow> (None, b')
      | (BucketLimited n, b') \<Rightarrow> (Some n, b'))"

definition daily_step :: "u32 \<Rightarrow> int \<Rightarrow> daily_counter \<Rightarrow> u32 option \<times> daily_counter" where
  "daily_step cap now c =
     (case try_increment now cap c of
        (DailyAllowed, c') \<Rightarrow> (None, c')
      | (CapReached n, c') \<Rightarrow> (Some n, c'))"

section \<open>What the bucket relies on of floating point\<close>

locale rounding =
  fixes fl :: "real \<Rightarrow> real"
  assumes fl_mono: "0 \<le> x \<Longrightarrow> x \<le> y \<Longrightarrow> fl x \<le> fl y"
    and fl_nat: "n < 2 ^ 53 \<Longrightarrow> fl (of_nat n) = of_nat n"

definition bucket_ok :: "(real \<Rightarrow> real) \<Rightarrow> token_bucket \<Rightarrow> bool" where
  "bucket_ok fl b \<longleftrightarrow>
     0 \<le> tokens b \<and> tokens b \<le> max_tokens b \<and>
     (\<exists>n::nat. n \<le> 2 ^ 32 \<and> max_tokens b = of_nat n) \<and> refill_per_sec b = fl (max_tokens b / 60)"

context rounding
begin

lemma fl_0 [simp]: "fl 0 = 0"
  using fl_nat [of 0] by simp

lemma fl_nonneg: "0 \<le> x \<Longrightarrow> 0 \<le> fl x"
  using fl_mono [of 0 x] by simp

lemma secs_nonneg: "0 \<le> as_secs_f64 fl d"
  by (simp add: as_secs_f64_def fl_nonneg)

lemma refill_ok: "bucket_ok fl b \<Longrightarrow> bucket_ok fl (refill fl now b)"
proof -
  assume b: "bucket_ok fl b"
  then have "0 \<le> refill_per_sec b" "0 \<le> tokens b" "0 \<le> max_tokens b"
    by (auto simp: bucket_ok_def intro!: fl_nonneg)
  then have "0 \<le> fl (as_secs_f64 fl d * refill_per_sec b + tokens b)" for d
    using secs_nonneg by (simp add: fl_nonneg)
  with b \<open>0 \<le> max_tokens b\<close> show ?thesis by (simp add: bucket_ok_def refill_def Let_def)
qed

lemma debit_ok:
  assumes "bucket_ok fl b" "1 \<le> tokens b"
  shows "bucket_ok fl (b\<lparr>tokens := fl (tokens b - 1)\<rparr>)"
proof -
  from assms(1) obtain n where n: "n \<le> 2 ^ 32" "max_tokens b = of_nat n" "tokens b \<le> of_nat n"
    by (auto simp: bucket_ok_def)
  have "fl (tokens b - 1) \<le> fl (of_nat n)" using assms(2) n(3) by (intro fl_mono) simp_all
  also have "\<dots> = max_tokens b" using n fl_nat [of n] by simp
  finally show ?thesis using assms fl_nonneg [of "tokens b - 1"] by (simp add: bucket_ok_def)
qed

lemma bucket_new_ok: "bucket_ok fl (bucket_new fl rpm now)"
proof -
  have "unat rpm \<le> 2 ^ 32" using unat_le_max [of rpm] by simp
  moreover have "0 \<le> (of_nat (unat rpm) :: real)" by (rule of_nat_0_le_iff)
  ultimately show ?thesis unfolding bucket_ok_def bucket_new_def Let_def
    by (metis order_refl token_bucket.select_convs(1,3,4))
qed

lemma try_consume_ok: "bucket_ok fl b \<Longrightarrow> bucket_ok fl (snd (try_consume fl now b))"
  using refill_ok debit_ok by (simp add: try_consume_def Let_def)

end

lemma clamp_u32:
  "1 \<le> unat (of_int (max 1 (min x u32_max)) :: u32)"
  "int (unat (of_int (max 1 (min x u32_max)) :: u32)) = max 1 (min x u32_max)"
proof -
  let ?m = "max 1 (min x u32_max)"
  have "1 \<le> ?m" "?m < 2 ^ 32" by (simp_all add: u32_max_def)
  then have "uint (of_int ?m :: u32) = ?m" by (simp add: uint_word_of_int)
  then show "int (unat (of_int ?m :: u32)) = ?m" by (simp only: of_nat_unat)
  with \<open>1 \<le> ?m\<close> show "1 \<le> unat (of_int ?m :: u32)" by linarith
qed

sublocale rounding \<subseteq> bucket: quota_gate "bucket_step fl" "bucket_ok fl"
proof
  show "bucket_ok fl (snd (bucket_step fl t s))" if "bucket_ok fl s" for t s
    using try_consume_ok [OF that, of t]
    by (auto simp: bucket_step_def split: prod.splits bucket_outcome.splits)
  show "1 \<le> unat n" if "fst (bucket_step fl t s) = Some n" for t s n
    using that clamp_u32(1) [of u32_max] clamp_u32(1)
    by (auto simp: bucket_step_def try_consume_def Let_def split: if_splits)
qed

lemma seconds_until_bounds:
  "1 \<le> unat (seconds_until_utc_midnight now) \<and> unat (seconds_until_utc_midnight now) \<le> 86400"
proof -
  let ?m = "max 1 (min (((utc_date now * nanos_per_day + nanos_per_day) - now) div 1000000000) SECONDS_PER_DAY)"
  have "1 \<le> ?m" "?m \<le> 86400" by (simp_all add: SECONDS_PER_DAY_def)
  then have "uint (of_int ?m :: u32) = ?m" by (simp add: uint_word_of_int)
  then have "int (unat (seconds_until_utc_midnight now)) = ?m"
    by (simp add: seconds_until_utc_midnight_def Let_def)
  with \<open>1 \<le> ?m\<close> \<open>?m \<le> 86400\<close> show ?thesis by linarith
qed

interpretation daily: quota_gate "daily_step cap" "\<lambda>_. True"
proof
  show "1 \<le> unat n" if "fst (daily_step cap t s) = Some n" for t s n
    using that seconds_until_bounds [of t]
    by (auto simp: daily_step_def try_increment_def Let_def split: if_splits)
qed simp

section \<open>Double precision\<close>

text \<open>Round to nearest, ties to even, with a 53-bit significand. The values of a bucket are far from
  overflow and underflow, so the exponent is not bounded here.\<close>

definition round_even :: "real \<Rightarrow> int" where
  "round_even x =
     (if x - of_int \<lfloor>x\<rfloor> < 1 / 2 \<or> (x - of_int \<lfloor>x\<rfloor> = 1 / 2 \<and> even \<lfloor>x\<rfloor>) then \<lfloor>x\<rfloor> else \<lfloor>x\<rfloor> + 1)"

definition binade :: "real \<Rightarrow> int" where
  "binade x = \<lfloor>log 2 x\<rfloor>"

definition f64_round :: "real \<Rightarrow> real" where
  "f64_round x =
     (if x \<le> 0 then 0
      else let u = 2 powi (binade x - 52) in u * of_int (round_even (x / u)))"

lemma round_even_near: "\<bar>of_int (round_even x) - x\<bar> \<le> 1 / 2"
  unfolding round_even_def by (simp split: if_splits)

lemma round_even_int [simp]: "round_even (of_int n) = n"
  by (simp add: round_even_def)

lemma round_even_mono: "x \<le> y \<Longrightarrow> round_even x \<le> round_even y"
proof (cases "x = y")
  case False
  assume "x \<le> y"
  with False round_even_near [of x] round_even_near [of y]
  have "(of_int (round_even x) :: real) < of_int (round_even y) + 1" by linarith
  then show ?thesis by linarith
qed simp

lemma binade_bounds:
  assumes "0 < x" shows "2 powi binade x \<le> x" "x < 2 powi (binade x + 1)"
proof -
  have "2 powr of_int (binade x) \<le> 2 powr log 2 x" "2 powr log 2 x < 2 powr of_int (binade x + 1)"
    unfolding binade_def by (simp, intro powr_less_mono) linarith+
  then have "2 powi binade x \<le> 2 powr log 2 x" "2 powr log 2 x < 2 powi (binade x + 1)"
    by (simp_all only: powr_real_of_int' zero_le_numeral zero_neq_numeral not_False_eq_True
        simp_thms numeral_neq_zero)
  then show "2 powi binade x \<le> x" "x < 2 powi (binade x + 1)"
    using assms by simp_all
qed

lemma binade_mono: "0 < x \<Longrightarrow> x \<le> y \<Longrightarrow> binade x \<le> binade y"
  unfolding binade_def by (intro floor_mono) simp

lemma f64_round_binade:
  assumes "0 < x"
  shows "2 powi binade x \<le> f64_round x" "f64_round x \<le> 2 powi (binade x + 1)"
proof -
  let ?u = "2 powi (binade x - 52) :: real"
  have u: "0 < ?u" by simp
  have lo: "of_int (2 ^ 52) * ?u = 2 powi binade x" and hi: "of_int (2 ^ 53) * ?u = 2 powi (binade x + 1)"
    by (simp_all add: power_int_diff power_int_add field_simps)
  have "of_int (2 ^ 52) \<le> x / ?u" "x / ?u \<le> of_int (2 ^ 53)"
    using binade_bounds [OF assms] u unfolding lo [symmetric] hi [symmetric]
    by (simp_all add: field_simps)
  then have "2 ^ 52 \<le> round_even (x / ?u)" "round_even (x / ?u) \<le> 2 ^ 53"
    using round_even_mono round_even_int by metis+
  then have "of_int (2 ^ 52) * ?u \<le> of_int (round_even (x / ?u)) * ?u"
    "of_int (round_even (x / ?u)) * ?u \<le> of_int (2 ^ 53) * ?u"
    using u by (intro mult_right_mono; simp)+
  moreover have "f64_round x = of_int (round_even (x / ?u)) * ?u"
    using assms by (simp add: f64_round_def Let_def)
  ultimately show "2 powi binade x \<le> f64_round x" "f64_round x \<le> 2 powi (binade x + 1)"
    unfolding lo hi by simp_all
qed

lemma f64_round_mono:
  assumes "0 \<le> x" "x \<le> y" shows "f64_round x \<le> f64_round y"
proof (cases "x = 0")
  case True
  have "0 \<le> f64_round y" if "0 < y"
    using f64_round_binade(1) [OF that] by (meson order_trans zero_le_power_int zero_le_numeral)
  with True show ?thesis by (cases "0 < y") (simp_all add: f64_round_def)
next
  case False
  with assms have pos: "0 < x" "0 < y" by simp_all
  show ?thesis
  proof (cases "binade x = binade y")
    case True
    let ?u = "2 powi (binade y - 52) :: real"
    have "round_even (x / ?u) \<le> round_even (y / ?u)"
      using assms(2) by (intro round_even_mono divide_right_mono) simp_all
    with pos True show ?thesis by (simp add: f64_round_def Let_def)
  next
    case False
    with binade_mono [OF pos(1) assms(2)] have "binade x + 1 \<le> binade y" by simp
    then have "(2::real) powi (binade x + 1) \<le> 2 powi binade y" by (intro power_int_increasing) simp_all
    with f64_round_binade(2) [OF pos(1)] f64_round_binade(1) [OF pos(2)] show ?thesis by linarith
  qed
qed

lemma f64_round_nat:
  assumes "n < 2 ^ 53" shows "f64_round (of_nat n) = of_nat n"
proof (cases "n = 0")
  case False
  let ?e = "binade (of_nat n)"
  have "(of_nat n :: real) < 2 ^ 53"
    using assms by (metis of_nat_less_iff of_nat_numeral of_nat_power)
  then have "(2::real) powi ?e < 2 powi 53"
    using binade_bounds(1) [of "of_nat n"] False by simp
  then have e: "?e \<le> 52" using power_int_increasing [of 53 ?e "2::real"] by fastforce
  obtain k where k: "52 - ?e = int k" using e by (metis diff_ge_0_iff_ge nonneg_int_cases)
  have u: "(2::real) powi (?e - 52) = 1 / 2 ^ k"
    using k by (metis minus_diff_eq power_int_minus_divide power_int_of_nat)
  have "of_nat n / (1 / 2 ^ k :: real) = of_int (int (n * 2 ^ k))" by simp
  then have "round_even (of_nat n / (1 / 2 ^ k)) = int (n * 2 ^ k)" by (simp only: round_even_int)
  with False show ?thesis by (simp add: f64_round_def Let_def u)
qed (simp add: f64_round_def)

interpretation f64: rounding f64_round
  using f64_round_mono f64_round_nat by unfold_locales

text \<open>Exact arithmetic.\<close>

definition ideal :: "real \<Rightarrow> real" where
  "ideal x = x"

interpretation exact: rounding ideal
  by unfold_locales (simp_all add: ideal_def)

section \<open>Bursts, rates and waiting times\<close>

context rounding
begin

lemma secs_0 [simp]: "as_secs_f64 fl 0 = 0"
  by (simp add: as_secs_f64_def)

lemma step_same_instant:
  assumes "tokens b = of_nat n" "n < 2 ^ 53" "of_nat n \<le> max_tokens b" "last_refill_at b = t"
  shows "if 0 < n then bucket_step fl t b = (None, b\<lparr>tokens := of_nat (n - 1)\<rparr>)
         else \<exists>r. bucket_step fl t b = (Some r, b)"
proof -
  have refill: "refill fl t b = b"
    using assms fl_nat [OF assms(2)] by (cases b) (simp add: refill_def Let_def min_def)
  show ?thesis
  proof (cases "0 < n")
    case True
    have "fl (of_nat n - 1) = of_nat (n - 1)"
      using True assms(2) fl_nat [of "n - 1"] by (simp add: of_nat_diff)
    with True assms refill show ?thesis by (simp add: bucket_step_def try_consume_def Let_def)
  next
    case False
    with assms refill show ?thesis by (simp add: bucket_step_def try_consume_def Let_def)
  qed
qed

lemma burst:
  assumes "tokens b = of_nat n" "n < 2 ^ 53" "of_nat n \<le> max_tokens b" "last_refill_at b = t"
  shows "\<exists>rs b'. run_ops (bucket_step fl) (replicate (n + m) t) b = (replicate n None @ rs, b') \<and>
           length rs = m \<and> None \<notin> set rs"
  using assms
proof (induction n arbitrary: b)
  case 0
  have "\<exists>rs. run_ops (bucket_step fl) (replicate m t) b = (rs, b) \<and> length rs = m \<and> None \<notin> set rs"
    using step_same_instant [OF 0] by (induction m) (auto simp: case_prod_beta)
  then show ?case by auto
next
  case (Suc n)
  let ?b = "b\<lparr>tokens := of_nat n\<rparr>"
  have "bucket_step fl t b = (None, ?b)" using step_same_instant [OF Suc.prems] by simp
  moreover have "\<exists>rs b'. run_ops (bucket_step fl) (replicate (n + m) t) ?b = (replicate n None @ rs, b') \<and>
      length rs = m \<and> None \<notin> set rs"
    using Suc.prems by (intro Suc.IH) simp_all
  ultimately show ?case by auto
qed

end

lemma secs_exact: "as_secs_f64 ideal d = of_nat d / 1000000000"
proof -
  have "of_nat d = (of_nat (d div 1000000000) * 1000000000 + of_nat (d mod 1000000000) :: real)"
    by (metis div_mult_mod_eq of_nat_add of_nat_mult of_nat_numeral)
  then show ?thesis by (simp add: as_secs_f64_def ideal_def field_simps)
qed

lemma bucket_step_fields:
  "last_refill_at (snd (bucket_step fl t b)) = t" "refill_per_sec (snd (bucket_step fl t b)) = refill_per_sec b"
  "max_tokens (snd (bucket_step fl t b)) = max_tokens b"
  by (simp_all add: bucket_step_def try_consume_def refill_def Let_def)

lemma step_exact_potential:
  assumes "last_refill_at b \<le> t"
  shows "tokens (snd (bucket_step ideal t b)) + (if fst (bucket_step ideal t b) = None then 1 else 0) \<le>
           tokens b + refill_per_sec b * (of_nat t - of_nat (last_refill_at b)) / 1000000000"
  using assms
  by (simp add: bucket_step_def try_consume_def refill_def Let_def secs_exact of_nat_diff mult.commute
      min_le_iff_disj ideal_def)

lemma run_exact_potential:
  assumes "sorted (last_refill_at b # ts)"
  shows "tokens (snd (run_ops (bucket_step ideal) ts b)) +
           of_nat (count_list (fst (run_ops (bucket_step ideal) ts b)) None) \<le>
         tokens b + refill_per_sec b * (of_nat (last (last_refill_at b # ts)) - of_nat (last_refill_at b)) / 1000000000"
  using assms
proof (induction ts arbitrary: b)
  case (Cons t ts)
  let ?b = "snd (bucket_step ideal t b)"
  note f = bucket_step_fields [of ideal t b]
  have "sorted (last_refill_at ?b # ts)" using Cons.prems f(1) by (simp only: sorted_simps(2)) simp
  from Cons.IH [OF this]
  have IH: "tokens (snd (run_ops (bucket_step ideal) ts ?b)) +
      of_nat (count_list (fst (run_ops (bucket_step ideal) ts ?b)) None) \<le>
      tokens ?b + refill_per_sec b * (of_nat (last (t # ts)) - of_nat t) / 1000000000"
    by (simp only: f)
  have "refill_per_sec b * (of_nat (last (t # ts)) - of_nat t) / 1000000000 +
      refill_per_sec b * (of_nat t - of_nat (last_refill_at b)) / 1000000000 =
      refill_per_sec b * (of_nat (last (t # ts)) - of_nat (last_refill_at b)) / 1000000000"
    by (simp add: field_simps)
  with IH step_exact_potential [of b t] Cons.prems show ?case
    by (auto simp add: case_prod_beta split: if_splits)
qed simp

lemma wait_suffices:
  assumes ok: "bucket_ok ideal b" and m: "1 \<le> max_tokens b"
    and run: "try_consume ideal now b = (BucketLimited n, b')"
    and t: "now + unat n * 1000000000 \<le> t"
  shows "fst (try_consume ideal t b') = BucketAllowed"
proof -
  let ?r = "refill ideal now b" and ?s = "(1 - tokens (refill ideal now b)) / (max_tokens b / 60)"
  have rate: "refill_per_sec b = max_tokens b / 60" using ok by (simp add: bucket_ok_def ideal_def)
  have r: "bucket_ok ideal ?r" using exact.refill_ok [OF ok] .
  then have tok: "0 \<le> tokens ?r" by (simp add: bucket_ok_def)
  have low: "tokens ?r < 1" and b': "b' = ?r"
    using run by (auto simp: try_consume_def Let_def split: if_splits)
  have fields: "refill_per_sec ?r = max_tokens b / 60" "max_tokens ?r = max_tokens b" "last_refill_at ?r = now"
    by (simp_all add: refill_def Let_def rate)
  have n: "n = of_int (max 1 (min \<lceil>?s\<rceil> u32_max))"
    using run low m by (auto simp: try_consume_def Let_def fields ideal_def)
  have "?s \<le> 60" using m tok by (simp add: field_simps)
  then have "min \<lceil>?s\<rceil> u32_max = \<lceil>?s\<rceil>" by (simp add: u32_max_def min_def ceiling_le_iff)
  then have "int (unat n) = max 1 \<lceil>?s\<rceil>" using clamp_u32(2) [of "\<lceil>?s\<rceil>"] n by simp
  then have "\<lceil>?s\<rceil> \<le> int (unat n)" by simp
  then have "?s \<le> of_nat (unat n)" by (simp add: ceiling_le_iff)
  then have "1 \<le> tokens ?r + of_nat (unat n) * (max_tokens b / 60)"
    using m by (simp add: field_simps)
  moreover have "of_nat (unat n) \<le> of_nat (t - now) / (1000000000 :: real)"
  proof -
    have "unat n * 1000000000 \<le> t - now" using t by simp
    then have "(of_nat (unat n * 1000000000) :: real) \<le> of_nat (t - now)" by (simp only: of_nat_le_iff)
    then show ?thesis by (simp add: field_simps)
  qed
  then have "of_nat (unat n) * (max_tokens b / 60) \<le> of_nat (t - now) / 1000000000 * (max_tokens b / 60)"
    using m by (intro mult_right_mono) simp_all
  moreover have "tokens (refill ideal t ?r) =
      min (of_nat (t - now) / 1000000000 * (max_tokens b / 60) + tokens ?r) (max_tokens b)"
    unfolding refill_def [of ideal t ?r] by (simp add: Let_def secs_exact ideal_def fields)
  ultimately have "1 \<le> tokens (refill ideal t ?r)"
    using m by (simp only: min.bounded_iff simp_thms)
  then show ?thesis by (simp add: b' try_consume_def Let_def)
qed

lemma run_max_tokens: "max_tokens (snd (run_ops (bucket_step fl) ts b)) = max_tokens b"
  by (induction ts arbitrary: b) (simp_all add: case_prod_beta bucket_step_fields)

context rounding
begin

lemma bucket_run_ok:
  "bucket_ok fl b \<Longrightarrow> bucket_ok fl (snd (run_ops (bucket_step fl) ts b)) \<and>
     (\<forall>n. Some n \<in> set (fst (run_ops (bucket_step fl) ts b)) \<longrightarrow> 1 \<le> unat n)"
  by (rule bucket.run_ok)

end

section \<open>Daily caps\<close>

definition on_day :: "int \<Rightarrow> int list \<Rightarrow> nat" where
  "on_day d ts = length (filter (\<lambda>t. utc_date t = d) ts)"

definition allowed_on_day :: "int \<Rightarrow> int list \<Rightarrow> u32 option list \<Rightarrow> nat" where
  "allowed_on_day d ts rs = length (filter (\<lambda>(t, r). utc_date t = d \<and> r = None) (zip ts rs))"

definition used_on :: "int \<Rightarrow> daily_counter \<Rightarrow> nat" where
  "used_on d c = (if dc_date c = d then unat (dc_count c) else 0)"

lemma utc_date_mono: "t \<le> t' \<Longrightarrow> utc_date t \<le> utc_date t'"
  unfolding utc_date_def by (rule zdiv_mono1) (simp_all add: nanos_per_day_def)

lemma sat_add_1: "c < cap \<Longrightarrow> unat (sat_add c 1) = Suc (unat c)" for c cap :: u32
  using unat_le_max [of cap] by (simp add: unat_sat_add word_less_nat_alt)

lemma daily_step_eq:
  assumes "dc_date c \<le> utc_date t"
  shows "dc_date (snd (daily_step cap t c)) = utc_date t"
    and "fst (daily_step cap t c) = None \<longleftrightarrow> used_on (utc_date t) c < unat cap"
    and "used_on (utc_date t) (snd (daily_step cap t c)) =
           used_on (utc_date t) c + (if used_on (utc_date t) c < unat cap then 1 else 0)"
  using assms
  by (auto simp: daily_step_def try_increment_def Let_def used_on_def sat_add_1 word_le_nat_alt
      word_less_nat_alt split: if_splits)

lemma used_on_later: "d \<noteq> utc_date t \<Longrightarrow> dc_date c = utc_date t \<Longrightarrow> used_on d c = 0"
  by (simp add: used_on_def)

lemma daily_run:
  assumes "sorted ts" "\<forall>t\<in>set ts. dc_date c \<le> utc_date t"
  shows "allowed_on_day d ts (fst (run_ops (daily_step cap) ts c)) = min (unat cap - used_on d c) (on_day d ts)"
  using assms
proof (induction ts arbitrary: c)
  case Nil
  then show ?case by (simp add: allowed_on_day_def on_day_def)
next
  case (Cons t ts)
  let ?c = "snd (daily_step cap t c)"
  note st = daily_step_eq [of c t cap]
  have date: "dc_date ?c = utc_date t" using st(1) Cons.prems by simp
  have IH: "allowed_on_day d ts (fst (run_ops (daily_step cap) ts ?c)) = min (unat cap - used_on d ?c) (on_day d ts)"
    using Cons.prems date utc_date_mono by (intro Cons.IH) auto
  have split: "allowed_on_day d (t # ts) (fst (run_ops (daily_step cap) (t # ts) c)) =
      (if utc_date t = d \<and> fst (daily_step cap t c) = None then 1 else 0) +
      allowed_on_day d ts (fst (run_ops (daily_step cap) ts ?c))"
    by (simp add: allowed_on_day_def case_prod_beta)
  show ?case
  proof (cases "utc_date t = d")
    case True
    with Cons.prems IH split st show ?thesis by (auto simp: on_day_def)
  next
    case False
    have "on_day d ts = 0" if "dc_date c = d"
      using that False Cons.prems utc_date_mono by (fastforce simp: on_day_def filter_empty_conv)
    with False IH split used_on_later [OF _ date] show ?thesis
      by (auto simp: on_day_def used_on_def date)
  qed
qed

section \<open>Properties\<close>

text \<open>The bucket never overdraws and never exceeds its capacity, whatever the sequence of times, for
  every rounding function that is monotone and exact on small integers (double precision is one): the
  credit stays between zero and the configured limit.\<close>

theorem bucket_stays_in_bounds:
  assumes "rounding fl"
  shows "0 \<le> tokens (snd (run_ops (bucket_step fl) ts (bucket_new fl rpm t0))) \<and>
         tokens (snd (run_ops (bucket_step fl) ts (bucket_new fl rpm t0))) \<le> of_nat (unat rpm)"
proof -
  have "max_tokens (snd (run_ops (bucket_step fl) ts (bucket_new fl rpm t0))) = of_nat (unat rpm)"
    by (simp add: run_max_tokens) (simp add: bucket_new_def Let_def)
  moreover have "bucket_ok fl (snd (run_ops (bucket_step fl) ts (bucket_new fl rpm t0)))"
    using rounding.bucket_run_ok [OF assms rounding.bucket_new_ok [OF assms]] by simp
  ultimately show ?thesis by (simp add: bucket_ok_def)
qed

theorem bucket_stays_in_bounds_witness:
  "tokens (snd (run_ops (bucket_step f64_round) [5, 6, 7] (bucket_new f64_round 2 0))) \<le> 2"
  using bucket_stays_in_bounds [OF f64.rounding_axioms, of "[5, 6, 7]" 2 0] by simp

text \<open>A burst: of any number of requests at the instant the bucket is made, exactly the configured
  number is let through, then every one is refused with a waiting time of at least one second.\<close>

theorem bucket_burst:
  assumes "rounding fl"
  shows "\<exists>rs b'. run_ops (bucket_step fl) (replicate (unat rpm + m) t) (bucket_new fl rpm t) =
                   (replicate (unat rpm) None @ rs, b') \<and>
                 length rs = m \<and> (\<forall>r\<in>set rs. \<exists>n. r = Some n \<and> 1 \<le> unat n)"
proof -
  have "unat rpm < 2 ^ 53" using unat_le_max [of rpm] by simp
  then obtain rs b' where run: "run_ops (bucket_step fl) (replicate (unat rpm + m) t) (bucket_new fl rpm t) =
      (replicate (unat rpm) None @ rs, b')" "length rs = m" "None \<notin> set rs"
    using rounding.burst [OF assms, of "bucket_new fl rpm t" "unat rpm" t m]
    by (auto simp: bucket_new_def Let_def)
  have "\<forall>n. Some n \<in> set (replicate (unat rpm) None @ rs) \<longrightarrow> 1 \<le> unat n"
    using rounding.bucket_run_ok [OF assms rounding.bucket_new_ok [OF assms]] run(1)
    by (metis fst_conv)
  then have "\<forall>r\<in>set rs. \<exists>n. r = Some n \<and> 1 \<le> unat n"
    using run(3) by (metis UnCI not_None_eq set_append)
  with run(1,2) show ?thesis by blast
qed

theorem bucket_burst_witness:
  "\<exists>n b'. run_ops (bucket_step f64_round) [9, 9, 9] (bucket_new f64_round 2 9) =
     ([None, None, Some n], b') \<and> 1 \<le> unat n"
proof -
  have u: "unat (2 :: u32) = 2" by simp
  have r: "replicate (2 + 1) (9 :: nat) = [9, 9, 9]" "replicate 2 None = [None, None :: u32 option]"
    by (simp_all add: numeral_eq_Suc)
  have "\<exists>rs b'. run_ops (bucket_step f64_round) [9, 9, 9] (bucket_new f64_round 2 9) =
      ([None, None] @ rs, b') \<and> length rs = 1 \<and> (\<forall>r\<in>set rs. \<exists>n. r = Some n \<and> 1 \<le> unat n)"
    using bucket_burst [OF f64.rounding_axioms, of 2 1 9] unfolding u r by simp
  then show ?thesis by (auto simp: length_Suc_conv)
qed



text \<open>The waiting time is honest, in exact arithmetic: with a limit of at least one request per
  minute, a client that waits as long as the refusal said is let through.\<close>

theorem retry_after_suffices:
  assumes "bucket_ok ideal b" "1 \<le> max_tokens b" "try_consume ideal now b = (BucketLimited n, b')"
    and "now + unat n * 1000000000 \<le> t"
  shows "fst (try_consume ideal t b') = BucketAllowed"
  using assms by (rule wait_suffices)

definition drained :: token_bucket where
  "drained = \<lparr>tokens = 0, last_refill_at = 0, max_tokens = 20, refill_per_sec = 20 / 60\<rparr>"

theorem retry_after_suffices_witness:
  "fst (try_consume ideal 0 drained) = BucketLimited 3 \<and>
   fst (try_consume ideal 3000000000 (snd (try_consume ideal 0 drained))) = BucketAllowed"
proof -
  have "bucket_ok ideal drained"
    by (auto simp: bucket_ok_def drained_def ideal_def intro!: exI [of _ 20])
  moreover have run: "try_consume ideal 0 drained = (BucketLimited 3, drained)"
    by (simp add: try_consume_def refill_def drained_def Let_def secs_exact ideal_def u32_max_def)
  ultimately show ?thesis
    using retry_after_suffices [of drained 0 3 drained 3000000000] by (simp add: drained_def)
qed

text \<open>The daily cap is exact: for a fresh counter and non-decreasing times, the requests let through
  on a UTC day are the requests of that day up to the cap, and every refusal asks for a wait between one
  second and one day.\<close>

theorem daily_cap_exact:
  assumes "sorted (t0 # ts)"
  shows "allowed_on_day d ts (fst (run_ops (daily_step cap) ts (daily_new t0))) = min (unat cap) (on_day d ts) \<and>
         (\<forall>now. 1 \<le> unat (seconds_until_utc_midnight now) \<and> unat (seconds_until_utc_midnight now) \<le> 86400)"
proof -
  have "used_on d (daily_new t0) = 0" by (simp add: used_on_def daily_new_def)
  moreover have "\<forall>t\<in>set ts. dc_date (daily_new t0) \<le> utc_date t"
    using assms utc_date_mono by (simp add: daily_new_def)
  ultimately show ?thesis
    using daily_run [of ts "daily_new t0" d cap] assms seconds_until_bounds by simp
qed

theorem daily_cap_exact_witness:
  "allowed_on_day 0 [1, 2, 3] (fst (run_ops (daily_step 2) [1, 2, 3] (daily_new 0))) = 2"
  using daily_cap_exact [of 0 "[1, 2, 3]" 0 2]
  by (simp add: on_day_def utc_date_def nanos_per_day_def)

text \<open>The two gates of the middleware for one key leave every other key's bucket and counter and the
  configuration as they were, and a refusal, in double precision, always carries a positive waiting
  time. The state keeps only well-formed buckets.\<close>

theorem rate_limit_isolated:
  assumes "\<forall>k b. hm_get (rate_buckets st) k = Some b \<longrightarrow> bucket_ok f64_round b"
    and "rate_limit_check f64_round ck key st = (r, st')"
  shows "st_config st' = st_config st \<and>
    (\<forall>k. k \<noteq> key \<longrightarrow> hm_get (rate_buckets st') k = hm_get (rate_buckets st) k \<and>
                      hm_get (daily_counts st') k = hm_get (daily_counts st) k) \<and>
    (\<forall>k b. hm_get (rate_buckets st') k = Some b \<longrightarrow> bucket_ok f64_round b) \<and>
    (\<forall>n. r = Some n \<longrightarrow> 1 \<le> unat n)"
proof -
  let ?b = "case hm_get (rate_buckets st) key of Some b \<Rightarrow> b
            | None \<Rightarrow> bucket_new f64_round (default_rate_limit_per_min (st_config st)) (ck_new ck)"
  have b: "bucket_ok f64_round ?b"
    using assms(1) f64.bucket_new_ok by (auto split: option.split)
  obtain o1 b' where c: "try_consume f64_round (ck_consume ck) ?b = (o1, b')" by fastforce
  then have ok: "bucket_ok f64_round b'" using f64.try_consume_ok [OF b, of "ck_consume ck"] by simp
  have wait1: "1 \<le> unat n" if "o1 = BucketLimited n" for n
    using f64.bucket.refusal_waits [OF b, of "ck_consume ck" n] c that by (simp add: bucket_step_def)
  have wait2: "1 \<le> unat n" if "try_increment (ck_utc ck) cap dc = (CapReached n, dc')" for n cap dc dc'
    using daily.refusal_waits [where cap = cap and s = dc and t = "ck_utc ck" and n = n] that
    by (simp add: daily_step_def case_prod_beta)
  show ?thesis
  proof (cases o1)
    case (BucketLimited n)
    with c assms ok wait1 show ?thesis
      by (auto simp: rate_limit_check_def bucket_gate_def Let_def split: if_splits)
  next
    case BucketAllowed
    with c assms(2) have "daily_gate ck key (st\<lparr>rate_buckets := hm_insert key b' (rate_buckets st)\<rparr>) =
        ((case r of None \<Rightarrow> DailyAllowed | Some n \<Rightarrow> CapReached n), st')"
      by (auto simp: rate_limit_check_def bucket_gate_def Let_def split: prod.splits daily_outcome.splits)
    with assms(1) ok wait2 show ?thesis
      by (auto simp: daily_gate_def Let_def split: prod.splits option.splits if_splits)
  qed
qed

theorem rate_limit_isolated_witness:
  "\<exists>r st'. rate_limit_check f64_round \<lparr>ck_new = 0, ck_consume = 1, ck_utc = 2\<rparr> ''k''
      (app_state_new \<lparr>jwt_secret = ''s'', default_rate_limit_per_min = 1, default_daily_cap = 1\<rparr>) = (r, st') \<and>
    hm_get (rate_buckets st') ''other'' = None"
proof -
  let ?st = "app_state_new \<lparr>jwt_secret = ''s'', default_rate_limit_per_min = 1, default_daily_cap = 1\<rparr>"
  obtain r st' where run: "rate_limit_check f64_round \<lparr>ck_new = 0, ck_consume = 1, ck_utc = 2\<rparr> ''k'' ?st = (r, st')"
    by fastforce
  from rate_limit_isolated [OF _ this] have "hm_get (rate_buckets st') ''other'' = None"
    by (simp add: app_state_new_def)
  with run show ?thesis by blast
qed

end
