(* ===== verification/Image_Studio.thy ===== *)
theory Image_Studio
  imports Complex_Main Prelude "HOL-Library.Product_Lexorder"
begin

text \<open>
  The cost/quality router of image providers (\<open>crates/diaspor-imagegen/src\<close>: \<open>domain.rs\<close>,
  \<open>ports.rs\<close>, \<open>studio.rs\<close>).

  A provider is its profile and its \<open>generate\<close> method, which may do anything to the outside world
  (the state \<open>'s\<close>). Costs are finite \<open>f64\<close> numbers, here reals; \<open>sort_by\<close> is a stable sort, so the ranking
  is \<open>sort_key\<close> for the lexicographic key each policy compares by. The lemmas show that the ranking is
  a permutation of the eligible providers in the policy's order, that its head is optimal, and that the
  fall-back loop returns the first success in ranking order and otherwise the last error.
\<close>

datatype image_error =
    NoProvider string
  | NotConfigured (ie_provider: string) (ie_reason: string)
  | Provider (ie_provider: string) (ie_message: string)
  | Codec string
  | InvalidRequest string

datatype image_format = Png | Jpeg | Webp

fun mime :: "image_format \<Rightarrow> string" where
  "mime Png = ''image/png''"
| "mime Jpeg = ''image/jpeg''"
| "mime Webp = ''image/webp''"

record image =
  im_bytes :: bytes
  im_format :: image_format
  im_width :: u32
  im_height :: u32

record generate_request =
  gr_prompt :: string
  gr_width :: u32
  gr_height :: u32
  gr_negative_prompt :: "string option"
  gr_seed :: "u64 option"

definition generate_request_new :: "string \<Rightarrow> u32 \<Rightarrow> u32 \<Rightarrow> generate_request" where
  "generate_request_new p w h =
     \<lparr>gr_prompt = p, gr_width = w, gr_height = h, gr_negative_prompt = None, gr_seed = None\<rparr>"

text \<open>\<open>trimmed_empty\<close> is \<open>str::trim().is_empty()\<close>: all characters are white space.\<close>

definition generate_validate :: "(string \<Rightarrow> bool) \<Rightarrow> generate_request \<Rightarrow> (image_error, unit) outcome" where
  "generate_validate trimmed_empty r =
     (if trimmed_empty (gr_prompt r) then Err (InvalidRequest ''empty prompt'')
      else if gr_width r = 0 \<or> gr_height r = 0 then Err (InvalidRequest ''zero-sized canvas'')
      else Ok ())"

record layer =
  ly_image :: image
  ly_opacity :: real
  ly_offset :: "int \<times> int"

definition layer_new :: "image \<Rightarrow> layer" where
  "layer_new im = \<lparr>ly_image = im, ly_opacity = 1, ly_offset = (0, 0)\<rparr>"

definition with_opacity :: "real \<Rightarrow> layer \<Rightarrow> layer" where
  "with_opacity o' l = l\<lparr>ly_opacity := max 0 (min 1 o')\<rparr>"

record composite_request =
  cr_instruction :: string
  cr_layers :: "layer list"
  cr_width :: u32
  cr_height :: u32

definition composite_validate :: "composite_request \<Rightarrow> (image_error, unit) outcome" where
  "composite_validate r =
     (if cr_layers r = [] then Err (InvalidRequest ''no layers to composite'')
      else if cr_width r = 0 \<or> cr_height r = 0 then Err (InvalidRequest ''zero-sized canvas'')
      else Ok ())"

record provider_profile =
  pf_name :: string
  pf_quality :: u8
  pf_cost :: real
  pf_supports_compose :: bool
  pf_offline :: bool

datatype policy = CostOptimized | QualityFirst | Balanced real

text \<open>The ports. \<open>show_cost\<close> below is the formatting of a cost with four decimals.\<close>

record 's generator =
  g_profile :: provider_profile
  g_generate :: "generate_request \<Rightarrow> ('s, image_error, image) act"

record 's compositor =
  c_profile :: provider_profile
  c_composite :: "composite_request \<Rightarrow> ('s, image_error, image) act"

record 's image_studio =
  sd_generators :: "'s generator list"
  sd_compositor :: "'s compositor"

definition policy_str :: "(real \<Rightarrow> string) \<Rightarrow> policy \<Rightarrow> string" where
  "policy_str show_cost p =
     (case p of
        CostOptimized \<Rightarrow> ''cost-optimized''
      | QualityFirst \<Rightarrow> ''quality-first''
      | Balanced c \<Rightarrow> ''balanced(<= $'' @ show_cost c @ '')'')"

definition eligible :: "policy \<Rightarrow> 's generator \<Rightarrow> bool" where
  "eligible p g = (case p of Balanced c \<Rightarrow> pf_cost (g_profile g) \<le> c | _ \<Rightarrow> True)"

text \<open>The comparison of a policy as a lexicographic key: cheapest first and better quality among equals,
  or best quality first and cheaper among equals.\<close>

definition rank_key :: "policy \<Rightarrow> 's generator \<Rightarrow> real \<times> real" where
  "rank_key p g =
     (let cost = pf_cost (g_profile g); quality = - of_nat (unat (pf_quality (g_profile g)))
      in case p of CostOptimized \<Rightarrow> (cost, quality) | _ \<Rightarrow> (quality, cost))"

definition ranked_generators :: "'s image_studio \<Rightarrow> policy \<Rightarrow> 's generator list" where
  "ranked_generators st p = sort_key (rank_key p) (filter (eligible p) (sd_generators st))"

definition select_generator ::
    "(real \<Rightarrow> string) \<Rightarrow> 's image_studio \<Rightarrow> policy \<Rightarrow> (image_error, 's generator) outcome" where
  "select_generator show_cost st p =
     (case ranked_generators st p of
        [] \<Rightarrow> Err (NoProvider (policy_str show_cost p))
      | g # _ \<Rightarrow> Ok g)"

fun try_in_order ::
    "image_error option \<Rightarrow> image_error \<Rightarrow> generate_request \<Rightarrow> 's generator list \<Rightarrow> ('s, image_error, image) act" where
  "try_in_order last_error none_error r [] s =
     (Err (case last_error of Some e \<Rightarrow> e | None \<Rightarrow> none_error), s)"
| "try_in_order last_error none_error r (g # gs) s =
     (case g_generate g r s of
        (Ok im, s') \<Rightarrow> (Ok im, s')
      | (Err e, s') \<Rightarrow> try_in_order (Some e) none_error r gs s'
      | (Panic, s') \<Rightarrow> (Panic, s'))"

definition studio_generate ::
    "(real \<Rightarrow> string) \<Rightarrow> 's image_studio \<Rightarrow> generate_request \<Rightarrow> policy \<Rightarrow> ('s, image_error, image) act" where
  "studio_generate show_cost st r p s =
     (let ranked = ranked_generators st p; none_error = NoProvider (policy_str show_cost p) in
      if ranked = [] then (Err none_error, s)
      else try_in_order None none_error r ranked s)"

fun generate_layers ::
    "(generate_request \<Rightarrow> ('s, image_error, image) act) \<Rightarrow> generate_request list \<Rightarrow> ('s, image_error, layer list) act" where
  "generate_layers gen [] s = (Ok [], s)"
| "generate_layers gen (r # rs) s =
     and_then (gen r) (\<lambda>im.
       and_then (generate_layers gen rs) (\<lambda>ls s. (Ok (layer_new im # ls), s))) s"

definition generate_and_compose ::
    "(real \<Rightarrow> string) \<Rightarrow> 's image_studio \<Rightarrow> generate_request list \<Rightarrow> string \<Rightarrow> u32 \<Rightarrow> u32 \<Rightarrow> policy \<Rightarrow>
     ('s, image_error, image) act" where
  "generate_and_compose show_cost st prompts instruction w h p s =
     (if prompts = [] then (Err (InvalidRequest ''no prompts to generate''), s)
      else and_then (generate_layers (\<lambda>r. studio_generate show_cost st r p) prompts) (\<lambda>ls.
             c_composite (sd_compositor st)
               \<lparr>cr_instruction = instruction, cr_layers = ls, cr_width = w, cr_height = h\<rparr>) s)"

definition studio_build ::
    "'s generator list \<Rightarrow> 's compositor option \<Rightarrow> (image_error, 's image_studio) outcome" where
  "studio_build gens co =
     (if gens = [] then Err (NoProvider ''no generators registered'')
      else case co of
        None \<Rightarrow> Err (NoProvider ''no compositor registered'')
      | Some c \<Rightarrow> Ok \<lparr>sd_generators = gens, sd_compositor = c\<rparr>)"

section \<open>The ranking\<close>

lemma ranked_set: "set (ranked_generators st p) = {g \<in> set (sd_generators st). eligible p g}"
  by (auto simp: ranked_generators_def)

lemma ranked_sorted: "sorted (map (rank_key p) (ranked_generators st p))"
  by (simp add: ranked_generators_def)

lemma rank_key_le_iff:
  "rank_key p g \<le> rank_key p g' \<longleftrightarrow>
     (let c = pf_cost (g_profile g); c' = pf_cost (g_profile g');
          q = unat (pf_quality (g_profile g)); q' = unat (pf_quality (g_profile g'))
      in if p = CostOptimized then c < c' \<or> (c = c' \<and> q' \<le> q) else q' < q \<or> (q = q' \<and> c \<le> c'))"
  by (cases p) (auto simp: rank_key_def Let_def less_eq_prod_simp simp del: of_nat_unat)

lemma select_Ok:
  assumes "select_generator sc st p = Ok g"
  shows "g \<in> set (sd_generators st)" "eligible p g"
    "\<And>g'. g' \<in> set (sd_generators st) \<Longrightarrow> eligible p g' \<Longrightarrow> rank_key p g \<le> rank_key p g'"
proof -
  obtain gs where gs: "ranked_generators st p = g # gs"
    using assms by (auto simp: select_generator_def split: list.splits)
  then have "g \<in> set (ranked_generators st p)" by simp
  then show "g \<in> set (sd_generators st)" "eligible p g" by (auto simp: ranked_set)
  fix g'
  assume "g' \<in> set (sd_generators st)" "eligible p g'"
  then have "g' \<in> set (g # gs)" using ranked_set [of st p] gs by auto
  with ranked_sorted [of p st] gs show "rank_key p g \<le> rank_key p g'" by auto
qed

section \<open>The fall-back loop\<close>

text \<open>For providers whose answer does not depend on the state.\<close>

lemma try_in_order_pure:
  assumes "\<And>g s. g \<in> set gs \<Longrightarrow> fst (g_generate g r s) = ans g" "\<And>g. g \<in> set gs \<Longrightarrow> ans g \<noteq> Panic"
  shows "fst (try_in_order le ne r gs s) =
     (case filter (\<lambda>g. \<exists>im. ans g = Ok im) gs of
        g # _ \<Rightarrow> ans g
      | [] \<Rightarrow> if gs = [] then Err (case le of Some e \<Rightarrow> e | None \<Rightarrow> ne) else ans (last gs))"
  using assms
proof (induction gs arbitrary: le s)
  case (Cons g gs)
  obtain x s1 where g: "g_generate g r s = (x, s1)" by fastforce
  then have x: "ans g = x" using Cons.prems(1) [of g s] by simp
  have IH: "fst (try_in_order le ne r gs s') =
     (case filter (\<lambda>g. \<exists>im. ans g = Ok im) gs of g # _ \<Rightarrow> ans g
      | [] \<Rightarrow> if gs = [] then Err (case le of Some e \<Rightarrow> e | None \<Rightarrow> ne) else ans (last gs))" for le s'
    using Cons.prems by (intro Cons.IH) auto
  show ?case
  proof (cases x)
    case (Ok im)
    with g x show ?thesis by simp
  next
    case (Err e)
    with g x IH [of "Some e" s1] show ?thesis by (simp split: list.split)
  next
    case Panic
    with x Cons.prems(2) [of g] show ?thesis by simp
  qed
qed simp

section \<open>Properties\<close>

text \<open>(C32) The router picks an optimal provider: \<open>select_generator\<close> fails exactly when no registered
  provider is eligible; otherwise the provider it returns is registered and eligible, and no other
  eligible one is better. Cost first: none is cheaper, and none as cheap has higher quality. Quality first
  and balanced: none (within the budget) has higher quality, and none of equal quality is cheaper.\<close>

theorem select_optimal:
  "case select_generator sc st p of
     Ok g \<Rightarrow>
       g \<in> set (sd_generators st) \<and> eligible p g \<and>
       (\<forall>g'\<in>set (sd_generators st). eligible p g' \<longrightarrow>
          (let c = pf_cost (g_profile g); c' = pf_cost (g_profile g');
               q = unat (pf_quality (g_profile g)); q' = unat (pf_quality (g_profile g'))
           in if p = CostOptimized then c < c' \<or> (c = c' \<and> q' \<le> q) else q' < q \<or> (q = q' \<and> c \<le> c')))
   | Err e \<Rightarrow> e = NoProvider (policy_str sc p) \<and> (\<forall>g\<in>set (sd_generators st). \<not> eligible p g)
   | Panic \<Rightarrow> False"
proof (cases "select_generator sc st p")
  case (Ok g)
  note best = select_Ok(3) [OF Ok, unfolded rank_key_le_iff]
  from Ok select_Ok(1,2) [OF Ok] best show ?thesis by simp
next
  case (Err e)
  then show ?thesis using ranked_set [of st p]
    by (auto simp: select_generator_def split: list.splits)
next
  case Panic
  then show ?thesis by (simp add: select_generator_def split: list.splits)
qed

definition sample_generator :: "u8 \<Rightarrow> real \<Rightarrow> (image_error, image) outcome \<Rightarrow> unit generator" where
  "sample_generator q c r =
     \<lparr>g_profile = \<lparr>pf_name = [], pf_quality = q, pf_cost = c, pf_supports_compose = False, pf_offline = False\<rparr>,
      g_generate = (\<lambda>_ s. (r, s))\<rparr>"

definition sample_studio :: "unit generator list \<Rightarrow> unit image_studio" where
  "sample_studio gs =
     \<lparr>sd_generators = gs,
      sd_compositor = \<lparr>c_profile = \<lparr>pf_name = [], pf_quality = 0, pf_cost = 0, pf_supports_compose = True, pf_offline = True\<rparr>,
                       c_composite = (\<lambda>_ s. (Err (Codec []), s))\<rparr>\<rparr>"

theorem select_optimal_witness:
  "select_generator (\<lambda>_. []) (sample_studio [sample_generator 95 8 Panic, sample_generator 75 1 Panic]) (Balanced 2) =
     Ok (sample_generator 75 1 Panic)"
proof -
  let ?gs = "[sample_generator 95 8 Panic, sample_generator 75 1 Panic]"
  have "eligible (Balanced 2) (sample_generator 75 1 Panic)" "\<not> eligible (Balanced 2) (sample_generator 95 8 Panic)"
    by (simp_all add: eligible_def sample_generator_def)
  with select_optimal [where sc = "\<lambda>_. []" and st = "sample_studio ?gs" and p = "Balanced 2"] show ?thesis
    by (auto simp: sample_studio_def split: outcome.splits)
qed

text \<open>The fall-back is complete: when answers do not depend on earlier attempts, \<open>generate\<close> returns the
  answer of the first provider in ranking order that succeeds; it fails only when no provider is eligible
  or every eligible one fails, and then with the error of the last.\<close>

theorem generate_falls_back:
  assumes "\<And>g s. g \<in> set (sd_generators st) \<Longrightarrow> fst (g_generate g r s) = ans g"
    and "\<And>g. g \<in> set (sd_generators st) \<Longrightarrow> ans g \<noteq> Panic"
  shows "fst (studio_generate sc st r p s) =
     (let ranked = ranked_generators st p in
      case filter (\<lambda>g. \<exists>im. ans g = Ok im) ranked of
        g # _ \<Rightarrow> ans g
      | [] \<Rightarrow> if ranked = [] then Err (NoProvider (policy_str sc p)) else ans (last ranked))"
proof (cases "ranked_generators st p = []")
  case True
  then show ?thesis by (simp add: studio_generate_def)
next
  case False
  have "fst (try_in_order None (NoProvider (policy_str sc p)) r (ranked_generators st p) s) =
     (case filter (\<lambda>g. \<exists>im. ans g = Ok im) (ranked_generators st p) of
        g # _ \<Rightarrow> ans g
      | [] \<Rightarrow> if ranked_generators st p = [] then Err (NoProvider (policy_str sc p))
              else ans (last (ranked_generators st p)))"
    using try_in_order_pure [of "ranked_generators st p" r ans None] assms ranked_set [of st p] by simp
  with False show ?thesis by (simp add: studio_generate_def Let_def)
qed

definition sample_image :: image where
  "sample_image = \<lparr>im_bytes = [], im_format = Png, im_width = 8, im_height = 8\<rparr>"

theorem generate_falls_back_witness:
  "fst (studio_generate (\<lambda>_. []) (sample_studio [sample_generator 95 8 (Err (Codec [])), sample_generator 80 2 (Ok sample_image)])
          (generate_request_new ''x'' 8 8) QualityFirst ()) = Ok sample_image"
proof -
  let ?gs = "[sample_generator 95 8 (Err (Codec [])), sample_generator 80 2 (Ok sample_image)]"
  define ans where "ans = (\<lambda>g :: unit generator. fst (g_generate g (generate_request_new ''x'' 8 8) ()))"
  have "fst (studio_generate (\<lambda>_. []) (sample_studio ?gs) (generate_request_new ''x'' 8 8) QualityFirst ()) =
     (let ranked = ranked_generators (sample_studio ?gs) QualityFirst in
      case filter (\<lambda>g. \<exists>im. ans g = Ok im) ranked of
        g # _ \<Rightarrow> ans g
      | [] \<Rightarrow> if ranked = [] then Err (NoProvider (policy_str (\<lambda>_. []) QualityFirst)) else ans (last ranked))"
    by (rule generate_falls_back) (auto simp: ans_def sample_studio_def sample_generator_def)
  moreover have "ranked_generators (sample_studio ?gs) QualityFirst = ?gs"
    by (simp add: ranked_generators_def sample_studio_def eligible_def rank_key_def sample_generator_def)
  ultimately show ?thesis by (simp add: ans_def sample_generator_def)
qed

end
