(* ===== verification/Api_Server.thy ===== *)
theory Api_Server
  imports Rate_Limit Image_Studio
begin

text \<open>
  The request path of the API server (\<open>crates/diaspor-api-server/src\<close>: \<open>middleware.rs\<close>,
  \<open>rate_limit.rs\<close>, \<open>routes/*.rs\<close>, and the router of \<open>lib.rs\<close>).

  \<open>serve\<close> is one request through the router: route table, authentication, rate limit, handler. The
  extension slot of the request (\<open>rq_ext\<close>) is how the layers hand the key on. What \<open>axum\<close> itself does
  (extractor rejections, unmatched routes, the CORS, trace and body-limit layers) is either an input
  of the model (\<open>rq_rejection\<close>) or outside it. The image providers are arguments; \<open>'w\<close> is the world they
  act on.
\<close>

section \<open>Requests and replies\<close>

datatype http_method = GET | POST

record request =
  rq_method :: http_method
  rq_path :: string
  rq_headers :: headers
  rq_ext :: "api_key option"
  rq_rejection :: "nat option"
  rq_prompt :: string
  rq_dims :: "u32 \<times> u32"
  rq_policy :: string

text \<open>\<open>rq_rejection\<close> is the status with which the handler's own extractors (JSON body, query, path,
  WebSocket upgrade) reject the request, if they do; the remaining fields are the parsed body of an
  image request.\<close>

datatype reply =
    ErrorReply response
  | Rejection nat
  | Success json
  | Upgrade json
  | Unrouted

datatype endpoint =
    Analyze | GetAnalysisStatus string | Pose | FaceMesh | Prosody | Credibility | Judge
  | GenerateImage | SubmitTrain | ActivateAdapter string | Stream | Health

definition route :: "http_method \<Rightarrow> string \<Rightarrow> endpoint option" where
  "route m path =
     (case (m, split_on (\<lambda>c. c = slash) path) of
        (POST, [[], v, a]) \<Rightarrow>
          if v \<noteq> ''v1'' then None
          else if a = ''analyze'' then Some Analyze
          else if a = ''pose'' then Some Pose
          else if a = ''face-mesh'' then Some FaceMesh
          else if a = ''prosody'' then Some Prosody
          else if a = ''credibility'' then Some Credibility
          else if a = ''judge'' then Some Judge
          else if a = ''train'' then Some SubmitTrain
          else None
      | (GET, [[], v, a]) \<Rightarrow>
          if v \<noteq> ''v1'' then None
          else if a = ''stream'' then Some Stream
          else if a = ''health'' then Some Health
          else None
      | (GET, [[], v, a, i]) \<Rightarrow>
          if v = ''v1'' \<and> a = ''analyses'' \<and> i \<noteq> [] then Some (GetAnalysisStatus i) else None
      | (POST, [[], v, a, b]) \<Rightarrow>
          if v = ''v1'' \<and> a = ''images'' \<and> b = ''generate'' then Some GenerateImage else None
      | (POST, [[], v, a, i, c]) \<Rightarrow>
          if v = ''v1'' \<and> a = ''adapters'' \<and> i \<noteq> [] \<and> c = ''activate'' then Some (ActivateAdapter i) else None
      | _ \<Rightarrow> None)"

section \<open>Handlers\<close>

definition vertical_check :: "api_key \<Rightarrow> string \<Rightarrow> (api_error, unit) outcome" where
  "vertical_check key ep =
     (if is_allowed_for_credibility (key_vertical key) then Ok ()
      else Err (VerticalRefused (key_vertical key) ep))"

definition credibility :: "api_key \<Rightarrow> api_error" where
  "credibility key =
     (case vertical_check key ''/v1/credibility'' of
        Err e \<Rightarrow> e
      | _ \<Rightarrow> ApiNotImplemented ''credibility'')"

definition health :: json where
  "health = JObj [(''status'', JString ''ok''), (''version'', JString ''0.1.0-alpha.1'')]"

text \<open>\<open>parse_f64\<close> is \<open>str::parse::<f64>\<close>.\<close>

definition parse_policy :: "(string \<Rightarrow> real option) \<Rightarrow> string \<Rightarrow> (string, policy) outcome" where
  "parse_policy parse_f64 spec =
     (if spec = ''cost'' then Ok CostOptimized
      else if spec = ''quality'' then Ok QualityFirst
      else case strip_prefix ''balanced:'' spec of
        Some budget \<Rightarrow>
          (case parse_f64 budget of
             Some c \<Rightarrow> Ok (Balanced c)
           | None \<Rightarrow> Err (''invalid balanced budget: '' @ budget))
      | None \<Rightarrow> Err (''unknown policy '' @ [CHR 0x27] @ spec @ [CHR 0x27] @ '' (use cost|quality|balanced:<usd>)''))"

text \<open>The providers the environment offers: the local adapter always, the others when configured.\<close>

record 'w providers =
  pv_local :: "'w generator"
  pv_local_compositor :: "'w compositor"
  pv_openai :: "('w generator \<times> 'w compositor) option"
  pv_gemini :: "'w generator option"

definition build_studio :: "'w providers \<Rightarrow> (image_error, 'w image_studio) outcome" where
  "build_studio pv =
     studio_build
       (pv_local pv # (case pv_openai pv of Some (g, _) \<Rightarrow> [g] | None \<Rightarrow> []) @
        (case pv_gemini pv of Some g \<Rightarrow> [g] | None \<Rightarrow> []))
       (Some (case pv_openai pv of Some (_, c) \<Rightarrow> c | None \<Rightarrow> pv_local_compositor pv))"

text \<open>The parameters of an image request: number parsing and printing, base64, error messages.\<close>

record 'w image_env =
  ie_parse_f64 :: "string \<Rightarrow> real option"
  ie_show_cost :: "real \<Rightarrow> string"
  ie_base64 :: "bytes \<Rightarrow> string"
  ie_show_error :: "image_error \<Rightarrow> string"
  ie_providers :: "'w providers"

definition generate_image :: "'w image_env \<Rightarrow> request \<Rightarrow> ('w, api_error, json) act" where
  "generate_image env req w =
     (case parse_policy (ie_parse_f64 env) (rq_policy req) of
        Err m \<Rightarrow> (Err (BadRequest m), w)
      | Panic \<Rightarrow> (Panic, w)
      | Ok p \<Rightarrow>
          (case build_studio (ie_providers env) of
             Err e \<Rightarrow> (Err (Internal (''studio: '' @ ie_show_error env e)), w)
           | Panic \<Rightarrow> (Panic, w)
           | Ok st \<Rightarrow>
               (case studio_generate (ie_show_cost env) st
                       (generate_request_new (rq_prompt req) (fst (rq_dims req)) (snd (rq_dims req))) p w of
                  (Ok im, w') \<Rightarrow>
                    (Ok (JObj [(''format'', JString (mime (im_format im))), (''width'', JNum (unat (im_width im))),
                               (''height'', JNum (unat (im_height im))), (''b64_data'', JString (ie_base64 env (im_bytes im)))]), w')
                | (Err e, w') \<Rightarrow> (Err (Internal (''image generation failed: '' @ ie_show_error env e)), w')
                | (Panic, w') \<Rightarrow> (Panic, w'))))"

definition stream_frame :: json where
  "stream_frame =
     JObj [(''type'', JString ''error''), (''code'', JString ''not_implemented''),
           (''message'', JString ''M8 deliverable'')]"

text \<open>A handler behind the layers first takes the key out of the extensions.\<close>

definition reply_of :: "(api_error, json) outcome \<Rightarrow> reply option" where
  "reply_of r = (case r of Ok j \<Rightarrow> Some (Success j) | Err e \<Rightarrow> Some (ErrorReply (into_response e)) | Panic \<Rightarrow> None)"

fun endpoint_result :: "'w image_env \<Rightarrow> endpoint \<Rightarrow> api_key \<Rightarrow> request \<Rightarrow> 'w \<Rightarrow> reply option \<times> 'w" where
  "endpoint_result env Analyze key req w = (reply_of (Err (ApiNotImplemented ''analyze'')), w)"
| "endpoint_result env (GetAnalysisStatus i) key req w = (reply_of (Err (ApiNotImplemented ''analyses_get'')), w)"
| "endpoint_result env Pose key req w = (reply_of (Err (ApiNotImplemented ''pose'')), w)"
| "endpoint_result env FaceMesh key req w = (reply_of (Err (ApiNotImplemented ''face_mesh'')), w)"
| "endpoint_result env Prosody key req w = (reply_of (Err (ApiNotImplemented ''prosody'')), w)"
| "endpoint_result env Credibility key req w = (reply_of (Err (credibility key)), w)"
| "endpoint_result env Judge key req w = (reply_of (Err (ApiNotImplemented ''judge'')), w)"
| "endpoint_result env GenerateImage key req w = apfst reply_of (generate_image env req w)"
| "endpoint_result env SubmitTrain key req w = (reply_of (Err (ApiNotImplemented ''train_submit'')), w)"
| "endpoint_result env (ActivateAdapter i) key req w = (reply_of (Err (ApiNotImplemented ''adapter_activate'')), w)"
| "endpoint_result env Stream key req w = (Some (Upgrade stream_frame), w)"
| "endpoint_result env Health key req w = (Some (Success health), w)"

definition run_handler :: "'w image_env \<Rightarrow> endpoint \<Rightarrow> request \<Rightarrow> 'w \<Rightarrow> reply option \<times> 'w" where
  "run_handler env ep req w =
     (case rq_ext req of
        None \<Rightarrow> (reply_of (Err (Internal (''api_key extension missing '' @ [CHR 0xE2, CHR 0x80, CHR 0x94] @ '' auth middleware not mounted''))), w)
      | Some key \<Rightarrow>
          (case rq_rejection req of
             Some n \<Rightarrow> (Some (Rejection n), w)
           | None \<Rightarrow> endpoint_result env ep key req w))"

section \<open>Middleware and router\<close>

text \<open>The shared quota state and the world, threaded through a request. A reply of \<open>None\<close> is a panic in a
  handler.\<close>

type_synonym 'w server = "app_state \<times> 'w"

definition rate_limit_middleware ::
    "(real \<Rightarrow> real) \<Rightarrow> clock_readings \<Rightarrow> (request \<Rightarrow> 'w \<Rightarrow> reply option \<times> 'w) \<Rightarrow> request \<Rightarrow> 'w server \<Rightarrow>
     reply option \<times> 'w server" where
  "rate_limit_middleware fl ck next req = (\<lambda>(st, w).
     (case rq_ext req of
        None \<Rightarrow> (Some (ErrorReply (into_response (Internal ''rate_limit middleware mounted without auth middleware in front''))), st, w)
      | Some key \<Rightarrow>
          (case rate_limit_check fl ck (key_api_key_id key) st of
             (Some n, st') \<Rightarrow> (Some (ErrorReply (rate_limited_response n)), st', w)
           | (None, st') \<Rightarrow> (let (r, w') = next req w in (r, st', w')))))"

definition auth_middleware ::
    "jwt_decoder \<Rightarrow> nat \<Rightarrow> (request \<Rightarrow> 'w server \<Rightarrow> reply option \<times> 'w server) \<Rightarrow> request \<Rightarrow> 'w server \<Rightarrow>
     reply option \<times> 'w server" where
  "auth_middleware decode now next req sv =
     (case extract_api_key_from_request decode now (rq_headers req) (st_config (fst sv)) of
        Err e \<Rightarrow> (Some (ErrorReply (into_response e)), sv)
      | Panic \<Rightarrow> (None, sv)
      | Ok key \<Rightarrow> next (req\<lparr>rq_ext := Some key\<rparr>) sv)"

record 'w server_env =
  se_fl :: "real \<Rightarrow> real"
  se_decode :: jwt_decoder
  se_images :: "'w image_env"

definition serve :: "'w server_env \<Rightarrow> nat \<Rightarrow> clock_readings \<Rightarrow> request \<Rightarrow> 'w server \<Rightarrow> reply option \<times> 'w server" where
  "serve env now ck req sv =
     (case route (rq_method req) (rq_path req) of
        None \<Rightarrow> (Some Unrouted, sv)
      | Some Health \<Rightarrow> (Some (Success health), sv)
      | Some ep \<Rightarrow>
          auth_middleware (se_decode env) now
            (rate_limit_middleware (se_fl env) ck (run_handler (se_images env) ep)) req sv)"

section \<open>Facts\<close>

lemma serve_authed:
  assumes "route (rq_method req) (rq_path req) = Some ep" "ep \<noteq> Health"
  shows "serve env now ck req sv =
     auth_middleware (se_decode env) now
       (rate_limit_middleware (se_fl env) ck (run_handler (se_images env) ep)) req sv"
  using assms by (cases ep) (simp_all add: serve_def)

lemma serve_unauthorized:
  assumes "route (rq_method req) (rq_path req) = Some ep" "ep \<noteq> Health"
    "extract_api_key_from_request (se_decode env) now (rq_headers req) (st_config (fst sv)) = Err e"
  shows "serve env now ck req sv = (Some (ErrorReply (into_response e)), sv)"
  using assms by (simp add: serve_authed auth_middleware_def)

lemma serve_authorized:
  assumes "route (rq_method req) (rq_path req) = Some ep" "ep \<noteq> Health"
    "extract_api_key_from_request (se_decode env) now (rq_headers req) (st_config st) = Ok key"
  shows "serve env now ck req (st, w) =
     (case rate_limit_check (se_fl env) ck (key_api_key_id key) st of
        (Some n, st') \<Rightarrow> (Some (ErrorReply (rate_limited_response n)), st', w)
      | (None, st') \<Rightarrow>
          (case rq_rejection req of
             Some n \<Rightarrow> (Some (Rejection n), st', w)
           | None \<Rightarrow> (let (r, w') = endpoint_result (se_images env) ep key (req\<lparr>rq_ext := Some key\<rparr>) w in (r, st', w'))))"
  using assms
  by (simp add: serve_authed auth_middleware_def rate_limit_middleware_def run_handler_def Let_def
      split: prod.split option.split)

section \<open>Properties\<close>

text \<open>(C3) No route but the health probe answers without a valid key. If the request carries no bearer
  token that decodes, the reply is 401 and neither the quotas nor the outside world change; and when the
  reply is anything but 401, the request carried a non-empty bearer token, signed under the server's
  secret, issued by and for the right parties and not expired.\<close>

theorem no_access_without_key:
  assumes "jwt_sound hs256 (se_decode env)"
    and "route (rq_method req) (rq_path req) = Some ep" "ep \<noteq> Health"
  shows "(let (r, sv') = serve env now ck req sv in
          (r = Some (ErrorReply (into_response Unauthorized)) \<and> sv' = sv) \<or>
          (\<exists>token c. bearer_token (rq_headers req) = Some token \<and> token \<noteq> [] \<and>
             hs256 (jwt_secret (st_config (fst sv))) token c \<and>
             cl_iss c = JWT_ISSUER \<and> cl_aud c = JWT_AUDIENCE \<and> now \<le> unat (cl_exp c)))"
proof -
  let ?x = "extract_api_key_from_request (se_decode env) now (rq_headers req) (st_config (fst sv))"
  consider "?x = Err Unauthorized" | key where "?x = Ok key" using extract_cases by blast
  then show ?thesis
  proof cases
    case 1
    then show ?thesis by (simp add: serve_unauthorized [OF assms(2,3) 1])
  next
    case (2 key)
    then obtain token c where t: "bearer_token (rq_headers req) = Some token"
      "se_decode env now token (jwt_secret (st_config (fst sv))) strict_validation = Some c"
      by (auto simp: extract_Ok)
    then have "hs256 (jwt_secret (st_config (fst sv))) token c" "cl_iss c = JWT_ISSUER"
      "cl_aud c = JWT_AUDIENCE" "now \<le> unat (cl_exp c)"
      using assms(1) unfolding jwt_sound_def by (fastforce simp: strict_validation_def)+
    with t bearer_token_Some [OF t(1)] show ?thesis by (auto simp: case_prod_beta)
  qed
qed

definition sample_claims :: claims where
  "sample_claims = fresh_claims 1000 ''acme'' ''key_1'' Forensic"

definition sample_decode :: jwt_decoder where
  "sample_decode now token secret va =
     (if token = ''tok'' \<and> secret = ''s'' \<and> cl_iss sample_claims \<in> set (va_issuers va) \<and>
         cl_aud sample_claims \<in> set (va_audiences va) \<and> now \<le> unat (cl_exp sample_claims) + va_leeway va
      then Some sample_claims else None)"

definition sample_provider :: "unit generator" where
  "sample_provider =
     \<lparr>g_profile = \<lparr>pf_name = ''local-offline'', pf_quality = 25, pf_cost = 0, pf_supports_compose = True, pf_offline = True\<rparr>,
      g_generate = (\<lambda>r s. (Ok \<lparr>im_bytes = [], im_format = Png, im_width = gr_width r, im_height = gr_height r\<rparr>, s))\<rparr>"

definition sample_env :: "unit server_env" where
  "sample_env =
     \<lparr>se_fl = ideal, se_decode = sample_decode,
      se_images = \<lparr>ie_parse_f64 = (\<lambda>_. None), ie_show_cost = (\<lambda>_. []), ie_base64 = (\<lambda>_. []),
        ie_show_error = (\<lambda>_. []),
        ie_providers = \<lparr>pv_local = sample_provider,
          pv_local_compositor = \<lparr>c_profile = g_profile sample_provider, c_composite = (\<lambda>_ s. (Err (Codec []), s))\<rparr>,
          pv_openai = None, pv_gemini = None\<rparr>\<rparr>\<rparr>"

definition sample_request :: "string \<Rightarrow> headers \<Rightarrow> request" where
  "sample_request path hs =
     \<lparr>rq_method = POST, rq_path = path, rq_headers = hs, rq_ext = None, rq_rejection = None,
      rq_prompt = ''x'', rq_dims = (8, 8), rq_policy = ''quality''\<rparr>"

definition sample_state :: app_state where
  "sample_state = app_state_new \<lparr>jwt_secret = ''s'', default_rate_limit_per_min = 60, default_daily_cap = 10\<rparr>"

definition sample_clock :: clock_readings where
  "sample_clock = \<lparr>ck_new = 0, ck_consume = 0, ck_utc = 0\<rparr>"

lemma sample_decode_sound: "jwt_sound (\<lambda>secret token c. secret = ''s'' \<and> token = ''tok'') sample_decode"
  by (auto simp: jwt_sound_def sample_decode_def split: if_splits)

lemma sample_route: "route POST ''/v1/credibility'' = Some Credibility" "route POST ''/v1/pose'' = Some Pose"
  by (simp_all add: route_def)

theorem no_access_without_key_witness:
  "serve sample_env 1000 sample_clock (sample_request ''/v1/pose'' []) (sample_state, ()) =
     (Some (ErrorReply (into_response Unauthorized)), (sample_state, ()))"
proof -
  have "bearer_token [] = None" by (simp add: bearer_token_def)
  with no_access_without_key [of "\<lambda>secret token c. secret = ''s'' \<and> token = ''tok''" sample_env
      "sample_request ''/v1/pose'' []" Pose 1000 sample_clock "(sample_state, ())"] sample_decode_sound
  show ?thesis
    by (simp add: sample_env_def sample_request_def sample_route case_prod_beta prod_eq_iff)
qed

text \<open>(C31) The compliance gate: with a valid key and quota left, a well-formed call of the credibility
  endpoint by a refused vertical is answered with 403 and the list of allowed verticals, before anything
  else happens, and by an allowed vertical with the stub's 501. The decision depends on the verified token
  alone: replacing every other header changes nothing.\<close>

theorem credibility_gate:
  assumes "route (rq_method req) (rq_path req) = Some Credibility" "rq_rejection req = None"
    and "extract_api_key_from_request (se_decode env) now (rq_headers req) (st_config st) = Ok key"
    and "rate_limit_check (se_fl env) ck (key_api_key_id key) st = (None, st')"
  shows "serve env now ck req (st, w) =
     (Some (ErrorReply (into_response
        (if key_vertical key \<in> {Forensic, Hiring, Insurance, LawEnforcement, EuWorkplace, EuEducation}
         then VerticalRefused (key_vertical key) ''/v1/credibility''
         else ApiNotImplemented ''credibility''))), st', w)
   \<and> (\<forall>hs. bearer_token hs = bearer_token (rq_headers req) \<longrightarrow>
          serve env now ck (req\<lparr>rq_headers := hs\<rparr>) (st, w) = serve env now ck req (st, w))"
proof -
  have reply: "serve env now ck req' (st, w) = (Some (ErrorReply (into_response (credibility key))), st', w)"
    if "rq_method req' = rq_method req" "rq_path req' = rq_path req" "rq_rejection req' = None"
      "bearer_token (rq_headers req') = bearer_token (rq_headers req)" for req'
  proof -
    have "extract_api_key_from_request (se_decode env) now (rq_headers req') (st_config st) = Ok key"
      using assms(3) that(4) by (simp add: extract_api_key_from_request_def)
    then show ?thesis
      using serve_authorized [of req' Credibility env now st key ck w] assms(1,4) that
      by (simp add: reply_of_def)
  qed
  have "credibility key =
      (if key_vertical key \<in> {Forensic, Hiring, Insurance, LawEnforcement, EuWorkplace, EuEducation}
       then VerticalRefused (key_vertical key) ''/v1/credibility'' else ApiNotImplemented ''credibility'')"
    by (cases "key_vertical key") (simp_all add: credibility_def vertical_check_def)
  with reply [of req] reply [of "req\<lparr>rq_headers := hs\<rparr>" for hs] assms(2) show ?thesis by simp
qed

theorem credibility_gate_witness:
  "\<exists>st'. serve sample_env 1000 sample_clock (sample_request ''/v1/credibility'' [(''authorization'', ''Bearer tok'')]) (sample_state, ()) =
     (Some (ErrorReply (into_response (VerticalRefused Forensic ''/v1/credibility''))), (st', ()))"
proof -
  let ?key = "\<lparr>key_tenant_id = ''acme'', key_api_key_id = ''key_1'', key_vertical = Forensic\<rparr>"
  let ?req = "sample_request ''/v1/credibility'' [(''authorization'', ''Bearer tok'')]"
  have "bearer_token (rq_headers ?req) = Some ''tok''"
    by (simp add: sample_request_def bearer_token_def header_to_str_def trim_def blank_def)
  then have key: "extract_api_key_from_request (se_decode sample_env) 1000 (rq_headers ?req) (st_config sample_state) = Ok ?key"
    by (simp add: extract_api_key_from_request_def sample_env_def sample_decode_def sample_state_def app_state_new_def
        strict_validation_def sample_claims_def fresh_claims_def)
  obtain st' where "rate_limit_check (se_fl sample_env) sample_clock ''key_1'' sample_state = (None, st')"
    by (simp add: rate_limit_check_def bucket_gate_def daily_gate_def sample_state_def sample_clock_def app_state_new_def
        sample_env_def bucket_new_def try_consume_def refill_def Let_def secs_exact ideal_def try_increment_def daily_new_def)
  with credibility_gate [of ?req sample_env 1000 sample_state ?key sample_clock st' "()"] key
  show ?thesis by (auto simp: sample_request_def sample_route)
qed

text \<open>The vertical names: parsing the wire form of a vertical gives it back and nothing else parses
  to it, and the list of allowed verticals printed in a refusal is exactly the set the gate lets through.\<close>

theorem vertical_names:
  "(from_snake_case s = Some v \<longleftrightarrow> s = snake_case v) \<and>
   (is_allowed_for_credibility v \<longleftrightarrow> snake_case v \<in> set credibility_allowed_set)"
  using snake_case_round_trip from_snake_case_Some allowed_iff_listed by auto

text \<open>Configuration: \<open>from_env\<close> succeeds only with a non-empty secret and takes a numeric override when
  it is set, so a server never starts with an empty key; an override printed in decimal is read back.\<close>

theorem from_env_sound:
  assumes "from_env env = Ok cfg"
  shows "jwt_secret cfg \<noteq> [] \<and> env ENV_JWT_SECRET = Set (jwt_secret cfg) \<and>
    (\<forall>n. env ENV_DEFAULT_DAILY_CAP = Set (dec (unat n)) \<longrightarrow> default_daily_cap cfg = n) \<and>
    (\<forall>n. env ENV_DEFAULT_RATE_LIMIT = Set (dec (unat n)) \<longrightarrow> default_rate_limit_per_min cfg = n) \<and>
    (env ENV_DEFAULT_DAILY_CAP = NotPresent \<longrightarrow> default_daily_cap cfg = DEFAULT_DAILY_CAP)"
  using assms
  by (auto simp: from_env_def parse_optional_u32_def parse_u32_dec
      split: env_var.splits if_splits outcome.splits option.splits)

theorem from_env_sound_witness:
  "from_env (\<lambda>v. if v = ENV_JWT_SECRET then Set ''k'' else NotPresent) =
     Ok \<lparr>jwt_secret = ''k'', default_rate_limit_per_min = 60, default_daily_cap = 10000\<rparr> \<and>
   ''k'' \<noteq> []"
proof -
  let ?env = "\<lambda>v. if v = ENV_JWT_SECRET then Set ''k'' else NotPresent"
  have "from_env ?env = Ok \<lparr>jwt_secret = ''k'', default_rate_limit_per_min = 60, default_daily_cap = 10000\<rparr>"
    by (simp add: from_env_def parse_optional_u32_def ENV_JWT_SECRET_def ENV_DEFAULT_RATE_LIMIT_def
        ENV_DEFAULT_DAILY_CAP_def DEFAULT_RATE_LIMIT_PER_MIN_def DEFAULT_DAILY_CAP_def)
  from this from_env_sound [OF this] show ?thesis by simp
qed

end
