(* ===== verification/Op_Tracker.thy ===== *)
theory Op_Tracker
  imports Complex_Main Prelude "HOL-Library.Product_Lexorder" "HOL-Library.Multiset"
begin

text \<open>
  The tracker of file operations of the desktop application
  (\<open>apps/vfs-desktop/src-tauri/src/vfs/operation_tracker.rs\<close>).

  The state is the map behind the \<open>RwLock\<close>, the contents of the state file and of the append-only audit
  log, the snapshots handed to background tasks that have not been written yet (\<open>ot_pending\<close>), the clock
  and the source of identifiers. Whether a file write succeeds is an argument (\<open>io\<close>). The lock is not
  re-entrant: \<open>save_state\<close> takes a read guard, and a call of it under a write guard never returns
  (\<open>Deadlocked\<close>). Byte counts are 64-bit words and their sums wrap, as in a release build. Times are
  nanoseconds; the state file keeps whole seconds (\<open>chrono::serde::ts_seconds_option\<close>), which is
  \<open>persist\<close>.
\<close>

section \<open>Operations\<close>

datatype operation_type =
    Upload | Download | Delete | Move | Copy | Paste | Rename | CreateDir | RemoveDir | AddTag
  | RemoveTag | SetFavorite | SetRating | SetComment | SetColorLabel | TierChange | Transcribe
  | Transcode | AutoTag

datatype operation_status = Pending | InProgress | Completed | Failed | Canceled

record operation_file =
  of_local_path :: string
  of_remote_path :: string
  of_file_size :: u64
  of_bytes_processed :: u64
  of_status :: "operation_status option"
  of_error :: "string option"

record operation =
  op_id :: string
  op_type :: operation_type
  op_source_id :: string
  op_source_path :: string
  op_destination_path :: "string option"
  op_file_size :: "u64 option"
  op_bytes_processed :: u64
  op_status :: operation_status
  op_error :: "string option"
  op_files :: "operation_file list option"
  op_file_count :: "nat option"
  op_cpu_usage_percent :: "real option"
  op_memory_usage_mb :: "u64 option"
  op_network_tx :: "u64 option"
  op_network_rx :: "u64 option"
  op_user_id :: "string option"
  op_organization_id :: "string option"
  op_created_at :: "int option"
  op_completed_at :: "int option"
  op_last_updated_at :: "int option"
  op_tags :: "string list option"
  op_asset_info :: "string option"
  op_metadata :: "string option"

type_synonym op_map = "(string, operation) hash_map"

record tracker =
  ot_ops :: op_map
  ot_state_file :: "op_map option"
  ot_audit :: "operation list"
  ot_pending :: "op_map list"
  ot_max_history :: nat
  ot_clock :: "nat \<Rightarrow> int"
  ot_ticks :: nat
  ot_uuids :: "nat \<Rightarrow> string"
  ot_next :: nat

record io =
  io_write :: bool
  io_append :: bool

datatype 'a call = Returned 'a | IoFailed string | Deadlocked

text \<open>The \<open>k\<close>-th reading of \<open>Utc::now()\<close> in a call, and the state after \<open>n\<close> readings.\<close>

definition now_at :: "tracker \<Rightarrow> nat \<Rightarrow> int" where
  "now_at s k = ot_clock s (ot_ticks s + k)"

definition ticked :: "nat \<Rightarrow> tracker \<Rightarrow> tracker" where
  "ticked n s = s\<lparr>ot_ticks := ot_ticks s + n\<rparr>"

definition modify_op :: "string \<Rightarrow> (operation \<Rightarrow> operation) \<Rightarrow> op_map \<Rightarrow> op_map" where
  "modify_op k f m = (case hm_get m k of None \<Rightarrow> m | Some v \<Rightarrow> hm_insert k (f v) m)"

section \<open>Persistence\<close>

definition whole_seconds :: "int option \<Rightarrow> int option" where
  "whole_seconds t = map_option (\<lambda>t. t div 1000000000 * 1000000000) t"

definition persist :: "operation \<Rightarrow> operation" where
  "persist v =
     v\<lparr>op_created_at := whole_seconds (op_created_at v), op_completed_at := whole_seconds (op_completed_at v),
       op_last_updated_at := whole_seconds (op_last_updated_at v)\<rparr>"

definition persist_map :: "op_map \<Rightarrow> op_map" where
  "persist_map m = map (\<lambda>(k, v). (k, persist v)) m"

text \<open>\<open>guard\<close>: the caller holds the write guard.\<close>

definition save_state :: "bool \<Rightarrow> io \<Rightarrow> tracker \<Rightarrow> unit call \<times> tracker" where
  "save_state guard i s =
     (if guard then (Deadlocked, s)
      else if io_write i then (Returned (), s\<lparr>ot_state_file := Some (persist_map (ot_ops s))\<rparr>)
      else (IoFailed ''Failed to write operations state file'', s))"

definition load_state :: "tracker \<Rightarrow> tracker" where
  "load_state s = (case ot_state_file s of None \<Rightarrow> s | Some m \<Rightarrow> s\<lparr>ot_ops := m\<rparr>)"

definition tracker_new ::
    "op_map option \<Rightarrow> operation list \<Rightarrow> nat \<Rightarrow> (nat \<Rightarrow> int) \<Rightarrow> (nat \<Rightarrow> string) \<Rightarrow> tracker" where
  "tracker_new state audit max_history clk ids =
     load_state
       \<lparr>ot_ops = [], ot_state_file = state, ot_audit = audit, ot_pending = [], ot_max_history = max_history,
        ot_clock = clk, ot_ticks = 0, ot_uuids = ids, ot_next = 0\<rparr>"

definition clear_all :: "io \<Rightarrow> tracker \<Rightarrow> unit call \<times> tracker" where
  "clear_all i s =
     (let s = s\<lparr>ot_ops := []\<rparr> in
      if ot_state_file s = None then (Returned (), s)
      else if io_write i then (Returned (), s\<lparr>ot_state_file := None\<rparr>)
      else (IoFailed ''Failed to delete operations state file'', s))"

definition append_to_audit_log :: "io \<Rightarrow> operation \<Rightarrow> tracker \<Rightarrow> tracker" where
  "append_to_audit_log i v s = (if io_append i then s\<lparr>ot_audit := ot_audit s @ [persist v]\<rparr> else s)"

text \<open>A background task of \<open>create_operation\<close> writes its snapshot, whenever it gets to run.\<close>

definition background_write :: "nat \<Rightarrow> io \<Rightarrow> tracker \<Rightarrow> tracker" where
  "background_write k i s =
     (if k < length (ot_pending s) then
        s\<lparr>ot_pending := take k (ot_pending s) @ drop (Suc k) (ot_pending s),
          ot_state_file := (if io_write i then Some (ot_pending s ! k) else ot_state_file s)\<rparr>
      else s)"

section \<open>Creation\<close>

definition total_size :: "operation_file list \<Rightarrow> u64" where
  "total_size fs = sum_list (map of_file_size fs)"

definition total_processed :: "operation_file list \<Rightarrow> u64" where
  "total_processed fs = sum_list (map of_bytes_processed fs)"

definition create_multi_file_operation_with_context ::
    "io \<Rightarrow> operation_type \<Rightarrow> string \<Rightarrow> string \<Rightarrow> string option \<Rightarrow> u64 option \<Rightarrow> operation_file list option \<Rightarrow>
     string option \<Rightarrow> string option \<Rightarrow> tracker \<Rightarrow> string \<times> tracker" where
  "create_multi_file_operation_with_context i ty source_id source_path destination_path file_size files
      user_id organization_id s =
     (let k = ot_uuids s (ot_next s);
          now = Some (now_at s 0);
          v = \<lparr>op_id = k, op_type = ty, op_source_id = source_id, op_source_path = source_path,
               op_destination_path = destination_path,
               op_file_size = (case file_size of Some n \<Rightarrow> Some n | None \<Rightarrow> map_option total_size files),
               op_bytes_processed = 0, op_status = Pending, op_error = None, op_files = files,
               op_file_count = map_option length files, op_cpu_usage_percent = None, op_memory_usage_mb = None,
               op_network_tx = None, op_network_rx = None, op_user_id = user_id,
               op_organization_id = organization_id, op_created_at = now, op_completed_at = None,
               op_last_updated_at = now, op_tags = None, op_asset_info = None, op_metadata = None\<rparr>;
          s = (ticked 1 s)\<lparr>ot_next := Suc (ot_next s), ot_ops := hm_insert k v (ot_ops s)\<rparr>;
          s = append_to_audit_log i v s
      in (k, s\<lparr>ot_pending := ot_pending s @ [persist_map (ot_ops s)]\<rparr>))"

definition create_operation_with_context ::
    "io \<Rightarrow> operation_type \<Rightarrow> string \<Rightarrow> string \<Rightarrow> string option \<Rightarrow> u64 option \<Rightarrow> string option \<Rightarrow> string option \<Rightarrow>
     tracker \<Rightarrow> string \<times> tracker" where
  "create_operation_with_context i ty source_id source_path destination_path file_size user_id organization_id =
     create_multi_file_operation_with_context i ty source_id source_path destination_path file_size None
       user_id organization_id"

definition create_operation ::
    "io \<Rightarrow> operation_type \<Rightarrow> string \<Rightarrow> string \<Rightarrow> string option \<Rightarrow> u64 option \<Rightarrow> tracker \<Rightarrow> string \<times> tracker" where
  "create_operation i ty source_id source_path destination_path file_size =
     create_operation_with_context i ty source_id source_path destination_path file_size None None"

definition create_multi_file_operation ::
    "io \<Rightarrow> operation_type \<Rightarrow> string \<Rightarrow> string \<Rightarrow> string option \<Rightarrow> operation_file list option \<Rightarrow> tracker \<Rightarrow>
     string \<times> tracker" where
  "create_multi_file_operation i ty source_id source_path destination_path files =
     create_multi_file_operation_with_context i ty source_id source_path destination_path
       (map_option total_size files) files None None"

section \<open>Progress\<close>

definition apply_progress :: "u64 \<Rightarrow> u64 option \<Rightarrow> int \<Rightarrow> operation \<Rightarrow> operation" where
  "apply_progress bytes tot now v =
     (let v = v\<lparr>op_bytes_processed :=
                  (case op_files v of Some fs \<Rightarrow> max (total_processed fs) bytes | None \<Rightarrow> bytes)\<rparr>;
          v = (if op_status v = Pending then v\<lparr>op_status := InProgress\<rparr> else v);
          v = (case tot of Some n \<Rightarrow> v\<lparr>op_file_size := Some n\<rparr> | None \<Rightarrow> v)
      in v\<lparr>op_last_updated_at := Some now\<rparr>)"

definition update_operation_progress :: "io \<Rightarrow> string \<Rightarrow> u64 \<Rightarrow> u64 option \<Rightarrow> tracker \<Rightarrow> unit call \<times> tracker" where
  "update_operation_progress i k bytes tot s =
     save_state False i
       ((if hm_get (ot_ops s) k = None then s else ticked 1 s)
          \<lparr>ot_ops := modify_op k (apply_progress bytes tot (now_at s 0)) (ot_ops s)\<rparr>)"

definition update_progress :: "io \<Rightarrow> string \<Rightarrow> u64 \<Rightarrow> tracker \<Rightarrow> unit call \<times> tracker" where
  "update_progress i k bytes = update_operation_progress i k bytes None"

fun update_first :: "('a \<Rightarrow> bool) \<Rightarrow> ('a \<Rightarrow> 'a) \<Rightarrow> 'a list \<Rightarrow> 'a list" where
  "update_first P f [] = []"
| "update_first P f (x # xs) = (if P x then f x # xs else x # update_first P f xs)"

definition file_complete :: "operation_file \<Rightarrow> bool" where
  "file_complete f \<longleftrightarrow> of_status f = Some Completed \<and> sat_sub (of_file_size f) 1 \<le> of_bytes_processed f"

definition any_status :: "operation_status set \<Rightarrow> operation_file list \<Rightarrow> bool" where
  "any_status S fs = list_ex (\<lambda>f. case of_status f of Some st \<Rightarrow> st \<in> S | None \<Rightarrow> False) fs"

definition set_file_progress :: "string \<Rightarrow> u64 \<Rightarrow> operation_status option \<Rightarrow> operation_file list \<Rightarrow> operation_file list" where
  "set_file_progress path bytes st fs =
     update_first (\<lambda>f. of_local_path f = path)
       (\<lambda>f. f\<lparr>of_bytes_processed := bytes, of_status := (case st of Some x \<Rightarrow> Some x | None \<Rightarrow> of_status f)\<rparr>) fs"

text \<open>The status of a multi-file operation after its files changed; \<open>now\<close> is the completion time.\<close>

definition recompute_status :: "int \<Rightarrow> operation_file list \<Rightarrow> operation \<Rightarrow> operation" where
  "recompute_status now fs v =
     (let all_completed = list_all file_complete fs in
      if all_completed \<and> fs \<noteq> [] \<and> op_status v \<noteq> Completed then
        (if total_processed fs \<ge> sat_sub (total_size fs) 1 then
           v\<lparr>op_status := Completed, op_completed_at := Some now, op_bytes_processed := total_processed fs\<rparr>
         else if op_status v = Pending then v\<lparr>op_status := InProgress\<rparr>
         else v)
      else if any_status {Failed} fs \<and> op_status v \<noteq> Failed then v\<lparr>op_status := Failed\<rparr>
      else if any_status {InProgress, Pending} fs \<and> op_status v = Pending then v\<lparr>op_status := InProgress\<rparr>
      else if \<not> all_completed \<and> op_status v = Completed then v\<lparr>op_status := InProgress, op_completed_at := None\<rparr>
      else v)"

definition apply_file_progress :: "string \<Rightarrow> u64 \<Rightarrow> operation_status option \<Rightarrow> int \<Rightarrow> int \<Rightarrow> operation \<Rightarrow> operation" where
  "apply_file_progress path bytes st now now' v =
     (let v =
        (case op_files v of
           Some fs \<Rightarrow>
             let fs = set_file_progress path bytes st fs
             in recompute_status now fs (v\<lparr>op_files := Some fs, op_bytes_processed := total_processed fs\<rparr>)
         | None \<Rightarrow>
             let v = v\<lparr>op_bytes_processed := bytes\<rparr> in
             (case st of
                None \<Rightarrow> v
              | Some x \<Rightarrow>
                  let v = v\<lparr>op_status := x\<rparr>
                  in if x = Completed then v\<lparr>op_completed_at := Some now\<rparr> else v))
      in v\<lparr>op_last_updated_at := Some now'\<rparr>)"

definition update_file_progress ::
    "io \<Rightarrow> string \<Rightarrow> string \<Rightarrow> u64 \<Rightarrow> operation_status option \<Rightarrow> tracker \<Rightarrow> unit call \<times> tracker" where
  "update_file_progress i k path bytes st s =
     save_state False i
       ((if hm_get (ot_ops s) k = None then s else ticked 2 s)
          \<lparr>ot_ops := modify_op k (apply_file_progress path bytes st (now_at s 0) (now_at s 1)) (ot_ops s)\<rparr>)"

definition apply_file_error :: "string \<Rightarrow> string \<Rightarrow> int \<Rightarrow> operation \<Rightarrow> operation" where
  "apply_file_error path err now v =
     (let v =
        (case op_files v of
           Some fs \<Rightarrow>
             let fs = update_first (\<lambda>f. of_local_path f = path) (\<lambda>f. f\<lparr>of_status := Some Failed, of_error := Some err\<rparr>) fs;
                 v = v\<lparr>op_files := Some fs, op_bytes_processed := total_processed fs\<rparr>
             in if any_status {Failed} fs \<and> op_status v \<noteq> Failed
                then v\<lparr>op_status := Failed, op_error := Some (''One or more files failed: '' @ err)\<rparr>
                else if any_status {InProgress, Pending} fs \<and> op_status v = Pending
                then v\<lparr>op_status := InProgress\<rparr>
                else v
         | None \<Rightarrow> v\<lparr>op_status := Failed, op_error := Some err\<rparr>)
      in v\<lparr>op_last_updated_at := Some now\<rparr>)"

definition update_file_progress_with_error :: "io \<Rightarrow> string \<Rightarrow> string \<Rightarrow> string \<Rightarrow> tracker \<Rightarrow> unit call \<times> tracker" where
  "update_file_progress_with_error i k path err s =
     save_state False i
       ((if hm_get (ot_ops s) k = None then s else ticked 1 s)
          \<lparr>ot_ops := modify_op k (apply_file_error path err (now_at s 0)) (ot_ops s)\<rparr>)"

record metrics =
  mt_cpu :: real
  mt_memory :: u64
  mt_tx :: u64
  mt_rx :: u64

definition apply_metrics :: "metrics \<Rightarrow> int \<Rightarrow> operation \<Rightarrow> operation" where
  "apply_metrics m now v =
     v\<lparr>op_cpu_usage_percent := Some (mt_cpu m), op_memory_usage_mb := Some (mt_memory m),
       op_network_tx := Some (mt_tx m), op_network_rx := Some (mt_rx m), op_last_updated_at := Some now\<rparr>"

definition update_with_metrics :: "metrics \<Rightarrow> string \<Rightarrow> tracker \<Rightarrow> tracker" where
  "update_with_metrics m k s =
     (if hm_get (ot_ops s) k = None then s else ticked 1 s)
       \<lparr>ot_ops := modify_op k (apply_metrics m (now_at s 0)) (ot_ops s)\<rparr>"

definition apply_metadata :: "string list option \<Rightarrow> string option \<Rightarrow> string option \<Rightarrow> int \<Rightarrow> operation \<Rightarrow> operation" where
  "apply_metadata tags info meta now v =
     (let v = (case tags of Some t \<Rightarrow> v\<lparr>op_tags := Some t\<rparr> | None \<Rightarrow> v);
          v = (case info of Some t \<Rightarrow> v\<lparr>op_asset_info := Some t\<rparr> | None \<Rightarrow> v);
          v = (case meta of Some t \<Rightarrow> v\<lparr>op_metadata := Some t\<rparr> | None \<Rightarrow> v)
      in v\<lparr>op_last_updated_at := Some now\<rparr>)"

text \<open>The write guard is still held when \<open>save_state\<close> is called.\<close>

definition update_operation_metadata ::
    "io \<Rightarrow> string \<Rightarrow> string list option \<Rightarrow> string option \<Rightarrow> string option \<Rightarrow> tracker \<Rightarrow> unit call \<times> tracker" where
  "update_operation_metadata i k tags info meta s =
     save_state True i
       ((if hm_get (ot_ops s) k = None then s else ticked 1 s)
          \<lparr>ot_ops := modify_op k (apply_metadata tags info meta (now_at s 0)) (ot_ops s)\<rparr>)"

section \<open>Trimming the history\<close>

definition is_finished :: "operation \<Rightarrow> bool" where
  "is_finished v \<longleftrightarrow> op_status v = Completed \<or> op_status v = Failed"

definition or_else :: "'a option \<Rightarrow> 'a option \<Rightarrow> 'a option" where
  "or_else a b = (case a of Some x \<Rightarrow> Some x | None \<Rightarrow> b)"

definition finish_time :: "operation \<Rightarrow> int option" where
  "finish_time v = or_else (or_else (op_completed_at v) (op_last_updated_at v)) (op_created_at v)"

definition completed_entries :: "op_map \<Rightarrow> (string \<times> int) list" where
  "completed_entries m =
     concat (map (\<lambda>(k, v). if is_finished v then (case finish_time v of Some t \<Rightarrow> [(k, t)] | None \<Rightarrow> []) else []) m)"

definition expired_ids :: "nat \<Rightarrow> op_map \<Rightarrow> string list" where
  "expired_ids max_history m = map fst (drop max_history (sort_key (\<lambda>(k, t). - t) (completed_entries m)))"

definition cleanup_old_operations :: "tracker \<Rightarrow> tracker" where
  "cleanup_old_operations s =
     s\<lparr>ot_ops := fold hm_remove (expired_ids (ot_max_history s) (ot_ops s)) (ot_ops s)\<rparr>"

section \<open>Ending an operation\<close>

text \<open>The tail shared by completing, failing and cancelling.\<close>

definition finish :: "io \<Rightarrow> string \<Rightarrow> operation \<Rightarrow> tracker \<Rightarrow> unit call \<times> tracker" where
  "finish i k v s =
     save_state False i
       (cleanup_old_operations (append_to_audit_log i v (s\<lparr>ot_ops := hm_insert k v (ot_ops s)\<rparr>)))"

definition completion :: "int \<Rightarrow> int \<Rightarrow> operation \<Rightarrow> operation option" where
  "completion now now' v =
     (let v' =
        (case op_files v of
           None \<Rightarrow> Some v
         | Some fs \<Rightarrow>
             if \<not> list_all file_complete fs then None
             else if total_processed fs \<ge> sat_sub (total_size fs) 1
             then Some (v\<lparr>op_bytes_processed := total_processed fs\<rparr>)
             else None)
      in map_option (\<lambda>v.
           let v = v\<lparr>op_status := Completed, op_completed_at := Some now, op_last_updated_at := Some now'\<rparr>
           in if op_file_size v = None then v\<lparr>op_file_size := Some (op_bytes_processed v)\<rparr> else v) v')"

definition complete_operation :: "io \<Rightarrow> metrics \<Rightarrow> string \<Rightarrow> tracker \<Rightarrow> unit call \<times> tracker" where
  "complete_operation i m k s =
     (let s = update_with_metrics m k s in
      case hm_get (ot_ops s) k of
        None \<Rightarrow> (Returned (), s)
      | Some v \<Rightarrow>
          (case completion (now_at s 0) (now_at s 1) v of
             None \<Rightarrow> (Returned (), s)
           | Some v' \<Rightarrow> finish i k v' (ticked 2 s)))"

definition fail_operation :: "io \<Rightarrow> string \<Rightarrow> string \<Rightarrow> tracker \<Rightarrow> unit call \<times> tracker" where
  "fail_operation i k err s =
     (case hm_get (ot_ops s) k of
        None \<Rightarrow> (Returned (), s)
      | Some v \<Rightarrow>
          finish i k (v\<lparr>op_status := Failed, op_error := Some err, op_completed_at := Some (now_at s 0),
                       op_last_updated_at := Some (now_at s 1)\<rparr>) (ticked 2 s))"

definition cancel_operation :: "io \<Rightarrow> string \<Rightarrow> tracker \<Rightarrow> unit call \<times> tracker" where
  "cancel_operation i k s =
     (case hm_get (ot_ops s) k of
        None \<Rightarrow> (Returned (), s)
      | Some v \<Rightarrow>
          finish i k (v\<lparr>op_status := Canceled, op_completed_at := Some (now_at s 0),
                       op_last_updated_at := Some (now_at s 1)\<rparr>) (ticked 2 s))"

definition delete_operation :: "io \<Rightarrow> string \<Rightarrow> tracker \<Rightarrow> unit call \<times> tracker" where
  "delete_operation i k s = save_state True i (s\<lparr>ot_ops := hm_remove k (ot_ops s)\<rparr>)"

section \<open>Queries\<close>

definition get_operation :: "string \<Rightarrow> tracker \<Rightarrow> operation call" where
  "get_operation k s =
     (case hm_get (ot_ops s) k of Some v \<Rightarrow> Returned v | None \<Rightarrow> IoFailed (''Operation not found: '' @ k))"

definition get_all_operations :: "tracker \<Rightarrow> operation list" where
  "get_all_operations s = map snd (ot_ops s)"

definition get_operations_by_type :: "operation_type \<Rightarrow> tracker \<Rightarrow> operation list" where
  "get_operations_by_type ty s = filter (\<lambda>v. op_type v = ty) (map snd (ot_ops s))"

definition get_active_operations :: "tracker \<Rightarrow> operation list" where
  "get_active_operations s = filter (\<lambda>v. op_status v = Pending \<or> op_status v = InProgress) (map snd (ot_ops s))"

text \<open>Most recent first; an absent time comes last (\<open>None < Some\<close>).\<close>

definition desc_key :: "int option \<Rightarrow> nat \<times> int" where
  "desc_key t = (case t of Some t \<Rightarrow> (0, - t) | None \<Rightarrow> (1, 0))"

definition get_completed_operations :: "tracker \<Rightarrow> operation list" where
  "get_completed_operations s =
     take (ot_max_history s) (sort_key (\<lambda>v. desc_key (finish_time v)) (filter is_finished (map snd (ot_ops s))))"

definition creation_time :: "operation \<Rightarrow> int option" where
  "creation_time v = or_else (op_created_at v) (op_last_updated_at v)"

definition get_audit_history :: "nat option \<Rightarrow> tracker \<Rightarrow> operation list" where
  "get_audit_history limit s =
     (let vs = sort_key (\<lambda>v. desc_key (creation_time v)) (ot_audit s)
      in case limit of Some n \<Rightarrow> take n vs | None \<Rightarrow> vs)"

definition get_organization_audit :: "string \<Rightarrow> nat option \<Rightarrow> tracker \<Rightarrow> operation list" where
  "get_organization_audit org limit s = filter (\<lambda>v. op_organization_id v = Some org) (get_audit_history limit s)"

definition get_operations_by_user :: "string \<Rightarrow> tracker \<Rightarrow> operation list" where
  "get_operations_by_user u s =
     sort_key (\<lambda>v. desc_key (creation_time v)) (filter (\<lambda>v. op_user_id v = Some u) (map snd (ot_ops s)))"

definition get_operations_by_organization :: "string \<Rightarrow> tracker \<Rightarrow> operation list" where
  "get_operations_by_organization org s =
     sort_key (\<lambda>v. desc_key (creation_time v)) (filter (\<lambda>v. op_organization_id v = Some org) (map snd (ot_ops s)))"

section \<open>Soundness of completion\<close>

text \<open>A completed multi-file operation has only completed files, each at its size up to one byte.\<close>

definition op_sound :: "operation \<Rightarrow> bool" where
  "op_sound v \<longleftrightarrow>
     (op_status v = Completed \<longrightarrow>
        (case op_files v of None \<Rightarrow> True | Some fs \<Rightarrow> list_all file_complete fs))"

definition map_sound :: "op_map \<Rightarrow> bool" where
  "map_sound m \<longleftrightarrow> hm_wf m \<and> (\<forall>k v. hm_get m k = Some v \<longrightarrow> op_sound v)"

definition tracker_inv :: "tracker \<Rightarrow> bool" where
  "tracker_inv s \<longleftrightarrow>
     map_sound (ot_ops s) \<and> (\<forall>m. ot_state_file s = Some m \<longrightarrow> map_sound m) \<and>
     (\<forall>m\<in>set (ot_pending s). map_sound m)"

lemma file_complete_not_failed: "list_all file_complete fs \<Longrightarrow> \<not> any_status {Failed} fs"
  by (induction fs) (auto simp: file_complete_def any_status_def)

lemma recompute_sound: "op_files v = Some fs \<Longrightarrow> op_sound (recompute_status now fs v)"
  by (auto simp: recompute_status_def op_sound_def Let_def)

lemma recompute_files: "op_files (recompute_status now fs v) = op_files v"
  by (simp add: recompute_status_def Let_def)

lemma apply_progress_sound: "op_sound v \<Longrightarrow> op_sound (apply_progress bytes tot now v)"
  by (cases tot) (auto simp: apply_progress_def op_sound_def Let_def split: option.splits)

lemma apply_file_progress_sound: "op_sound (apply_file_progress path bytes st now now' v)"
proof (cases "op_files v")
  case None
  then show ?thesis
    by (cases st) (auto simp: apply_file_progress_def op_sound_def Let_def)
next
  case (Some fs)
  let ?fs = "set_file_progress path bytes st fs"
  let ?v = "v\<lparr>op_files := Some ?fs, op_bytes_processed := total_processed ?fs\<rparr>"
  have "op_sound (recompute_status now ?fs ?v)" by (rule recompute_sound) simp
  with Some show ?thesis
    by (simp add: apply_file_progress_def Let_def op_sound_def recompute_files)
qed

lemma update_first_any_failed:
  assumes "\<exists>f\<in>set fs. P f" and "\<And>f. of_status (g f) = Some Failed"
  shows "any_status {Failed} (update_first P g fs)"
  using assms(1) by (induction fs) (auto simp: any_status_def assms(2))

lemma update_first_id: "\<not> (\<exists>f\<in>set fs. P f) \<Longrightarrow> update_first P g fs = fs"
  by (induction fs) auto

lemma apply_file_error_sound:
  assumes "op_sound v" shows "op_sound (apply_file_error path err now v)"
proof (cases "op_files v")
  case None
  then show ?thesis by (simp add: apply_file_error_def op_sound_def)
next
  case (Some fs)
  let ?g = "\<lambda>f. f\<lparr>of_status := Some Failed, of_error := Some err\<rparr>"
  let ?fs = "update_first (\<lambda>f. of_local_path f = path) ?g fs"
  show ?thesis
  proof (cases "\<exists>f\<in>set fs. of_local_path f = path")
    case True
    then have "any_status {Failed} ?fs" by (rule update_first_any_failed) simp
    with Some show ?thesis by (simp add: apply_file_error_def op_sound_def Let_def)
  next
    case False
    then have "?fs = fs" by (rule update_first_id)
    with Some assms show ?thesis by (simp add: apply_file_error_def op_sound_def Let_def)
  qed
qed

lemma apply_metrics_sound: "op_sound v \<Longrightarrow> op_sound (apply_metrics m now v)"
  by (simp add: apply_metrics_def op_sound_def)

lemma completion_sound: "completion now now' v = Some v' \<Longrightarrow> op_sound v'"
  by (auto simp: completion_def op_sound_def Let_def split: option.splits if_splits)

lemma persist_sound: "op_sound (persist v) \<longleftrightarrow> op_sound v"
  by (simp add: persist_def op_sound_def)

lemma hm_get_persist: "hm_get (persist_map m) k = map_option persist (hm_get m k)"
  by (induction m) (auto simp: persist_map_def)

lemma hm_wf_persist: "hm_wf (persist_map m) \<longleftrightarrow> hm_wf m"
  by (simp add: hm_wf_def persist_map_def comp_def case_prod_beta)

lemma map_sound_persist [simp]: "map_sound (persist_map m) \<longleftrightarrow> map_sound m"
proof -
  have "(\<forall>k v. map_option persist (hm_get m k) = Some v \<longrightarrow> op_sound v) \<longleftrightarrow>
      (\<forall>k v. hm_get m k = Some v \<longrightarrow> op_sound v)"
    using persist_sound by (metis option.simps(9) map_option_eq_Some)
  then show ?thesis by (simp add: map_sound_def hm_wf_persist hm_get_persist)
qed

lemma map_sound_insert: "map_sound m \<Longrightarrow> op_sound v \<Longrightarrow> map_sound (hm_insert k v m)"
  by (auto simp: map_sound_def)

lemma map_sound_remove: "map_sound m \<Longrightarrow> map_sound (hm_remove k m)"
  by (auto simp: map_sound_def)

lemma map_sound_modify: "map_sound m \<Longrightarrow> (\<And>v. op_sound v \<Longrightarrow> op_sound (f v)) \<Longrightarrow> map_sound (modify_op k f m)"
  by (auto simp: modify_op_def map_sound_def split: option.splits)

lemma map_sound_fold_remove: "map_sound m \<Longrightarrow> map_sound (fold hm_remove ks m)"
  by (induction ks arbitrary: m) (simp_all add: map_sound_remove)

lemma save_state_inv: "tracker_inv s \<Longrightarrow> tracker_inv (snd (save_state g i s))"
  by (simp add: save_state_def tracker_inv_def)

lemma save_modify_inv:
  assumes "tracker_inv s" "\<And>v. op_sound v \<Longrightarrow> op_sound (f v)" "ot_state_file s' = ot_state_file s"
    "ot_pending s' = ot_pending s"
  shows "tracker_inv (snd (save_state g i (s'\<lparr>ot_ops := modify_op k f (ot_ops s)\<rparr>)))"
proof -
  have "tracker_inv (s'\<lparr>ot_ops := modify_op k f (ot_ops s)\<rparr>)"
    using assms map_sound_modify [of "ot_ops s" f k] by (auto simp: tracker_inv_def)
  then show ?thesis by (rule save_state_inv)
qed

lemma finish_inv:
  assumes "tracker_inv s" "op_sound v" shows "tracker_inv (snd (finish i k v s))"
  unfolding finish_def
proof (rule save_state_inv)
  show "tracker_inv (cleanup_old_operations (append_to_audit_log i v (s\<lparr>ot_ops := hm_insert k v (ot_ops s)\<rparr>)))"
    using assms map_sound_fold_remove [OF map_sound_insert [of "ot_ops s" v k]]
    by (simp add: tracker_inv_def cleanup_old_operations_def append_to_audit_log_def)
qed

section \<open>Reachable states\<close>

text \<open>The application starts a tracker on what the state file holds and calls it, with any outcome of the file
  system; a background task may write its snapshot between any two calls, and the process may be restarted,
  which loses the tasks that have not run. The two calls that never return are not steps.\<close>

definition restart :: "tracker \<Rightarrow> tracker" where
  "restart s = load_state (s\<lparr>ot_ops := [], ot_pending := []\<rparr>)"

inductive ot_step :: "tracker \<Rightarrow> tracker \<Rightarrow> bool" where
  "create_multi_file_operation_with_context i ty a b c d fs u og s = (k, s') \<Longrightarrow> ot_step s s'"
| "update_operation_progress i k n tot s = (r, s') \<Longrightarrow> ot_step s s'"
| "update_file_progress i k p n st s = (r, s') \<Longrightarrow> ot_step s s'"
| "update_file_progress_with_error i k p e s = (r, s') \<Longrightarrow> ot_step s s'"
| "update_with_metrics m k s = s' \<Longrightarrow> ot_step s s'"
| "complete_operation i m k s = (r, s') \<Longrightarrow> ot_step s s'"
| "fail_operation i k e s = (r, s') \<Longrightarrow> ot_step s s'"
| "cancel_operation i k s = (r, s') \<Longrightarrow> ot_step s s'"
| "clear_all i s = (r, s') \<Longrightarrow> ot_step s s'"
| "background_write n i s = s' \<Longrightarrow> ot_step s s'"
| "restart s = s' \<Longrightarrow> ot_step s s'"

inductive_cases ot_stepE: "ot_step s s'"

lemma create_inv:
  assumes "tracker_inv s"
  shows "tracker_inv (snd (create_multi_file_operation_with_context i ty a b c d fs u og s))"
  using assms
  by (auto simp: create_multi_file_operation_with_context_def Let_def tracker_inv_def ticked_def
      append_to_audit_log_def intro!: map_sound_insert) (auto simp: op_sound_def)

lemma complete_inv:
  assumes "tracker_inv s" shows "tracker_inv (snd (complete_operation i m k s))"
proof -
  let ?s = "update_with_metrics m k s"
  have s: "tracker_inv ?s"
    using assms map_sound_modify [of "ot_ops s" "apply_metrics m (now_at s 0)" k] apply_metrics_sound
    by (auto simp: tracker_inv_def update_with_metrics_def ticked_def)
  then have "tracker_inv (ticked 2 ?s)" by (simp add: tracker_inv_def ticked_def)
  then have "tracker_inv (snd (finish i k v (ticked 2 ?s)))" if "op_sound v" for v
    using that by (rule finish_inv)
  with s completion_sound show ?thesis
    by (auto simp: complete_operation_def Let_def split: option.splits)
qed

lemma end_inv:
  assumes "tracker_inv s"
  shows "tracker_inv (snd (fail_operation i k e s))" "tracker_inv (snd (cancel_operation i k s))"
proof -
  have "tracker_inv (ticked 2 s)" using assms by (simp add: tracker_inv_def ticked_def)
  then have "tracker_inv (snd (finish i k v (ticked 2 s)))" if "op_status v \<noteq> Completed" for v
    using that by (intro finish_inv) (simp_all add: op_sound_def)
  then show "tracker_inv (snd (fail_operation i k e s))" "tracker_inv (snd (cancel_operation i k s))"
    using assms by (auto simp: fail_operation_def cancel_operation_def split: option.splits)
qed

lemma update_inv:
  assumes "tracker_inv s"
  shows "tracker_inv (snd (update_operation_progress i k n tot s))"
    "tracker_inv (snd (update_file_progress i k p n st s))"
    "tracker_inv (snd (update_file_progress_with_error i k p e s))"
    "tracker_inv (update_with_metrics m k s)"
proof -
  show "tracker_inv (snd (update_operation_progress i k n tot s))"
    unfolding update_operation_progress_def
    using assms by (intro save_modify_inv) (auto simp: apply_progress_sound ticked_def)
  show "tracker_inv (snd (update_file_progress i k p n st s))"
    unfolding update_file_progress_def
    using assms by (intro save_modify_inv) (auto simp: apply_file_progress_sound ticked_def)
  show "tracker_inv (snd (update_file_progress_with_error i k p e s))"
    unfolding update_file_progress_with_error_def
    using assms by (intro save_modify_inv) (auto simp: apply_file_error_sound ticked_def)
  show "tracker_inv (update_with_metrics m k s)"
    using assms map_sound_modify [of "ot_ops s" "apply_metrics m (now_at s 0)" k] apply_metrics_sound
    by (auto simp: tracker_inv_def update_with_metrics_def ticked_def)
qed

lemma map_sound_Nil [simp]: "map_sound []"
  by (simp add: map_sound_def)

lemma other_inv:
  assumes "tracker_inv s"
  shows "tracker_inv (snd (clear_all i s))" "tracker_inv (background_write n i s)" "tracker_inv (restart s)"
proof -
  show "tracker_inv (snd (clear_all i s))"
    using assms by (auto simp: clear_all_def tracker_inv_def Let_def)
  show "tracker_inv (background_write n i s)"
    using assms by (auto simp: background_write_def tracker_inv_def dest!: in_set_takeD in_set_dropD)
  show "tracker_inv (restart s)"
    using assms by (auto simp: restart_def load_state_def tracker_inv_def split: option.splits)
qed

lemma ot_step_inv: "ot_step s s' \<Longrightarrow> tracker_inv s \<Longrightarrow> tracker_inv s'"
  by (erule ot_stepE) (metis snd_conv create_inv complete_inv end_inv update_inv other_inv)+

lemma tracker_new_inv: "tracker_inv (tracker_new None audit n clk ids)"
  by (simp add: tracker_new_def load_state_def tracker_inv_def)

inductive ot_reach :: "tracker \<Rightarrow> bool" where
  start: "ot_reach (tracker_new None [] max_history clk ids)"
| step: "ot_reach s \<Longrightarrow> ot_step s s' \<Longrightarrow> ot_reach s'"

lemma ot_reach_inv: "ot_reach s \<Longrightarrow> tracker_inv s"
  by (induction rule: ot_reach.induct) (auto intro: tracker_new_inv ot_step_inv)

lemma file_complete_iff:
  "file_complete f \<longleftrightarrow> of_status f = Some Completed \<and> unat (of_file_size f) \<le> unat (of_bytes_processed f) + 1"
  by (auto simp: file_complete_def word_le_nat_alt unat_sat_sub)

lemma map_soundD:
  "map_sound m \<Longrightarrow> hm_get m k = Some v \<Longrightarrow> op_status v = Completed \<Longrightarrow> op_files v = Some fs \<Longrightarrow> f \<in> set fs \<Longrightarrow>
   file_complete f"
  unfolding map_sound_def op_sound_def by (metis list_all_iff option.simps(5))

text \<open>(C5) In every state the tracker can reach, through any sequence of calls, file-system failures, late
  background writes and restarts, an operation over several files that is marked completed - in memory or in
  the state file - has only completed files, each of which has processed its size up to one byte.\<close>

theorem tracker_completion_sound:
  assumes "ot_reach s"
    and "hm_get (ot_ops s) k = Some v \<or> (\<exists>m. ot_state_file s = Some m \<and> hm_get m k = Some v)"
    and "op_status v = Completed" and "op_files v = Some fs" and "f \<in> set fs"
  shows "of_status f = Some Completed \<and> unat (of_file_size f) \<le> unat (of_bytes_processed f) + 1"
proof -
  from ot_reach_inv [OF assms(1)] assms(2) obtain m where "map_sound m" "hm_get m k = Some v"
    by (auto simp: tracker_inv_def)
  with assms(3-5) have "file_complete f" using map_soundD by blast
  then show ?thesis by (simp add: file_complete_iff)
qed

definition demo_start :: tracker where
  "demo_start = tracker_new None [] 2 (\<lambda>n. int n) (\<lambda>n. replicate (Suc n) CHR ''0'')"

definition demo_io :: io where
  "demo_io = \<lparr>io_write = True, io_append = True\<rparr>"

definition demo_file :: operation_file where
  "demo_file = \<lparr>of_local_path = ''a'', of_remote_path = ''b'', of_file_size = 9, of_bytes_processed = 0,
     of_status = None, of_error = None\<rparr>"

definition demo_created :: tracker where
  "demo_created =
     snd (create_multi_file_operation_with_context demo_io Upload ''s'' ''p'' None None (Some [demo_file]) None None
            demo_start)"

definition demo_done :: tracker where
  "demo_done = snd (update_file_progress demo_io ''0'' ''a'' 9 (Some Completed) demo_created)"

lemmas demo_defs =
  demo_created_def demo_start_def demo_io_def demo_file_def tracker_new_def load_state_def Let_def
  create_multi_file_operation_with_context_def ticked_def now_at_def append_to_audit_log_def
  total_size_def

lemma demo_created_reach: "ot_reach demo_created"
  unfolding demo_created_def demo_start_def
  by (rule ot_reach.step, rule ot_reach.start, rule ot_step.intros(1)) (rule surjective_pairing)

lemma demo_done_reach: "ot_reach demo_done"
  unfolding demo_done_def
  by (rule ot_reach.step, rule demo_created_reach, rule ot_step.intros(3)) (rule surjective_pairing)

definition demo_op :: operation where
  "demo_op = the (hm_get (ot_ops demo_done) ''0'')"

definition demo_done_file :: operation_file where
  "demo_done_file = demo_file\<lparr>of_bytes_processed := 9, of_status := Some Completed\<rparr>"

lemmas demo_done_defs =
  demo_done_def update_file_progress_def apply_file_progress_def set_file_progress_def recompute_status_def
  save_state_def modify_op_def file_complete_def sat_sub_def total_processed_def demo_op_def demo_done_file_def

lemma demo_done_op:
  "hm_get (ot_ops demo_done) ''0'' = Some demo_op" "op_status demo_op = Completed"
  "op_files demo_op = Some [demo_done_file]"
  by (simp_all add: demo_defs demo_done_defs)

theorem tracker_completion_sound_witness:
  "ot_reach demo_done \<and> of_status demo_done_file = Some Completed \<and>
   unat (of_file_size demo_done_file) \<le> unat (of_bytes_processed demo_done_file) + 1"
  using tracker_completion_sound [of demo_done "''0''" demo_op "[demo_done_file]" demo_done_file]
    demo_done_reach demo_done_op by simp

section \<open>Bounded history and the audit log\<close>

lemma completed_entries_simps:
  "completed_entries [] = []"
  "completed_entries ((k, v) # m) =
     (if is_finished v \<and> finish_time v \<noteq> None then [(k, the (finish_time v))] else []) @ completed_entries m"
  by (cases "finish_time v"; simp add: completed_entries_def)+

lemma in_completed_entries:
  "(k, t) \<in> set (completed_entries m) \<longleftrightarrow> (\<exists>v. (k, v) \<in> set m \<and> is_finished v \<and> finish_time v = Some t)"
  by (induction m) (auto simp: completed_entries_simps)

lemma set_completed_entries:
  "hm_wf m \<Longrightarrow> (k, t) \<in> set (completed_entries m) \<longleftrightarrow>
     (\<exists>v. hm_get m k = Some v \<and> is_finished v \<and> finish_time v = Some t)"
  by (simp add: in_completed_entries hm_wf_def)

lemma distinct_completed_entries: "hm_wf m \<Longrightarrow> distinct (map fst (completed_entries m))"
proof (induction m)
  case Nil
  then show ?case by (simp add: completed_entries_simps)
next
  case (Cons kv m)
  obtain k v where kv: "kv = (k, v)" by (cases kv)
  with Cons.prems have k: "k \<notin> fst ` set m" "hm_wf m" by (auto simp: hm_wf_def)
  have "(k, t) \<notin> set (completed_entries m)" for t using k(1) by (force simp: in_completed_entries)
  then have "k \<notin> fst ` set (completed_entries m)" by force
  with Cons.IH k(2) kv show ?case by (auto simp: completed_entries_simps)
qed

text \<open>The entries kept and the entries dropped by a descending sort and a cut.\<close>

definition recent :: "nat \<Rightarrow> op_map \<Rightarrow> (string \<times> int) list" where
  "recent n m = take n (sort_key (\<lambda>(k, t). - t) (completed_entries m))"

lemma completed_split:
  assumes "hm_wf m"
  shows "fst ` set (completed_entries m) = fst ` set (recent n m) \<union> set (expired_ids n m)"
    and "fst ` set (recent n m) \<inter> set (expired_ids n m) = {}"
proof -
  let ?xs = "sort_key (\<lambda>(k, t). - t) (completed_entries m)"
  have set: "set (completed_entries m) = set ?xs" by simp
  have "mset (map fst ?xs) = mset (map fst (completed_entries m))" unfolding mset_map mset_sort ..
  then have dist: "distinct (map fst ?xs)" using distinct_completed_entries [OF assms] by (metis mset_eq_imp_distinct_iff)
  have "set ?xs = set (take n ?xs) \<union> set (drop n ?xs)" by (metis append_take_drop_id set_append)
  then show "fst ` set (completed_entries m) = fst ` set (recent n m) \<union> set (expired_ids n m)"
    unfolding set recent_def expired_ids_def by (auto simp: image_Un)
  show "fst ` set (recent n m) \<inter> set (expired_ids n m) = {}"
    using dist set_take_disj_set_drop_if_distinct [of "map fst ?xs" n n]
    unfolding recent_def expired_ids_def by (simp add: take_map drop_map)
qed

lemma recent_newer:
  assumes "(k, t) \<in> set (recent n m)" "j \<in> set (expired_ids n m)"
  obtains t' where "(j, t') \<in> set (completed_entries m)" "t' \<le> t"
proof -
  let ?xs = "sort_key (\<lambda>(k, t). - t) (completed_entries m)"
  from assms(2) obtain t' where t': "(j, t') \<in> set (drop n ?xs)"
    unfolding expired_ids_def by auto
  have "sorted (map (\<lambda>(k, t). - t) (take n ?xs @ drop n ?xs))"
    by (simp only: append_take_drop_id) simp
  with assms(1) t' have "t' \<le> t" unfolding map_append sorted_append recent_def by fastforce
  moreover have "(j, t') \<in> set (completed_entries m)" using in_set_dropD [OF t'] by simp
  ultimately show ?thesis by (rule that [rotated])
qed

text \<open>(C30) Trimming the history keeps at most the configured number of finished operations that carry a time,
  never touches an unfinished operation, invents nothing, and whatever it drops is a finished operation that
  is not more recent than any finished operation it keeps.\<close>

theorem history_bounded:
  assumes "hm_wf (ot_ops s)" and "m = ot_ops (cleanup_old_operations s)"
  shows "card {k. \<exists>v. hm_get m k = Some v \<and> is_finished v \<and> finish_time v \<noteq> None} \<le> ot_max_history s \<and>
    (\<forall>k v. hm_get m k = Some v \<longrightarrow> hm_get (ot_ops s) k = Some v) \<and>
    (\<forall>k v. hm_get (ot_ops s) k = Some v \<and> hm_get m k = None \<longrightarrow>
       is_finished v \<and> (\<exists>t. finish_time v = Some t \<and>
         (\<forall>j w u. hm_get m j = Some w \<and> is_finished w \<and> finish_time w = Some u \<longrightarrow> t \<le> u)))"
proof (intro conjI allI impI)
  let ?m = "ot_ops s" and ?n = "ot_max_history s"
  let ?exp = "expired_ids ?n ?m" and ?K = "{k. \<exists>v. hm_get m k = Some v \<and> is_finished v \<and> finish_time v \<noteq> None}"
  have m: "hm_get m k = (if k \<in> set ?exp then None else hm_get ?m k)" for k
    by (simp add: assms(2) cleanup_old_operations_def hm_get_fold_remove)
  note entry = set_completed_entries [OF assms(1)] and split = completed_split [OF assms(1), of ?n]
  have "?K \<subseteq> fst ` set (recent ?n ?m)"
  proof
    fix k assume "k \<in> ?K"
    then obtain v t where "k \<notin> set ?exp" "(k, t) \<in> set (completed_entries ?m)"
      by (auto simp: m entry split: if_splits)
    with split(1) show "k \<in> fst ` set (recent ?n ?m)" by force
  qed
  then have "card ?K \<le> card (fst ` set (recent ?n ?m))" by (intro card_mono) auto
  also have "\<dots> \<le> length (recent ?n ?m)" by (metis card_image_le card_length finite_set le_trans)
  finally show "card ?K \<le> ?n" by (simp add: recent_def)
  show "hm_get ?m k = Some v" if "hm_get m k = Some v" for k v
    using that by (auto simp: m split: if_splits)
  fix k v assume gone: "hm_get ?m k = Some v \<and> hm_get m k = None"
  then have k: "k \<in> set ?exp" by (auto simp: m split: if_splits)
  with split(1) obtain t where "(k, t) \<in> set (completed_entries ?m)" by force
  with gone have t: "is_finished v" "finish_time v = Some t" by (auto simp: entry)
  then show "is_finished v" by simp
  have "t \<le> u" if "hm_get m j = Some w \<and> is_finished w \<and> finish_time w = Some u" for j w u
  proof -
    from that have j: "(j, u) \<in> set (completed_entries ?m)" "j \<notin> set ?exp"
      by (auto simp: m entry split: if_splits)
    with split(1) obtain u' where u': "(j, u') \<in> set (recent ?n ?m)" by force
    then have "(j, u') \<in> set (completed_entries ?m)" by (auto simp: recent_def dest: in_set_takeD)
    with j(1) have "u' = u" by (auto simp: entry)
    with u' k obtain t' where "(k, t') \<in> set (completed_entries ?m)" "t' \<le> u" by (blast elim: recent_newer)
    with t gone show ?thesis by (auto simp: entry)
  qed
  with t show "\<exists>t. finish_time v = Some t \<and>
      (\<forall>j w u. hm_get m j = Some w \<and> is_finished w \<and> finish_time w = Some u \<longrightarrow> t \<le> u)" by blast
qed

theorem history_bounded_witness:
  "hm_wf (ot_ops demo_done) \<and>
   card {k. \<exists>v. hm_get (ot_ops (cleanup_old_operations demo_done)) k = Some v \<and> is_finished v \<and> finish_time v \<noteq> None}
     \<le> ot_max_history demo_done"
proof -
  have "hm_wf (ot_ops demo_done)"
    using ot_reach_inv [OF demo_done_reach] by (simp add: tracker_inv_def map_sound_def)
  then show ?thesis using history_bounded [of demo_done, OF _ refl] by blast
qed

lemma save_state_audit [simp]: "ot_audit (snd (save_state g i s)) = ot_audit s"
  by (simp add: save_state_def)

lemma finish_audit: "prefix (ot_audit s) (ot_audit (snd (finish i k v s)))"
  by (simp add: finish_def cleanup_old_operations_def append_to_audit_log_def)

lemma ticked_audit [simp]: "ot_audit (ticked n s) = ot_audit s"
  by (simp add: ticked_def)

lemma create_audit:
  "prefix (ot_audit s) (ot_audit (snd (create_multi_file_operation_with_context i ty a b c d fs u og s)))"
  by (simp add: create_multi_file_operation_with_context_def Let_def append_to_audit_log_def)

lemma update_audit:
  "prefix (ot_audit s) (ot_audit (snd (update_operation_progress i k n tot s)))"
  "prefix (ot_audit s) (ot_audit (snd (update_file_progress i k p n st s)))"
  "prefix (ot_audit s) (ot_audit (snd (update_file_progress_with_error i k p e s)))"
  "prefix (ot_audit s) (ot_audit (update_with_metrics m k s))"
  by (simp_all add: update_operation_progress_def update_file_progress_def update_file_progress_with_error_def
      update_with_metrics_def)

lemma end_audit:
  "prefix (ot_audit s) (ot_audit (snd (complete_operation i m k s)))"
  "prefix (ot_audit s) (ot_audit (snd (fail_operation i k e s)))"
  "prefix (ot_audit s) (ot_audit (snd (cancel_operation i k s)))"
proof -
  have fin: "prefix (ot_audit s) (ot_audit (snd (finish i k v (ticked n s))))" for s v n
    using finish_audit [of "ticked n s" i k v] by simp
  then show "prefix (ot_audit s) (ot_audit (snd (fail_operation i k e s)))"
    "prefix (ot_audit s) (ot_audit (snd (cancel_operation i k s)))"
    by (simp_all add: fail_operation_def cancel_operation_def split: option.split)
  have "prefix (ot_audit (update_with_metrics m k s)) (ot_audit (snd (complete_operation i m k s)))"
    using fin by (simp add: complete_operation_def Let_def split: option.split)
  then show "prefix (ot_audit s) (ot_audit (snd (complete_operation i m k s)))"
    using update_audit(4) prefix_order.trans by blast
qed

lemma other_audit:
  "prefix (ot_audit s) (ot_audit (snd (clear_all i s)))"
  "prefix (ot_audit s) (ot_audit (background_write n i s))"
  "prefix (ot_audit s) (ot_audit (restart s))"
  by (simp_all add: clear_all_def background_write_def restart_def load_state_def Let_def split: option.split)

lemma step_audit: "ot_step s s' \<Longrightarrow> prefix (ot_audit s) (ot_audit s')"
  by (erule ot_stepE) (metis snd_conv create_audit update_audit end_audit other_audit)+

text \<open>Whatever sequence of calls, background writes and restarts follows, clearing the history included,
  the records of the audit log stay as they are and where they are: the log only grows at its end. Failing or
  cancelling an operation that is tracked adds its final record, with the status, unless the log cannot be
  written.\<close>

theorem audit_append_only:
  assumes "ot_step\<^sup>*\<^sup>* s s'"
  shows "prefix (ot_audit s) (ot_audit s') \<and>
    (\<forall>i k v e. hm_get (ot_ops s') k = Some v \<and> io_append i \<longrightarrow>
       (\<exists>w. ot_audit (snd (fail_operation i k e s')) = ot_audit s' @ [w] \<and> op_id w = op_id v \<and>
            op_status w = Failed \<and> op_error w = Some e) \<and>
       (\<exists>w. ot_audit (snd (cancel_operation i k s')) = ot_audit s' @ [w] \<and> op_id w = op_id v \<and>
            op_status w = Canceled))"
proof
  show "prefix (ot_audit s) (ot_audit s')"
    using assms by (induction rule: rtranclp_induct) (auto dest: step_audit intro: prefix_order.trans)
  show "\<forall>i k v e. hm_get (ot_ops s') k = Some v \<and> io_append i \<longrightarrow>
       (\<exists>w. ot_audit (snd (fail_operation i k e s')) = ot_audit s' @ [w] \<and> op_id w = op_id v \<and>
            op_status w = Failed \<and> op_error w = Some e) \<and>
       (\<exists>w. ot_audit (snd (cancel_operation i k s')) = ot_audit s' @ [w] \<and> op_id w = op_id v \<and>
            op_status w = Canceled)"
    by (auto simp: fail_operation_def cancel_operation_def finish_def cleanup_old_operations_def
        append_to_audit_log_def persist_def)
qed

theorem audit_append_only_witness: "prefix (ot_audit demo_created) (ot_audit demo_done)"
proof -
  have "ot_step demo_created demo_done"
    unfolding demo_done_def by (rule ot_step.intros(3)) (rule surjective_pairing)
  then have "ot_step\<^sup>*\<^sup>* demo_created demo_done" by (rule r_into_rtranclp)
  then show ?thesis using audit_append_only [of demo_created demo_done] by blast
qed

section \<open>Late background writes\<close>

lemma completion_status: "completion now now' v = Some w \<Longrightarrow> op_status w = Completed"
  by (auto simp: completion_def Let_def split: option.splits if_splits)

lemma hm_get_modify: "hm_get (modify_op k f m) k' = (if k' = k then map_option f (hm_get m k) else hm_get m k')"
  by (cases "hm_get m k") (auto simp: modify_op_def)

lemma completed_of_no_files:
  assumes "hm_get (ot_ops s) k = Some v" "op_files v = None" "io_write i"
    and "complete_operation i m k s = (r, s')"
  obtains d where "r = Returned ()" "ot_state_file s' = Some d" "ot_pending s' = ot_pending s"
    "\<And>w. hm_get d k = Some w \<Longrightarrow> op_status w = Completed"
proof -
  let ?s = "update_with_metrics m k s"
  obtain u where u: "hm_get (ot_ops ?s) k = Some u" "op_files u = None"
    using assms(1,2) by (simp add: update_with_metrics_def hm_get_modify apply_metrics_def)
  then obtain w where w: "completion (now_at ?s 0) (now_at ?s 1) u = Some w"
    by (simp add: completion_def Let_def)
  let ?t = "cleanup_old_operations (append_to_audit_log i w ((ticked 2 ?s)\<lparr>ot_ops := hm_insert k w (ot_ops ?s)\<rparr>))"
  have "complete_operation i m k s = (Returned (), ?t\<lparr>ot_state_file := Some (persist_map (ot_ops ?t))\<rparr>)"
    using u w assms(3) by (simp add: complete_operation_def finish_def save_state_def ticked_def Let_def)
  moreover have "op_status (persist w) = Completed" using completion_status [OF w] by (simp add: persist_def)
  moreover have "ot_pending ?t = ot_pending s"
    by (simp add: cleanup_old_operations_def append_to_audit_log_def ticked_def update_with_metrics_def)
  moreover have "op_status x = Completed" if "hm_get (persist_map (ot_ops ?t)) k = Some x" for x
    using that \<open>op_status (persist w) = Completed\<close>
    by (auto simp: hm_get_persist cleanup_old_operations_def append_to_audit_log_def hm_get_fold_remove
        split: if_splits)
  ultimately show ?thesis using assms(4) by (intro that [of "persist_map (ot_ops ?t)"]) auto
qed

lemma create_operation_pending:
  assumes "create_operation i ty src path dst sz s = (k, s')"
  obtains v where "hm_get (ot_ops s') k = Some v" "op_files v = None" "op_status v = Pending"
    "ot_pending s' = ot_pending s @ [persist_map (ot_ops s')]"
  using assms
  by (auto simp: create_operation_def create_operation_with_context_def ticked_def append_to_audit_log_def
      create_multi_file_operation_with_context_def Let_def)

text \<open>The state file can go backwards: an operation is created, completed and saved as completed (or
  already trimmed), and then the background task of the creation writes the snapshot it took, in which the
  operation is pending; after a restart the tracker shows it as pending.\<close>

theorem stale_background_write:
  assumes "io_write i"
    and "create_operation i ty src path dst sz s = (k, s1)"
    and "complete_operation i m k s1 = (r, s2)"
    and "s3 = background_write (length (ot_pending s)) i s2"
  shows "r = Returned () \<and>
    (\<exists>d. ot_state_file s2 = Some d \<and> (\<forall>w. hm_get d k = Some w \<longrightarrow> op_status w = Completed)) \<and>
    (\<exists>v. hm_get (ot_ops (restart s3)) k = Some v \<and> op_status v = Pending)"
proof -
  from assms(2) obtain v where v: "hm_get (ot_ops s1) k = Some v" "op_files v = None" "op_status v = Pending"
    "ot_pending s1 = ot_pending s @ [persist_map (ot_ops s1)]" by (rule create_operation_pending)
  from v(1,2) assms(1,3) obtain d where d: "r = Returned ()" "ot_state_file s2 = Some d"
    "ot_pending s2 = ot_pending s1" "\<And>w. hm_get d k = Some w \<Longrightarrow> op_status w = Completed"
    using completed_of_no_files [of s1 k v i m r s2] by metis
  have "ot_ops (restart s3) = persist_map (ot_ops s1)"
    using v(4) d(3) assms(1,4) by (simp add: background_write_def restart_def load_state_def)
  with v(1,3) have "\<exists>v. hm_get (ot_ops (restart s3)) k = Some v \<and> op_status v = Pending"
    by (simp add: hm_get_persist persist_def)
  with d show ?thesis by blast
qed

theorem stale_background_write_witness:
  "\<exists>s1 s2 k v.
     create_operation demo_io Upload ''s'' ''p'' None None demo_start = (k, s1) \<and>
     complete_operation demo_io \<lparr>mt_cpu = 0, mt_memory = 0, mt_tx = 0, mt_rx = 0\<rparr> k s1 = (Returned (), s2) \<and>
     hm_get (ot_ops (restart (background_write (length (ot_pending demo_start)) demo_io s2))) k = Some v \<and>
     op_status v = Pending"
proof -
  obtain k s1 where 1: "create_operation demo_io Upload ''s'' ''p'' None None demo_start = (k, s1)"
    by (metis surj_pair)
  obtain r s2 where 2: "complete_operation demo_io \<lparr>mt_cpu = 0, mt_memory = 0, mt_tx = 0, mt_rx = 0\<rparr> k s1 = (r, s2)"
    by (metis surj_pair)
  have "io_write demo_io" by (simp add: demo_io_def)
  from stale_background_write [OF this 1 2 refl] 1 2 show ?thesis by auto
qed

end
