(* ===== verification/Nvme_Cache.thy ===== *)
theory Nvme_Cache
  imports Prelude "HOL-Library.Multiset"
begin

text \<open>
  The content cache of the desktop application
  (\<open>apps/vfs-desktop/src-tauri/src/vfs/adapters/nvme_cache.rs\<close>, with its configuration and entries from
  \<open>domain/value_objects.rs\<close> and \<open>domain/entities.rs\<close> and its statistics from \<open>ports/cache.rs\<close>).

  The state holds the index behind the lock, the statistics, the files of the cache directory and the clock.
  Each method is one step. The MD5 digest is the parameter \<open>md5\<close> (the digest of a byte string, in
  hexadecimal). What the file system does with a write is an argument (\<open>write_result\<close>): it succeeds, it
  refuses, or it fails after it has left something in the file. Sizes are 64-bit words and their sums wrap, as
  in a release build. The index is keyed by \<open>PathBuf\<close>, whose equality is that of the components
  (\<open>path_components\<close>), while the digest is taken of the spelling.
\<close>

section \<open>Paths\<close>

definition path_components :: "string \<Rightarrow> string list" where
  "path_components p =
     (let ws = split_on (\<lambda>c. c = slash) p;
          absolute = (p \<noteq> [] \<and> hd p = slash)
      in (if absolute then [''/''] else if hd ws = ''.'' then [''.''] else []) @
         filter (\<lambda>w. w \<noteq> [] \<and> w \<noteq> ''.'') ws)"

text \<open>\<open>Path::file_name\<close> and \<open>Path::extension\<close>.\<close>

definition file_name :: "string \<Rightarrow> string option" where
  "file_name p =
     (let ws = path_components p
      in if ws = [] \<or> last ws \<in> {''/'', ''.'', ''..''} then None else Some (last ws))"

definition extension :: "string \<Rightarrow> string option" where
  "extension p =
     (case file_name p of
        None \<Rightarrow> None
      | Some n \<Rightarrow>
          (case rsplit_once CHR ''.'' n of
             None \<Rightarrow> None
           | Some (before, after) \<Rightarrow> if before = [] then None else Some after))"

section \<open>State\<close>

datatype eviction_policy = LRU | LFU | FIFO

record cache_config =
  cc_path :: string
  cc_max_size :: u64
  cc_eviction_policy :: eviction_policy
  cc_nvme_optimized :: bool

record cache_entry =
  ce_path :: string
  ce_cache_path :: string
  ce_size :: u64
  ce_cached_at :: int
  ce_last_accessed :: int
  ce_access_count :: u64

record cache_stats =
  cs_total_size :: u64
  cs_max_size :: u64
  cs_entry_count :: u64
  cs_hit_count :: u64
  cs_miss_count :: u64
  cs_eviction_count :: u64

type_synonym cache_index = "(string list, cache_entry) hash_map"

record nvme_cache =
  nc_config :: cache_config
  nc_entries :: cache_index
  nc_stats :: cache_stats
  nc_files :: "(string, bytes) hash_map"
  nc_clock :: "nat \<Rightarrow> int"
  nc_ticks :: nat

definition stats_default :: cache_stats where
  "stats_default =
     \<lparr>cs_total_size = 0, cs_max_size = 0, cs_entry_count = 0, cs_hit_count = 0, cs_miss_count = 0,
      cs_eviction_count = 0\<rparr>"

text \<open>The directory may hold files from an earlier run; the index starts empty.\<close>

definition cache_new :: "cache_config \<Rightarrow> (string, bytes) hash_map \<Rightarrow> (nat \<Rightarrow> int) \<Rightarrow> nvme_cache" where
  "cache_new cfg files clk =
     \<lparr>nc_config = cfg, nc_entries = [], nc_stats = stats_default, nc_files = files, nc_clock = clk, nc_ticks = 0\<rparr>"

definition cache_path_for :: "(string \<Rightarrow> string) \<Rightarrow> nvme_cache \<Rightarrow> string \<Rightarrow> string" where
  "cache_path_for md5 s p =
     path_join (cc_path (nc_config s)) (md5 p @ (case extension p of Some e \<Rightarrow> ''.'' @ e | None \<Rightarrow> []))"

section \<open>Eviction\<close>

definition index_size :: "cache_index \<Rightarrow> u64" where
  "index_size m = sum_list (map (\<lambda>(k, e). ce_size e) m)"

definition current_size :: "nvme_cache \<Rightarrow> u64" where
  "current_size s = index_size (nc_entries s)"

definition eviction_key :: "eviction_policy \<Rightarrow> cache_entry \<Rightarrow> int" where
  "eviction_key pol e =
     (case pol of LRU \<Rightarrow> ce_last_accessed e | LFU \<Rightarrow> uint (ce_access_count e) | FIFO \<Rightarrow> ce_cached_at e)"

fun victims :: "u64 \<Rightarrow> u64 \<Rightarrow> cache_index \<Rightarrow> string list list" where
  "victims need freed [] = []"
| "victims need freed ((k, e) # xs) =
     (if freed \<ge> need then [] else k # victims need (freed + ce_size e) xs)"

definition eviction_order :: "nvme_cache \<Rightarrow> cache_index" where
  "eviction_order s = sort_key (\<lambda>(k, e). eviction_key (cc_eviction_policy (nc_config s)) e) (nc_entries s)"

definition select_for_eviction :: "u64 \<Rightarrow> nvme_cache \<Rightarrow> string list list" where
  "select_for_eviction required s =
     (if current_size s + required \<le> cc_max_size (nc_config s) then []
      else victims (current_size s + required - cc_max_size (nc_config s)) 0 (eviction_order s))"

definition uncount :: "u64 \<Rightarrow> cache_stats \<Rightarrow> cache_stats" where
  "uncount n st =
     st\<lparr>cs_total_size := sat_sub (cs_total_size st) n, cs_entry_count := sat_sub (cs_entry_count st) 1\<rparr>"

text \<open>The loop over the victims removes them from the index, then the files are deleted; a failed deletion is
  ignored. \<open>undeleted\<close> are the files the file system refuses to delete.\<close>

fun drop_entries :: "string list list \<Rightarrow> cache_index \<Rightarrow> cache_stats \<Rightarrow> cache_index \<times> cache_stats \<times> string list \<times> u64" where
  "drop_entries [] m st = (m, st, [], 0)"
| "drop_entries (k # ks) m st =
     (case hm_get m k of
        None \<Rightarrow> drop_entries ks m st
      | Some e \<Rightarrow>
          (case drop_entries ks (hm_remove k m)
                  ((uncount (ce_size e) st)\<lparr>cs_eviction_count := cs_eviction_count st + 1\<rparr>) of
             (m', st', files, freed) \<Rightarrow> (m', st', ce_cache_path e # files, ce_size e + freed)))"

definition delete_files :: "(string \<Rightarrow> bool) \<Rightarrow> string list \<Rightarrow> (string, bytes) hash_map \<Rightarrow> (string, bytes) hash_map" where
  "delete_files undeleted fs m = fold (\<lambda>f m. if undeleted f then m else hm_remove f m) fs m"

definition evict_if_needed :: "(string \<Rightarrow> bool) \<Rightarrow> u64 \<Rightarrow> nvme_cache \<Rightarrow> (string, u64) outcome \<times> nvme_cache" where
  "evict_if_needed undeleted required s =
     (let ks = select_for_eviction required s in
      if ks = [] then (Ok 0, s)
      else
        case drop_entries ks (nc_entries s) (nc_stats s) of
          (m, st, files, freed) \<Rightarrow>
            (Ok freed, s\<lparr>nc_entries := m, nc_stats := st, nc_files := delete_files undeleted files (nc_files s)\<rparr>))"

section \<open>The other operations\<close>

definition is_cached :: "(string \<Rightarrow> string) \<Rightarrow> string \<Rightarrow> nvme_cache \<Rightarrow> bool" where
  "is_cached md5 p s \<longleftrightarrow>
     hm_get (nc_files s) (cache_path_for md5 s p) \<noteq> None \<and> hm_get (nc_entries s) (path_components p) \<noteq> None"

definition get_cached_path :: "(string \<Rightarrow> string) \<Rightarrow> string \<Rightarrow> nvme_cache \<Rightarrow> string option" where
  "get_cached_path md5 p s = (if is_cached md5 p s then Some (cache_path_for md5 s p) else None)"

definition write_file :: "write_result \<Rightarrow> string \<Rightarrow> bytes \<Rightarrow> nvme_cache \<Rightarrow> (string, unit) outcome \<times> nvme_cache" where
  "write_file r f d s =
     (case r of
        Written \<Rightarrow> (Ok (), s\<lparr>nc_files := hm_insert f d (nc_files s)\<rparr>)
      | Refused \<Rightarrow> (Err ''write failed'', s)
      | Torn d' \<Rightarrow> (Err ''write failed'', s\<lparr>nc_files := hm_insert f d' (nc_files s)\<rparr>))"

definition index_entry :: "string \<Rightarrow> string \<Rightarrow> u64 \<Rightarrow> nvme_cache \<Rightarrow> (string, cache_entry) outcome \<times> nvme_cache" where
  "index_entry p f n s =
     (let now = nc_clock s (nc_ticks s);
          e = \<lparr>ce_path = p, ce_cache_path = f, ce_size = n, ce_cached_at = now, ce_last_accessed = now,
               ce_access_count = 1\<rparr>
      in (Ok e,
          s\<lparr>nc_ticks := Suc (nc_ticks s), nc_entries := hm_insert (path_components p) e (nc_entries s),
            nc_stats := (nc_stats s)\<lparr>cs_total_size := cs_total_size (nc_stats s) + n,
                                     cs_entry_count := cs_entry_count (nc_stats s) + 1\<rparr>\<rparr>))"

definition cache_file ::
    "(string \<Rightarrow> string) \<Rightarrow> (string \<Rightarrow> bool) \<Rightarrow> write_result \<Rightarrow> string \<Rightarrow> bytes \<Rightarrow> nvme_cache \<Rightarrow>
     (string, cache_entry) outcome \<times> nvme_cache" where
  "cache_file md5 undeleted r p d s =
     (let f = cache_path_for md5 s p;
          n = of_nat (length d)
      in and_then (\<lambda>s. if cc_max_size (nc_config s) > 0 then evict_if_needed undeleted n s else (Ok 0, s))
           (\<lambda>_. and_then (write_file r f d) (\<lambda>_. index_entry p f n)) s)"

definition accessed :: "int \<Rightarrow> cache_entry \<Rightarrow> cache_entry" where
  "accessed now e = e\<lparr>ce_last_accessed := now, ce_access_count := ce_access_count e + 1\<rparr>"

definition touch :: "string \<Rightarrow> nvme_cache \<Rightarrow> nvme_cache" where
  "touch p s =
     (case hm_get (nc_entries s) (path_components p) of
        None \<Rightarrow> s
      | Some e \<Rightarrow>
          s\<lparr>nc_ticks := Suc (nc_ticks s),
            nc_entries := hm_insert (path_components p) (accessed (nc_clock s (nc_ticks s)) e) (nc_entries s)\<rparr>)"

definition read_from_cache :: "(string \<Rightarrow> string) \<Rightarrow> string \<Rightarrow> nvme_cache \<Rightarrow> (string, bytes) outcome \<times> nvme_cache" where
  "read_from_cache md5 p s =
     (let f = cache_path_for md5 s p;
          s = touch p s;
          s = s\<lparr>nc_stats := (nc_stats s)\<lparr>cs_hit_count := cs_hit_count (nc_stats s) + 1\<rparr>\<rparr>
      in (case hm_get (nc_files s) f of
            Some d \<Rightarrow> Ok d
          | None \<Rightarrow> Err (''Failed to read from cache: '' @ f), s))"

definition invalidate ::
    "(string \<Rightarrow> string) \<Rightarrow> (string \<Rightarrow> bool) \<Rightarrow> string \<Rightarrow> nvme_cache \<Rightarrow> (string, unit) outcome \<times> nvme_cache" where
  "invalidate md5 undeleted p s =
     (let f = cache_path_for md5 s p;
          s = (case hm_get (nc_entries s) (path_components p) of
                 None \<Rightarrow> s
               | Some e \<Rightarrow> s\<lparr>nc_entries := hm_remove (path_components p) (nc_entries s),
                             nc_stats := uncount (ce_size e) (nc_stats s)\<rparr>)
      in if hm_get (nc_files s) f = None then (Ok (), s)
         else if undeleted f then (Err ''remove failed'', s)
         else (Ok (), s\<lparr>nc_files := hm_remove f (nc_files s)\<rparr>))"

text \<open>\<open>clear\<close> deletes the files of the directory in the order the directory lists them and stops at the first
  that cannot be deleted.\<close>

fun clear_files :: "(string \<Rightarrow> bool) \<Rightarrow> (string, bytes) hash_map \<Rightarrow> (string, unit) outcome \<times> (string, bytes) hash_map" where
  "clear_files undeleted [] = (Ok (), [])"
| "clear_files undeleted ((f, d) # fs) =
     (if undeleted f then (Err ''remove failed'', (f, d) # fs) else clear_files undeleted fs)"

definition clear :: "(string \<Rightarrow> bool) \<Rightarrow> nvme_cache \<Rightarrow> (string, unit) outcome \<times> nvme_cache" where
  "clear undeleted s =
     (case clear_files undeleted (nc_files s) of
        (r, files) \<Rightarrow> (r, s\<lparr>nc_entries := [], nc_stats := stats_default, nc_files := files\<rparr>))"

definition stats :: "nvme_cache \<Rightarrow> cache_stats" where
  "stats s = (nc_stats s)\<lparr>cs_max_size := cc_max_size (nc_config s)\<rparr>"

section \<open>Sizes\<close>

definition nsize :: "cache_index \<Rightarrow> nat" where
  "nsize m = sum_list (map (\<lambda>(k, e). unat (ce_size e)) m)"

lemma nsize_simps [simp]:
  "nsize [] = 0" "nsize ((k, e) # m) = unat (ce_size e) + nsize m" "nsize (m @ m') = nsize m + nsize m'"
  by (simp_all add: nsize_def)

lemma unat_index_size: "nsize m < 2 ^ 64 \<Longrightarrow> unat (index_size m) = nsize m"
proof (induction m)
  case Nil
  then show ?case by (simp add: index_size_def)
next
  case (Cons kv m)
  obtain k e where kv: "kv = (k, e)" by (cases kv)
  with Cons have m: "unat (index_size m) = nsize m" "unat (ce_size e) + nsize m < 2 ^ 64" by simp_all
  have "index_size (kv # m) = ce_size e + index_size m" by (simp add: kv index_size_def)
  with m kv show ?case by (simp add: unat_add_nowrap)
qed

lemma nsize_mset: "nsize m = sum_mset (image_mset (\<lambda>(k, e). unat (ce_size e)) (mset m))"
  by (simp add: nsize_def sum_mset_sum_list [symmetric])

lemma nsize_perm: "mset m = mset m' \<Longrightarrow> nsize m = nsize m'"
  by (simp add: nsize_mset)

lemma nsize_remove: "hm_wf m \<Longrightarrow> hm_get m k = Some e \<Longrightarrow> nsize m = unat (ce_size e) + nsize (hm_remove k m)"
proof (induction m)
  case (Cons kv m)
  obtain j f where kv: "kv = (j, f)" by (cases kv)
  from Cons.prems kv have "k \<notin> set (hm_keys m)" if "j = k" using that by (simp add: hm_wf_def)
  with Cons kv show ?case by (auto simp: delete_idem hm_wf_def)
qed simp

lemma nsize_remove_le: "nsize (hm_remove k m) \<le> nsize m"
  by (induction m) auto

lemma nsize_insert_le: "nsize (hm_insert k e m) \<le> unat (ce_size e) + nsize m"
  by (induction m) auto

section \<open>Eviction frees enough, in policy order\<close>

text \<open>The victims are a prefix of the candidates: the shortest that frees enough, or all of them.\<close>

lemma victims_prefix:
  assumes "unat freed + nsize xs < 2 ^ 64"
  obtains n where "n \<le> length xs" "victims need freed xs = map fst (take n xs)"
    "n = length xs \<or> unat need \<le> unat freed + nsize (take n xs)"
    "\<And>i. i < n \<Longrightarrow> unat freed + nsize (take i xs) < unat need"
  using assms
proof (induction xs arbitrary: freed thesis)
  case Nil
  then show ?case by simp
next
  case (Cons kv xs)
  obtain k e where kv: "kv = (k, e)" by (cases kv)
  show ?case
  proof (cases "need \<le> freed")
    case True
    then show ?thesis by (intro Cons.prems(1) [of 0]) (simp_all add: kv word_le_nat_alt)
  next
    case False
    have f: "unat (freed + ce_size e) = unat freed + unat (ce_size e)"
      using Cons.prems(2) kv by (intro unat_add_nowrap) simp
    obtain n where n: "n \<le> length xs" "victims need (freed + ce_size e) xs = map fst (take n xs)"
      "n = length xs \<or> unat need \<le> unat (freed + ce_size e) + nsize (take n xs)"
      "\<And>i. i < n \<Longrightarrow> unat (freed + ce_size e) + nsize (take i xs) < unat need"
      by (rule Cons.IH [of "freed + ce_size e"]) (use Cons.prems(2) kv f in auto)
    show ?thesis
    proof (rule Cons.prems(1) [of "Suc n"])
      show "unat freed + nsize (take i (kv # xs)) < unat need" if "i < Suc n" for i
        using that False n(4) f by (cases i) (auto simp: kv word_le_nat_alt add.assoc)
    qed (use False n(1-3) f kv in auto)
  qed
qed

lemma drop_entries_index: "fst (drop_entries ks m st) = fold hm_remove ks m"
proof (induction ks arbitrary: m st)
  case (Cons k ks)
  have "hm_get m k = None \<Longrightarrow> hm_remove k m = m" by (simp add: map_of_eq_None_iff delete_idem)
  with Cons show ?case by (simp add: case_prod_beta split: option.split)
qed simp

lemma fold_remove_filter: "fold hm_remove ks m = filter (\<lambda>(k, e). k \<notin> set ks) m"
  by (induction ks arbitrary: m) (auto simp: AList.delete_eq case_prod_beta conj_commute intro!: filter_cong)

lemma eviction_order_perm: "mset (eviction_order s) = mset (nc_entries s)"
  by (simp add: eviction_order_def)

lemma filter_drop_distinct:
  assumes "distinct (map fst xs)"
  shows "filter (\<lambda>(k, e). k \<notin> set (map fst (take n xs))) xs = drop n xs"
proof -
  have d: "set (map fst (take n xs)) \<inter> set (map fst (drop n xs)) = {}"
    using assms by (metis append_take_drop_id distinct_append map_append)
  have "filter (\<lambda>(k, e). k \<notin> set (map fst (take n xs))) (take n xs) = []"
    by (force simp: filter_empty_conv)
  moreover have "filter (\<lambda>(k, e). k \<notin> set (map fst (take n xs))) (drop n xs) = drop n xs"
    by (rule filter_True) (use d in force)
  ultimately show ?thesis by (metis append_take_drop_id filter_append self_append_conv2)
qed

lemma evict_index:
  assumes "hm_wf (nc_entries s)" "nsize (nc_entries s) + unat required < 2 ^ 64"
    and "s' = snd (evict_if_needed undeleted required s)"
  obtains n where "mset (nc_entries s') = mset (drop n (eviction_order s))"
    "nc_entries s' = filter (\<lambda>(k, e). k \<notin> fst ` set (take n (eviction_order s))) (nc_entries s)"
    "n \<le> length (nc_entries s)"
    "n = length (nc_entries s) \<or> nsize (nc_entries s') + unat required \<le> unat (cc_max_size (nc_config s))"
    "\<And>i. i < n \<Longrightarrow> unat (cc_max_size (nc_config s)) < nsize (drop i (eviction_order s)) + unat required"
proof -
  let ?m = "nc_entries s" and ?xs = "eviction_order s" and ?max = "cc_max_size (nc_config s)"
  have perm: "mset ?xs = mset ?m" by (rule eviction_order_perm)
  then have size: "nsize ?xs = nsize ?m" "length ?xs = length ?m"
    by (auto intro: nsize_perm dest: mset_eq_length)
  have dist: "distinct (map fst ?xs)"
    using assms(1) perm unfolding hm_wf_def by (metis mset_map mset_eq_imp_distinct_iff)
  have cur: "unat (current_size s + required) = nsize ?m + unat required"
    using assms(2) unat_index_size [of ?m] by (simp add: current_size_def unat_add_nowrap)
  have part: "nsize ?m = nsize (take n ?xs) + nsize (drop n ?xs)" for n
    by (metis append_take_drop_id nsize_simps(3) size(1))
  obtain n where n: "n \<le> length ?m" "select_for_eviction required s = map fst (take n ?xs)"
    "n = length ?m \<or> nsize (drop n ?xs) + unat required \<le> unat ?max"
    "\<And>i. i < n \<Longrightarrow> unat ?max < nsize (drop i ?xs) + unat required"
  proof (cases "current_size s + required \<le> ?max")
    case True
    then show ?thesis
      using cur size by (intro that [of 0]) (auto simp: select_for_eviction_def word_le_nat_alt)
  next
    case False
    then have "unat (current_size s + required - ?max) = nsize ?m + unat required - unat ?max"
      using cur by (simp add: unat_sub)
    then have need: "unat (current_size s + required - ?max) + unat ?max = nsize ?m + unat required"
      using False cur by (simp add: word_le_nat_alt)
    obtain n where "n \<le> length ?xs"
      "victims (current_size s + required - ?max) 0 ?xs = map fst (take n ?xs)"
      "n = length ?xs \<or> unat (current_size s + required - ?max) \<le> unat (0 :: u64) + nsize (take n ?xs)"
      "\<And>i. i < n \<Longrightarrow> unat (0 :: u64) + nsize (take i ?xs) < unat (current_size s + required - ?max)"
      by (rule victims_prefix [of 0 ?xs]) (use assms(2) size in auto)
    note n = this
    show ?thesis
    proof (rule that [of n])
      show "n = length ?m \<or> nsize (drop n ?xs) + unat required \<le> unat ?max"
        using n(3) need part [of n] size by auto
      show "unat ?max < nsize (drop i ?xs) + unat required" if "i < n" for i
        using n(4) [OF that] need part [of i] by auto
    qed (use n False size in \<open>auto simp: select_for_eviction_def\<close>)
  qed
  have s': "nc_entries s' = fold hm_remove (select_for_eviction required s) ?m"
    using drop_entries_index [of "select_for_eviction required s" ?m "nc_stats s"]
    by (auto simp: assms(3) evict_if_needed_def Let_def split: prod.splits)
  then have filt: "nc_entries s' = filter (\<lambda>(k, e). k \<notin> fst ` set (take n ?xs)) ?m"
    by (simp add: n(2) fold_remove_filter)
  then have "mset (nc_entries s') = mset (filter (\<lambda>(k, e). k \<notin> set (map fst (take n ?xs))) ?xs)"
    using perm by simp
  then have ms: "mset (nc_entries s') = mset (drop n ?xs)"
    by (simp only: filter_drop_distinct [OF dist])
  then have "nsize (nc_entries s') = nsize (drop n ?xs)" by (rule nsize_perm)
  with ms filt n show ?thesis by (intro that [of n]) auto
qed

lemma drop_step:
  assumes "i < length xs"
  obtains k e where "drop i xs = (k, e) # drop (Suc i) xs" "(k, e) \<in> set (take (Suc i) xs)"
proof -
  obtain k e where "xs ! i = (k, e)" by fastforce
  with assms show ?thesis
    by (intro that [of k e]) (auto simp: Cons_nth_drop_Suc [symmetric] take_Suc_conv_app_nth)
qed

text \<open>(C28) Making room: if the index and the new file together do not overflow, then afterwards the new file
  fits, unless nothing is left in the index; every entry that stays is unchanged; what was evicted comes before
  what stays in the order of the policy; and no eviction was superfluous - without its last victim the new
  file would not have fitted.\<close>

theorem evict_makes_room:
  assumes "hm_wf (nc_entries s)" and "nsize (nc_entries s) + unat required < 2 ^ 64"
    and "s' = snd (evict_if_needed undeleted required s)"
    and "key = eviction_key (cc_eviction_policy (nc_config s))"
  shows "(nc_entries s' = [] \<or> nsize (nc_entries s') + unat required \<le> unat (cc_max_size (nc_config s))) \<and>
    (\<forall>k e. hm_get (nc_entries s') k = Some e \<longrightarrow> hm_get (nc_entries s) k = Some e) \<and>
    (\<forall>k e j f. hm_get (nc_entries s) k = Some e \<and> hm_get (nc_entries s') k = None \<and>
       hm_get (nc_entries s') j = Some f \<longrightarrow> key e \<le> key f) \<and>
    (nc_entries s' \<noteq> nc_entries s \<longrightarrow>
       (\<exists>k e. hm_get (nc_entries s) k = Some e \<and> hm_get (nc_entries s') k = None \<and>
          unat (cc_max_size (nc_config s)) < nsize (nc_entries s') + unat (ce_size e) + unat required))"
proof -
  let ?m = "nc_entries s" and ?xs = "eviction_order s" and ?m' = "nc_entries s'"
  obtain n where n: "mset ?m' = mset (drop n ?xs)"
    "?m' = filter (\<lambda>(k, e). k \<notin> fst ` set (take n ?xs)) ?m" "n \<le> length ?m"
    "n = length ?m \<or> nsize ?m' + unat required \<le> unat (cc_max_size (nc_config s))"
    "\<And>i. i < n \<Longrightarrow> unat (cc_max_size (nc_config s)) < nsize (drop i ?xs) + unat required"
    using assms(1-3) by (rule evict_index) blast
  have len: "length ?xs = length ?m" using mset_eq_length [OF eviction_order_perm] .
  have wf': "hm_wf ?m'" using assms(1) n(2) by (simp add: hm_wf_def distinct_map_filter)
  have get: "hm_get ?m k = Some e \<longleftrightarrow> (k, e) \<in> set ?xs" for k e
    using assms(1) mset_eq_setD [OF eviction_order_perm [of s]] by (simp add: hm_wf_def)
  have get': "hm_get ?m' k = Some e \<longleftrightarrow> (k, e) \<in> set (drop n ?xs)" for k e
    using wf' mset_eq_setD [OF n(1)] by (simp add: hm_wf_def)
  have split: "set ?xs = set (take n ?xs) \<union> set (drop n ?xs)" by (metis append_take_drop_id set_append)
  have gone: "(k, e) \<in> set (take n ?xs)" if "hm_get ?m k = Some e" "hm_get ?m' k = None" for k e
    using that get get' split by (metis Un_iff option.distinct(1))
  have "?m' = []" if "n = length ?m" using that n(1) len by simp
  then have room: "?m' = [] \<or> nsize ?m' + unat required \<le> unat (cc_max_size (nc_config s))" using n(4) by blast
  have sorted: "sorted (map (\<lambda>(k, e). key e) (take n ?xs @ drop n ?xs))"
    unfolding append_take_drop_id assms(4) eviction_order_def by (rule sorted_sort_key)
  have order: "key e \<le> key f" if "hm_get ?m k = Some e" "hm_get ?m' k = None" "hm_get ?m' j = Some f" for k e j f
  proof -
    have "(k, e) \<in> set (take n ?xs)" "(j, f) \<in> set (drop n ?xs)" using that gone get' by auto
    with sorted show ?thesis unfolding map_append sorted_append by fastforce
  qed
  have last: "\<exists>k e. hm_get ?m k = Some e \<and> hm_get ?m' k = None \<and>
      unat (cc_max_size (nc_config s)) < nsize ?m' + unat (ce_size e) + unat required" if "?m' \<noteq> ?m"
  proof -
    have "n \<noteq> 0" using that n(2) by (cases n) (auto simp: case_prod_beta)
    then obtain i where i: "n = Suc i" by (cases n) auto
    then have "i < length ?xs" using n(3) len by simp
    then obtain k e where ke: "drop i ?xs = (k, e) # drop n ?xs" "(k, e) \<in> set (take n ?xs)"
      using i drop_step by blast
    then have "k \<in> fst ` set (take n ?xs)" by force
    then have "hm_get ?m' k = None" unfolding map_of_eq_None_iff n(2) by force
    moreover have "hm_get ?m k = Some e" using ke get by (metis in_set_dropD list.set_intros(1))
    moreover have "nsize (drop i ?xs) = unat (ce_size e) + nsize ?m'" using ke nsize_perm [OF n(1)] by simp
    ultimately show ?thesis using n(5) [of i] i by (intro exI [of _ k] exI [of _ e]) simp
  qed
  have keep: "hm_get ?m k = Some e" if "hm_get ?m' k = Some e" for k e
    using that get get' split by blast
  show ?thesis using room keep order last by blast
qed

definition demo_entry :: "string \<Rightarrow> u64 \<Rightarrow> int \<Rightarrow> cache_entry" where
  "demo_entry p n t =
     \<lparr>ce_path = p, ce_cache_path = p, ce_size = n, ce_cached_at = t, ce_last_accessed = t, ce_access_count = 1\<rparr>"

definition demo_config :: cache_config where
  "demo_config = \<lparr>cc_path = ''/c'', cc_max_size = 10, cc_eviction_policy = LRU, cc_nvme_optimized = True\<rparr>"

definition demo_cache :: nvme_cache where
  "demo_cache =
     (cache_new demo_config [] (\<lambda>n. int n))
       \<lparr>nc_entries := [([''a''], demo_entry ''a'' 6 2), ([''b''], demo_entry ''b'' 3 1)]\<rparr>"

theorem evict_makes_room_witness:
  "nsize (nc_entries (snd (evict_if_needed (\<lambda>_. False) 5 demo_cache))) + 5 \<le> 10 \<or>
   nc_entries (snd (evict_if_needed (\<lambda>_. False) 5 demo_cache)) = []"
proof -
  have "hm_wf (nc_entries demo_cache)" "nsize (nc_entries demo_cache) + unat (5 :: u64) < 2 ^ 64"
    "cc_max_size (nc_config demo_cache) = 10"
    by (simp_all add: demo_cache_def demo_entry_def hm_wf_def cache_new_def demo_config_def)
  then show ?thesis
    using evict_makes_room [of demo_cache 5, OF _ _ refl refl, of "\<lambda>_. False"] by auto
qed

section \<open>Runs\<close>

text \<open>A call with the outcomes of the file system it meets.\<close>

datatype nc_op =
    CacheFile write_result "string \<Rightarrow> bool" string bytes
  | ReadFromCache string
  | Touch string
  | Invalidate "string \<Rightarrow> bool" string
  | Clear "string \<Rightarrow> bool"
  | EvictIfNeeded "string \<Rightarrow> bool" u64

fun nc_exec :: "(string \<Rightarrow> string) \<Rightarrow> nc_op \<Rightarrow> nvme_cache \<Rightarrow> nvme_cache" where
  "nc_exec md5 (CacheFile r u p d) s = snd (cache_file md5 u r p d s)"
| "nc_exec md5 (ReadFromCache p) s = snd (read_from_cache md5 p s)"
| "nc_exec md5 (Touch p) s = touch p s"
| "nc_exec md5 (Invalidate u p) s = snd (invalidate md5 u p s)"
| "nc_exec md5 (Clear u) s = snd (clear u s)"
| "nc_exec md5 (EvictIfNeeded u n) s = snd (evict_if_needed u n s)"

definition nc_run :: "(string \<Rightarrow> string) \<Rightarrow> nc_op list \<Rightarrow> nvme_cache \<Rightarrow> nvme_cache" where
  "nc_run md5 ops s = fold (nc_exec md5) ops s"

lemma evict_config [simp]: "nc_config (snd (evict_if_needed u n s)) = nc_config s"
  by (simp add: evict_if_needed_def Let_def split: prod.split)

lemma touch_config [simp]: "nc_config (touch p s) = nc_config s"
  by (simp add: touch_def split: option.split)

lemma write_file_frame [simp]:
  "nc_config (snd (write_file r f d s)) = nc_config s" "nc_entries (snd (write_file r f d s)) = nc_entries s"
  by (simp_all add: write_file_def split: write_result.split)

lemma index_entry_frame [simp]: "nc_config (snd (index_entry p f n s)) = nc_config s"
  by (simp add: index_entry_def Let_def)

text \<open>The three stages of \<open>cache_file\<close>: make room, write, index.\<close>

definition made_room :: "(string \<Rightarrow> bool) \<Rightarrow> u64 \<Rightarrow> nvme_cache \<Rightarrow> nvme_cache" where
  "made_room u n s = (if cc_max_size (nc_config s) > 0 then snd (evict_if_needed u n s) else s)"

lemma made_room_config [simp]: "nc_config (made_room u n s) = nc_config s"
  by (simp add: made_room_def)

lemma evict_Ok: "\<exists>v. evict_if_needed u n s = (Ok v, snd (evict_if_needed u n s))"
  by (simp add: evict_if_needed_def Let_def split: prod.split)

lemma cache_file_stages:
  "cache_file md5 u r p d s =
     and_then (write_file r (cache_path_for md5 s p) d) (\<lambda>_. index_entry p (cache_path_for md5 s p) (of_nat (length d)))
       (made_room u (of_nat (length d)) s)"
proof -
  have "and_then (\<lambda>s. if cc_max_size (nc_config s) > 0 then evict_if_needed u n s else (Ok 0, s)) (\<lambda>_. g) s =
      g (made_room u n s)" for n and g :: "nvme_cache \<Rightarrow> (string, cache_entry) outcome \<times> nvme_cache"
  proof -
    obtain v where "evict_if_needed u n s = (Ok v, snd (evict_if_needed u n s))" using evict_Ok by blast
    then show ?thesis by (cases "cc_max_size (nc_config s) > 0") (simp_all add: made_room_def)
  qed
  then show ?thesis unfolding cache_file_def Let_def by blast
qed

lemma cache_file_Written:
  "cache_file md5 u Written p d s =
     index_entry p (cache_path_for md5 s p) (of_nat (length d))
       ((made_room u (of_nat (length d)) s)
          \<lparr>nc_files := hm_insert (cache_path_for md5 s p) d (nc_files (made_room u (of_nat (length d)) s))\<rparr>)"
  by (simp add: cache_file_stages and_then_def write_file_def)

lemma cache_file_failed:
  "cache_file md5 u Refused p d s = (Err ''write failed'', made_room u (of_nat (length d)) s)"
  "cache_file md5 u (Torn d') p d s =
     (Err ''write failed'', (made_room u (of_nat (length d)) s)
        \<lparr>nc_files := hm_insert (cache_path_for md5 s p) d' (nc_files (made_room u (of_nat (length d)) s))\<rparr>)"
  by (simp_all add: cache_file_stages and_then_def write_file_def)

lemma nc_exec_config [simp]: "nc_config (nc_exec md5 op s) = nc_config s"
proof (cases op)
  case (CacheFile r u p d)
  then show ?thesis
    by (cases r) (simp_all add: cache_file_Written cache_file_failed)
qed (simp_all add: read_from_cache_def invalidate_def clear_def Let_def split: option.split prod.split)

section \<open>Capacity\<close>

definition fits :: "nvme_cache \<Rightarrow> bool" where
  "fits s \<longleftrightarrow> hm_wf (nc_entries s) \<and> nsize (nc_entries s) \<le> unat (cc_max_size (nc_config s))"

lemma evict_fits:
  assumes "fits s" "unat (cc_max_size (nc_config s)) + unat n < 2 ^ 64"
  shows "fits (snd (evict_if_needed u n s))"
    and "unat n \<le> unat (cc_max_size (nc_config s)) \<Longrightarrow>
      nsize (nc_entries (snd (evict_if_needed u n s))) + unat n \<le> unat (cc_max_size (nc_config s))"
proof -
  let ?s = "snd (evict_if_needed u n s)"
  have "hm_wf (nc_entries s)" "nsize (nc_entries s) + unat n < 2 ^ 64" using assms by (simp_all add: fits_def)
  then obtain k where k: "nc_entries ?s = filter (\<lambda>(j, e). j \<notin> fst ` set (take k (eviction_order s))) (nc_entries s)"
    "mset (nc_entries ?s) = mset (drop k (eviction_order s))" "k \<le> length (nc_entries s)"
    "k = length (nc_entries s) \<or> nsize (nc_entries ?s) + unat n \<le> unat (cc_max_size (nc_config s))"
    by (rule evict_index [OF _ _ refl, of s n u]) blast
  have "nsize (nc_entries s) = nsize (take k (eviction_order s)) + nsize (drop k (eviction_order s))"
    using nsize_perm [OF eviction_order_perm] by (metis append_take_drop_id nsize_simps(3))
  then have "nsize (nc_entries ?s) \<le> nsize (nc_entries s)" using nsize_perm [OF k(2)] by simp
  then show "fits ?s" using assms(1) k(1) by (simp add: fits_def hm_wf_def distinct_map_filter)
  assume "unat n \<le> unat (cc_max_size (nc_config s))"
  moreover have "nc_entries ?s = []" if "k = length (nc_entries s)"
    using that k(2) mset_eq_length [OF eviction_order_perm [of s]] by simp
  ultimately show "nsize (nc_entries ?s) + unat n \<le> unat (cc_max_size (nc_config s))" using k(4) by auto
qed

lemma fits_insert:
  "fits s \<Longrightarrow> nsize (nc_entries s) + unat (ce_size e) \<le> unat (cc_max_size (nc_config s)) \<Longrightarrow>
   fits (s\<lparr>nc_entries := hm_insert k e (nc_entries s)\<rparr>)"
  using nsize_insert_le [of k e "nc_entries s"] by (auto simp: fits_def)

lemma nsize_same_size:
  "hm_get m k = Some e \<Longrightarrow> ce_size e' = ce_size e \<Longrightarrow> nsize (hm_insert k e' m) = nsize m"
  by (induction m) (auto split: if_splits)

lemma touch_fits: "fits s \<Longrightarrow> fits (touch p s)"
  by (auto simp: touch_def fits_def accessed_def nsize_same_size split: option.split)

definition small_enough :: "u64 \<Rightarrow> nc_op \<Rightarrow> bool" where
  "small_enough mx op = (case op of CacheFile r u p d \<Rightarrow> length d \<le> unat mx | EvictIfNeeded u n \<Rightarrow> n \<le> mx | _ \<Rightarrow> True)"

lemma cache_file_fits:
  assumes "fits s" "length d \<le> unat (cc_max_size (nc_config s))" "0 < cc_max_size (nc_config s)"
    "2 * unat (cc_max_size (nc_config s)) < 2 ^ 64"
  shows "fits (snd (cache_file md5 u r p d s))"
proof -
  let ?n = "of_nat (length d) :: u64" and ?s = "made_room u (of_nat (length d)) s"
  have n: "unat ?n = length d" using assms(2,4) by (intro unat_of_nat_le) simp
  then have s: "fits ?s" "nsize (nc_entries ?s) + length d \<le> unat (cc_max_size (nc_config s))"
    using evict_fits [of s ?n u] assms by (simp_all add: made_room_def)
  show ?thesis
  proof (cases r)
    case Written
    with s n show ?thesis
      by (auto simp: cache_file_Written index_entry_def Let_def fits_def
          intro: order_trans [OF nsize_insert_le])
  qed (use s(1) in \<open>simp_all add: cache_file_failed fits_def\<close>)
qed

lemma nc_exec_fits:
  assumes "fits s" "small_enough (cc_max_size (nc_config s)) op" "0 < cc_max_size (nc_config s)"
    "2 * unat (cc_max_size (nc_config s)) < 2 ^ 64"
  shows "fits (nc_exec md5 op s)"
proof (cases op)
  case (CacheFile r u p d)
  with assms show ?thesis by (simp add: small_enough_def cache_file_fits)
next
  case (EvictIfNeeded u n)
  with assms show ?thesis by (simp add: small_enough_def evict_fits(1) word_le_nat_alt)
next
  case (ReadFromCache p)
  with touch_fits [OF assms(1)] show ?thesis by (simp add: read_from_cache_def Let_def fits_def)
next
  case (Touch p)
  with touch_fits [OF assms(1)] show ?thesis by simp
next
  case (Invalidate u p)
  with assms(1) nsize_remove_le [of "path_components p" "nc_entries s"] show ?thesis
    by (auto simp: invalidate_def Let_def fits_def split: option.split)
next
  case (Clear u)
  then show ?thesis by (simp add: clear_def fits_def split: prod.split)
qed

text \<open>Along every run in which no single file is larger than the limit, whatever the file system does, the
  files in the index never take more than the configured maximum.\<close>

theorem cache_capacity:
  assumes "0 < cc_max_size cfg" and "2 * unat (cc_max_size cfg) < 2 ^ 64"
    and "list_all (small_enough (cc_max_size cfg)) ops"
  shows "unat (current_size (nc_run md5 ops (cache_new cfg files clk))) \<le> unat (cc_max_size cfg)"
proof -
  have "fits (nc_run md5 ops s) \<and> nc_config (nc_run md5 ops s) = cfg" if "fits s" "nc_config s = cfg" for s
    using that assms
  proof (induction ops arbitrary: s)
    case (Cons op ops)
    then show ?case using nc_exec_fits [of s op md5] by (simp add: nc_run_def)
  qed (simp add: nc_run_def)
  moreover have "fits (cache_new cfg files clk)" "nc_config (cache_new cfg files clk) = cfg"
    by (simp_all add: cache_new_def fits_def)
  ultimately have "fits (nc_run md5 ops (cache_new cfg files clk))"
    "nc_config (nc_run md5 ops (cache_new cfg files clk)) = cfg" by blast+
  then show ?thesis using assms(2) by (simp add: fits_def current_size_def unat_index_size)
qed

theorem cache_capacity_witness:
  "unat (current_size (nc_run id [CacheFile Written (\<lambda>_. False) ''a'' [1, 2, 3], Touch ''a''] (cache_new demo_config [] int)))
     \<le> 10"
  using cache_capacity [of demo_config "[CacheFile Written (\<lambda>_. False) ''a'' [1, 2, 3], Touch ''a'']" id "[]" int]
  by (simp add: demo_config_def small_enough_def)

section \<open>Contents\<close>

text \<open>The paths in use are told apart by the index and by the cache directory: each is spelled in one way and no
  two digests collide.\<close>

definition separate :: "(string \<Rightarrow> string) \<Rightarrow> nvme_cache \<Rightarrow> string set \<Rightarrow> bool" where
  "separate md5 s P \<longleftrightarrow>
     (\<forall>p\<in>P. \<forall>q\<in>P. path_components p = path_components q \<or> cache_path_for md5 s p = cache_path_for md5 s q \<longrightarrow> p = q)"

text \<open>The bytes of the last successful \<open>cache_file\<close> for a path.\<close>

fun last_cached :: "nc_op list \<Rightarrow> (string \<Rightarrow> bytes option) \<Rightarrow> string \<Rightarrow> bytes option" where
  "last_cached [] g = g"
| "last_cached (CacheFile Written u p d # ops) g = last_cached ops (g(p := Some d))"
| "last_cached (_ # ops) g = last_cached ops g"

definition orderly :: "string set \<Rightarrow> nc_op \<Rightarrow> bool" where
  "orderly P op = (case op of CacheFile r u p d \<Rightarrow> p \<in> P \<and> (r = Written \<or> r = Refused) | _ \<Rightarrow> True)"

definition contents_ok :: "(string \<Rightarrow> string) \<Rightarrow> string set \<Rightarrow> (string \<Rightarrow> bytes option) \<Rightarrow> nvme_cache \<Rightarrow> bool" where
  "contents_ok md5 P g s \<longleftrightarrow>
     (\<forall>p\<in>P. is_cached md5 p s \<longrightarrow> hm_get (nc_files s) (cache_path_for md5 s p) = g p)"

lemma cache_path_config: "nc_config s = nc_config s' \<Longrightarrow> cache_path_for md5 s p = cache_path_for md5 s' p"
  by (simp add: cache_path_for_def)

text \<open>Losing entries or files keeps the contents right.\<close>

definition shrinks :: "nvme_cache \<Rightarrow> nvme_cache \<Rightarrow> bool" where
  "shrinks s s' \<longleftrightarrow> nc_config s' = nc_config s \<and>
     (\<forall>k. hm_get (nc_entries s') k \<noteq> None \<longrightarrow> hm_get (nc_entries s) k \<noteq> None) \<and>
     (\<forall>f. hm_get (nc_files s') f = None \<or> hm_get (nc_files s') f = hm_get (nc_files s) f)"

lemma shrinks_contents: "shrinks s s' \<Longrightarrow> contents_ok md5 P g s \<Longrightarrow> contents_ok md5 P g s'"
  unfolding shrinks_def contents_ok_def is_cached_def by (metis cache_path_config)

lemma delete_files_get: "hm_get (delete_files u fs m) f = (if f \<in> set fs \<and> \<not> u f then None else hm_get m f)"
  unfolding delete_files_def by (induction fs arbitrary: m) auto

lemma evict_shrinks: "shrinks s (snd (evict_if_needed u n s))"
proof -
  let ?ks = "select_for_eviction n s"
  obtain m st fs k where d: "drop_entries ?ks (nc_entries s) (nc_stats s) = (m, st, fs, k)" by (metis prod_cases4)
  then have "m = fold hm_remove ?ks (nc_entries s)" using drop_entries_index by (metis fst_conv)
  then show ?thesis 
    by (cases "?ks = []") (auto simp: shrinks_def evict_if_needed_def Let_def d hm_get_fold_remove delete_files_get split: if_splits)
qed

lemma touch_frame [simp]: "nc_files (touch p s) = nc_files s"
  by (simp add: touch_def split: option.split)

lemma touch_shrinks: "shrinks s (touch p s)"
  by (auto simp: shrinks_def touch_def split: option.splits if_splits)

lemma invalidate_shrinks: "shrinks s (snd (invalidate md5 u p s))"
  by (auto simp: shrinks_def invalidate_def Let_def split: option.splits if_splits)

lemma cache_file_contents:
  assumes "separate md5 s P" "p \<in> P" "contents_ok md5 P g s"
  shows "contents_ok md5 P (g(p := Some d)) (snd (cache_file md5 u Written p d s))"
proof -
  let ?s = "made_room u (of_nat (length d)) s" and ?t = "snd (cache_file md5 u Written p d s)"
  have ok: "contents_ok md5 P g ?s"
    using assms(3) evict_shrinks by (auto simp: made_room_def intro: shrinks_contents)
  have t: "nc_files ?t = hm_insert (cache_path_for md5 s p) d (nc_files ?s)"
    "k \<noteq> path_components p \<Longrightarrow> hm_get (nc_entries ?t) k = hm_get (nc_entries ?s) k" for k
    by (simp_all add: cache_file_Written index_entry_def Let_def)
  have c: "cache_path_for md5 ?s q = cache_path_for md5 s q" "cache_path_for md5 ?t q = cache_path_for md5 s q" for q
    by (rule cache_path_config, simp add: cache_file_Written)+
  show ?thesis unfolding contents_ok_def
  proof (intro ballI impI)
    fix q assume q: "q \<in> P" "is_cached md5 q ?t"
    show "hm_get (nc_files ?t) (cache_path_for md5 ?t q) = (g(p := Some d)) q"
    proof (cases "q = p")
      case True
      then show ?thesis by (simp add: t(1) c)
    next
      case False
      with assms(1,2) q(1) have "path_components q \<noteq> path_components p" "cache_path_for md5 s q \<noteq> cache_path_for md5 s p"
        unfolding separate_def by blast+
      with q(2) have "is_cached md5 q ?s" "hm_get (nc_files ?t) (cache_path_for md5 ?t q) =
          hm_get (nc_files ?s) (cache_path_for md5 ?s q)"
        using t by (auto simp: is_cached_def c)
      with ok q(1) False show ?thesis unfolding contents_ok_def by simp
    qed
  qed
qed

lemma nc_exec_contents:
  assumes "separate md5 s P" "orderly P op" "contents_ok md5 P g s"
  shows "contents_ok md5 P (last_cached [op] g) (nc_exec md5 op s)"
proof (cases op)
  case (CacheFile r u p d)
  show ?thesis
  proof (cases "r = Written")
    case True
    with CacheFile assms show ?thesis by (simp add: orderly_def cache_file_contents)
  next
    case False
    with CacheFile assms(2) have "r = Refused" by (simp add: orderly_def)
    moreover have "contents_ok md5 P g (made_room u n s)" for n
      using assms(3) evict_shrinks by (auto simp: made_room_def intro: shrinks_contents)
    ultimately show ?thesis using CacheFile by (simp add: cache_file_failed)
  qed
next
  case (ReadFromCache p)
  have "shrinks s (nc_exec md5 op s)"
    using touch_shrinks [of s p] by (simp add: ReadFromCache read_from_cache_def Let_def shrinks_def)
  with assms(3) ReadFromCache show ?thesis by (simp add: shrinks_contents)
next
  case (Clear u)
  then show ?thesis by (simp add: clear_def contents_ok_def is_cached_def split: prod.split)
qed (use assms(3) shrinks_contents touch_shrinks invalidate_shrinks evict_shrinks in \<open>simp, blast\<close>)+

lemma cached_after: "is_cached md5 p (snd (cache_file md5 u Written p d s))"
  by (simp add: is_cached_def cache_file_Written index_entry_def Let_def cache_path_for_def)

lemma last_cached_Cons: "last_cached (op # ops) g = last_cached ops (last_cached [op] g)"
proof (cases op)
  case (CacheFile r u p d)
  then show ?thesis by (cases r) simp_all
qed simp_all

lemma separate_config: "nc_config s = nc_config s' \<Longrightarrow> separate md5 s P \<longleftrightarrow> separate md5 s' P"
  by (simp add: separate_def cache_path_for_def)

lemma nc_run_contents:
  assumes "separate md5 s P" "list_all (orderly P) ops" "contents_ok md5 P g s"
  shows "contents_ok md5 P (last_cached ops g) (nc_run md5 ops s)"
  using assms
proof (induction ops arbitrary: s g)
  case (Cons op ops)
  have "separate md5 (nc_exec md5 op s) P" using Cons.prems(1) separate_config nc_exec_config by blast
  with Cons show ?case using nc_exec_contents [of md5 s P op g]
    by (simp add: nc_run_def last_cached_Cons [of op ops])
qed (simp add: nc_run_def)

lemma is_cached_touch [simp]: "is_cached md5 p (touch q s) = is_cached md5 p s"
  by (auto simp: is_cached_def touch_def cache_path_for_def split: option.splits)


definition demo_run :: "nc_op list" where
  "demo_run = [CacheFile Written (\<lambda>_. False) ''a'' [1, 2, 3], Touch ''a'']"


text \<open>A failed write is not contained: if caching a path that is already cached fails half-way, with enough
  room in the cache, the path is still reported as cached and the cache serves what the failed write left.\<close>

theorem torn_write_served:
  assumes "is_cached md5 p s" and "cache_file md5 u (Torn d') p d s = (r, s')"
    and "current_size s + of_nat (length d) \<le> cc_max_size (nc_config s)"
  shows "r = Err ''write failed'' \<and> is_cached md5 p s' \<and> fst (read_from_cache md5 p s') = Ok d'"
proof -
  have "made_room u (of_nat (length d)) s = s"
    using assms(3) by (simp add: made_room_def evict_if_needed_def select_for_eviction_def)
  then have "r = Err ''write failed''" "s' = s\<lparr>nc_files := hm_insert (cache_path_for md5 s p) d' (nc_files s)\<rparr>"
    using assms(2) by (simp_all add: cache_file_failed)
  moreover from this assms(1) have "is_cached md5 p s'" by (simp add: is_cached_def cache_path_for_def)
  ultimately show ?thesis by (simp add: read_from_cache_def Let_def cache_path_for_def)
qed

theorem torn_write_served_witness:
  "is_cached id ''a'' (snd (cache_file id (\<lambda>_. False) (Torn [9]) ''a'' [1, 2, 3]
       (nc_run id demo_run (cache_new demo_config [] int))))"
proof -
  let ?s = "nc_run id demo_run (cache_new demo_config [] int)"
  have "is_cached id ''a'' ?s"
    by (simp add: nc_run_def demo_run_def cached_after)
  moreover have "current_size ?s + of_nat (length ([1, 2, 3] :: bytes)) \<le> cc_max_size (nc_config ?s)"
    by (simp add: nc_run_def demo_run_def cache_file_Written index_entry_def Let_def current_size_def index_size_def
        made_room_def evict_if_needed_def select_for_eviction_def cache_new_def demo_config_def touch_def accessed_def)
  ultimately show ?thesis
    using torn_write_served [of id "''a''" ?s "\<lambda>_. False" "[9]" "[1, 2, 3]"]
    by (metis surjective_pairing)
qed

text \<open>Caching a path again counts it twice: the statistics grow by the new size although the index replaces the
  old entry.\<close>

lemma recache_double_counts:
  assumes "hm_wf (nc_entries s)" "hm_get (nc_entries s) (path_components p) = Some e"
    and "current_size s + of_nat (length d) \<le> cc_max_size (nc_config s)"
    and "s' = snd (cache_file md5 u Written p d s)"
  shows "cs_entry_count (nc_stats s') = cs_entry_count (nc_stats s) + 1"
    and "length (nc_entries s') = length (nc_entries s)"
    and "cs_total_size (nc_stats s') = cs_total_size (nc_stats s) + of_nat (length d)"
proof -
  have room: "made_room u (of_nat (length d)) s = s"
    using assms(3) by (simp add: made_room_def evict_if_needed_def select_for_eviction_def)
  have len: "hm_get m k = Some v' \<Longrightarrow> length (hm_insert k v m) = length m" for k and v v' :: cache_entry and m
    by (induction m) (auto split: if_splits)
  show "length (nc_entries s') = length (nc_entries s)"
    using assms(2) by (simp add: assms(4) cache_file_Written room index_entry_def Let_def len)
  show "cs_entry_count (nc_stats s') = cs_entry_count (nc_stats s) + 1"
    "cs_total_size (nc_stats s') = cs_total_size (nc_stats s) + of_nat (length d)"
    by (simp_all add: assms(4) cache_file_Written room index_entry_def Let_def)
qed

end
