(* ===== verification/Download_Manager.thy ===== *)
theory Download_Manager
  imports Op_Tracker
begin

text \<open>
  The resumable downloads of the desktop application
  (\<open>apps/vfs-desktop/src-tauri/src/vfs/download_manager.rs\<close>).

  The state holds the map of downloads, the state file, the local files, the operation tracker the manager
  reports to, the clock and the source of identifiers. What is outside the manager is the record \<open>world\<close>: the
  storage operator (\<open>w_stat\<close>, and \<open>w_read\<close>, the ranged read of the n-th round of the loop), the outcome of
  the n-th write to the local file, whether the state file can be written, and what other tasks do to the
  shared state at the await point of the n-th round (\<open>w_interfere\<close>). The download loop ends only when the
  remote keeps returning bytes, so it carries fuel; running out of fuel is \<open>None\<close>. The destination is opened
  in append mode or freshly created, so every write goes to the end of the file.
\<close>

section \<open>State\<close>

datatype download_status = Pending | InProgress | Completed | Failed | Paused

record download_state =
  dl_id :: string
  dl_operation_id :: "string option"
  dl_source_id :: string
  dl_remote_path :: string
  dl_local_path :: string
  dl_total_size :: u64
  dl_chunk_size :: u64
  dl_total_chunks :: u64
  dl_bytes_downloaded :: u64
  dl_current_chunk :: u64
  dl_status :: download_status
  dl_error :: "string option"
  dl_created_at :: "int option"
  dl_completed_at :: "int option"
  dl_last_updated_at :: "int option"

type_synonym downloads = "(string, download_state) hash_map"

record download_manager =
  dm_downloads :: downloads
  dm_state_file :: "downloads option"
  dm_files :: "(string, bytes) hash_map"
  dm_tracker :: tracker
  dm_clock :: "nat \<Rightarrow> int"
  dm_ticks :: nat
  dm_uuids :: "nat \<Rightarrow> string"
  dm_next :: nat

datatype dl_error = NotFound | AlreadyCompleted | StateFile | LocalFile | Remote

record world =
  w_stat :: "string \<Rightarrow> u64 option"
  w_read :: "nat \<Rightarrow> string \<Rightarrow> u64 \<Rightarrow> u64 \<Rightarrow> bytes option"
  w_write :: "nat \<Rightarrow> write_result"
  w_create :: bool
  w_save :: bool
  w_interfere :: "nat \<Rightarrow> download_manager \<Rightarrow> download_manager"
  w_io :: io
  w_metrics :: metrics

type_synonym 'a dl_act = "(download_manager, dl_error, 'a) act"

definition dl_now :: "download_manager \<Rightarrow> int" where
  "dl_now s = dm_clock s (dm_ticks s)"

definition dl_tick :: "download_manager \<Rightarrow> download_manager" where
  "dl_tick s = s\<lparr>dm_ticks := Suc (dm_ticks s)\<rparr>"

text \<open>\<open>if let Some(state) = downloads.get_mut(id)\<close>; the closure sees the time.\<close>

definition modify_download :: "string \<Rightarrow> (int \<Rightarrow> download_state \<Rightarrow> download_state) \<Rightarrow> download_manager \<Rightarrow> download_manager" where
  "modify_download k f s =
     (case hm_get (dm_downloads s) k of
        None \<Rightarrow> s
      | Some d \<Rightarrow> (dl_tick s)\<lparr>dm_downloads := hm_insert k (f (dl_now s) d) (dm_downloads s)\<rparr>)"

definition persist_download :: "download_state \<Rightarrow> download_state" where
  "persist_download d =
     d\<lparr>dl_created_at := whole_seconds (dl_created_at d), dl_completed_at := whole_seconds (dl_completed_at d),
       dl_last_updated_at := whole_seconds (dl_last_updated_at d)\<rparr>"

definition dl_save_states :: "world \<Rightarrow> unit dl_act" where
  "dl_save_states w s =
     (if w_save w
      then (Ok (), s\<lparr>dm_state_file := Some (map (\<lambda>(k, d). (k, persist_download d)) (dm_downloads s))\<rparr>)
      else (Err StateFile, s))"

definition dl_load_states :: "download_manager \<Rightarrow> download_manager" where
  "dl_load_states s = (case dm_state_file s of None \<Rightarrow> s | Some m \<Rightarrow> s\<lparr>dm_downloads := m\<rparr>)"

definition download_manager_new ::
    "downloads option \<Rightarrow> (string, bytes) hash_map \<Rightarrow> tracker \<Rightarrow> (nat \<Rightarrow> int) \<Rightarrow> (nat \<Rightarrow> string) \<Rightarrow> download_manager" where
  "download_manager_new state files tr clk ids =
     \<lparr>dm_downloads = [], dm_state_file = state, dm_files = files, dm_tracker = tr, dm_clock = clk, dm_ticks = 0,
      dm_uuids = ids, dm_next = 0\<rparr>"

definition default_chunk_size :: u64 where
  "default_chunk_size = 5 * 1024 * 1024"

section \<open>Starting a download\<close>

text \<open>The task that \<open>start_download\<close> spawns is a later \<open>download_chunks\<close> with the returned identifier.\<close>

definition start_download :: "world \<Rightarrow> string \<Rightarrow> string \<Rightarrow> string \<Rightarrow> string option \<Rightarrow> string dl_act" where
  "start_download w source_id remote_path local_path operation_id s =
     (case w_stat w remote_path of
        None \<Rightarrow> (Err Remote, s)
      | Some remote_size \<Rightarrow>
          let chunk_size = default_chunk_size;
              total_chunks = (if remote_size = 0 then 1 else (remote_size + chunk_size - 1) div chunk_size);
              k = dm_uuids s (dm_next s);
              d = \<lparr>dl_id = k, dl_operation_id = operation_id, dl_source_id = source_id,
                   dl_remote_path = remote_path, dl_local_path = local_path, dl_total_size = remote_size,
                   dl_chunk_size = chunk_size, dl_total_chunks = total_chunks, dl_bytes_downloaded = 0,
                   dl_current_chunk = 0, dl_status = Pending, dl_error = None,
                   dl_created_at = Some (dl_now s), dl_completed_at = None,
                   dl_last_updated_at = Some (dl_now (dl_tick s))\<rparr>;
              s = (dl_tick (dl_tick s))\<lparr>dm_next := Suc (dm_next s), dm_downloads := hm_insert k d (dm_downloads s)\<rparr>
          in and_then (dl_save_states w) (\<lambda>_ s. (Ok k, s)) s)"

section \<open>The download loop\<close>

definition resume_from :: "download_state \<Rightarrow> download_manager \<Rightarrow> u64" where
  "resume_from d s = (case hm_get (dm_files s) (dl_local_path d) of Some b \<Rightarrow> of_nat (length b) | None \<Rightarrow> 0)"

definition file_bytes :: "download_manager \<Rightarrow> string \<Rightarrow> bytes" where
  "file_bytes s p = (case hm_get (dm_files s) p of Some b \<Rightarrow> b | None \<Rightarrow> [])"

text \<open>\<open>write_all\<close>; when it fails half-way it has written a prefix of the data.\<close>

definition append_file :: "write_result \<Rightarrow> string \<Rightarrow> bytes \<Rightarrow> unit dl_act" where
  "append_file r p b s =
     (case r of
        Written \<Rightarrow> (Ok (), s\<lparr>dm_files := hm_insert p (file_bytes s p @ b) (dm_files s)\<rparr>)
      | Refused \<Rightarrow> (Err LocalFile, s)
      | Torn b' \<Rightarrow> (Err LocalFile, s\<lparr>dm_files := hm_insert p (file_bytes s p @ take (length b') b) (dm_files s)\<rparr>))"

definition open_destination :: "world \<Rightarrow> download_state \<Rightarrow> u64 \<Rightarrow> unit dl_act" where
  "open_destination w d resume s =
     (if \<not> w_create w then (Err LocalFile, s)
      else if resume > 0 then (Ok (), s)
      else (Ok (), s\<lparr>dm_files := hm_insert (dl_local_path d) [] (dm_files s)\<rparr>))"

text \<open>The progress of one chunk, and its report to the tracker, whose result is ignored.\<close>

definition report_progress :: "world \<Rightarrow> string \<Rightarrow> u64 \<Rightarrow> u64 \<Rightarrow> download_manager \<Rightarrow> download_manager" where
  "report_progress w k offset chunk s =
     (let s' = modify_download k (\<lambda>now d. d\<lparr>dl_bytes_downloaded := offset, dl_current_chunk := chunk,
                                           dl_last_updated_at := Some now\<rparr>) s
      in case hm_get (dm_downloads s) k of
           None \<Rightarrow> s'
         | Some d \<Rightarrow>
             (case dl_operation_id d of
                None \<Rightarrow> s'
              | Some oid \<Rightarrow>
                  s'\<lparr>dm_tracker := snd (update_operation_progress (w_io w) oid offset (Some (dl_total_size d)) (dm_tracker s))\<rparr>))"

definition is_stopped :: "string \<Rightarrow> download_manager \<Rightarrow> bool" where
  "is_stopped k s = (case hm_get (dm_downloads s) k of None \<Rightarrow> False | Some d \<Rightarrow> dl_status d \<in> {Paused, Failed})"

text \<open>One round: \<open>Some offset\<close> to go on, \<open>None\<close> when the download was paused or failed. \<open>d\<close> is the state read
  before the loop.\<close>

definition chunk_round :: "world \<Rightarrow> string \<Rightarrow> download_state \<Rightarrow> nat \<Rightarrow> u64 \<Rightarrow> u64 \<Rightarrow> u64 option dl_act" where
  "chunk_round w k d n offset chunk s =
     (let s = w_interfere w n s in
      if is_stopped k s then (Ok None, s)
      else
        case w_read w n (dl_remote_path d) offset (min (dl_total_size d - offset) (dl_chunk_size d)) of
          None \<Rightarrow> (Err Remote, s)
        | Some b \<Rightarrow>
            and_then (append_file (w_write w n) (dl_local_path d) b)
              (\<lambda>_ s. let offset' = offset + of_nat (length b);
                         s = report_progress w k offset' (chunk + 1) s
                     in if (chunk + 1) mod 5 = 0 then and_then (dl_save_states w) (\<lambda>_ s. (Ok (Some offset'), s)) s
                        else (Ok (Some offset'), s)) s)"

fun download_loop :: "nat \<Rightarrow> world \<Rightarrow> string \<Rightarrow> download_state \<Rightarrow> nat \<Rightarrow> u64 \<Rightarrow> u64 \<Rightarrow> download_manager \<Rightarrow>
    ((dl_error, bool) outcome \<times> download_manager) option" where
  "download_loop fuel w k d n offset chunk s =
     (if dl_total_size d \<le> offset then Some (Ok True, s)
      else
        case fuel of
          0 \<Rightarrow> None
        | Suc fuel \<Rightarrow>
            (case chunk_round w k d n offset chunk s of
               (Ok (Some offset'), s') \<Rightarrow> download_loop fuel w k d (Suc n) offset' (chunk + 1) s'
             | (Ok None, s') \<Rightarrow> Some (Ok False, s')
             | (Err e, s') \<Rightarrow> Some (Err e, s')
             | (Panic, s') \<Rightarrow> Some (Panic, s')))"

declare download_loop.simps [simp del]

definition mark_completed :: "world \<Rightarrow> string \<Rightarrow> u64 \<Rightarrow> download_manager \<Rightarrow> download_manager" where
  "mark_completed w k sz s =
     (let s' = modify_download k
                 (\<lambda>now d. d\<lparr>dl_bytes_downloaded := sz, dl_status := Completed,
                           dl_current_chunk := dl_total_chunks d, dl_completed_at := Some now,
                           dl_last_updated_at := Some now\<rparr>) s
      in case hm_get (dm_downloads s) k of
           None \<Rightarrow> s'
         | Some d \<Rightarrow>
             (case dl_operation_id d of
                None \<Rightarrow> s'
              | Some oid \<Rightarrow> s'\<lparr>dm_tracker := snd (complete_operation (w_io w) (w_metrics w) oid (dm_tracker s))\<rparr>))"

definition begin_download :: "world \<Rightarrow> string \<Rightarrow> (download_state \<times> u64) dl_act" where
  "begin_download w k s =
     (case hm_get (dm_downloads s) k of
        None \<Rightarrow> (Err NotFound, s)
      | Some d \<Rightarrow>
          let resume = resume_from d s;
              s = modify_download k (\<lambda>now d. d\<lparr>dl_status := InProgress, dl_bytes_downloaded := resume,
                                               dl_last_updated_at := Some now\<rparr>) s
          in and_then (dl_save_states w)
               (\<lambda>_. and_then (open_destination w d resume) (\<lambda>_ s. (Ok (d, resume), s))) s)"

definition download_chunks :: "nat \<Rightarrow> world \<Rightarrow> string \<Rightarrow> download_manager \<Rightarrow>
    ((dl_error, unit) outcome \<times> download_manager) option" where
  "download_chunks fuel w k s =
     (case begin_download w k s of
        (Err e, s) \<Rightarrow> Some (Err e, s)
      | (Panic, s) \<Rightarrow> Some (Panic, s)
      | (Ok (d, resume), s) \<Rightarrow>
          if dl_chunk_size d = 0 then Some (Panic, s)
          else
            (case download_loop fuel w k d 0 resume (resume div dl_chunk_size d + 1) s of
               None \<Rightarrow> None
             | Some (Ok True, s) \<Rightarrow> Some (dl_save_states w (mark_completed w k (dl_total_size d) s))
             | Some (Ok False, s) \<Rightarrow> Some (Ok (), s)
             | Some (Err e, s) \<Rightarrow> Some (Err e, s)
             | Some (Panic, s) \<Rightarrow> Some (Panic, s)))"

section \<open>The other operations\<close>

definition resume_download :: "nat \<Rightarrow> world \<Rightarrow> string \<Rightarrow> download_manager \<Rightarrow>
    ((dl_error, unit) outcome \<times> download_manager) option" where
  "resume_download fuel w k s =
     (case hm_get (dm_downloads s) k of
        None \<Rightarrow> Some (Err NotFound, s)
      | Some d \<Rightarrow>
          if dl_status d = Completed then Some (Err AlreadyCompleted, s)
          else
            let s = modify_download k (\<lambda>now d. d\<lparr>dl_status := InProgress, dl_error := None,
                                                 dl_last_updated_at := Some now\<rparr>) s
            in (case dl_save_states w s of
                  (Ok _, s) \<Rightarrow> download_chunks fuel w k s
                | (Err e, s) \<Rightarrow> Some (Err e, s)
                | (Panic, s) \<Rightarrow> Some (Panic, s)))"

definition pause_download :: "world \<Rightarrow> string \<Rightarrow> unit dl_act" where
  "pause_download w k s =
     (if hm_get (dm_downloads s) k = None then (Err NotFound, s)
      else dl_save_states w
             (modify_download k (\<lambda>now d. d\<lparr>dl_status := Paused, dl_last_updated_at := Some now\<rparr>) s))"

definition remove_download :: "world \<Rightarrow> string \<Rightarrow> unit dl_act" where
  "remove_download w k s = dl_save_states w (s\<lparr>dm_downloads := hm_remove k (dm_downloads s)\<rparr>)"

definition cancel_download :: "world \<Rightarrow> string \<Rightarrow> unit dl_act" where
  "cancel_download w k s = dl_save_states w (s\<lparr>dm_downloads := hm_remove k (dm_downloads s)\<rparr>)"

definition list_downloads :: "download_manager \<Rightarrow> download_state list" where
  "list_downloads s = map snd (dm_downloads s)"

text \<open>The percentage is the exact quotient.\<close>

definition percentage :: "u64 \<Rightarrow> u64 \<Rightarrow> real" where
  "percentage n sz = (if sz > 0 then real (unat n) / real (unat sz) * 100 else 0)"

definition dl_get_progress :: "string \<Rightarrow> download_manager \<Rightarrow> (download_state \<times> real) option" where
  "dl_get_progress k s =
     map_option (\<lambda>d. (d, percentage (dl_bytes_downloaded d) (dl_total_size d))) (hm_get (dm_downloads s) k)"

section \<open>What the loop does to the file\<close>

text \<open>The remote holds \<open>c\<close> at \<open>p\<close>: a successful ranged read returns the range or the beginning of it.\<close>

definition serves :: "world \<Rightarrow> string \<Rightarrow> bytes \<Rightarrow> bool" where
  "serves w p c \<longleftrightarrow>
     (\<forall>n off len b. w_read w n p off len = Some b \<longrightarrow> (\<exists>m\<le>unat len. b = take m (drop (unat off) c)))"

text \<open>A ranged read within the file returns all of it.\<close>

definition serves_fully :: "world \<Rightarrow> string \<Rightarrow> bytes \<Rightarrow> bool" where
  "serves_fully w p c \<longleftrightarrow> (\<forall>n off len. w_read w n p off len = Some (take (unat len) (drop (unat off) c)))"

lemma serves_fully_serves: "serves_fully w p c \<Longrightarrow> serves w p c"
  by (auto simp: serves_def serves_fully_def)

text \<open>Other tasks may pause or cancel the download at any round.\<close>

definition only_pauses_or_cancels :: "world \<Rightarrow> string \<Rightarrow> bool" where
  "only_pauses_or_cancels w k \<longleftrightarrow>
     (\<forall>n s. w_interfere w n s \<in> {s, snd (pause_download w k s), snd (cancel_download w k s)})"

lemma save_frame [simp]:
  "dm_files (snd (dl_save_states w s)) = dm_files s" "dm_downloads (snd (dl_save_states w s)) = dm_downloads s"
  by (simp_all add: dl_save_states_def)

lemma modify_frame [simp]: "dm_files (modify_download k f s) = dm_files s"
  by (simp add: modify_download_def dl_tick_def split: option.split)

lemma modify_get [simp]:
  "hm_get (dm_downloads (modify_download k f s)) k' =
     (if k' = k then map_option (f (dl_now s)) (hm_get (dm_downloads s) k) else hm_get (dm_downloads s) k')"
  by (simp add: modify_download_def dl_tick_def split: option.split)

lemma report_frame [simp]: "dm_files (report_progress w k off ch s) = dm_files s"
  by (simp add: report_progress_def Let_def split: option.split)

lemma report_get [simp]:
  "hm_get (dm_downloads (report_progress w k off ch s)) k =
     map_option (\<lambda>d. d\<lparr>dl_bytes_downloaded := off, dl_current_chunk := ch, dl_last_updated_at := Some (dl_now s)\<rparr>)
       (hm_get (dm_downloads s) k)"
  by (simp add: report_progress_def Let_def split: option.split)

lemma mark_frame [simp]: "dm_files (mark_completed w k t s) = dm_files s"
  by (simp add: mark_completed_def Let_def split: option.split)

lemma mark_get [simp]:
  "hm_get (dm_downloads (mark_completed w k t s)) k =
     map_option (\<lambda>d. d\<lparr>dl_bytes_downloaded := t, dl_status := Completed, dl_current_chunk := dl_total_chunks d,
                      dl_completed_at := Some (dl_now s), dl_last_updated_at := Some (dl_now s)\<rparr>)
       (hm_get (dm_downloads s) k)"
  by (simp add: mark_completed_def Let_def split: option.split)

lemma pause_cancel_frame [simp]:
  "dm_files (snd (pause_download w k s)) = dm_files s" "dm_files (snd (cancel_download w k s)) = dm_files s"
  by (simp_all add: pause_download_def cancel_download_def)

lemma file_bytes_insert [simp]:
  "file_bytes (s\<lparr>dm_files := hm_insert p b (dm_files s)\<rparr>) p = b"
  by (simp add: file_bytes_def)

lemma file_bytes_frame: "dm_files s = dm_files s' \<Longrightarrow> file_bytes s p = file_bytes s' p"
  by (simp add: file_bytes_def)

lemma interfere_files: "only_pauses_or_cancels w k \<Longrightarrow> dm_files (w_interfere w n s) = dm_files s"
  unfolding only_pauses_or_cancels_def by (metis insert_iff empty_iff pause_cancel_frame)

text \<open>The download is tracked, if at all, with another status than completed.\<close>

definition open_download :: "string \<Rightarrow> download_manager \<Rightarrow> bool" where
  "open_download k s \<longleftrightarrow> (\<forall>d. hm_get (dm_downloads s) k = Some d \<longrightarrow> dl_status d \<noteq> Completed)"

lemma interfere_open:
  assumes "only_pauses_or_cancels w k" "open_download k s" shows "open_download k (w_interfere w n s)"
proof -
  have "open_download k (snd (pause_download w k s))" "open_download k (snd (cancel_download w k s))"
    using assms(2) by (auto simp: open_download_def pause_download_def cancel_download_def)
  with assms show ?thesis unfolding only_pauses_or_cancels_def by (metis insert_iff empty_iff)
qed

text \<open>One round appends the next bytes of the remote file, whatever happens.\<close>

lemma take_add_drop: "take a c @ take m (drop a c) = take (a + m) c"
  by (simp add: take_add)

lemma round_files:
  assumes "serves w (dl_remote_path d) c" "only_pauses_or_cancels w k" "length c < 2 ^ 64"
    and "unat off \<le> length c" "file_bytes s (dl_local_path d) = take (unat off) c" "open_download k s"
    and "chunk_round w k d n off ch s = (r, s')"
  shows "prefix (file_bytes s' (dl_local_path d)) c \<and> open_download k s' \<and>
    (\<forall>off'. r = Ok (Some off') \<longrightarrow> unat off' \<le> length c \<and> file_bytes s' (dl_local_path d) = take (unat off') c)"
proof -
  let ?p = "dl_local_path d" and ?s = "w_interfere w n s"
  have s: "file_bytes ?s ?p = take (unat off) c" "open_download k ?s"
    using assms(2,5,6) interfere_files interfere_open by (simp_all add: file_bytes_def)
  show ?thesis
  proof (cases "is_stopped k ?s")
    case True
    then show ?thesis using assms(7) s by (auto simp: chunk_round_def Let_def take_is_prefix)
  next
    case False
    show ?thesis
    proof (cases "w_read w n (dl_remote_path d) off (min (dl_total_size d - off) (dl_chunk_size d))")
      case None
      then show ?thesis using assms(7) s False by (auto simp: chunk_round_def Let_def take_is_prefix)
    next
      case (Some b)
      then obtain m where b: "b = take m (drop (unat off) c)" using assms(1) unfolding serves_def by blast
      have torn: "prefix (take (unat off) c @ take j b) c" for j
        unfolding b take_take take_add_drop by (rule take_is_prefix)
      have len: "unat off + length b \<le> length c" using b assms(4) by auto
      then have off': "unat (off + of_nat (length b)) = unat off + length b"
        using assms(3) by (subst unat_word_ariths) (simp add: unat_of_nat_le)
      have app: "take (unat off) c @ b = take (unat off + length b) c" using len by (simp add: b take_add min_def)
      have pre: "prefix (take (unat off) c @ b) c" unfolding app by (rule take_is_prefix)
      show ?thesis
      proof (cases "w_write w n")
        case Written
        with Some False assms(7) s app pre off' len show ?thesis
          by (auto simp: chunk_round_def Let_def append_file_def and_then_def dl_save_states_def open_download_def
              file_bytes_def split: if_splits)
      qed (use Some False assms(7) s torn pre take_is_prefix in
          \<open>auto simp: chunk_round_def Let_def append_file_def and_then_def open_download_def\<close>)
    qed
  qed
qed

lemma loop_files:
  assumes "serves w (dl_remote_path d) c" "only_pauses_or_cancels w k" "length c < 2 ^ 64"
    and "unat (dl_total_size d) = length c"
    and "unat off \<le> length c" "file_bytes s (dl_local_path d) = take (unat off) c" "open_download k s"
    and "download_loop fuel w k d n off ch s = Some (r, s')"
  shows "prefix (file_bytes s' (dl_local_path d)) c \<and> open_download k s' \<and>
    (r = Ok True \<longrightarrow> file_bytes s' (dl_local_path d) = c)"
  using assms(5-8)
proof (induction fuel arbitrary: n off ch s)
  case 0
  then show ?case
    using assms(4) by (auto simp: download_loop.simps word_le_nat_alt split: if_splits)
next
  case (Suc fuel)
  show ?case
  proof (cases "dl_total_size d \<le> off")
    case True
    with Suc.prems assms(4) show ?thesis by (auto simp: download_loop.simps word_le_nat_alt)
  next
    case False
    obtain q t where qt: "chunk_round w k d n off ch s = (q, t)" by fastforce
    note round = round_files [OF assms(1-3) Suc.prems(1-3) qt]
    have loop: "download_loop (Suc fuel) w k d n off ch s =
      (case (q, t) of
               (Ok (Some offset'), s') \<Rightarrow> download_loop fuel w k d (Suc n) offset' (ch + 1) s'
             | (Ok None, s') \<Rightarrow> Some (Ok False, s')
             | (Err e, s') \<Rightarrow> Some (Err e, s')
             | (Panic, s') \<Rightarrow> Some (Panic, s'))"
      using False by (subst download_loop.simps) (simp add: qt)
    show ?thesis
    proof (cases "\<exists>off'. q = Ok (Some off')")
      case True
      then obtain off' where q: "q = Ok (Some off')" by blast
      have "download_loop fuel w k d (Suc n) off' (ch + 1) t = Some (r, s')" using Suc.prems(4) loop q by simp
      then show ?thesis using Suc.IH round q by blast
    next
      case no: False
      then have "s' = t \<and> r \<noteq> Ok True"
        using Suc.prems(4) loop by (cases q) (auto split: option.splits)
      with round show ?thesis by blast
    qed
  qed
qed

lemma begin_files:
  assumes "hm_get (dm_downloads s) k = Some d" "length (file_bytes s (dl_local_path d)) < 2 ^ 64"
    and "begin_download w k s = (q, t)"
  shows "file_bytes t (dl_local_path d) = file_bytes s (dl_local_path d) \<and> open_download k t \<and>
    (\<forall>d' off. q = Ok (d', off) \<longrightarrow> d' = d \<and> unat off = length (file_bytes s (dl_local_path d)))"
proof -
  let ?p = "dl_local_path d" and ?off = "resume_from d s"
  have off: "unat ?off = length (file_bytes s ?p)"
    using assms(2) by (simp add: resume_from_def file_bytes_def unat_of_nat_le split: option.splits)
  then have "file_bytes s ?p = []" if "\<not> ?off > 0" using that by (simp add: word_less_nat_alt)
  with off assms(1,3) show ?thesis
    by (auto simp: begin_download_def Let_def and_then_def dl_save_states_def open_destination_def open_download_def
        file_bytes_def split: if_splits)
qed


section \<open>Progress\<close>

definition running :: "string \<Rightarrow> download_manager \<Rightarrow> bool" where
  "running k s \<longleftrightarrow> (\<forall>d. hm_get (dm_downloads s) k = Some d \<longrightarrow> dl_status d = InProgress)"

definition never_pauses :: "world \<Rightarrow> string \<Rightarrow> bool" where
  "never_pauses w k \<longleftrightarrow> (\<forall>n s. w_interfere w n s \<in> {s, snd (cancel_download w k s)})"

lemma never_pauses_weaken: "never_pauses w k \<Longrightarrow> only_pauses_or_cancels w k"
  by (auto simp: never_pauses_def only_pauses_or_cancels_def)

lemma interfere_running: "never_pauses w k \<Longrightarrow> running k s \<Longrightarrow> running k (w_interfere w n s)"
proof -
  assume w: "never_pauses w k" and s: "running k s"
  have "running k (snd (cancel_download w k s))" by (simp add: running_def cancel_download_def)
  with w s show ?thesis unfolding never_pauses_def by (metis insert_iff empty_iff)
qed

definition works :: "world \<Rightarrow> bool" where
  "works w \<longleftrightarrow> (\<forall>n. w_write w n = Written) \<and> w_create w \<and> w_save w"

definition undisturbed :: "world \<Rightarrow> bool" where
  "undisturbed w \<longleftrightarrow> (\<forall>n s. w_interfere w n s = s)"

lemma round_progress:
  assumes "serves_fully w (dl_remote_path d) c" "never_pauses w k" "works w" "length c < 2 ^ 64"
    and "unat (dl_total_size d) = length c" "unat off < length c" "running k s"
  shows "\<exists>s' off'. chunk_round w k d n off ch s = (Ok (Some off'), s') \<and> running k s' \<and>
    unat off' = min (length c) (unat off + unat (dl_chunk_size d)) \<and>
    (undisturbed w \<longrightarrow> (hm_get (dm_downloads s') k = None \<longleftrightarrow> hm_get (dm_downloads s) k = None))"
proof -
  let ?s = "w_interfere w n s" and ?len = "min (dl_total_size d - off) (dl_chunk_size d)"
  have run: "running k ?s" using assms(2,7) by (rule interfere_running)
  then have stop: "\<not> is_stopped k ?s" by (auto simp: running_def is_stopped_def split: option.split)
  have "unat (dl_total_size d - off) = length c - unat off"
    using assms(5,6) by (simp add: unat_sub word_le_nat_alt)
  then have len: "unat ?len = min (length c - unat off) (unat (dl_chunk_size d))"
    by (simp add: min_def word_le_nat_alt)
  define b where "b = take (unat ?len) (drop (unat off) c)"
  have b: "w_read w n (dl_remote_path d) off ?len = Some b" using assms(1) by (simp add: serves_fully_def b_def)
  have "length b = unat ?len" using len by (simp add: b_def)
  then have lb: "length b = min (length c - unat off) (unat (dl_chunk_size d))" using len by simp
  then have "unat (of_nat (length b) :: u64) = length b" using assms(4) by (intro unat_of_nat_le) simp
  then have "unat (off + of_nat (length b)) = unat off + length b"
    using lb assms(4,6) by (subst unat_add_nowrap) auto
  then have off': "unat (off + of_nat (length b)) = min (length c) (unat off + unat (dl_chunk_size d))"
    using lb assms(6) by simp
  let ?t = "report_progress w k (off + of_nat (length b)) (ch + 1) (snd (append_file Written (dl_local_path d) b ?s))"
  define s' where "s' = (if (ch + 1) mod 5 = 0 then snd (dl_save_states w ?t) else ?t)"
  have r: "chunk_round w k d n off ch s = (Ok (Some (off + of_nat (length b))), s')"
    using assms(3) stop b
    by (simp add: chunk_round_def Let_def works_def append_file_def and_then_def dl_save_states_def s'_def)
  have get: "hm_get (dm_downloads s') k = hm_get (dm_downloads ?t) k" by (simp add: s'_def)
  have "running k s'" using run unfolding running_def get by (auto simp: append_file_def)
  moreover have "undisturbed w \<longrightarrow> (hm_get (dm_downloads s') k = None \<longleftrightarrow> hm_get (dm_downloads s) k = None)"
    unfolding get by (simp add: undisturbed_def append_file_def)
  ultimately show ?thesis using r off' by (intro exI conjI)
qed

lemma loop_progress:
  assumes "serves_fully w (dl_remote_path d) c" "never_pauses w k" "works w" "length c < 2 ^ 64"
    and "unat (dl_total_size d) = length c"
    and "running k s" "length c \<le> unat off + fuel * unat (dl_chunk_size d)"
  shows "\<exists>s'. download_loop fuel w k d n off ch s = Some (Ok True, s') \<and> running k s' \<and>
    (undisturbed w \<longrightarrow> (hm_get (dm_downloads s') k = None \<longleftrightarrow> hm_get (dm_downloads s) k = None))"
  using assms(6,7)
proof (induction fuel arbitrary: n off ch s)
  case 0
  then show ?case using assms(5) by (simp add: download_loop.simps word_le_nat_alt)
next
  case (Suc fuel)
  show ?case
  proof (cases "dl_total_size d \<le> off")
    case True
    then show ?thesis using Suc.prems by (simp add: download_loop.simps)
  next
    case False
    then have "unat off < length c" using assms(5) by (simp add: word_le_nat_alt)
    then obtain t off' where
      t: "chunk_round w k d n off ch s = (Ok (Some off'), t)" "running k t"
        "unat off' = min (length c) (unat off + unat (dl_chunk_size d))"
        "undisturbed w \<longrightarrow> (hm_get (dm_downloads t) k = None \<longleftrightarrow> hm_get (dm_downloads s) k = None)"
      using round_progress [OF assms(1-5) _ Suc.prems(1), of off n ch] by metis
    have "length c \<le> unat off' + fuel * unat (dl_chunk_size d)" using Suc.prems(2) t(3) by auto
    from Suc.IH [OF t(2) this, of "Suc n" "ch + 1"] obtain s' where s': "download_loop fuel w k d (Suc n) off' (ch + 1) t = Some (Ok True, s')"
      "running k s'" "undisturbed w \<longrightarrow> (hm_get (dm_downloads s') k = None \<longleftrightarrow> hm_get (dm_downloads t) k = None)"
      by (elim exE conjE)
    have "download_loop (Suc fuel) w k d n off ch s = Some (Ok True, s')"
      using False t(1) s'(1) by (subst download_loop.simps) simp
    moreover have "undisturbed w \<longrightarrow> (hm_get (dm_downloads s') k = None \<longleftrightarrow> hm_get (dm_downloads s) k = None)"
      using s'(3) t(4) by simp
    ultimately show ?thesis using s'(2) by (intro exI conjI)
  qed
qed

lemma begin_works:
  assumes "hm_get (dm_downloads s) k = Some d" "works w"
  shows "\<exists>t. begin_download w k s = (Ok (d, resume_from d s), t) \<and> running k t \<and> hm_get (dm_downloads t) k \<noteq> None"
  using assms
  by (cases "0 < resume_from d s")
    (simp_all add: begin_download_def Let_def and_then_def dl_save_states_def open_destination_def works_def running_def)


definition demo_content :: bytes where
  "demo_content = [1, 2, 3]"

definition demo_download :: download_state where
  "demo_download =
     \<lparr>dl_id = ''0'', dl_operation_id = None, dl_source_id = ''s'', dl_remote_path = ''r'', dl_local_path = ''l'',
      dl_total_size = 3, dl_chunk_size = 2, dl_total_chunks = 2, dl_bytes_downloaded = 0, dl_current_chunk = 0,
      dl_status = Pending, dl_error = None, dl_created_at = None, dl_completed_at = None, dl_last_updated_at = None\<rparr>"

definition demo_manager :: "(string, bytes) hash_map \<Rightarrow> download_manager" where
  "demo_manager files =
     \<lparr>dm_downloads = [(''0'', demo_download)], dm_state_file = None, dm_files = files, dm_tracker = demo_start,
      dm_clock = int, dm_ticks = 0, dm_uuids = (\<lambda>n. replicate n CHR ''x''), dm_next = 1\<rparr>"

definition demo_world :: world where
  "demo_world =
     \<lparr>w_stat = (\<lambda>_. Some 3), w_read = (\<lambda>n p off len. Some (take (unat len) (drop (unat off) demo_content))),
      w_write = (\<lambda>_. Written), w_create = True, w_save = True, w_interfere = (\<lambda>n s. s), w_io = demo_io,
      w_metrics = \<lparr>mt_cpu = 0, mt_memory = 0, mt_tx = 0, mt_rx = 0\<rparr>\<rparr>"

lemma demo_world_facts:
  "serves_fully demo_world (dl_remote_path demo_download) demo_content" "works demo_world"
  "never_pauses demo_world k" "undisturbed demo_world"
  by (simp_all add: serves_fully_def works_def never_pauses_def undisturbed_def demo_world_def)

lemma demo_manager_facts:
  "hm_get (dm_downloads (demo_manager fs)) ''0'' = Some demo_download"
  "prefix (file_bytes (demo_manager [(''l'', [1])]) (dl_local_path demo_download)) demo_content"
  "unat (dl_total_size demo_download) = length demo_content" "dl_chunk_size demo_download \<noteq> 0"
  "length demo_content \<le> 2 * unat (dl_chunk_size demo_download)"
  by (simp_all add: demo_manager_def demo_download_def demo_content_def file_bytes_def)


definition demo_broken_world :: world where
  "demo_broken_world = demo_world\<lparr>w_read := (\<lambda>_ _ _ _. None)\<rparr>"


text \<open>An existing local file is taken for the download: if a file at least as long as the remote one is
  already at the destination, whatever it holds, the task transfers nothing, leaves that file there and marks
  the download completed at its full size.\<close>

theorem existing_file_completes:
  assumes "hm_get (dm_downloads s) k = Some d" and "hm_get (dm_files s) (dl_local_path d) = Some b"
    and "b \<noteq> []" and "length b < 2 ^ 64" and "unat (dl_total_size d) \<le> length b" and "dl_chunk_size d \<noteq> 0"
    and "works w"
  shows "\<exists>s'. download_chunks fuel w k s = Some (Ok (), s') \<and> file_bytes s' (dl_local_path d) = b \<and>
    (\<exists>d'. hm_get (dm_downloads s') k = Some d' \<and> dl_status d' = Completed \<and>
          dl_bytes_downloaded d' = dl_total_size d)"
proof -
  let ?p = "dl_local_path d" and ?off = "resume_from d s"
  have fb: "file_bytes s ?p = b" using assms(2) by (simp add: file_bytes_def)
  obtain t where qt: "begin_download w k s = (Ok (d, ?off), t)" and t: "hm_get (dm_downloads t) k \<noteq> None"
    using begin_works [OF assms(1,7)] by blast
  have ft: "file_bytes t ?p = b" "unat ?off = length b"
    using begin_files [OF assms(1) _ qt] assms(4) fb by auto
  then have loop: "download_loop fuel w k d 0 ?off (?off div dl_chunk_size d + 1) t = Some (Ok True, t)"
    using assms(5) by (simp add: download_loop.simps word_le_nat_alt)
  let ?s' = "snd (dl_save_states w (mark_completed w k (dl_total_size d) t))"
  have "download_chunks fuel w k s = Some (Ok (), ?s')"
    using qt loop assms(6,7) by (simp add: download_chunks_def works_def dl_save_states_def)
  moreover have "file_bytes ?s' ?p = b" using ft by (simp add: file_bytes_def)
  ultimately show ?thesis using t by auto
qed

theorem existing_file_completes_witness:
  "\<exists>s'. download_chunks 2 demo_world ''0'' (demo_manager [(''l'', [7, 7, 7])]) = Some (Ok (), s') \<and>
        file_bytes s' (dl_local_path demo_download) = [7, 7, 7]"
  using existing_file_completes [OF demo_manager_facts(1), of "[(''l'', [7, 7, 7])]" "[7, 7, 7]" demo_world 2]
    demo_world_facts(2) by (auto simp: demo_manager_def demo_download_def)

end
