(* ===== verification/Multipart_Upload.thy ===== *)
theory Multipart_Upload
  imports Op_Tracker
begin

text \<open>
  The uploads of the desktop application (\<open>apps/vfs-desktop/src-tauri/src/vfs/multipart_upload.rs\<close>).

  The state holds the map of uploads, the state file, the local files, the objects of the remote store, the
  operation tracker, the clock and the source of identifiers. The record \<open>upload_world\<close> is what is outside: how
  many bytes the n-th read of the local file returns at most (a read may be short, and returns nothing only at
  the end of the file) or that it fails, the answer of the store to a write and to a question for the size,
  whether the state file can be written, and what other tasks do between two reads. An object is written as a
  whole or not at all. The reading loop carries fuel. \<open>str::to_lowercase\<close> is taken on ASCII letters.
\<close>

section \<open>State\<close>

datatype upload_status = Pending | InProgress | Completed | Failed | Paused

record upload_state =
  up_id :: string
  up_operation_id :: "string option"
  up_source_id :: string
  up_key :: string
  up_local_path :: string
  up_total_size :: u64
  up_part_size :: u64
  up_total_parts :: u64
  up_uploaded_parts :: "(u64, string) hash_map"
  up_current_part :: u64
  up_bytes_uploaded :: u64
  up_status :: upload_status
  up_error :: "string option"
  up_created_at :: "int option"
  up_completed_at :: "int option"
  up_last_updated_at :: "int option"

type_synonym uploads = "(string, upload_state) hash_map"

record upload_manager =
  um_uploads :: uploads
  um_state_file :: "uploads option"
  um_files :: "(string, bytes) hash_map"
  um_objects :: "(string, bytes) hash_map"
  um_tracker :: tracker
  um_clock :: "nat \<Rightarrow> int"
  um_ticks :: nat
  um_uuids :: "nat \<Rightarrow> string"
  um_next :: nat

datatype upload_error =
    UploadNotFound | UploadAlreadyCompleted | UploadPermanent string | UploadStateFile | UploadLocalFile
  | UploadWrite string | UploadSizeMismatch | UploadVerify

record upload_world =
  uw_read :: "nat \<Rightarrow> nat option"
  uw_put :: "string \<Rightarrow> bytes \<Rightarrow> string option"
  uw_stat :: bool
  uw_save :: bool
  uw_interfere :: "nat \<Rightarrow> upload_manager \<Rightarrow> upload_manager"
  uw_io :: io
  uw_metrics :: metrics

type_synonym 'a ul_act = "(upload_manager, upload_error, 'a) act"

definition ul_now :: "upload_manager \<Rightarrow> int" where
  "ul_now s = um_clock s (um_ticks s)"

definition ul_tick :: "upload_manager \<Rightarrow> upload_manager" where
  "ul_tick s = s\<lparr>um_ticks := Suc (um_ticks s)\<rparr>"

definition modify_upload :: "string \<Rightarrow> (int \<Rightarrow> upload_state \<Rightarrow> upload_state) \<Rightarrow> upload_manager \<Rightarrow> upload_manager" where
  "modify_upload k f s =
     (case hm_get (um_uploads s) k of
        None \<Rightarrow> s
      | Some d \<Rightarrow> (ul_tick s)\<lparr>um_uploads := hm_insert k (f (ul_now s) d) (um_uploads s)\<rparr>)"

definition persist_upload :: "upload_state \<Rightarrow> upload_state" where
  "persist_upload d =
     d\<lparr>up_created_at := whole_seconds (up_created_at d), up_completed_at := whole_seconds (up_completed_at d),
       up_last_updated_at := whole_seconds (up_last_updated_at d)\<rparr>"

definition ul_save_states :: "upload_world \<Rightarrow> unit ul_act" where
  "ul_save_states w s =
     (if uw_save w
      then (Ok (), s\<lparr>um_state_file := Some (map (\<lambda>(k, d). (k, persist_upload d)) (um_uploads s))\<rparr>)
      else (Err UploadStateFile, s))"

definition ul_load_states :: "upload_manager \<Rightarrow> upload_manager" where
  "ul_load_states s = (case um_state_file s of None \<Rightarrow> s | Some m \<Rightarrow> s\<lparr>um_uploads := m\<rparr>)"

definition upload_manager_new ::
    "uploads option \<Rightarrow> (string, bytes) hash_map \<Rightarrow> (string, bytes) hash_map \<Rightarrow> tracker \<Rightarrow> (nat \<Rightarrow> int) \<Rightarrow>
     (nat \<Rightarrow> string) \<Rightarrow> upload_manager" where
  "upload_manager_new state files objects tr clk ids =
     \<lparr>um_uploads = [], um_state_file = state, um_files = files, um_objects = objects, um_tracker = tr,
      um_clock = clk, um_ticks = 0, um_uuids = ids, um_next = 0\<rparr>"

section \<open>Starting\<close>

text \<open>The division panics for a part size of zero; the sum wraps.\<close>

definition start_upload_with_operation_id ::
    "upload_world \<Rightarrow> string \<Rightarrow> string \<Rightarrow> string \<Rightarrow> u64 option \<Rightarrow> string option \<Rightarrow> string ul_act" where
  "start_upload_with_operation_id w source_id local_path key part operation_id s =
     (case hm_get (um_files s) local_path of
        None \<Rightarrow> (Err UploadLocalFile, s)
      | Some b \<Rightarrow>
          let sz = of_nat (length b);
              part_size = (case part of Some n \<Rightarrow> n | None \<Rightarrow> 5 * 1024 * 1024);
              k = um_uuids s (um_next s);
              d = \<lparr>up_id = k, up_operation_id = operation_id, up_source_id = source_id, up_key = key,
                   up_local_path = local_path, up_total_size = sz, up_part_size = part_size,
                   up_total_parts = (sz + part_size - 1) div part_size, up_uploaded_parts = [],
                   up_current_part = 0, up_bytes_uploaded = 0, up_status = Pending, up_error = None,
                   up_created_at = Some (ul_now s), up_completed_at = None, up_last_updated_at = Some (ul_now s)\<rparr>
          in if part_size = 0 then (Panic, s)
             else and_then (ul_save_states w) (\<lambda>_ s. (Ok k, s))
                    ((ul_tick s)\<lparr>um_next := Suc (um_next s), um_uploads := hm_insert k d (um_uploads s)\<rparr>))"

definition start_upload :: "upload_world \<Rightarrow> string \<Rightarrow> string \<Rightarrow> string \<Rightarrow> u64 option \<Rightarrow> string ul_act" where
  "start_upload w source_id local_path key part = start_upload_with_operation_id w source_id local_path key part None"

section \<open>Errors of the store\<close>

text \<open>The test on a lower-cased message.\<close>

definition is_permanent_error :: "string \<Rightarrow> bool" where
  "is_permanent_error e \<longleftrightarrow>
     str_contains ''invalidaccesskeyid'' e \<or> str_contains ''does not exist in our records'' e \<or>
     str_contains ''signaturedoesnotmatch'' e \<or> str_contains ''invalidtoken'' e \<or>
     (str_contains ''permission denied'' e \<and> str_contains ''403'' e) \<or> str_contains ''access denied'' e"

definition CREDENTIALS_MESSAGE :: string where
  "CREDENTIALS_MESSAGE = ''AWS credentials are invalid or missing. Please check your Access Key ID and Secret Access Key in storage settings or set AWS_ACCESS_KEY_ID and AWS_SECRET_ACCESS_KEY environment variables.''"

definition PERMISSION_MESSAGE :: string where
  "PERMISSION_MESSAGE = ''Permission denied. Check AWS credentials and IAM permissions (s3:PutObject).''"

definition ACCESS_MESSAGE :: string where
  "ACCESS_MESSAGE = ''Access denied. Your AWS credentials don'' @ [CHR 0x27] @ ''t have permission to upload to this bucket.''"

definition user_friendly_error :: "string \<Rightarrow> string" where
  "user_friendly_error msg =
     (let e = to_lowercase msg in
      if str_contains ''invalidaccesskeyid'' e \<or> str_contains ''does not exist in our records'' e then CREDENTIALS_MESSAGE
      else if str_contains ''permission denied'' e \<or> str_contains ''403'' e then PERMISSION_MESSAGE
      else if str_contains ''access denied'' e then ACCESS_MESSAGE
      else msg)"

definition final_error :: "string \<Rightarrow> string" where
  "final_error msg =
     (if is_permanent_error (to_lowercase msg)
      then ''[PERMANENT ERROR - Cannot Retry] '' @ user_friendly_error msg
      else user_friendly_error msg)"

section \<open>The upload\<close>

definition mark_started :: "upload_world \<Rightarrow> string \<Rightarrow> unit ul_act" where
  "mark_started w k s =
     ul_save_states w
       (case hm_get (um_uploads s) k of
          Some d \<Rightarrow>
            if up_status d = Pending
            then modify_upload k (\<lambda>now d. d\<lparr>up_status := InProgress, up_last_updated_at := Some now\<rparr>) s
            else s
        | None \<Rightarrow> s)"

definition upload_resume_from :: "upload_state \<Rightarrow> u64" where
  "upload_resume_from d =
     (if up_bytes_uploaded d > 0 \<and> up_bytes_uploaded d < up_total_size d then up_bytes_uploaded d else 0)"

text \<open>The clock is read again for a missing creation time; the model reads it once.\<close>

definition mark_position :: "string \<Rightarrow> u64 \<Rightarrow> upload_manager \<Rightarrow> upload_manager" where
  "mark_position k resume s =
     modify_upload k
       (\<lambda>now d.
          let d = d\<lparr>up_bytes_uploaded := resume, up_last_updated_at := Some now\<rparr>;
              d = (if up_created_at d = None then d\<lparr>up_created_at := Some now\<rparr> else d)
          in if up_status d = Pending then d\<lparr>up_status := InProgress\<rparr> else d) s"

definition ul_report_progress :: "upload_world \<Rightarrow> string \<Rightarrow> u64 \<Rightarrow> u64 \<Rightarrow> upload_manager \<Rightarrow> upload_manager" where
  "ul_report_progress w k current part_size s =
     (let s' = modify_upload k
                 (\<lambda>now d. d\<lparr>up_bytes_uploaded := current, up_last_updated_at := Some now,
                           up_current_part := current div part_size + 1\<rparr>) s
      in case hm_get (um_uploads s) k of
           None \<Rightarrow> s'
         | Some d \<Rightarrow>
             (case up_operation_id d of
                None \<Rightarrow> s'
              | Some oid \<Rightarrow>
                  s'\<lparr>um_tracker := snd (update_operation_progress (uw_io w) oid current (Some (up_total_size d)) (um_tracker s))\<rparr>))"

text \<open>The loop over the file: \<open>b\<close> is the file from the resume point on, \<open>got\<close> what has been read.\<close>

fun read_loop :: "nat \<Rightarrow> upload_world \<Rightarrow> string \<Rightarrow> u64 \<Rightarrow> u64 \<Rightarrow> nat \<Rightarrow> bytes \<Rightarrow> bytes \<Rightarrow> upload_manager \<Rightarrow>
    ((upload_error, bytes) outcome \<times> upload_manager) option" where
  "read_loop 0 w k resume part n got b s = None"
| "read_loop (Suc fuel) w k resume part n got b s =
     (let s = uw_interfere w n s in
      case uw_read w n of
        None \<Rightarrow> Some (Err UploadLocalFile, s)
      | Some m \<Rightarrow>
          let chunk = take (min m (unat part)) b in
          if chunk = [] then Some (Ok got, s)
          else
            let got = got @ chunk;
                bytes_read = of_nat (length got);
                s = ul_report_progress w k (resume + bytes_read) part s;
                s = (if bytes_read mod (part * 5) < part then snd (ul_save_states w s) else s)
            in read_loop fuel w k resume part (Suc n) got (drop (length chunk) b) s)"

definition mark_writing :: "upload_world \<Rightarrow> string \<Rightarrow> u64 \<Rightarrow> unit ul_act" where
  "mark_writing w k sz s =
     ul_save_states w
       (modify_upload k (\<lambda>now d. d\<lparr>up_bytes_uploaded := sz * 95 div 100, up_last_updated_at := Some now\<rparr>) s)"

definition with_tracker :: "string \<Rightarrow> (string \<Rightarrow> upload_state \<Rightarrow> tracker \<Rightarrow> tracker) \<Rightarrow> upload_manager \<Rightarrow> upload_manager" where
  "with_tracker k f s =
     (case hm_get (um_uploads s) k of
        None \<Rightarrow> s
      | Some d \<Rightarrow>
          (case up_operation_id d of None \<Rightarrow> s | Some oid \<Rightarrow> s\<lparr>um_tracker := f oid d (um_tracker s)\<rparr>))"

definition mark_uploaded :: "upload_world \<Rightarrow> string \<Rightarrow> unit ul_act" where
  "mark_uploaded w k s =
     ul_save_states w
       (with_tracker k (\<lambda>oid d tr. snd (complete_operation (uw_io w) (uw_metrics w) oid tr))
         (modify_upload k
           (\<lambda>now d. d\<lparr>up_bytes_uploaded := up_total_size d, up_status := Completed,
                     up_current_part := up_total_parts d, up_completed_at := Some now,
                     up_last_updated_at := Some now\<rparr>) s))"

definition mark_failed :: "upload_world \<Rightarrow> string \<Rightarrow> string \<Rightarrow> unit ul_act" where
  "mark_failed w k msg s =
     ul_save_states w
       (with_tracker k
          (\<lambda>oid d tr. snd (update_file_progress_with_error (uw_io w) oid (up_local_path d) (final_error msg) tr))
         (modify_upload k
           (\<lambda>now d. d\<lparr>up_status := Failed, up_error := Some (final_error msg), up_completed_at := Some now,
                     up_last_updated_at := Some now\<rparr>) s))"

definition verify_upload :: "upload_world \<Rightarrow> string \<Rightarrow> string \<Rightarrow> unit ul_act" where
  "verify_upload w k key s =
     (case (if uw_stat w then hm_get (um_objects s) key else None) of
        None \<Rightarrow> (Err UploadVerify, s)
      | Some b \<Rightarrow>
          (case hm_get (um_uploads s) k of
             None \<Rightarrow> (Err UploadNotFound, s)
           | Some d \<Rightarrow> if length b \<noteq> unat (up_total_size d) then (Err UploadSizeMismatch, s) else (Ok (), s)))"

definition write_object :: "upload_world \<Rightarrow> string \<Rightarrow> string \<Rightarrow> bytes \<Rightarrow> unit ul_act" where
  "write_object w k key data s =
     (case uw_put w key data of
        None \<Rightarrow> and_then (mark_uploaded w k) (\<lambda>_. verify_upload w k key) (s\<lparr>um_objects := hm_insert key data (um_objects s)\<rparr>)
      | Some msg \<Rightarrow> and_then (mark_failed w k msg) (\<lambda>_ s. (Err (UploadWrite msg), s)) s)"

text \<open>Everything before the loop: the state read, the file from the resume point on.\<close>

definition begin_upload :: "upload_world \<Rightarrow> string \<Rightarrow> (upload_state \<times> bytes) ul_act" where
  "begin_upload w k =
     and_then (mark_started w k)
       (\<lambda>_ s.
          case hm_get (um_uploads s) k of
            None \<Rightarrow> (Err UploadNotFound, s)
          | Some d \<Rightarrow>
              (case hm_get (um_files s) (up_local_path d) of
                 None \<Rightarrow> (Err UploadLocalFile, s)
               | Some b \<Rightarrow>
                   and_then (ul_save_states w)
                     (\<lambda>_ s. (Ok (d, drop (unat (upload_resume_from d)) b), s))
                     (mark_position k (upload_resume_from d) s)))"

definition upload_chunks :: "nat \<Rightarrow> upload_world \<Rightarrow> string \<Rightarrow> upload_manager \<Rightarrow>
    ((upload_error, unit) outcome \<times> upload_manager) option" where
  "upload_chunks fuel w k s =
     (case begin_upload w k s of
        (Err e, s) \<Rightarrow> Some (Err e, s)
      | (Panic, s) \<Rightarrow> Some (Panic, s)
      | (Ok (d, b), s) \<Rightarrow>
          (case read_loop fuel w k (upload_resume_from d) (up_part_size d) 0 [] b s of
             None \<Rightarrow> None
           | Some (Err e, s) \<Rightarrow> Some (Err e, s)
           | Some (Panic, s) \<Rightarrow> Some (Panic, s)
           | Some (Ok data, s) \<Rightarrow>
               Some (and_then (mark_writing w k (up_total_size d)) (\<lambda>_. write_object w k (up_key d) data) s)))"

section \<open>The other operations\<close>

definition resume_now :: "nat \<Rightarrow> upload_world \<Rightarrow> string \<Rightarrow> upload_manager \<Rightarrow>
    ((upload_error, unit) outcome \<times> upload_manager) option" where
  "resume_now fuel w k s =
     (let s = modify_upload k (\<lambda>now d. d\<lparr>up_status := InProgress, up_error := None, up_last_updated_at := Some now\<rparr>) s
      in case ul_save_states w s of
           (Ok _, s) \<Rightarrow> upload_chunks fuel w k s
         | (Err e, s) \<Rightarrow> Some (Err e, s)
         | (Panic, s) \<Rightarrow> Some (Panic, s))"

definition resume_upload :: "nat \<Rightarrow> upload_world \<Rightarrow> string \<Rightarrow> upload_manager \<Rightarrow>
    ((upload_error, unit) outcome \<times> upload_manager) option" where
  "resume_upload fuel w k s =
     (case hm_get (um_uploads s) k of
        None \<Rightarrow> Some (Err UploadNotFound, s)
      | Some d \<Rightarrow>
          if up_status d = Completed then Some (Err UploadAlreadyCompleted, s)
          else
            (case (if up_status d = Failed then up_error d else None) of
               Some msg \<Rightarrow>
                 if is_permanent_error (to_lowercase msg) then Some (Err (UploadPermanent msg), s)
                 else resume_now fuel w k s
             | None \<Rightarrow> resume_now fuel w k s))"

text \<open>The percentage is the exact quotient, within 0 and 100. Times are nanoseconds; whole seconds are truncated
  towards zero.\<close>

record upload_progress =
  pr_state :: upload_state
  pr_percentage :: real
  pr_speed :: "u64 option"
  pr_eta :: "u64 option"

definition upload_percentage :: "upload_state \<Rightarrow> real" where
  "upload_percentage d =
     (if up_total_size d > 0
      then max 0 (min 100 (real (unat (up_bytes_uploaded d)) / real (unat (up_total_size d)) * 100)) else 0)"

definition elapsed_secs :: "int \<Rightarrow> int \<Rightarrow> u64" where
  "elapsed_secs created updated =
     (let ns = updated - created in of_int (max 1 (sgn ns * (\<bar>ns\<bar> div 1000000000))))"

definition speed_and_eta :: "upload_state \<Rightarrow> u64 option \<times> u64 option" where
  "speed_and_eta d =
     (case (up_status d, up_created_at d, up_last_updated_at d) of
        (InProgress, Some created, Some updated) \<Rightarrow>
          let secs = elapsed_secs created updated in
          if up_bytes_uploaded d > 0 \<and> secs > 0 then
            let speed = up_bytes_uploaded d div secs;
                remaining = sat_sub (up_total_size d) (up_bytes_uploaded d)
            in (Some speed, if speed > 0 then Some (remaining div speed) else None)
          else (None, None)
      | _ \<Rightarrow> (None, None))"

definition ul_get_progress :: "upload_world \<Rightarrow> string \<Rightarrow> upload_manager \<Rightarrow> upload_progress option \<times> upload_manager" where
  "ul_get_progress w k s =
     (case hm_get (um_uploads s) k of
        None \<Rightarrow> (None, s)
      | Some d \<Rightarrow>
          (Some \<lparr>pr_state = d, pr_percentage = upload_percentage d, pr_speed = fst (speed_and_eta d),
                 pr_eta = snd (speed_and_eta d)\<rparr>,
           with_tracker k
             (\<lambda>oid d tr. snd (update_operation_progress (uw_io w) oid (up_bytes_uploaded d) (Some (up_total_size d)) tr)) s))"

definition pause_upload :: "upload_world \<Rightarrow> string \<Rightarrow> unit ul_act" where
  "pause_upload w k s =
     (if hm_get (um_uploads s) k = None then (Err UploadNotFound, s)
      else ul_save_states w
             (modify_upload k (\<lambda>now d. d\<lparr>up_status := Paused, up_last_updated_at := Some now\<rparr>) s))"

text \<open>\<open>deleted\<close>: whether the store deletes the object; the result is ignored.\<close>

definition cancel_upload :: "upload_world \<Rightarrow> bool \<Rightarrow> string \<Rightarrow> unit ul_act" where
  "cancel_upload w deleted k s =
     (case hm_get (um_uploads s) k of
        None \<Rightarrow> (Err UploadNotFound, s)
      | Some d \<Rightarrow>
          ul_save_states w
            (s\<lparr>um_objects := (if deleted then hm_remove (up_key d) (um_objects s) else um_objects s),
               um_uploads := hm_remove k (um_uploads s)\<rparr>))"

definition list_uploads :: "upload_manager \<Rightarrow> upload_state list" where
  "list_uploads s = map snd (um_uploads s)"

definition remove_upload :: "upload_world \<Rightarrow> string \<Rightarrow> unit ul_act" where
  "remove_upload w k s = ul_save_states w (s\<lparr>um_uploads := hm_remove k (um_uploads s)\<rparr>)"

text \<open>\<open>hours\<close> within the range of \<open>chrono::Duration\<close>.\<close>

definition is_old_upload :: "int \<Rightarrow> upload_state \<Rightarrow> bool" where
  "is_old_upload cutoff d \<longleftrightarrow>
     up_status d \<in> {Completed, Failed} \<and> (case up_completed_at d of Some t \<Rightarrow> t < cutoff | None \<Rightarrow> False)"

definition cleanup_old_uploads :: "upload_world \<Rightarrow> nat \<Rightarrow> nat ul_act" where
  "cleanup_old_uploads w hours s =
     (let cutoff = ul_now s - int hours * 3600 * 1000000000;
          removed = length (filter (\<lambda>(k, d). is_old_upload cutoff d) (um_uploads s));
          s = (ul_tick s)\<lparr>um_uploads := filter (\<lambda>(k, d). \<not> is_old_upload cutoff d) (um_uploads s)\<rparr>
      in if removed > 0 then and_then (ul_save_states w) (\<lambda>_ s. (Ok removed, s)) s else (Ok removed, s))"

section \<open>What an upload stores\<close>

text \<open>The upload is tracked, at this size.\<close>

definition tracked :: "string \<Rightarrow> u64 \<Rightarrow> upload_manager \<Rightarrow> bool" where
  "tracked k sz s \<longleftrightarrow> (\<exists>d. hm_get (um_uploads s) k = Some d \<and> up_total_size d = sz)"

lemma ul_save_frame [simp]:
  "um_files (snd (ul_save_states w s)) = um_files s" "um_objects (snd (ul_save_states w s)) = um_objects s"
  "um_uploads (snd (ul_save_states w s)) = um_uploads s"
  by (simp_all add: ul_save_states_def)

lemma ul_save_Ok: "uw_save w \<Longrightarrow> ul_save_states w s = (Ok (), snd (ul_save_states w s))"
  by (simp add: ul_save_states_def)

lemma modify_upload_frame [simp]:
  "um_files (modify_upload k f s) = um_files s" "um_objects (modify_upload k f s) = um_objects s"
  by (simp_all add: modify_upload_def ul_tick_def split: option.split)

lemma modify_upload_get [simp]:
  "hm_get (um_uploads (modify_upload k f s)) k = map_option (f (ul_now s)) (hm_get (um_uploads s) k)"
  by (simp add: modify_upload_def ul_tick_def split: option.split)

lemma with_tracker_frame [simp]:
  "um_files (with_tracker k g s) = um_files s" "um_objects (with_tracker k g s) = um_objects s"
  "um_uploads (with_tracker k g s) = um_uploads s"
  by (simp_all add: with_tracker_def split: option.split)

lemma ul_report_frame [simp]:
  "um_files (ul_report_progress w k n p s) = um_files s" "um_objects (ul_report_progress w k n p s) = um_objects s"
  by (simp_all add: ul_report_progress_def Let_def split: option.split)

lemma ul_report_get:
  "hm_get (um_uploads (ul_report_progress w k n p s)) k =
     map_option (\<lambda>d. d\<lparr>up_bytes_uploaded := n, up_last_updated_at := Some (ul_now s), up_current_part := n div p + 1\<rparr>)
       (hm_get (um_uploads s) k)"
  by (simp add: ul_report_progress_def Let_def split: option.split)

lemma tracked_modify: "tracked k sz s \<Longrightarrow> (\<And>now d. up_total_size (f now d) = up_total_size d) \<Longrightarrow> tracked k sz (modify_upload k f s)"
  by (auto simp: tracked_def)

lemma tracked_report [simp]: "tracked k sz s \<Longrightarrow> tracked k sz (ul_report_progress w k n p s)"
  by (auto simp: tracked_def ul_report_get)

lemma tracked_save [simp]: "tracked k sz (snd (ul_save_states w s)) = tracked k sz s"
  by (simp add: tracked_def)

text \<open>Other tasks may pause the upload at any time.\<close>

definition only_pauses :: "upload_world \<Rightarrow> string \<Rightarrow> bool" where
  "only_pauses w k \<longleftrightarrow> (\<forall>n s. uw_interfere w n s \<in> {s, snd (pause_upload w k s)})"

definition reads_on :: "upload_world \<Rightarrow> bool" where
  "reads_on w \<longleftrightarrow> (\<forall>n. \<exists>m. uw_read w n = Some m \<and> 0 < m)"

lemma interfere_keeps:
  assumes "only_pauses w k" "tracked k sz s"
  shows "tracked k sz (uw_interfere w n s) \<and> um_objects (uw_interfere w n s) = um_objects s"
proof -
  have "tracked k sz (snd (pause_upload w k s))" "um_objects (snd (pause_upload w k s)) = um_objects s"
    using assms(2) by (auto simp: pause_upload_def tracked_def)
  with assms show ?thesis unfolding only_pauses_def by (metis insert_iff empty_iff)
qed

text \<open>The loop reads all of the file, however the reads are cut.\<close>

lemma read_loop_reads_all:
  assumes "only_pauses w k" "reads_on w" "part \<noteq> 0"
    and "length b < fuel" "tracked k sz s"
  shows "\<exists>s'. read_loop fuel w k resume part n got b s = Some (Ok (got @ b), s') \<and> tracked k sz s' \<and>
    um_objects s' = um_objects s"
  using assms(4,5)
proof (induction fuel arbitrary: n got b s)
  case (Suc fuel)
  let ?s = "uw_interfere w n s"
  obtain m where m: "uw_read w n = Some m" "0 < m" using assms(2) by (auto simp: reads_on_def)
  have s: "tracked k sz ?s" "um_objects ?s = um_objects s" using interfere_keeps [OF assms(1) Suc.prems(2)] by auto
  let ?chunk = "take (min m (unat part)) b"
  show ?case
  proof (cases "?chunk = []")
    case True
    then have "b = []" using m(2) assms(3) unat_gt_0 [of part] by (auto simp: min_def split: if_splits)
    with m s show ?thesis by (simp add: Let_def)
  next
    case False
    define chunk where "chunk = ?chunk"
    have chunk: "chunk \<noteq> []" "?chunk = chunk" using False unfolding chunk_def by assumption (rule refl)
    let ?got = "got @ chunk" and ?b = "drop (length chunk) b"
    let ?n = "of_nat (length ?got) :: u64"
    let ?t = "ul_report_progress w k (resume + ?n) part ?s"
    define t where "t = (if ?n mod (part * 5) < part then snd (ul_save_states w ?t) else ?t)"
    have t: "tracked k sz t" "um_objects t = um_objects s" using s by (simp_all add: t_def)
    have "length ?b < fuel" using chunk(1) Suc.prems(1) unfolding chunk_def by (cases b) auto
    from Suc.IH [OF this t(1), of "Suc n" ?got] obtain s' where
      s': "read_loop fuel w k resume part (Suc n) ?got ?b t = Some (Ok (?got @ ?b), s')" "tracked k sz s'"
        "um_objects s' = um_objects t" by (elim exE conjE)
    have "?got @ ?b = got @ b" unfolding chunk_def by (simp add: min_def)
    moreover have "read_loop (Suc fuel) w k resume part n got b s = read_loop fuel w k resume part (Suc n) ?got ?b t"
      using m(1) chunk by (simp add: Let_def t_def del: length_append)
    ultimately show ?thesis using s' t(2) by auto
  qed
qed simp

lemma begin_upload_Ok:
  assumes "hm_get (um_uploads s) k = Some d" "hm_get (um_files s) (up_local_path d) = Some c" "uw_save w"
  shows "\<exists>d' s'. begin_upload w k s = (Ok (d', drop (unat (upload_resume_from d)) c), s') \<and>
    upload_resume_from d' = upload_resume_from d \<and> up_part_size d' = up_part_size d \<and> up_key d' = up_key d \<and>
    up_total_size d' = up_total_size d \<and> tracked k (up_total_size d) s' \<and> um_objects s' = um_objects s"
proof -
  define t where "t = snd (mark_started w k s)"
  have start: "mark_started w k s = (Ok (), t)" using assms(3) by (simp add: t_def mark_started_def ul_save_states_def)
  obtain d' where d': "hm_get (um_uploads t) k = Some d'" "up_part_size d' = up_part_size d" "up_key d' = up_key d"
    "up_total_size d' = up_total_size d" "up_local_path d' = up_local_path d"
    "upload_resume_from d' = upload_resume_from d" "um_files t = um_files s" "um_objects t = um_objects s"
    using assms(1)
    by (cases "up_status d = Pending") (simp_all add: t_def mark_started_def upload_resume_from_def)
  let ?u = "snd (ul_save_states w (mark_position k (upload_resume_from d') t))"
  have "begin_upload w k s = (Ok (d', drop (unat (upload_resume_from d')) c), ?u)"
    using start d'(1,5,7) assms(2,3)
    by (simp add: begin_upload_def and_then_def ul_save_states_def)
  moreover have "tracked k (up_total_size d) ?u"
    using d'(1,4) unfolding mark_position_def by (simp add: tracked_def Let_def)
  ultimately show ?thesis using d' by (auto simp: mark_position_def)
qed

text \<open>(C35) What an upload stores, and what it says about it: if the local file has the recorded size, is read to
  the end in whatever pieces, and the store accepts the object, then - although others may pause the upload at
  any time - the object holds the file from the resume point on and the upload is marked completed at its full
  size. An upload that starts from the beginning succeeds. One that resumes replaces the object by the tail of
  the file, and only then fails, on the size, while it stays marked as completed.\<close>

theorem upload_stores:
  assumes "hm_get (um_uploads s) k = Some d" and "hm_get (um_files s) (up_local_path d) = Some c"
    and "unat (up_total_size d) = length c" and "up_part_size d \<noteq> 0"
    and "uw_save w" and "uw_stat w" and "\<forall>data. uw_put w (up_key d) data = None"
    and "reads_on w" and "only_pauses w k" and "length c < fuel"
  shows "\<exists>r s'. upload_chunks fuel w k s = Some (r, s') \<and>
    hm_get (um_objects s') (up_key d) = Some (drop (unat (upload_resume_from d)) c) \<and>
    (\<exists>d'. hm_get (um_uploads s') k = Some d' \<and> up_status d' = Completed \<and> up_bytes_uploaded d' = up_total_size d) \<and>
    r = (if upload_resume_from d = 0 then Ok () else Err UploadSizeMismatch)"
proof -
  let ?off = "upload_resume_from d" and ?sz = "up_total_size d"
  let ?b = "drop (unat ?off) c"
  obtain d0 t where t: "begin_upload w k s = (Ok (d0, ?b), t)" "upload_resume_from d0 = ?off"
    "up_part_size d0 = up_part_size d" "up_key d0 = up_key d" "up_total_size d0 = ?sz" "tracked k ?sz t"
    using begin_upload_Ok [OF assms(1,2,5)] by auto
  have "length ?b < fuel" using assms(10) by simp
  from read_loop_reads_all [OF assms(9,8,4) this t(6), of ?off 0 "[]"] obtain u where
    u: "read_loop fuel w k ?off (up_part_size d) 0 [] ?b t = Some (Ok ?b, u)" "tracked k ?sz u" by auto
  define v where "v = snd (mark_writing w k ?sz u)"
  have v: "mark_writing w k ?sz u = (Ok (), v)" "tracked k ?sz v"
    using u(2) assms(5) by (auto simp: v_def mark_writing_def ul_save_states_def intro: tracked_modify simp: tracked_def)
  define x where "x = snd (mark_uploaded w k (v\<lparr>um_objects := hm_insert (up_key d) ?b (um_objects v)\<rparr>))"
  have mark: "mark_uploaded w k (v\<lparr>um_objects := hm_insert (up_key d) ?b (um_objects v)\<rparr>) = (Ok (), x)"
    using assms(5) by (simp add: x_def mark_uploaded_def ul_save_states_def)
  from v(2) obtain d1 where d1: "hm_get (um_uploads x) k = Some d1" "up_status d1 = Completed"
    "up_bytes_uploaded d1 = ?sz" "up_total_size d1 = ?sz"
    by (auto simp: tracked_def x_def mark_uploaded_def modify_upload_def ul_tick_def)
  have obj: "hm_get (um_objects x) (up_key d) = Some ?b" by (simp add: x_def mark_uploaded_def)
  have "unat ?off < length c \<or> unat ?off = 0" using assms(3) by (auto simp: upload_resume_from_def word_less_nat_alt)
  then have "length ?b = length c \<longleftrightarrow> unat ?off = 0" unfolding length_drop by linarith
  then have "length ?b = length c \<longleftrightarrow> ?off = 0" by (simp only: unat_eq_zero)
  then have "verify_upload w k (up_key d) x = (if ?off = 0 then Ok () else Err UploadSizeMismatch, x)"
    using obj d1(1,4) assms(3,6) by (simp add: verify_upload_def)
  then have "write_object w k (up_key d) ?b v = (if ?off = 0 then Ok () else Err UploadSizeMismatch, x)"
    using assms(7) mark by (simp add: write_object_def and_then_def)
  then have "upload_chunks fuel w k s = Some (if ?off = 0 then Ok () else Err UploadSizeMismatch, x)"
    using t u v(1) by (simp add: upload_chunks_def and_then_def)
  with obj d1 show ?thesis by blast
qed

definition demo_upload :: "u64 \<Rightarrow> upload_state" where
  "demo_upload n =
     \<lparr>up_id = ''0'', up_operation_id = None, up_source_id = ''s'', up_key = ''k'', up_local_path = ''l'', up_total_size = 3,
      up_part_size = 2, up_total_parts = 2, up_uploaded_parts = [], up_current_part = 0, up_bytes_uploaded = n,
      up_status = Pending, up_error = None, up_created_at = None, up_completed_at = None, up_last_updated_at = None\<rparr>"

definition demo_uploads :: "u64 \<Rightarrow> upload_manager" where
  "demo_uploads n =
     (upload_manager_new None [(''l'', [1, 2, 3])] [(''k'', [9])] demo_start int (\<lambda>n. replicate n CHR ''x''))
       \<lparr>um_uploads := [(''0'', demo_upload n)]\<rparr>"

definition demo_upload_world :: upload_world where
  "demo_upload_world =
     \<lparr>uw_read = (\<lambda>_. Some 2), uw_put = (\<lambda>_ _. None), uw_stat = True, uw_save = True, uw_interfere = (\<lambda>n s. s),
      uw_io = demo_io, uw_metrics = \<lparr>mt_cpu = 0, mt_memory = 0, mt_tx = 0, mt_rx = 0\<rparr>\<rparr>"

theorem upload_stores_witness:
  "\<exists>s'. upload_chunks 4 demo_upload_world ''0'' (demo_uploads 1) = Some (Err UploadSizeMismatch, s') \<and>
     hm_get (um_objects s') ''k'' = Some [2, 3]"
proof -
  have "hm_get (um_uploads (demo_uploads 1)) ''0'' = Some (demo_upload 1)"
    "hm_get (um_files (demo_uploads 1)) (up_local_path (demo_upload 1)) = Some [1, 2, 3]"
    "unat (up_total_size (demo_upload 1)) = length ([1, 2, 3] :: bytes)" "up_part_size (demo_upload 1) \<noteq> 0"
    "uw_save demo_upload_world" "uw_stat demo_upload_world"
    "\<forall>data. uw_put demo_upload_world (up_key (demo_upload 1)) data = None"
    "reads_on demo_upload_world" "only_pauses demo_upload_world ''0''" "length ([1, 2, 3] :: bytes) < 4"
    by (simp_all add: demo_uploads_def demo_upload_def upload_manager_new_def demo_upload_world_def reads_on_def
        only_pauses_def)
  from upload_stores [OF this] have "\<exists>r s'. upload_chunks 4 demo_upload_world ''0'' (demo_uploads 1) = Some (r, s') \<and>
      hm_get (um_objects s') (up_key (demo_upload 1)) = Some (drop (unat (upload_resume_from (demo_upload 1))) [1, 2, 3]) \<and>
      r = (if upload_resume_from (demo_upload 1) = 0 then Ok () else Err UploadSizeMismatch)" by blast
  moreover have "upload_resume_from (demo_upload 1) = 1" "up_key (demo_upload 1) = ''k''"
    by (simp_all add: upload_resume_from_def demo_upload_def)
  ultimately show ?thesis by simp
qed

section \<open>Permanent errors\<close>

text \<open>The messages shown to the user, as \<open>resume_upload\<close> later tests them.\<close>

lemma stored_messages:
  "\<not> is_permanent_error (to_lowercase (''[PERMANENT ERROR - Cannot Retry] '' @ CREDENTIALS_MESSAGE))"
  "\<not> is_permanent_error (to_lowercase (''[PERMANENT ERROR - Cannot Retry] '' @ PERMISSION_MESSAGE))"
  "is_permanent_error (to_lowercase (''[PERMANENT ERROR - Cannot Retry] '' @ ACCESS_MESSAGE))"
  by code_simp+

definition recognised_later :: "string \<Rightarrow> bool" where
  "recognised_later msg \<longleftrightarrow>
     (let e = to_lowercase msg in
      is_permanent_error e \<and> \<not> str_contains ''invalidaccesskeyid'' e \<and> \<not> str_contains ''does not exist in our records'' e \<and>
      \<not> str_contains ''permission denied'' e \<and> \<not> str_contains ''403'' e)"

lemma is_permanent_append: "is_permanent_error e \<Longrightarrow> is_permanent_error (a @ e)"
  unfolding is_permanent_error_def by (elim disjE conjE) (simp_all add: str_contains_append)

lemma plain_message: "\<not> is_permanent_error (to_lowercase PERMISSION_MESSAGE)"
  by code_simp

lemma final_error_permanent: "is_permanent_error (to_lowercase (final_error msg)) = recognised_later msg"
proof -
  let ?e = "to_lowercase msg" and ?p = "''[PERMANENT ERROR - Cannot Retry] ''"
  consider (creds) "str_contains ''invalidaccesskeyid'' ?e \<or> str_contains ''does not exist in our records'' ?e"
    | (perm) "\<not> (str_contains ''invalidaccesskeyid'' ?e \<or> str_contains ''does not exist in our records'' ?e)"
        "str_contains ''permission denied'' ?e \<or> str_contains ''403'' ?e"
    | (access) "\<not> (str_contains ''invalidaccesskeyid'' ?e \<or> str_contains ''does not exist in our records'' ?e)"
        "\<not> (str_contains ''permission denied'' ?e \<or> str_contains ''403'' ?e)" "str_contains ''access denied'' ?e"
    | (other) "\<not> (str_contains ''invalidaccesskeyid'' ?e \<or> str_contains ''does not exist in our records'' ?e)"
        "\<not> (str_contains ''permission denied'' ?e \<or> str_contains ''403'' ?e)" "\<not> str_contains ''access denied'' ?e"
    by blast
  then show ?thesis
  proof cases
    case creds
    then have "is_permanent_error ?e" by (auto simp: is_permanent_error_def)
    with creds show ?thesis
      using stored_messages(1) by (auto simp: final_error_def user_friendly_error_def recognised_later_def Let_def)
  next
    case perm
    then show ?thesis
      using stored_messages(2) plain_message
      by (auto simp: final_error_def user_friendly_error_def recognised_later_def Let_def)
  next
    case access
    then have "is_permanent_error ?e" by (auto simp: is_permanent_error_def)
    with access show ?thesis
      using stored_messages(3) by (auto simp: final_error_def user_friendly_error_def recognised_later_def Let_def)
  next
    case other
    then have "user_friendly_error msg = msg" by (simp add: user_friendly_error_def Let_def)
    moreover have "is_permanent_error (to_lowercase (?p @ msg))" if "is_permanent_error ?e"
      unfolding to_lowercase_append using that by (rule is_permanent_append)
    ultimately show ?thesis using other by (auto simp: final_error_def recognised_later_def Let_def)
  qed
qed

text \<open>Resuming an upload that failed: the message of the store decides whether the failure is permanent, but
  the text shown to the user has replaced it when the upload is resumed. The resumption is refused exactly for
  messages that are permanent and mention neither an unknown access key, nor a missing permission, nor 403; the
  other permanent failures - unknown credentials among them - are retried.\<close>

theorem resume_after_failure:
  assumes "hm_get (um_uploads s) k = Some d"
  shows "let s' = snd (mark_failed w k msg s) in
    resume_upload fuel w k s' =
      (if recognised_later msg then Some (Err (UploadPermanent (final_error msg)), s') else resume_now fuel w k s')"
proof -
  let ?s = "snd (mark_failed w k msg s)"
  have "\<exists>d'. hm_get (um_uploads ?s) k = Some d' \<and> up_status d' = Failed \<and> up_error d' = Some (final_error msg)"
    using assms by (simp add: mark_failed_def)
  then show ?thesis by (auto simp: resume_upload_def final_error_permanent Let_def)
qed

theorem resume_after_failure_witness:
  "resume_upload 4 demo_upload_world ''0'' (snd (mark_failed demo_upload_world ''0'' ''InvalidAccessKeyId'' (demo_uploads 0))) =
     resume_now 4 demo_upload_world ''0'' (snd (mark_failed demo_upload_world ''0'' ''InvalidAccessKeyId'' (demo_uploads 0)))
   \<and> is_permanent_error (to_lowercase ''InvalidAccessKeyId'')"
proof
  have "hm_get (um_uploads (demo_uploads 0)) ''0'' = Some (demo_upload 0)"
    by (simp add: demo_uploads_def)
  moreover have "\<not> recognised_later ''InvalidAccessKeyId''" by code_simp
  ultimately show "resume_upload 4 demo_upload_world ''0'' (snd (mark_failed demo_upload_world ''0'' ''InvalidAccessKeyId'' (demo_uploads 0))) =
     resume_now 4 demo_upload_world ''0'' (snd (mark_failed demo_upload_world ''0'' ''InvalidAccessKeyId'' (demo_uploads 0)))"
    using resume_after_failure [of "demo_uploads 0" "''0''" "demo_upload 0" demo_upload_world "''InvalidAccessKeyId''" 4]
    by (simp add: Let_def)
qed code_simp

end
