(* ===== verification/Audit_Log.thy ===== *)
theory Audit_Log
  imports Op_Tracker
begin

text \<open>
  The audit log of the desktop application (\<open>apps/vfs-desktop/src-tauri/src/vfs/audit_log.rs\<close>): entries in memory,
  a file of entries, and the line-by-line file of the operation tracker it falls back to. What the host does is
  an argument: whether a file can be read, and how a write ends. A file that a failed write has left half-written
  does not parse.
\<close>

section \<open>Entries\<close>

record audit_entry =
  ae_operation_id :: string
  ae_operation_type :: operation_type
  ae_source_id :: string
  ae_source_path :: string
  ae_destination_path :: "string option"
  ae_file_size :: "u64 option"
  ae_status :: operation_status
  ae_error :: "string option"
  ae_user_id :: "string option"
  ae_organization_id :: "string option"
  ae_created_at :: "int option"
  ae_completed_at :: "int option"

definition audit_entry_from :: "operation \<Rightarrow> audit_entry" where
  "audit_entry_from v =
     \<lparr>ae_operation_id = op_id v, ae_operation_type = op_type v, ae_source_id = op_source_id v,
      ae_source_path = op_source_path v, ae_destination_path = op_destination_path v,
      ae_file_size = op_file_size v, ae_status = op_status v, ae_error = op_error v, ae_user_id = op_user_id v,
      ae_organization_id = op_organization_id v, ae_created_at = op_created_at v,
      ae_completed_at = op_completed_at v\<rparr>"

definition persist_entry :: "audit_entry \<Rightarrow> audit_entry" where
  "persist_entry e =
     e\<lparr>ae_created_at := whole_seconds (ae_created_at e), ae_completed_at := whole_seconds (ae_completed_at e)\<rparr>"

section \<open>The log\<close>

text \<open>A line of the other file is an operation, or is none and skipped.\<close>

datatype audit_file = NoAuditFile | NotEntries | Entries "audit_entry list"

record audit_log =
  al_entries :: "audit_entry list"
  al_file :: audit_file
  al_jsonl :: "operation option list option"
  al_max_entries :: nat

datatype audit_error = AuditDir | AuditRead | AuditWrite

record audit_io =
  ai_mkdir :: bool
  ai_read :: bool
  ai_write :: write_result

type_synonym 'a al_act = "(audit_log, audit_error, 'a) act"

definition load_jsonl :: "audit_io \<Rightarrow> unit al_act" where
  "load_jsonl i s =
     (case al_jsonl s of
        None \<Rightarrow> (Ok (), s)
      | Some ls \<Rightarrow>
          if ai_read i then (Ok (), s\<lparr>al_entries := map audit_entry_from (List.map_filter id ls)\<rparr>)
          else (Err AuditRead, s))"

definition al_load :: "audit_io \<Rightarrow> unit al_act" where
  "al_load i s =
     (if al_file s \<noteq> NoAuditFile \<and> \<not> ai_read i then (Err AuditRead, s)
      else
        (case al_file s of
           Entries es \<Rightarrow> (Ok (), s\<lparr>al_entries := es\<rparr>)
         | _ \<Rightarrow> load_jsonl i s))"

definition audit_log_new ::
    "audit_io \<Rightarrow> audit_file \<Rightarrow> operation option list option \<Rightarrow> nat \<Rightarrow> (audit_error, audit_log) outcome" where
  "audit_log_new i f ls max_entries =
     (if \<not> ai_mkdir i then Err AuditDir
      else
        (case al_load i \<lparr>al_entries = [], al_file = f, al_jsonl = ls, al_max_entries = max_entries\<rparr> of
           (Ok _, s) \<Rightarrow> Ok s
         | (Err e, s) \<Rightarrow> Err e
         | (Panic, s) \<Rightarrow> Panic))"

definition entry_time :: "audit_entry \<Rightarrow> int option" where
  "entry_time e = (case ae_created_at e of Some t \<Rightarrow> Some t | None \<Rightarrow> ae_completed_at e)"

definition entries_to_save :: "nat \<Rightarrow> audit_entry list \<Rightarrow> audit_entry list" where
  "entries_to_save n es =
     (if n > 0 \<and> length es > n then take n (sort_key (\<lambda>e. desc_key (entry_time e)) es) else es)"

definition al_save :: "audit_io \<Rightarrow> unit al_act" where
  "al_save i s =
     (case ai_write i of
        Written \<Rightarrow> (Ok (), s\<lparr>al_file := Entries (map persist_entry (entries_to_save (al_max_entries s) (al_entries s)))\<rparr>)
      | Refused \<Rightarrow> (Err AuditWrite, s)
      | Torn _ \<Rightarrow> (Err AuditWrite, s\<lparr>al_file := NotEntries\<rparr>))"

definition log_operation :: "audit_io \<Rightarrow> operation \<Rightarrow> unit al_act" where
  "log_operation i v s = al_save i (s\<lparr>al_entries := al_entries s @ [audit_entry_from v]\<rparr>)"

definition get_all_entries :: "audit_log \<Rightarrow> audit_entry list" where
  "get_all_entries s = al_entries s"

definition get_entries_by_user :: "string \<Rightarrow> audit_log \<Rightarrow> audit_entry list" where
  "get_entries_by_user u s =
     filter (\<lambda>e. case ae_user_id e of Some i \<Rightarrow> i = u | None \<Rightarrow> False) (al_entries s)"

definition get_entries_by_organization :: "string \<Rightarrow> audit_log \<Rightarrow> audit_entry list" where
  "get_entries_by_organization g s =
     filter (\<lambda>e. case ae_organization_id e of Some i \<Rightarrow> i = g | None \<Rightarrow> False) (al_entries s)"

definition get_entries_by_type :: "operation_type \<Rightarrow> audit_log \<Rightarrow> audit_entry list" where
  "get_entries_by_type t s = filter (\<lambda>e. ae_operation_type e = t) (al_entries s)"

definition get_entries_by_status :: "operation_status \<Rightarrow> audit_log \<Rightarrow> audit_entry list" where
  "get_entries_by_status t s = filter (\<lambda>e. ae_status e = t) (al_entries s)"

definition al_clear :: "audit_io \<Rightarrow> unit al_act" where
  "al_clear i s = al_save i (s\<lparr>al_entries := []\<rparr>)"

section \<open>What is retained\<close>

definition newer_or_equal :: "audit_entry \<Rightarrow> audit_entry \<Rightarrow> bool" where
  "newer_or_equal a b \<longleftrightarrow>
     (case (entry_time a, entry_time b) of
        (_, None) \<Rightarrow> True
      | (Some x, Some y) \<Rightarrow> y \<le> x
      | (None, Some _) \<Rightarrow> False)"

lemma newer_or_equal_desc: "desc_key (entry_time a) \<le> desc_key (entry_time b) \<longleftrightarrow> newer_or_equal a b"
  by (auto simp: newer_or_equal_def desc_key_def less_eq_prod_def split: option.splits)

lemma entries_to_save_split:
  "\<exists>dropped. mset (entries_to_save n es) + mset dropped = mset es \<and>
     length (entries_to_save n es) = (if n = 0 then length es else min n (length es)) \<and>
     (\<forall>a\<in>set (entries_to_save n es). \<forall>b\<in>set dropped. newer_or_equal a b)"
proof (cases "n > 0 \<and> length es > n")
  case True
  let ?xs = "sort_key (\<lambda>e. desc_key (entry_time e)) es"
  have "sorted (map (\<lambda>e. desc_key (entry_time e)) (take n ?xs @ drop n ?xs))"
    by (simp only: append_take_drop_id sorted_sort_key)
  then have "newer_or_equal a b" if "a \<in> set (take n ?xs)" "b \<in> set (drop n ?xs)" for a b
    unfolding newer_or_equal_desc [symmetric] map_append sorted_append using that by auto
  moreover have "mset (take n ?xs) + mset (drop n ?xs) = mset es"
    by (simp only: mset_append [symmetric] append_take_drop_id mset_sort)
  ultimately show ?thesis
    using True by (intro exI [of _ "drop n ?xs"]) (auto simp: entries_to_save_def)
next
  case False
  then show ?thesis by (intro exI [of _ "[]"]) (auto simp: entries_to_save_def)
qed

text \<open>What a restart finds after an operation was logged: of all entries in memory and the new one, as many
  as the limit allows (all of them without a limit), none older than one that was dropped, with their times cut
  to seconds.\<close>

theorem audit_log_retains:
  assumes "ai_write i = Written" and "ai_mkdir j" and "ai_read j"
  shows "\<exists>t kept dropped.
    audit_log_new j (al_file (snd (log_operation i v s))) ls n = Ok t \<and> al_entries t = map persist_entry kept \<and>
    mset kept + mset dropped = mset (al_entries s @ [audit_entry_from v]) \<and>
    length kept = (let m = Suc (length (al_entries s)) in if al_max_entries s = 0 then m else min (al_max_entries s) m) \<and>
    (\<forall>a\<in>set kept. \<forall>b\<in>set dropped. newer_or_equal a b)"
proof -
  let ?es = "al_entries s @ [audit_entry_from v]"
  let ?kept = "entries_to_save (al_max_entries s) ?es"
  obtain dropped where d: "mset ?kept + mset dropped = mset ?es"
    "length ?kept = (if al_max_entries s = 0 then length ?es else min (al_max_entries s) (length ?es))"
    "\<forall>a\<in>set ?kept. \<forall>b\<in>set dropped. newer_or_equal a b"
    using entries_to_save_split by blast
  have "al_file (snd (log_operation i v s)) = Entries (map persist_entry ?kept)"
    using assms(1) by (simp add: log_operation_def al_save_def)
  then obtain t where "audit_log_new j (al_file (snd (log_operation i v s))) ls n = Ok t"
    "al_entries t = map persist_entry ?kept"
    using assms by (simp add: audit_log_new_def al_load_def)
  moreover have "length ?es = Suc (length (al_entries s))" by simp
  ultimately show ?thesis using d unfolding Let_def by metis
qed

text \<open>After a write that failed half-way the next start finds the entries of the other file, and none without it;
  it reports no error.\<close>

lemma torn_audit_log:
  assumes "ai_write i = Torn b" and "ai_mkdir j" and "ai_read j"
  shows "\<exists>t. audit_log_new j (al_file (snd (log_operation i v s))) None n = Ok t \<and> al_entries t = []"
  using assms by (simp add: log_operation_def al_save_def audit_log_new_def al_load_def load_jsonl_def)

definition demo_audit_io :: audit_io where
  "demo_audit_io = \<lparr>ai_mkdir = True, ai_read = True, ai_write = Written\<rparr>"

definition demo_logged :: operation where
  "demo_logged =
     \<lparr>op_id = ''0'', op_type = Copy, op_source_id = ''s'', op_source_path = ''/a'', op_destination_path = None,
      op_file_size = None, op_bytes_processed = 0, op_status = Completed, op_error = None, op_files = None,
      op_file_count = None, op_cpu_usage_percent = None, op_memory_usage_mb = None, op_network_tx = None,
      op_network_rx = None, op_user_id = None, op_organization_id = None, op_created_at = Some 7,
      op_completed_at = None, op_last_updated_at = None, op_tags = None, op_asset_info = None, op_metadata = None\<rparr>"

definition demo_log :: audit_log where
  "demo_log =
     \<lparr>al_entries = [(audit_entry_from demo_logged)\<lparr>ae_created_at := Some 9\<rparr>], al_file = NoAuditFile, al_jsonl = None,
      al_max_entries = 1\<rparr>"

theorem audit_log_retains_witness:
  "\<exists>t kept dropped.
     audit_log_new demo_audit_io (al_file (snd (log_operation demo_audit_io demo_logged demo_log))) None 1 = Ok t \<and>
     al_entries t = map persist_entry kept \<and> length kept = 1 \<and> (\<forall>a\<in>set kept. \<forall>b\<in>set dropped. newer_or_equal a b)"
proof -
  have "ai_write demo_audit_io = Written" "ai_mkdir demo_audit_io" "ai_read demo_audit_io"
    by (simp_all add: demo_audit_io_def)
  from audit_log_retains [OF this, of demo_logged demo_log None 1] show ?thesis
    by (elim exE conjE, intro exI conjI) (simp_all add: Let_def demo_log_def)
qed

end
