(* ===== verification/Hydration.thy ===== *)
theory Hydration
  imports Prelude
begin

text \<open>
  The operator that puts a local cache in front of a bucket
  (\<open>apps/vfs-desktop/src-tauri/src/vfs/hydration.rs\<close>, statistics of \<open>types.rs\<close>).

  Bucket and cache are maps from paths to contents behind two storage operators. Whether a call of an operator
  succeeds, and how a write of the cache ends, is an argument (\<open>hy_faults\<close>): a write of the bucket or a deletion
  has its effect or none, a write of the cache may leave other bytes. The counters wrap.
\<close>

section \<open>State\<close>

record vfs_stats =
  total_reads :: u64
  cache_hits :: u64
  cache_misses :: u64
  bytes_downloaded :: u64
  bytes_uploaded :: u64

definition no_stats :: vfs_stats where
  "no_stats = \<lparr>total_reads = 0, cache_hits = 0, cache_misses = 0, bytes_downloaded = 0, bytes_uploaded = 0\<rparr>"

record hydrated =
  hy_remote :: "(string, bytes) hash_map"
  hy_cache :: "(string, bytes) hash_map"
  hy_stats :: vfs_stats

record hy_faults =
  hf_cache_exists :: bool
  hf_cache_read :: bool
  hf_cache_write :: write_result
  hf_cache_delete :: bool
  hf_remote_read :: bool
  hf_remote_write :: bool
  hf_remote_delete :: bool
  hf_remote_list :: bool

datatype hy_error = CacheFailed | RemoteFailed | RemoteNotFound

type_synonym 'a hy_act = "(hydrated, hy_error, 'a) act"

definition hydrated_new :: "(string, bytes) hash_map \<Rightarrow> (string, bytes) hash_map \<Rightarrow> hydrated" where
  "hydrated_new remote cache = \<lparr>hy_remote = remote, hy_cache = cache, hy_stats = no_stats\<rparr>"

section \<open>Operations\<close>

abbreviation hy_path :: "string \<Rightarrow> string" where
  "hy_path \<equiv> trim_start_matches slash"

definition count_hit :: "hydrated \<Rightarrow> hydrated" where
  "count_hit s =
     s\<lparr>hy_stats := (hy_stats s)\<lparr>total_reads := total_reads (hy_stats s) + 1, cache_hits := cache_hits (hy_stats s) + 1\<rparr>\<rparr>"

definition count_miss :: "bytes \<Rightarrow> hydrated \<Rightarrow> hydrated" where
  "count_miss b s =
     s\<lparr>hy_stats := (hy_stats s)\<lparr>total_reads := total_reads (hy_stats s) + 1, cache_misses := cache_misses (hy_stats s) + 1,
       bytes_downloaded := bytes_downloaded (hy_stats s) + of_nat (length b)\<rparr>\<rparr>"

definition write_cache :: "hy_faults \<Rightarrow> string \<Rightarrow> bytes \<Rightarrow> unit hy_act" where
  "write_cache f p b s =
     (case hf_cache_write f of
        Written \<Rightarrow> (Ok (), s\<lparr>hy_cache := hm_insert p b (hy_cache s)\<rparr>)
      | Refused \<Rightarrow> (Err CacheFailed, s)
      | Torn b' \<Rightarrow> (Err CacheFailed, s\<lparr>hy_cache := hm_insert p b' (hy_cache s)\<rparr>))"

definition hy_read :: "hy_faults \<Rightarrow> string \<Rightarrow> bytes hy_act" where
  "hy_read f path s =
     (let p = hy_path path in
      if \<not> hf_cache_exists f then (Err CacheFailed, s)
      else
        case hm_get (hy_cache s) p of
          Some b \<Rightarrow> if hf_cache_read f then (Ok b, count_hit s) else (Err CacheFailed, s)
        | None \<Rightarrow>
            if \<not> hf_remote_read f then (Err RemoteFailed, s)
            else
              (case hm_get (hy_remote s) p of
                 None \<Rightarrow> (Err RemoteNotFound, s)
               | Some b \<Rightarrow> (Ok b, snd (write_cache f p b (count_miss b s)))))"

definition hy_exists :: "hy_faults \<Rightarrow> string \<Rightarrow> bool hy_act" where
  "hy_exists f path s =
     (if hf_remote_read f then (Ok (hm_get (hy_remote s) (hy_path path) \<noteq> None), s) else (Err RemoteFailed, s))"

text \<open>Of the metadata, the length.\<close>

definition hy_metadata :: "hy_faults \<Rightarrow> string \<Rightarrow> u64 hy_act" where
  "hy_metadata f path s =
     (if hf_remote_read f
      then (case hm_get (hy_remote s) (hy_path path) of
              None \<Rightarrow> (Err RemoteNotFound, s)
            | Some b \<Rightarrow> (Ok (of_nat (length b)), s))
      else (Err RemoteFailed, s))"

text \<open>What the bucket lists under a prefix is the argument \<open>lister\<close>.\<close>

definition hy_list_dir ::
    "((string, bytes) hash_map \<Rightarrow> string \<Rightarrow> string list) \<Rightarrow> hy_faults \<Rightarrow> string \<Rightarrow> string list hy_act" where
  "hy_list_dir lister f path s =
     (let p = hy_path path; dir_path = (if p = [] then [] else p @ [slash]) in
      if hf_remote_list f then (Ok (lister (hy_remote s) dir_path), s) else (Err RemoteFailed, s))"

definition hy_write :: "hy_faults \<Rightarrow> string \<Rightarrow> bytes \<Rightarrow> unit hy_act" where
  "hy_write f path b =
     (let p = hy_path path in
      and_then (write_cache f p b)
        (\<lambda>_ s.
           if hf_remote_write f
           then (Ok (), s\<lparr>hy_remote := hm_insert p b (hy_remote s),
                          hy_stats := (hy_stats s)\<lparr>bytes_uploaded := bytes_uploaded (hy_stats s) + of_nat (length b)\<rparr>\<rparr>)
           else (Err RemoteFailed, s)))"

definition hy_delete :: "hy_faults \<Rightarrow> string \<Rightarrow> unit hy_act" where
  "hy_delete f path s =
     (let p = hy_path path in
      if hf_remote_delete f
      then (Ok (), s\<lparr>hy_remote := hm_remove p (hy_remote s),
                     hy_cache := (if hf_cache_delete f then hm_remove p (hy_cache s) else hy_cache s)\<rparr>)
      else (Err RemoteFailed, s))"

definition hy_get_stats :: "hydrated \<Rightarrow> vfs_stats" where
  "hy_get_stats s = hy_stats s"

section \<open>Runs\<close>

text \<open>The last step is a change of the bucket by someone else.\<close>

datatype hy_step = HyRead hy_faults string | HyWrite hy_faults string bytes | HyDelete hy_faults string
  | HyForeign string "bytes option"

fun hy_run1 :: "hy_step \<Rightarrow> hydrated \<Rightarrow> hydrated" where
  "hy_run1 (HyRead f p) s = snd (hy_read f p s)"
| "hy_run1 (HyWrite f p b) s = snd (hy_write f p b s)"
| "hy_run1 (HyDelete f p) s = snd (hy_delete f p s)"
| "hy_run1 (HyForeign p (Some b)) s = s\<lparr>hy_remote := hm_insert p b (hy_remote s)\<rparr>"
| "hy_run1 (HyForeign p None) s = s\<lparr>hy_remote := hm_remove p (hy_remote s)\<rparr>"

text \<open>A cached path has the content of the bucket.\<close>

definition coherent_at :: "hydrated \<Rightarrow> string \<Rightarrow> bool" where
  "coherent_at s p \<longleftrightarrow> hm_get (hy_cache s) p = None \<or> hm_get (hy_cache s) p = hm_get (hy_remote s) p"

text \<open>The steps that can put a path out of step, by the path they touch: a write that ends half-way in the cache,
  or reaches the cache only; a deletion that reaches the bucket only; a foreign change.\<close>

fun harmless :: "string \<Rightarrow> hydrated \<Rightarrow> hy_step \<Rightarrow> bool" where
  "harmless p s (HyRead f q) = (hy_path q = p \<longrightarrow> hf_cache_write f \<in> {Written, Refused})"
| "harmless p s (HyWrite f q b) = (hy_path q = p \<longrightarrow> hf_cache_write f = Refused \<or> hf_cache_write f = Written \<and> hf_remote_write f)"
| "harmless p s (HyDelete f q) = (hy_path q = p \<longrightarrow> \<not> hf_remote_delete f \<or> hf_cache_delete f)"
| "harmless p s (HyForeign q x) = (q = p \<longrightarrow> hm_get (hy_cache s) p = None)"

lemma count_frame [simp]:
  "hy_remote (count_hit s) = hy_remote s" "hy_cache (count_hit s) = hy_cache s"
  "hy_remote (count_miss b s) = hy_remote s" "hy_cache (count_miss b s) = hy_cache s"
  by (simp_all add: count_hit_def count_miss_def)

lemma write_cache_frame [simp]:
  "hy_remote (snd (write_cache f p b s)) = hy_remote s" "hy_stats (snd (write_cache f p b s)) = hy_stats s"
  by (simp_all add: write_cache_def split: write_result.split)

lemma coherent_step [step_inv]:
  assumes "coherent_at s p" "harmless p s x"
  shows "coherent_at (hy_run1 x s) p"
proof (cases x)
  case (HyRead f q)
  with assms show ?thesis
    by (auto simp: hy_read_def Let_def write_cache_def coherent_at_def split: write_result.splits option.splits)
next
  case (HyWrite f q b)
  with assms show ?thesis
    by (auto simp: hy_write_def Let_def and_then_def write_cache_def coherent_at_def split: write_result.splits)
next
  case (HyDelete f q)
  with assms show ?thesis by (auto simp: hy_delete_def Let_def coherent_at_def)
next
  case (HyForeign q b)
  with assms show ?thesis by (cases b) (auto simp: coherent_at_def)
qed

fun harmless_run :: "string \<Rightarrow> hydrated \<Rightarrow> hy_step list \<Rightarrow> bool" where
  "harmless_run p s [] = True"
| "harmless_run p s (x # xs) = (harmless p s x \<and> harmless_run p (hy_run1 x s) xs)"

lemma coherent_run: "coherent_at s p \<Longrightarrow> harmless_run p s xs \<Longrightarrow> coherent_at (fold hy_run1 xs s) p"
  by (induction xs arbitrary: s) (auto simp: coherent_step)

text \<open>(C34) Reading through the cache is reading the bucket: after any run that is harmless for a path, a read of it
  that succeeds returns what the bucket holds then; and it does succeed if the bucket has it and no operator
  fails.\<close>

theorem read_through_is_remote:
  assumes "coherent_at s (hy_path q)" and "harmless_run (hy_path q) s xs"
  shows "let t = fold hy_run1 xs s in
    (\<forall>b. fst (hy_read f q t) = Ok b \<longrightarrow> hm_get (hy_remote t) (hy_path q) = Some b) \<and>
    (hf_cache_exists f \<and> hf_cache_read f \<and> hf_remote_read f \<longrightarrow>
       (\<forall>b. hm_get (hy_remote t) (hy_path q) = Some b \<longrightarrow> fst (hy_read f q t) = Ok b))"
  using coherent_run [OF assms]
  by (auto simp: Let_def hy_read_def coherent_at_def split: option.splits if_splits)

definition no_faults :: hy_faults where
  "no_faults =
     \<lparr>hf_cache_exists = True, hf_cache_read = True, hf_cache_write = Written, hf_cache_delete = True,
      hf_remote_read = True, hf_remote_write = True, hf_remote_delete = True, hf_remote_list = True\<rparr>"

theorem read_through_is_remote_witness:
  "let t = fold hy_run1 [HyRead no_faults ''/a'', HyWrite no_faults ''a'' [2], HyForeign ''b'' None] (hydrated_new [(''a'', [1])] [])
   in fst (hy_read no_faults ''a'' t) = Ok [2]"
proof -
  let ?s = "hydrated_new [(''a'', [1])] []"
    and ?xs = "[HyRead no_faults ''/a'', HyWrite no_faults ''a'' [2], HyForeign ''b'' None]"
  have a: "hy_path ''a'' = ''a''" by code_simp
  have "coherent_at ?s (hy_path ''a'')" by (simp add: coherent_at_def hydrated_new_def)
  moreover have "harmless_run (hy_path ''a'') ?s ?xs" unfolding a by code_simp
  moreover have "hm_get (hy_remote (fold hy_run1 ?xs ?s)) (hy_path ''a'') = Some [2]" unfolding a by code_simp
  moreover have "hf_cache_exists no_faults \<and> hf_cache_read no_faults \<and> hf_remote_read no_faults"
    by (simp add: no_faults_def)
  ultimately show ?thesis using read_through_is_remote [of ?s "''a''" ?xs no_faults] unfolding Let_def by blast
qed

text \<open>A write that the bucket refuses is reported, and is what later reads return.\<close>

lemma refused_write_is_served:
  assumes "hf_cache_write f = Written" and "\<not> hf_remote_write f" and "hf_cache_exists g" and "hf_cache_read g"
  shows "fst (hy_write f q b s) = Err RemoteFailed" and "fst (hy_read g q (snd (hy_write f q b s))) = Ok b"
  using assms by (simp_all add: hy_write_def Let_def and_then_def write_cache_def hy_read_def)

lemma reads_counted:
  "cache_hits (hy_stats s) + cache_misses (hy_stats s) = total_reads (hy_stats s) \<Longrightarrow>
   cache_hits (hy_stats (hy_run1 x s)) + cache_misses (hy_stats (hy_run1 x s)) = total_reads (hy_stats (hy_run1 x s))"
  by (cases "(x, s)" rule: hy_run1.cases)
    (auto simp: hy_read_def hy_write_def hy_delete_def Let_def and_then_def count_hit_def count_miss_def write_cache_def
      split: option.split write_result.split)

end
