(* ===== verification/Metadata_Store.thy ===== *)
theory Metadata_Store
  imports Prelude "HOL-Library.List_Lexorder" "HOL-Library.Char_ord"
begin

text \<open>
  Tags, favourites, ratings and comments of files in the desktop application
  (\<open>apps/vfs-desktop/src-tauri/src/vfs/adapters/metadata_store.rs\<close>), with the tags and colours of
  \<open>domain/entities.rs\<close> and the entry type of \<open>ports/metadata.rs\<close>.

  The state holds the cache, the dirty flag and the file. A file that a failed write has left half-written does not
  parse. What the host does in a call is an argument (\<open>metadata_io\<close>). The methods that change one entry read it
  under one lock and store it under another; \<open>meanwhile\<close> is what other tasks do between the two.
\<close>

section \<open>Entries\<close>

record file_tag =
  ft_name :: string
  ft_color :: "string option"

definition file_tag_new :: "string \<Rightarrow> file_tag" where
  "file_tag_new name = \<lparr>ft_name = name, ft_color = None\<rparr>"

definition with_color :: "string \<Rightarrow> string \<Rightarrow> file_tag" where
  "with_color name color = \<lparr>ft_name = name, ft_color = Some color\<rparr>"

datatype color_label = Red | Orange | Yellow | Green | Blue | Purple | Gray

fun color_as_str :: "color_label \<Rightarrow> string" where
  "color_as_str Red = ''red''"
| "color_as_str Orange = ''orange''"
| "color_as_str Yellow = ''yellow''"
| "color_as_str Green = ''green''"
| "color_as_str Blue = ''blue''"
| "color_as_str Purple = ''purple''"
| "color_as_str Gray = ''gray''"

definition color_from_str :: "string \<Rightarrow> color_label option" where
  "color_from_str s =
     (let s = to_lowercase s in
      if s = ''red'' then Some Red
      else if s = ''orange'' then Some Orange
      else if s = ''yellow'' then Some Yellow
      else if s = ''green'' then Some Green
      else if s = ''blue'' then Some Blue
      else if s = ''purple'' then Some Purple
      else if s = ''gray'' \<or> s = ''grey'' then Some Gray
      else None)"

fun hex_color :: "color_label \<Rightarrow> string" where
  "hex_color Red = ''#FF3B30''"
| "hex_color Orange = ''#FF9500''"
| "hex_color Yellow = ''#FFCC00''"
| "hex_color Green = ''#34C759''"
| "hex_color Blue = ''#007AFF''"
| "hex_color Purple = ''#AF52DE''"
| "hex_color Gray = ''#8E8E93''"

record user_metadata =
  fm_tags :: "file_tag list"
  fm_is_favorite :: bool
  fm_color_label :: "color_label option"
  fm_rating :: "u8 option"
  fm_comment :: "string option"

definition user_metadata_new :: user_metadata where
  "user_metadata_new =
     \<lparr>fm_tags = [], fm_is_favorite = False, fm_color_label = None, fm_rating = None, fm_comment = None\<rparr>"

definition fm_is_empty :: "user_metadata \<Rightarrow> bool" where
  "fm_is_empty m \<longleftrightarrow>
     fm_tags m = [] \<and> \<not> fm_is_favorite m \<and> fm_color_label m = None \<and> fm_rating m = None \<and> fm_comment m = None"

section \<open>The store\<close>

type_synonym metadata_map = "(string, user_metadata) hash_map"

datatype metadata_file = NoFile | Unreadable | Stored metadata_map

record metadata_store =
  ms_file :: metadata_file
  ms_cache :: metadata_map
  ms_dirty :: bool

datatype metadata_error = ReadFailed | WriteFailed

record metadata_io =
  mi_mkdir :: bool
  mi_write :: write_result

type_synonym 'a ms_act = "(metadata_store, metadata_error, 'a) act"

definition source_prefix :: "string \<Rightarrow> string" where
  "source_prefix source_id = source_id @ '':''"

definition make_key :: "string \<Rightarrow> string \<Rightarrow> string" where
  "make_key source_id path = source_id @ '':'' @ path"

definition ms_load :: "unit ms_act" where
  "ms_load s =
     (case ms_file s of
        NoFile \<Rightarrow> (Ok (), s)
      | Unreadable \<Rightarrow> (Err ReadFailed, s)
      | Stored m \<Rightarrow> (Ok (), s\<lparr>ms_cache := m\<rparr>))"

definition ms_new :: "metadata_file \<Rightarrow> (metadata_error, metadata_store) outcome" where
  "ms_new f =
     (case ms_load \<lparr>ms_file = f, ms_cache = [], ms_dirty = False\<rparr> of
        (Ok _, s) \<Rightarrow> Ok s
      | (Err e, s) \<Rightarrow> Err e
      | (Panic, s) \<Rightarrow> Panic)"

definition ms_save :: "metadata_io \<Rightarrow> unit ms_act" where
  "ms_save i s =
     (if \<not> ms_dirty s then (Ok (), s)
      else if \<not> mi_mkdir i then (Err WriteFailed, s)
      else
        (case mi_write i of
           Written \<Rightarrow> (Ok (), s\<lparr>ms_file := Stored (filter (\<lambda>(k, m). \<not> fm_is_empty m) (ms_cache s)), ms_dirty := False\<rparr>)
         | Refused \<Rightarrow> (Err WriteFailed, s)
         | Torn _ \<Rightarrow> (Err WriteFailed, s\<lparr>ms_file := Unreadable\<rparr>)))"

definition mark_dirty :: "metadata_store \<Rightarrow> metadata_store" where
  "mark_dirty s = s\<lparr>ms_dirty := True\<rparr>"

definition get_or_create :: "string \<Rightarrow> metadata_store \<Rightarrow> user_metadata" where
  "get_or_create k s = (case hm_get (ms_cache s) k of Some m \<Rightarrow> m | None \<Rightarrow> user_metadata_new)"

definition ms_update :: "metadata_io \<Rightarrow> string \<Rightarrow> user_metadata \<Rightarrow> unit ms_act" where
  "ms_update i k m s = ms_save i (mark_dirty (s\<lparr>ms_cache := hm_insert k m (ms_cache s)\<rparr>))"

definition ms_get :: "metadata_store \<Rightarrow> string \<Rightarrow> string \<Rightarrow> user_metadata option" where
  "ms_get s source_id path = hm_get (ms_cache s) (make_key source_id path)"

definition ms_set :: "metadata_io \<Rightarrow> string \<Rightarrow> string \<Rightarrow> user_metadata \<Rightarrow> unit ms_act" where
  "ms_set i source_id path m = ms_update i (make_key source_id path) m"

definition ms_delete :: "metadata_io \<Rightarrow> string \<Rightarrow> string \<Rightarrow> unit ms_act" where
  "ms_delete i source_id path s =
     ms_save i (mark_dirty (s\<lparr>ms_cache := hm_remove (make_key source_id path) (ms_cache s)\<rparr>))"

text \<open>Reading an entry, and storing what is computed from it later.\<close>

type_synonym meanwhile = "metadata_store \<Rightarrow> metadata_store"

definition change_entry :: "metadata_io \<Rightarrow> meanwhile \<Rightarrow> string \<Rightarrow> (user_metadata \<Rightarrow> user_metadata) \<Rightarrow> unit ms_act" where
  "change_entry i meanwhile k f s = (let m = get_or_create k s in ms_update i k (f m) (meanwhile s))"

definition add_tag :: "metadata_io \<Rightarrow> meanwhile \<Rightarrow> string \<Rightarrow> string \<Rightarrow> file_tag \<Rightarrow> unit ms_act" where
  "add_tag i w source_id path tag =
     change_entry i w (make_key source_id path)
       (\<lambda>m. m\<lparr>fm_tags := filter (\<lambda>t. ft_name t \<noteq> ft_name tag) (fm_tags m) @ [tag]\<rparr>)"

definition remove_tag :: "metadata_io \<Rightarrow> meanwhile \<Rightarrow> string \<Rightarrow> string \<Rightarrow> string \<Rightarrow> unit ms_act" where
  "remove_tag i w source_id path tag_name s =
     (let k = make_key source_id path;
          m = get_or_create k s;
          tags = filter (\<lambda>t. ft_name t \<noteq> tag_name) (fm_tags m)
      in if length tags \<noteq> length (fm_tags m) then ms_update i k (m\<lparr>fm_tags := tags\<rparr>) (w s) else (Ok (), w s))"

definition set_favorite :: "metadata_io \<Rightarrow> meanwhile \<Rightarrow> string \<Rightarrow> string \<Rightarrow> bool \<Rightarrow> unit ms_act" where
  "set_favorite i w source_id path b =
     change_entry i w (make_key source_id path) (\<lambda>m. m\<lparr>fm_is_favorite := b\<rparr>)"

definition toggle_favorite :: "metadata_io \<Rightarrow> meanwhile \<Rightarrow> string \<Rightarrow> string \<Rightarrow> bool ms_act" where
  "toggle_favorite i w source_id path s =
     (let b = \<not> fm_is_favorite (get_or_create (make_key source_id path) s) in
      and_then (set_favorite i w source_id path b) (\<lambda>_ s. (Ok b, s)) s)"

definition set_color_label :: "metadata_io \<Rightarrow> meanwhile \<Rightarrow> string \<Rightarrow> string \<Rightarrow> color_label option \<Rightarrow> unit ms_act" where
  "set_color_label i w source_id path c =
     change_entry i w (make_key source_id path) (\<lambda>m. m\<lparr>fm_color_label := c\<rparr>)"

definition set_rating :: "metadata_io \<Rightarrow> meanwhile \<Rightarrow> string \<Rightarrow> string \<Rightarrow> u8 option \<Rightarrow> unit ms_act" where
  "set_rating i w source_id path r =
     change_entry i w (make_key source_id path) (\<lambda>m. m\<lparr>fm_rating := map_option (\<lambda>r. min r 5) r\<rparr>)"

definition set_comment :: "metadata_io \<Rightarrow> meanwhile \<Rightarrow> string \<Rightarrow> string \<Rightarrow> string option \<Rightarrow> unit ms_act" where
  "set_comment i w source_id path c =
     change_entry i w (make_key source_id path) (\<lambda>m. m\<lparr>fm_comment := c\<rparr>)"

section \<open>Queries\<close>

definition entries_where :: "string \<Rightarrow> (user_metadata \<Rightarrow> bool) \<Rightarrow> metadata_store \<Rightarrow> string list" where
  "entries_where source_id P s =
     map (\<lambda>(k, m). case strip_prefix (source_prefix source_id) k of Some p \<Rightarrow> p | None \<Rightarrow> k)
       (filter (\<lambda>(k, m). strip_prefix (source_prefix source_id) k \<noteq> None \<and> P m) (ms_cache s))"

definition list_favorites :: "string \<Rightarrow> metadata_store \<Rightarrow> string list" where
  "list_favorites source_id = entries_where source_id fm_is_favorite"

definition list_by_tag :: "string \<Rightarrow> string \<Rightarrow> metadata_store \<Rightarrow> string list" where
  "list_by_tag source_id tag_name = entries_where source_id (\<lambda>m. list_ex (\<lambda>t. ft_name t = tag_name) (fm_tags m))"

definition list_by_color :: "string \<Rightarrow> color_label \<Rightarrow> metadata_store \<Rightarrow> string list" where
  "list_by_color source_id c = entries_where source_id (\<lambda>m. fm_color_label m = Some c)"

definition collect_tag :: "file_tag \<Rightarrow> (string, file_tag) hash_map \<Rightarrow> (string, file_tag) hash_map" where
  "collect_tag t m =
     (case hm_get m (ft_name t) of
        Some e \<Rightarrow>
          if ft_color t \<noteq> None \<and> (ft_color e = None \<or> ft_color e \<noteq> None) then hm_insert (ft_name t) t m else m
      | None \<Rightarrow> hm_insert (ft_name t) t m)"

definition list_all_tags :: "string \<Rightarrow> metadata_store \<Rightarrow> file_tag list" where
  "list_all_tags source_id s =
     (let entries = filter (\<lambda>(k, m). strip_prefix (source_prefix source_id) k \<noteq> None) (ms_cache s);
          tag_map = fold (\<lambda>(k, m). fold collect_tag (fm_tags m)) entries []
      in sort_key ft_name (map snd tag_map))"

definition remove_source_metadata :: "metadata_io \<Rightarrow> string \<Rightarrow> nat ms_act" where
  "remove_source_metadata i source_id s =
     (let ks = filter (\<lambda>k. strip_prefix (source_prefix source_id) k \<noteq> None) (hm_keys (ms_cache s));
          s = s\<lparr>ms_cache := fold hm_remove ks (ms_cache s)\<rparr>
      in if length ks > 0 then and_then (ms_save i) (\<lambda>_ s. (Ok (length ks), s)) (mark_dirty s) else (Ok (length ks), s))"

section \<open>Persistence\<close>

datatype meta_op =
    SetMeta string string user_metadata | DeleteMeta string string | AddTag string string file_tag
  | RemoveTag string string string | SetFavorite string string bool | ToggleFavorite string string
  | SetColorLabel string string "color_label option" | SetRating string string "u8 option"
  | SetComment string string "string option" | RemoveSource string

fun meta_apply :: "metadata_io \<Rightarrow> meanwhile \<Rightarrow> meta_op \<Rightarrow> metadata_store \<Rightarrow> metadata_store" where
  "meta_apply i w (SetMeta a p m) s = snd (ms_set i a p m s)"
| "meta_apply i w (DeleteMeta a p) s = snd (ms_delete i a p s)"
| "meta_apply i w (AddTag a p t) s = snd (add_tag i w a p t s)"
| "meta_apply i w (RemoveTag a p t) s = snd (remove_tag i w a p t s)"
| "meta_apply i w (SetFavorite a p b) s = snd (set_favorite i w a p b s)"
| "meta_apply i w (ToggleFavorite a p) s = snd (toggle_favorite i w a p s)"
| "meta_apply i w (SetColorLabel a p c) s = snd (set_color_label i w a p c s)"
| "meta_apply i w (SetRating a p r) s = snd (set_rating i w a p r s)"
| "meta_apply i w (SetComment a p c) s = snd (set_comment i w a p c s)"
| "meta_apply i w (RemoveSource a) s = snd (remove_source_metadata i a s)"

text \<open>The stores that can arise: any operations, any failures, and any other operations in between.\<close>

inductive meta_reach :: "metadata_store \<Rightarrow> bool" where
  start: "ms_new f = Ok s \<Longrightarrow> (\<And>m. f = Stored m \<Longrightarrow> hm_wf m) \<Longrightarrow> meta_reach s"
| step: "meta_reach s \<Longrightarrow> meta_reach (w s) \<Longrightarrow> meta_reach (meta_apply i w x s)"

definition kept :: "metadata_map \<Rightarrow> metadata_map" where
  "kept m = filter (\<lambda>(k, m). \<not> fm_is_empty m) m"

text \<open>A store that is not dirty has its non-empty entries on disk.\<close>

definition meta_ok :: "metadata_store \<Rightarrow> bool" where
  "meta_ok s \<longleftrightarrow>
     hm_wf (ms_cache s) \<and>
     (\<not> ms_dirty s \<longrightarrow>
        (case ms_file s of
           NoFile \<Rightarrow> ms_cache s = []
         | Unreadable \<Rightarrow> False
         | Stored m \<Rightarrow> hm_wf m \<and> kept m = kept (ms_cache s)))"

lemma kept_kept [simp]: "kept (kept m) = kept m"
  by (simp add: kept_def)

lemma hm_get_kept:
  "hm_wf m \<Longrightarrow>
   hm_get (kept m) k = (case hm_get m k of None \<Rightarrow> None | Some v \<Rightarrow> if fm_is_empty v then None else Some v)"
  unfolding kept_def by (subst hm_get_filter) (auto split: option.splits)

lemma hm_wf_kept [simp]: "hm_wf m \<Longrightarrow> hm_wf (kept m)"
  by (simp add: kept_def)

lemma meta_ok_save [step_inv]:
  assumes "meta_ok s" shows "meta_ok (snd (ms_save i s))"
proof (cases "ms_dirty s")
  case False
  then show ?thesis using assms by (simp add: ms_save_def)
next
  case True
  then show ?thesis using assms
    by (cases "mi_write i") (simp_all add: ms_save_def meta_ok_def kept_def [symmetric])
qed

lemma meta_ok_dirty [step_inv]: "hm_wf m \<Longrightarrow> meta_ok (mark_dirty (s\<lparr>ms_cache := m\<rparr>))"
  by (simp add: meta_ok_def mark_dirty_def)

lemma meta_ok_wf [simp]: "meta_ok s \<Longrightarrow> hm_wf (ms_cache s)"
  by (simp add: meta_ok_def)

lemma meta_ok_update [step_inv]: "meta_ok s \<Longrightarrow> meta_ok (snd (ms_update i k m s))"
  by (simp add: ms_update_def step_inv)

lemma meta_ok_change [step_inv]: "meta_ok (w s) \<Longrightarrow> meta_ok (snd (change_entry i w k f s))"
  by (simp add: change_entry_def Let_def step_inv)

lemma snd_and_then_Ok: "snd (and_then m (\<lambda>_ s. (Ok (g s), s)) s) = snd (m s)"
  by (simp add: and_then_def split: prod.split outcome.split)

lemma meta_ok_remove [step_inv]: "meta_ok s \<Longrightarrow> meta_ok (snd (remove_source_metadata i a s))"
  by (auto simp: remove_source_metadata_def Let_def snd_and_then_Ok hm_wf_fold_remove mark_dirty_def
      intro!: meta_ok_save) (simp_all add: meta_ok_def hm_wf_fold_remove)

lemma meta_ok_apply [step_inv]: "meta_ok s \<Longrightarrow> meta_ok (w s) \<Longrightarrow> meta_ok (meta_apply i w x s)"
  by (cases x)
    (simp_all add: ms_set_def ms_delete_def add_tag_def remove_tag_def set_favorite_def toggle_favorite_def
      set_color_label_def set_rating_def set_comment_def Let_def snd_and_then_Ok step_inv)

lemma ms_new_Ok:
  "ms_new f = Ok s \<longleftrightarrow> f \<noteq> Unreadable \<and> s = \<lparr>ms_file = f, ms_cache = (case f of Stored m \<Rightarrow> m | _ \<Rightarrow> []), ms_dirty = False\<rparr>"
  by (auto simp: ms_new_def ms_load_def split: metadata_file.splits)

lemma meta_reach_ok: "meta_reach s \<Longrightarrow> meta_ok s"
  by (induction rule: meta_reach.induct)
    (auto simp: step_inv, auto simp: ms_new_Ok meta_ok_def split: metadata_file.splits)


definition working :: metadata_io where
  "working = \<lparr>mi_mkdir = True, mi_write = Written\<rparr>"

definition demo_meta :: metadata_store where
  "demo_meta =
     meta_apply working id (AddTag ''s'' ''/a'' (file_tag_new ''work''))
       (meta_apply working id (SetRating ''s'' ''/a'' (Some 9)) \<lparr>ms_file = NoFile, ms_cache = [], ms_dirty = False\<rparr>)"

lemma demo_meta_reach: "meta_reach demo_meta"
proof -
  have "meta_reach \<lparr>ms_file = NoFile, ms_cache = [], ms_dirty = False\<rparr>"
    by (rule start [of NoFile]) (simp_all add: ms_new_Ok)
  moreover have "meta_reach (meta_apply working id x s)" if "meta_reach s" for x s
    using step [of s id working x] that by (simp del: meta_apply.simps)
  ultimately show ?thesis unfolding demo_meta_def by blast
qed


section \<open>Sources\<close>

lemma make_key_prefix:
  "CHR '':'' \<notin> set a \<Longrightarrow> CHR '':'' \<notin> set b \<Longrightarrow> strip_prefix (source_prefix a) (make_key b p) \<noteq> None \<longleftrightarrow> a = b"
  by (auto simp: strip_prefix_Some_iff make_key_def source_prefix_def append_eq_append_conv2 append_eq_Cons_conv
      Cons_eq_append_conv)

lemma save_cache [simp]: "ms_cache (snd (ms_save i s)) = ms_cache s"
  by (simp add: ms_save_def split: write_result.split)

lemma remove_source_get:
  "hm_get (ms_cache (snd (remove_source_metadata i a s))) k =
     (if strip_prefix (source_prefix a) k \<noteq> None then None else hm_get (ms_cache s) k)"
proof -
  have "k \<in> set (filter (\<lambda>k. strip_prefix (source_prefix a) k \<noteq> None) (hm_keys (ms_cache s))) \<longleftrightarrow>
      strip_prefix (source_prefix a) k \<noteq> None \<and> hm_get (ms_cache s) k \<noteq> None"
    unfolding set_keys_filter by simp
  moreover have "ms_cache (snd (remove_source_metadata i a s)) =
      fold hm_remove (filter (\<lambda>k. strip_prefix (source_prefix a) k \<noteq> None) (hm_keys (ms_cache s))) (ms_cache s)"
    by (simp add: remove_source_metadata_def Let_def snd_and_then_Ok mark_dirty_def)
  ultimately show ?thesis by (auto simp: hm_get_fold_remove)
qed

text \<open>Removing a source removes the entries of that source and of no other, whether or not the file can be
  written, if no source identifier contains a colon. (The identifier is only a prefix of the key: removing
  \<open>a\<close> would also remove the entries of a source called \<open>a:b\<close>.)\<close>

theorem remove_source_exact:
  assumes "CHR '':'' \<notin> set a" and "CHR '':'' \<notin> set b"
  shows "ms_get (snd (remove_source_metadata i a s)) b p = (if b = a then None else ms_get s b p)"
  using make_key_prefix [OF assms, of p] by (auto simp: ms_get_def remove_source_get)

theorem remove_source_exact_witness:
  "ms_get (snd (remove_source_metadata working ''t'' demo_meta)) ''s'' ''/a'' \<noteq> None \<and>
   ms_get (snd (remove_source_metadata working ''s'' demo_meta)) ''s'' ''/a'' = None"
proof -
  have "ms_get demo_meta ''s'' ''/a'' \<noteq> None" by code_simp
  then show ?thesis
    using remove_source_exact [of "''t''" "''s''" working demo_meta "''/a''"]
      remove_source_exact [of "''s''" "''s''" working demo_meta "''/a''"] by simp
qed

lemma removes_longer_source:
  "ms_get (snd (remove_source_metadata i a s)) (a @ '':'' @ b) p = None"
  by (auto simp: ms_get_def remove_source_get make_key_def source_prefix_def strip_prefix_Some_iff)

section \<open>Tags\<close>

lemma add_tag_get:
  "ms_get (snd (add_tag i w a p t s)) a p =
     Some (get_or_create (make_key a p) s
       \<lparr>fm_tags := filter (\<lambda>u. ft_name u \<noteq> ft_name t) (fm_tags (get_or_create (make_key a p) s)) @ [t]\<rparr>)"
  by (simp add: add_tag_def change_entry_def ms_update_def ms_get_def mark_dirty_def Let_def)

lemma fold_fold_concat: "fold (\<lambda>x. fold f (g x)) xs a = fold f (concat (map g xs)) a"
  by (induction xs arbitrary: a) simp_all

lemma collect_tag_get:
  "hm_get (collect_tag t m) n =
     (if n = ft_name t \<and> (hm_get m n = None \<or> ft_color t \<noteq> None) then Some t else hm_get m n)"
  by (auto simp: collect_tag_def split: option.split)

lemma collect_tag_wf: "hm_wf m \<Longrightarrow> hm_wf (fold collect_tag ts m)"
proof (induction ts arbitrary: m)
  case (Cons t ts)
  have "hm_wf (collect_tag t m)" using Cons.prems by (simp add: collect_tag_def split: option.split)
  then show ?case using Cons.IH by simp
qed simp

text \<open>What the collected map holds for a name.\<close>

lemma collect_tags_get:
  "case hm_get (fold collect_tag ts []) n of
     None \<Rightarrow> \<forall>t\<in>set ts. ft_name t \<noteq> n
   | Some t \<Rightarrow> t \<in> set ts \<and> ft_name t = n \<and> (ft_color t = None \<longrightarrow> (\<forall>u\<in>set ts. ft_name u = n \<longrightarrow> ft_color u = None))"
  by (induction ts rule: rev_induct) (auto simp: collect_tag_get split: option.splits)

definition source_tags :: "string \<Rightarrow> metadata_store \<Rightarrow> file_tag set" where
  "source_tags a s = {t. \<exists>p m. ms_get s a p = Some m \<and> t \<in> set (fm_tags m)}"

lemma source_tags_entries:
  assumes "hm_wf (ms_cache s)"
  shows "set (concat (map (\<lambda>(k, m). fm_tags m) (filter (\<lambda>(k, m). strip_prefix (source_prefix a) k \<noteq> None) (ms_cache s)))) =
    source_tags a s"
proof -
  have "strip_prefix (source_prefix a) k \<noteq> None \<longleftrightarrow> (\<exists>p. k = make_key a p)" for k
    by (auto simp: strip_prefix_Some_iff make_key_def source_prefix_def)
  then show ?thesis using assms by (auto simp: source_tags_def ms_get_def hm_get_set) blast+
qed

text \<open>The list of all tags of a source: in strict order of the names, exactly the names in use, each with a tag
  that is in use, and with a colour whenever one of its uses has a colour.\<close>

theorem all_tags_exact:
  assumes "meta_reach s"
  shows "sorted_wrt (<) (map ft_name (list_all_tags a s)) \<and>
    ft_name ` set (list_all_tags a s) = ft_name ` source_tags a s \<and>
    (\<forall>t\<in>set (list_all_tags a s).
       t \<in> source_tags a s \<and>
       (ft_color t = None \<longrightarrow> (\<forall>u\<in>source_tags a s. ft_name u = ft_name t \<longrightarrow> ft_color u = None)))"
proof -
  define ts where
    "ts = concat (map (\<lambda>(k, m). fm_tags m) (filter (\<lambda>(k, m). strip_prefix (source_prefix a) k \<noteq> None) (ms_cache s)))"
  have ts: "set ts = source_tags a s"
    unfolding ts_def using assms by (intro source_tags_entries meta_ok_wf meta_reach_ok)
  define M where "M = fold collect_tag ts []"
  have list: "list_all_tags a s = sort_key ft_name (map snd M)"
    unfolding list_all_tags_def M_def ts_def Let_def fold_fold_concat [symmetric]
    by (simp add: case_prod_unfold)
  have wf: "hm_wf M" unfolding M_def by (intro collect_tag_wf) simp
  have entry: "t \<in> source_tags a s" "ft_name t = n"
    "ft_color t = None \<Longrightarrow> u \<in> source_tags a s \<Longrightarrow> ft_name u = n \<Longrightarrow> ft_color u = None"
    if "(n, t) \<in> set M" for n t u
    using collect_tags_get [of ts n] that wf ts by (auto simp: hm_get_set M_def)
  have names: "map ft_name (map snd M) = hm_keys M" using entry(2) by auto
  have "distinct (map ft_name (map snd M))" using wf unfolding names hm_wf_def .
  moreover have "distinct (map ft_name (sort_key ft_name xs))" if "distinct (map ft_name xs)" for xs :: "file_tag list"
    using that by (simp add: distinct_map)
  ultimately have "distinct (map ft_name (list_all_tags a s))" unfolding list by blast
  moreover have "sorted (map ft_name (list_all_tags a s))" unfolding list by (rule sorted_sort_key)
  ultimately have order: "sorted_wrt (<) (map ft_name (list_all_tags a s))" by (simp add: strict_sorted_iff)
  have names_used: "ft_name ` set (map snd M) = ft_name ` source_tags a s"
  proof
    show "ft_name ` set (map snd M) \<subseteq> ft_name ` source_tags a s" using entry(1) by auto
  next
    have "ft_name t \<in> ft_name ` set (map snd M)" if t: "t \<in> source_tags a s" for t
    proof -
      obtain u where "(ft_name t, u) \<in> set M" "ft_name u = ft_name t"
        using collect_tags_get [of ts "ft_name t"] t ts wf
        by (cases "hm_get M (ft_name t)") (auto simp: M_def [symmetric] hm_get_set)
      then have "u \<in> set (map snd M)" "ft_name t = ft_name u" by force+
      then show ?thesis by blast
    qed
    then show "ft_name ` source_tags a s \<subseteq> ft_name ` set (map snd M)" by (rule image_subsetI)
  qed
  have used: "t \<in> source_tags a s \<and>
      (ft_color t = None \<longrightarrow> (\<forall>u\<in>source_tags a s. ft_name u = ft_name t \<longrightarrow> ft_color u = None))"
    if "t \<in> set (map snd M)" for t
    using that entry by auto
  have elements: "set (list_all_tags a s) = set (map snd M)" unfolding list by simp
  show ?thesis
    unfolding elements by (rule conjI [OF order conjI [OF names_used]], rule ballI, rule used)
qed

theorem all_tags_exact_witness:
  "ft_name ` set (list_all_tags ''s'' demo_meta) = ft_name ` source_tags ''s'' demo_meta \<and>
   map ft_name (list_all_tags ''s'' demo_meta) = [''work'']"
proof
  show "ft_name ` set (list_all_tags ''s'' demo_meta) = ft_name ` source_tags ''s'' demo_meta"
    using all_tags_exact [OF demo_meta_reach, of "''s''"] by blast
qed code_simp

section \<open>Colours\<close>

lemma color_roundtrip: "color_from_str (color_as_str c) = Some c"
  by (cases c; hypsubst; code_simp)

end
