(* ===== verification/Settings_Store.thy ===== *)
theory Settings_Store
  imports Prelude
begin

text \<open>
  The stored credentials of the desktop application: \<open>domain/settings.rs\<close>, the file store of
  \<open>adapters/settings.rs\<close> and the manager of \<open>ports/settings.rs\<close> (under
  \<open>apps/vfs-desktop/src-tauri/src/vfs\<close>).

  A set of credentials is polymorphic in its secrets. In memory a secret is an \<open>encrypted_string\<close>; in the file it
  is the field \<open>encrypted\<close> alone, because the plaintext is never serialised. Base 64 is third-party: the record
  \<open>codec\<close>, whose decoding is only assumed to invert its encoding (\<open>codec_ok\<close>). What the host does in a call is
  an argument.
\<close>

section \<open>Secrets\<close>

record encrypted_string =
  es_encrypted :: "string option"
  es_plaintext :: "string option"

definition new_plaintext :: "string \<Rightarrow> encrypted_string" where
  "new_plaintext p = \<lparr>es_encrypted = None, es_plaintext = Some p\<rparr>"

definition new_encrypted :: "string \<Rightarrow> encrypted_string" where
  "new_encrypted e = \<lparr>es_encrypted = Some e, es_plaintext = None\<rparr>"

definition set_plaintext :: "string \<Rightarrow> encrypted_string \<Rightarrow> encrypted_string" where
  "set_plaintext p s = s\<lparr>es_plaintext := Some p, es_encrypted := None\<rparr>"

definition set_encrypted :: "string \<Rightarrow> encrypted_string \<Rightarrow> encrypted_string" where
  "set_encrypted e s = s\<lparr>es_encrypted := Some e, es_plaintext := None\<rparr>"

definition is_plaintext :: "encrypted_string \<Rightarrow> bool" where
  "is_plaintext s \<longleftrightarrow> es_plaintext s \<noteq> None"

definition is_encrypted :: "encrypted_string \<Rightarrow> bool" where
  "is_encrypted s \<longleftrightarrow> es_encrypted s \<noteq> None"

text \<open>What \<open>#[serde(skip)]\<close> makes of a secret that is read back.\<close>

definition read_secret :: "string option \<Rightarrow> encrypted_string" where
  "read_secret e = \<lparr>es_encrypted = e, es_plaintext = None\<rparr>"

section \<open>Credentials\<close>

datatype 'e credentials =
    AwsS3 string 'e "'e option" string
  | GcsCredentials 'e string
  | AzureCredentials string 'e
  | CompatibleCredentials string 'e string "string option"
  | OracleCredentials string string string 'e "'e option" string
  | CustomCredentials string "(string \<times> 'e) list"

record 'e source_settings =
  so_id :: string
  so_name :: string
  so_credentials :: "'e credentials"
  so_updated_at :: "int option"

record app_preferences =
  pf_cache_directory :: "string option"
  pf_max_cache_size :: "u64 option"
  pf_encrypt_credentials :: bool

record 'e app_settings =
  as_sources :: "(string, 'e source_settings) hash_map"
  as_preferences :: app_preferences

definition default_preferences :: app_preferences where
  "default_preferences = \<lparr>pf_cache_directory = None, pf_max_cache_size = None, pf_encrypt_credentials = True\<rparr>"

definition default_settings :: "'e app_settings" where
  "default_settings = \<lparr>as_sources = [], as_preferences = default_preferences\<rparr>"

text \<open>Going through the secrets of a set of credentials, up to the first failure.\<close>

definition on_ok :: "('x, 'a) outcome \<Rightarrow> ('a \<Rightarrow> ('x, 'b) outcome) \<Rightarrow> ('x, 'b) outcome" where
  "on_ok m f = (case m of Ok a \<Rightarrow> f a | Err e \<Rightarrow> Err e | Panic \<Rightarrow> Panic)"

definition each_option :: "('a \<Rightarrow> ('x, 'b) outcome) \<Rightarrow> 'a option \<Rightarrow> ('x, 'b option) outcome" where
  "each_option f t = (case t of None \<Rightarrow> Ok None | Some a \<Rightarrow> on_ok (f a) (\<lambda>b. Ok (Some b)))"

fun each_value :: "('a \<Rightarrow> ('x, 'b) outcome) \<Rightarrow> ('k \<times> 'a) list \<Rightarrow> ('x, ('k \<times> 'b) list) outcome" where
  "each_value f [] = Ok []"
| "each_value f ((k, a) # m) = on_ok (f a) (\<lambda>b. on_ok (each_value f m) (\<lambda>m. Ok ((k, b) # m)))"

fun each_secret :: "('a \<Rightarrow> ('x, 'b) outcome) \<Rightarrow> 'a credentials \<Rightarrow> ('x, 'b credentials) outcome" where
  "each_secret f (AwsS3 k s t r) = on_ok (f s) (\<lambda>s. on_ok (each_option f t) (\<lambda>t. Ok (AwsS3 k s t r)))"
| "each_secret f (GcsCredentials s p) = on_ok (f s) (\<lambda>s. Ok (GcsCredentials s p))"
| "each_secret f (AzureCredentials n s) = on_ok (f s) (\<lambda>s. Ok (AzureCredentials n s))"
| "each_secret f (CompatibleCredentials k s e r) = on_ok (f s) (\<lambda>s. Ok (CompatibleCredentials k s e r))"
| "each_secret f (OracleCredentials n u g s p r) =
     on_ok (f s) (\<lambda>s. on_ok (each_option f p) (\<lambda>p. Ok (OracleCredentials n u g s p r)))"
| "each_secret f (CustomCredentials i m) = on_ok (each_value f m) (\<lambda>m. Ok (CustomCredentials i m))"

definition each_source ::
    "('a credentials \<Rightarrow> ('x, 'b credentials) outcome) \<Rightarrow> 'a source_settings \<Rightarrow> ('x, 'b source_settings) outcome" where
  "each_source f v =
     on_ok (f (so_credentials v))
       (\<lambda>c. Ok \<lparr>so_id = so_id v, so_name = so_name v, so_credentials = c, so_updated_at = so_updated_at v\<rparr>)"

definition each_settings ::
    "('a credentials \<Rightarrow> ('x, 'b credentials) outcome) \<Rightarrow> 'a app_settings \<Rightarrow> ('x, 'b app_settings) outcome" where
  "each_settings f a =
     on_ok (each_value (each_source f) (as_sources a))
       (\<lambda>m. Ok \<lparr>as_sources = m, as_preferences = as_preferences a\<rparr>)"

section \<open>The store\<close>

datatype settings_file =
    NoSettings | BlankSettings | UnparsableSettings | SettingsText "string option app_settings"

record settings_store =
  st_file :: settings_file
  st_encryption_enabled :: bool

datatype settings_error = SettingsRead | SettingsWrite | SettingsDecode

record settings_io =
  si_read :: bool
  si_mkdir :: bool
  si_write :: write_result

record codec =
  cd_encode :: "string \<Rightarrow> string"
  cd_decode :: "string \<Rightarrow> string option"

type_synonym 'a st_act = "(settings_store, settings_error, 'a) act"
type_synonym secrets = "encrypted_string credentials"

definition settings_store_new :: "settings_file \<Rightarrow> settings_store" where
  "settings_store_new f = \<lparr>st_file = f, st_encryption_enabled = False\<rparr>"

definition settings_store_with_encryption :: "settings_file \<Rightarrow> settings_store" where
  "settings_store_with_encryption f = \<lparr>st_file = f, st_encryption_enabled = True\<rparr>"

definition encrypt_string :: "codec \<Rightarrow> string \<Rightarrow> string" where
  "encrypt_string cd p = cd_encode cd p"

definition decrypt_string :: "codec \<Rightarrow> string \<Rightarrow> (settings_error, string) outcome" where
  "decrypt_string cd e = (case cd_decode cd e of Some p \<Rightarrow> Ok p | None \<Rightarrow> Err SettingsDecode)"

definition encrypt_secret :: "codec \<Rightarrow> encrypted_string \<Rightarrow> (settings_error, encrypted_string) outcome" where
  "encrypt_secret cd s =
     (case es_plaintext s of Some p \<Rightarrow> Ok (set_encrypted (encrypt_string cd p) s) | None \<Rightarrow> Ok s)"

definition decrypt_secret :: "codec \<Rightarrow> encrypted_string \<Rightarrow> (settings_error, encrypted_string) outcome" where
  "decrypt_secret cd s =
     (case es_encrypted s of Some e \<Rightarrow> on_ok (decrypt_string cd e) (\<lambda>p. Ok (set_plaintext p s)) | None \<Rightarrow> Ok s)"

definition encrypt_credentials :: "codec \<Rightarrow> secrets \<Rightarrow> (settings_error, secrets) outcome" where
  "encrypt_credentials cd = each_secret (encrypt_secret cd)"

definition decrypt_credentials :: "codec \<Rightarrow> secrets \<Rightarrow> (settings_error, secrets) outcome" where
  "decrypt_credentials cd = each_secret (decrypt_secret cd)"

definition load_settings :: "codec \<Rightarrow> settings_io \<Rightarrow> settings_store \<Rightarrow> (settings_error, encrypted_string app_settings) outcome" where
  "load_settings cd i s =
     (if st_file s = NoSettings then Ok default_settings
      else if \<not> si_read i then Err SettingsRead
      else
        (case st_file s of
           SettingsText a \<Rightarrow>
             on_ok (each_settings (\<lambda>c. Ok (map_credentials read_secret c)) a)
               (\<lambda>a. if st_encryption_enabled s then each_settings (decrypt_credentials cd) a else Ok a)
         | UnparsableSettings \<Rightarrow> Err SettingsRead
         | _ \<Rightarrow> Ok default_settings))"

definition save_settings :: "codec \<Rightarrow> settings_io \<Rightarrow> encrypted_string app_settings \<Rightarrow> unit st_act" where
  "save_settings cd i a s =
     (case on_ok (if st_encryption_enabled s then each_settings (encrypt_credentials cd) a else Ok a)
             (each_settings (\<lambda>c. Ok (map_credentials es_encrypted c))) of
        Err e \<Rightarrow> (Err e, s)
      | Panic \<Rightarrow> (Panic, s)
      | Ok t \<Rightarrow>
          if \<not> si_mkdir i then (Err SettingsWrite, s)
          else
            (case si_write i of
               Written \<Rightarrow> (Ok (), s\<lparr>st_file := SettingsText t\<rparr>)
             | Refused \<Rightarrow> (Err SettingsWrite, s)
             | Torn b \<Rightarrow> (Err SettingsWrite, s\<lparr>st_file := (if b = [] then BlankSettings else UnparsableSettings)\<rparr>)))"

definition get_storage_source_settings ::
    "codec \<Rightarrow> settings_io \<Rightarrow> string \<Rightarrow> settings_store \<Rightarrow> (settings_error, encrypted_string source_settings option) outcome" where
  "get_storage_source_settings cd i k s =
     on_ok (load_settings cd i s)
       (\<lambda>a. let v = hm_get (as_sources a) k in
          if st_encryption_enabled s then each_option (each_source (decrypt_credentials cd)) v else Ok v)"

definition change_settings ::
    "codec \<Rightarrow> settings_io \<Rightarrow> (encrypted_string app_settings \<Rightarrow> encrypted_string app_settings) \<Rightarrow> unit st_act" where
  "change_settings cd i f s =
     (case load_settings cd i s of
        Ok a \<Rightarrow> save_settings cd i (f a) s
      | Err e \<Rightarrow> (Err e, s)
      | Panic \<Rightarrow> (Panic, s))"

definition save_storage_source_settings :: "codec \<Rightarrow> settings_io \<Rightarrow> encrypted_string source_settings \<Rightarrow> unit st_act" where
  "save_storage_source_settings cd i v =
     change_settings cd i (\<lambda>a. a\<lparr>as_sources := hm_insert (so_id v) v (as_sources a)\<rparr>)"

definition remove_storage_source_settings :: "codec \<Rightarrow> settings_io \<Rightarrow> string \<Rightarrow> unit st_act" where
  "remove_storage_source_settings cd i k =
     change_settings cd i (\<lambda>a. a\<lparr>as_sources := hm_remove k (as_sources a)\<rparr>)"

definition list_storage_source_ids :: "codec \<Rightarrow> settings_io \<Rightarrow> settings_store \<Rightarrow> (settings_error, string list) outcome" where
  "list_storage_source_ids cd i s = on_ok (load_settings cd i s) (\<lambda>a. Ok (hm_keys (as_sources a)))"

section \<open>The manager\<close>

definition get_credentials :: "codec \<Rightarrow> settings_io \<Rightarrow> string \<Rightarrow> settings_store \<Rightarrow> (settings_error, secrets option) outcome" where
  "get_credentials cd i k s =
     on_ok (get_storage_source_settings cd i k s) (\<lambda>v. Ok (map_option so_credentials v))"

definition save_credentials :: "codec \<Rightarrow> settings_io \<Rightarrow> int \<Rightarrow> string \<Rightarrow> string \<Rightarrow> secrets \<Rightarrow> unit st_act" where
  "save_credentials cd i now k name c =
     save_storage_source_settings cd i
       \<lparr>so_id = k, so_name = name, so_credentials = c, so_updated_at = Some now\<rparr>"

definition remove_credentials :: "codec \<Rightarrow> settings_io \<Rightarrow> string \<Rightarrow> unit st_act" where
  "remove_credentials cd i k = remove_storage_source_settings cd i k"

section \<open>Going through secrets that cannot fail\<close>

definition map_source :: "('a \<Rightarrow> 'b) \<Rightarrow> 'a source_settings \<Rightarrow> 'b source_settings" where
  "map_source g v =
     \<lparr>so_id = so_id v, so_name = so_name v, so_credentials = map_credentials g (so_credentials v),
      so_updated_at = so_updated_at v\<rparr>"

definition map_settings :: "('a \<Rightarrow> 'b) \<Rightarrow> 'a app_settings \<Rightarrow> 'b app_settings" where
  "map_settings g a =
     \<lparr>as_sources = map (\<lambda>(k, v). (k, map_source g v)) (as_sources a), as_preferences = as_preferences a\<rparr>"

definition secrets_in :: "'a app_settings \<Rightarrow> 'a set" where
  "secrets_in a = (\<Union>(k, v)\<in>set (as_sources a). set_credentials (so_credentials v))"

lemma on_ok_simps [simp]: "on_ok (Ok a) f = f a" "on_ok (Err e) f = Err e"
  by (simp_all add: on_ok_def)

lemma on_ok_Ok_iff: "on_ok m f = Ok b \<longleftrightarrow> (\<exists>a. m = Ok a \<and> f a = Ok b)"
  by (cases m) (simp_all add: on_ok_def)

lemma each_value_total:
  "(\<And>k a. (k, a) \<in> set m \<Longrightarrow> f a = Ok (g a)) \<Longrightarrow> each_value f m = Ok (map (\<lambda>(k, a). (k, g a)) m)"
proof (induction m)
  case (Cons x m)
  have "each_value f m = Ok (map (\<lambda>(k, a). (k, g a)) m)" using Cons by auto
  moreover have "f (snd x) = Ok (g (snd x))" using Cons.prems [of "fst x"] by simp
  ultimately show ?case by (cases x) simp
qed simp

lemma each_option_total: "(\<And>a. t = Some a \<Longrightarrow> f a = Ok (g a)) \<Longrightarrow> each_option f t = Ok (map_option g t)"
  by (cases t) (simp_all add: each_option_def)

lemma each_secret_total:
  assumes "\<And>a. a \<in> set_credentials c \<Longrightarrow> f a = Ok (g a)"
  shows "each_secret f c = Ok (map_credentials g c)"
proof (cases c)
  case (CustomCredentials i m)
  have "each_value f m = Ok (map (\<lambda>(k, a). (k, g a)) m)"
    using assms CustomCredentials by (intro each_value_total) fastforce
  then show ?thesis using CustomCredentials by (simp add: map_prod_def)
qed (use assms in \<open>simp_all add: each_option_total\<close>)

lemma each_source_total:
  "(\<And>a. a \<in> set_credentials (so_credentials v) \<Longrightarrow> f a = Ok (g a)) \<Longrightarrow>
   each_source (each_secret f) v = Ok (map_source g v)"
  by (simp add: each_source_def map_source_def each_secret_total)

lemma each_settings_total:
  assumes "\<And>a. a \<in> secrets_in x \<Longrightarrow> f a = Ok (g a)"
  shows "each_settings (each_secret f) x = Ok (map_settings g x)"
proof -
  have "each_value (each_source (each_secret f)) (as_sources x) = Ok (map (\<lambda>(k, v). (k, map_source g v)) (as_sources x))"
    using assms by (intro each_value_total each_source_total) (force simp: secrets_in_def)
  then show ?thesis by (simp add: each_settings_def map_settings_def)
qed

lemma each_settings_map: "each_settings (\<lambda>c. Ok (map_credentials g c)) x = Ok (map_settings g x)"
  unfolding each_settings_def map_settings_def
  by (subst each_value_total [where g = "map_source g"]) (simp_all add: each_source_def map_source_def)

lemma map_settings_map: "map_settings g (map_settings h x) = map_settings (g \<circ> h) x"
  by (simp add: map_settings_def map_source_def credentials.map_comp case_prod_unfold)

lemma map_source_id: "(\<And>a. a \<in> set_credentials (so_credentials v) \<Longrightarrow> g a = a) \<Longrightarrow> map_source g v = v"
  by (simp add: map_source_def credentials.map_ident_strong)

lemma secrets_in_map: "secrets_in (map_settings g x) = g ` secrets_in x"
  by (auto simp: secrets_in_def map_settings_def map_source_def credentials.set_map) blast+

lemma hm_get_map_settings:
  "hm_get (as_sources (map_settings g x)) k = map_option (map_source g) (hm_get (as_sources x) k)"
  by (simp add: map_settings_def map_of_map)

lemma secrets_in_get: "hm_get (as_sources x) k = Some v \<Longrightarrow> set_credentials (so_credentials v) \<subseteq> secrets_in x"
  by (auto simp: secrets_in_def dest: map_of_SomeD)

lemma set_hm_insert: "set (hm_insert k v m) \<subseteq> insert (k, v) (set m)"
  by (induction m) auto

lemma secrets_in_insert:
  "secrets_in (x\<lparr>as_sources := hm_insert k v (as_sources x)\<rparr>) \<subseteq> set_credentials (so_credentials v) \<union> secrets_in x"
  using set_hm_insert [of k v "as_sources x"] by (fastforce simp: secrets_in_def)

section \<open>What comes back\<close>

definition codec_ok :: "codec \<Rightarrow> bool" where
  "codec_ok cd \<longleftrightarrow> (\<forall>p. cd_decode cd (cd_encode cd p) = Some p)"

text \<open>What saving and loading makes of a secret: nothing with encryption; without it the plaintext is gone.\<close>

definition reloaded :: "bool \<Rightarrow> encrypted_string \<Rightarrow> encrypted_string" where
  "reloaded enabled s = (if enabled then s else s\<lparr>es_plaintext := None\<rparr>)"

definition storable :: "bool \<Rightarrow> encrypted_string \<Rightarrow> bool" where
  "storable enabled s \<longleftrightarrow> (enabled \<longrightarrow> es_encrypted s = None)"

lemma encrypt_secret_total:
  "encrypt_secret cd s = Ok (case es_plaintext s of Some p \<Rightarrow> set_encrypted (cd_encode cd p) s | None \<Rightarrow> s)"
  by (simp add: encrypt_secret_def encrypt_string_def split: option.split)

lemma load_after_save:
  assumes "codec_ok cd" and "\<And>x. x \<in> secrets_in a \<Longrightarrow> storable (st_encryption_enabled s) x"
    and "save_settings cd i a s = (Ok (), s')" and "si_read j"
  shows "load_settings cd j s' = Ok (map_settings (reloaded (st_encryption_enabled s)) a) \<and>
    st_encryption_enabled s' = st_encryption_enabled s"
proof (cases "st_encryption_enabled s")
  case True
  let ?enc = "\<lambda>s. case es_plaintext s of Some p \<Rightarrow> set_encrypted (cd_encode cd p) s | None \<Rightarrow> s"
  have enc: "each_settings (encrypt_credentials cd) a = Ok (map_settings ?enc a)"
    unfolding encrypt_credentials_def by (rule each_settings_total) (rule encrypt_secret_total)
  then have s': "s' = s\<lparr>st_file := SettingsText (map_settings es_encrypted (map_settings ?enc a))\<rparr>"
    using assms(3) True by (simp add: save_settings_def each_settings_map split: if_splits write_result.splits)
  let ?m = "map_settings (read_secret \<circ> (es_encrypted \<circ> ?enc)) a"
  have secret: "decrypt_secret cd ((read_secret \<circ> (es_encrypted \<circ> ?enc)) x) = Ok (id x)" if "x \<in> secrets_in a" for x
  proof -
    have "es_encrypted x = None" using assms(2) that True by (simp add: storable_def)
    then show ?thesis
      using assms(1)
      by (cases x) (auto simp: decrypt_secret_def read_secret_def set_encrypted_def set_plaintext_def
          decrypt_string_def codec_ok_def split: option.splits)
  qed
  have "each_settings (decrypt_credentials cd) ?m = Ok (map_settings (\<lambda>x. case decrypt_secret cd x of Ok y \<Rightarrow> y | _ \<Rightarrow> x) ?m)"
    unfolding decrypt_credentials_def
    by (rule each_settings_total) (use secret in \<open>auto simp: secrets_in_map\<close>)
  moreover have "map_settings (\<lambda>x. case decrypt_secret cd x of Ok y \<Rightarrow> y | _ \<Rightarrow> x) ?m = map_settings (reloaded True) a"
    using secret unfolding map_settings_map
    by (auto simp: map_settings_def map_source_def secrets_in_def reloaded_def intro!: credentials.map_cong) fastforce
  ultimately show ?thesis
    using True s' assms(4) by (simp add: load_settings_def each_settings_map map_settings_map)
next
  case False
  then have s': "s' = s\<lparr>st_file := SettingsText (map_settings es_encrypted a)\<rparr>"
    using assms(3) by (simp add: save_settings_def each_settings_map split: if_splits write_result.splits)
  have "read_secret \<circ> es_encrypted = reloaded False" by (auto simp: fun_eq_iff read_secret_def reloaded_def)
  then show ?thesis
    using False s' assms(4) by (simp add: load_settings_def each_settings_map map_settings_map)
qed

text \<open>Every secret of a result comes from a secret.\<close>

lemma each_value_result: "each_value f m = Ok m' \<Longrightarrow> (k, b) \<in> set m' \<Longrightarrow> \<exists>a. f a = Ok b"
  by (induction f m arbitrary: m' rule: each_value.induct) (auto simp: on_ok_Ok_iff)

lemma each_option_result: "each_option f t = Ok (Some b) \<Longrightarrow> \<exists>a. f a = Ok b"
  by (auto simp: each_option_def on_ok_Ok_iff split: option.splits)

lemma each_secret_result: "each_secret f c = Ok c' \<Longrightarrow> b \<in> set_credentials c' \<Longrightarrow> \<exists>a. f a = Ok b"
  by (cases c) (auto simp: on_ok_Ok_iff elim!: option.set_cases dest: each_option_result, blast dest: each_value_result)

lemma each_settings_result:
  assumes "each_settings (each_secret f) x = Ok y" and "b \<in> secrets_in y"
  shows "\<exists>a. f a = Ok b"
proof -
  obtain m where m: "each_value (each_source (each_secret f)) (as_sources x) = Ok m" "as_sources y = m"
    using assms(1) by (auto simp: each_settings_def on_ok_Ok_iff)
  with assms(2) obtain k v where "(k, v) \<in> set m" "b \<in> set_credentials (so_credentials v)"
    by (auto simp: secrets_in_def)
  moreover from each_value_result [OF m(1) this(1)] obtain u where "each_source (each_secret f) u = Ok v" ..
  ultimately show ?thesis by (auto simp: each_source_def on_ok_Ok_iff dest: each_secret_result)
qed

lemma decrypted_secret: "decrypt_secret cd a = Ok b \<Longrightarrow> es_encrypted b = None"
  by (auto simp: decrypt_secret_def set_plaintext_def on_ok_Ok_iff split: option.splits)

lemma loaded_secret:
  assumes "load_settings cd i s = Ok a" and "x \<in> secrets_in a"
  shows "storable (st_encryption_enabled s) x \<and> reloaded (st_encryption_enabled s) x = x"
proof -
  have "secrets_in default_settings = {}" by (simp add: secrets_in_def default_settings_def)
  with assms obtain t where t: "st_file s = SettingsText t" "si_read i"
    by (auto simp: load_settings_def split: if_splits settings_file.splits)
  show ?thesis
  proof (cases "st_encryption_enabled s")
    case True
    then have "each_settings (decrypt_credentials cd) (map_settings read_secret t) = Ok a"
      using assms(1) t by (simp add: load_settings_def each_settings_map)
    from each_settings_result [OF this [unfolded decrypt_credentials_def] assms(2)] show ?thesis
      using True by (auto simp: storable_def reloaded_def dest: decrypted_secret)
  next
    case False
    then have "a = map_settings read_secret t"
      using assms(1) t by (simp add: load_settings_def each_settings_map)
    then show ?thesis using False assms(2) by (auto simp: secrets_in_map storable_def reloaded_def read_secret_def)
  qed
qed

text \<open>A lookup decrypts what loading has decrypted, which changes nothing.\<close>

lemma get_loaded:
  assumes "load_settings cd i s = Ok a"
  shows "get_credentials cd i k s = Ok (map_option so_credentials (hm_get (as_sources a) k))"
proof (cases "st_encryption_enabled s \<and> hm_get (as_sources a) k \<noteq> None")
  case True
  then obtain v where v: "hm_get (as_sources a) k = Some v" by auto
  have "decrypt_secret cd x = Ok (id x)" if "x \<in> set_credentials (so_credentials v)" for x
    using loaded_secret [OF assms, of x] secrets_in_get [OF v] that True by (auto simp: storable_def decrypt_secret_def)
  then have "each_source (decrypt_credentials cd) v = Ok (map_source id v)"
    unfolding decrypt_credentials_def by (rule each_source_total)
  moreover have "map_source id v = v" by (rule map_source_id) simp
  ultimately show ?thesis
    using assms True v by (simp add: get_credentials_def get_storage_source_settings_def each_option_def Let_def)
next
  case False
  then show ?thesis
    using assms by (auto simp: get_credentials_def get_storage_source_settings_def each_option_def Let_def)
qed

lemma credentials_after_save:
  assumes "codec_ok cd" and "\<forall>x\<in>set_credentials c. es_encrypted x = None"
    and "save_credentials cd i now k name c s = (Ok (), s')" and "si_read j" and "si_read i"
  shows "get_credentials cd j k s' =
      Ok (Some (if st_encryption_enabled s then c else map_credentials (\<lambda>_. \<lparr>es_encrypted = None, es_plaintext = None\<rparr>) c)) \<and>
    (l \<noteq> k \<longrightarrow> get_credentials cd j l s' = get_credentials cd i l s)"
proof -
  let ?en = "st_encryption_enabled s"
  let ?v = "\<lparr>so_id = k, so_name = name, so_credentials = c, so_updated_at = Some now\<rparr>"
  obtain a where a: "load_settings cd i s = Ok a"
    "save_settings cd i (a\<lparr>as_sources := hm_insert k ?v (as_sources a)\<rparr>) s = (Ok (), s')"
    using assms(3)
    by (auto simp: save_credentials_def save_storage_source_settings_def change_settings_def split: outcome.splits)
  let ?b = "a\<lparr>as_sources := hm_insert k ?v (as_sources a)\<rparr>"
  have "storable ?en x" if "x \<in> secrets_in ?b" for x
  proof -
    have "x \<in> set_credentials c \<union> secrets_in a" using that secrets_in_insert [of k ?v a] by auto
    then show ?thesis using assms(2) loaded_secret [OF a(1)] by (auto simp: storable_def)
  qed
  from load_after_save [OF assms(1) this a(2) assms(4)]
  have load: "load_settings cd j s' = Ok (map_settings (reloaded ?en) ?b)" by blast
  have "map_credentials (reloaded ?en) c =
      (if ?en then c else map_credentials (\<lambda>_. \<lparr>es_encrypted = None, es_plaintext = None\<rparr>) c)"
    using assms(2) by (auto simp: reloaded_def credentials.map_ident_strong intro!: credentials.map_cong)
  moreover have "map_source (reloaded ?en) v = v" if "hm_get (as_sources a) l = Some v" for v
    using secrets_in_get [OF that] loaded_secret [OF a(1)] by (intro map_source_id) blast
  ultimately show ?thesis
    unfolding get_loaded [OF load] get_loaded [OF a(1)] hm_get_map_settings
    by (cases "hm_get (as_sources a) l") (auto simp: map_source_def)
qed

text \<open>What saved credentials are when they are read back: with encryption enabled they are the same; without
  it - the only mode the application uses - every plaintext secret is gone and only the names remain. Credentials
  of other sources are not touched.\<close>

theorem saved_credentials:
  assumes "codec_ok cd" and "\<forall>x\<in>set_credentials c. es_encrypted x = None"
    and "save_credentials cd i now k name c s = (Ok (), s')" and "si_read j" and "si_read i"
  shows "get_credentials cd j k s' =
      Ok (Some (if st_encryption_enabled s then c else map_credentials (\<lambda>_. \<lparr>es_encrypted = None, es_plaintext = None\<rparr>) c)) \<and>
    (l \<noteq> k \<longrightarrow> get_credentials cd j l s' = get_credentials cd i l s)"
  using assms by (rule credentials_after_save)

text \<open>An application's store has no encryption (\<open>FileSettingsStore::new\<close>).\<close>

definition demo_settings_io :: settings_io where
  "demo_settings_io = \<lparr>si_read = True, si_mkdir = True, si_write = Written\<rparr>"

definition demo_codec :: codec where
  "demo_codec = \<lparr>cd_encode = rev, cd_decode = (\<lambda>e. Some (rev e))\<rparr>"

definition demo_credentials :: secrets where
  "demo_credentials = AwsS3 ''id'' (new_plaintext ''secret'') None ''eu''"

theorem saved_credentials_witness:
  "get_credentials demo_codec demo_settings_io ''0''
       (snd (save_credentials demo_codec demo_settings_io 1 ''0'' ''n'' demo_credentials (settings_store_new NoSettings))) =
     Ok (Some (AwsS3 ''id'' \<lparr>es_encrypted = None, es_plaintext = None\<rparr> None ''eu'')) \<and>
   get_credentials demo_codec demo_settings_io ''0''
       (snd (save_credentials demo_codec demo_settings_io 1 ''0'' ''n'' demo_credentials
          (settings_store_with_encryption NoSettings))) = Ok (Some demo_credentials)"
proof -
  let ?save = "save_credentials demo_codec demo_settings_io 1 ''0'' ''n'' demo_credentials"
  have "codec_ok demo_codec" by (simp add: codec_ok_def demo_codec_def)
  moreover have "\<forall>x\<in>set_credentials demo_credentials. es_encrypted x = None"
    by (simp add: demo_credentials_def new_plaintext_def)
  moreover have "?save (settings_store_new NoSettings) = (Ok (), snd (?save (settings_store_new NoSettings)))"
    "?save (settings_store_with_encryption NoSettings) = (Ok (), snd (?save (settings_store_with_encryption NoSettings)))"
    by code_simp+
  moreover have "si_read demo_settings_io" by (simp add: demo_settings_io_def)
  ultimately show ?thesis
    using saved_credentials [of demo_codec demo_credentials demo_settings_io 1 "''0''" "''n''" "settings_store_new NoSettings"]
      saved_credentials [of demo_codec demo_credentials demo_settings_io 1 "''0''" "''n''" "settings_store_with_encryption NoSettings"]
    by (simp add: settings_store_new_def settings_store_with_encryption_def demo_credentials_def new_plaintext_def)
qed

end
