(* ===== verification/Virtual_File.thy ===== *)
theory Virtual_File
  imports Metadata_Store Nvme_Cache
begin

text \<open>
  The file entity of the desktop application (\<open>domain/entities.rs\<close>, \<open>VirtualFile\<close>) with the tiers and model
  categories of \<open>domain/value_objects.rs\<close> (under \<open>apps/vfs-desktop/src-tauri/src/vfs\<close>). Identifiers and times are
  arguments; times are nanoseconds.
\<close>

section \<open>Tiers and categories\<close>

datatype storage_tier = Hot | Warm | Cold | Nearline | Archive | InstantRetrieval

fun tier_as_str :: "storage_tier \<Rightarrow> string" where
  "tier_as_str Hot = ''hot''"
| "tier_as_str Warm = ''warm''"
| "tier_as_str Cold = ''cold''"
| "tier_as_str Nearline = ''nearline''"
| "tier_as_str Archive = ''archive''"
| "tier_as_str InstantRetrieval = ''instant-retrieval''"

fun tier_icon :: "storage_tier \<Rightarrow> string" where
  "tier_icon Hot = ''flame''"
| "tier_icon Warm = ''thermometer''"
| "tier_icon Cold = ''snowflake''"
| "tier_icon Nearline = ''clock''"
| "tier_icon Archive = ''archive''"
| "tier_icon InstantRetrieval = ''bolt''"

record tier_status =
  ts_current_tier :: storage_tier
  ts_is_cached :: bool
  ts_can_warm :: bool
  ts_retrieval_time_estimate :: "u32 option"

definition tier_status_default :: tier_status where
  "tier_status_default =
     \<lparr>ts_current_tier = Cold, ts_is_cached = False, ts_can_warm = True, ts_retrieval_time_estimate = None\<rparr>"

datatype model_category =
    Transcription | VideoTagging | ImageTagging | TextGeneration | CodeGeneration | Embedding | OtherModel

fun model_category_as_str :: "model_category \<Rightarrow> string" where
  "model_category_as_str Transcription = ''transcription''"
| "model_category_as_str VideoTagging = ''video_tagging''"
| "model_category_as_str ImageTagging = ''image_tagging''"
| "model_category_as_str TextGeneration = ''text_generation''"
| "model_category_as_str CodeGeneration = ''code_generation''"
| "model_category_as_str Embedding = ''embedding''"
| "model_category_as_str OtherModel = ''other''"

definition model_category_from_str :: "string \<Rightarrow> model_category" where
  "model_category_from_str s =
     (let s = to_lowercase s in
      if s = ''transcription'' then Transcription
      else if s \<in> {''video_tagging'', ''video-tagging'', ''video tagging''} then VideoTagging
      else if s \<in> {''image_tagging'', ''image-tagging'', ''image tagging''} then ImageTagging
      else if s \<in> {''text_generation'', ''text-generation'', ''text generation''} then TextGeneration
      else if s \<in> {''code_generation'', ''code-generation'', ''code generation''} then CodeGeneration
      else if s = ''embedding'' then Embedding
      else OtherModel)"

fun model_category_display_name :: "model_category \<Rightarrow> string" where
  "model_category_display_name Transcription = ''Transcription''"
| "model_category_display_name VideoTagging = ''Video Tagging''"
| "model_category_display_name ImageTagging = ''Image Tagging''"
| "model_category_display_name TextGeneration = ''Text Generation''"
| "model_category_display_name CodeGeneration = ''Code Generation''"
| "model_category_display_name Embedding = ''Embeddings''"
| "model_category_display_name OtherModel = ''Other''"

section \<open>Files\<close>

datatype transcode_state = TranscodePending | TranscodeInProgress | TranscodeCompleted | TranscodeError

record transcode_status =
  tc_state :: transcode_state
  tc_progress :: u8
  tc_output_format :: string
  tc_output_path :: "string option"
  tc_error :: "string option"

record virtual_file =
  vf_id :: string
  vf_name :: string
  vf_path :: string
  vf_size :: u64
  vf_content_type :: "string option"
  vf_tier_status :: tier_status
  vf_last_modified :: int
  vf_last_accessed :: "int option"
  vf_is_directory :: bool
  vf_is_hidden :: "bool option"
  vf_transcodable :: bool
  vf_transcode_status :: "transcode_status option"
  vf_tags :: "file_tag list"
  vf_is_favorite :: bool
  vf_color_label :: "color_label option"
  vf_rating :: "u8 option"
  vf_comment :: "string option"

definition virtual_file_new :: "string \<Rightarrow> string \<Rightarrow> string \<Rightarrow> u64 \<Rightarrow> bool \<Rightarrow> virtual_file" where
  "virtual_file_new i name path sz dir =
     \<lparr>vf_id = i, vf_name = name, vf_path = path, vf_size = sz, vf_content_type = None,
      vf_tier_status = tier_status_default, vf_last_modified = 0, vf_last_accessed = None, vf_is_directory = dir,
      vf_is_hidden = Some (strip_prefix ''.'' name \<noteq> None), vf_transcodable = False, vf_transcode_status = None,
      vf_tags = [], vf_is_favorite = False, vf_color_label = None, vf_rating = None, vf_comment = None\<rparr>"

definition vf_add_tag :: "file_tag \<Rightarrow> virtual_file \<Rightarrow> virtual_file" where
  "vf_add_tag t f = (if t \<in> set (vf_tags f) then f else f\<lparr>vf_tags := vf_tags f @ [t]\<rparr>)"

definition vf_remove_tag :: "string \<Rightarrow> virtual_file \<Rightarrow> virtual_file" where
  "vf_remove_tag n f = f\<lparr>vf_tags := filter (\<lambda>t. ft_name t \<noteq> n) (vf_tags f)\<rparr>"

definition vf_has_tag :: "string \<Rightarrow> virtual_file \<Rightarrow> bool" where
  "vf_has_tag n f \<longleftrightarrow> list_ex (\<lambda>t. ft_name t = n) (vf_tags f)"

definition vf_toggle_favorite :: "virtual_file \<Rightarrow> virtual_file" where
  "vf_toggle_favorite f = f\<lparr>vf_is_favorite := \<not> vf_is_favorite f\<rparr>"

definition vf_set_color_label :: "color_label option \<Rightarrow> virtual_file \<Rightarrow> virtual_file" where
  "vf_set_color_label c f = f\<lparr>vf_color_label := c\<rparr>"

definition vf_set_rating :: "u8 option \<Rightarrow> virtual_file \<Rightarrow> virtual_file" where
  "vf_set_rating r f = f\<lparr>vf_rating := map_option (\<lambda>r. min r 5) r\<rparr>"

definition needs_hydration :: "virtual_file \<Rightarrow> bool" where
  "needs_hydration f \<longleftrightarrow> ts_current_tier (vf_tier_status f) \<in> {Cold, Nearline}"

definition can_transcode :: "virtual_file \<Rightarrow> bool" where
  "can_transcode f \<longleftrightarrow>
     \<not> vf_is_directory f \<and>
     (case extension (vf_path f) of
        Some e \<Rightarrow> to_lowercase e \<in> {''mp4'', ''mov'', ''mkv'', ''avi'', ''webm'', ''m4v'', ''wmv''}
      | None \<Rightarrow> False)"

definition mark_hydrated :: "int \<Rightarrow> virtual_file \<Rightarrow> virtual_file" where
  "mark_hydrated now f =
     f\<lparr>vf_tier_status := (vf_tier_status f)\<lparr>ts_current_tier := Hot, ts_is_cached := True\<rparr>, vf_last_accessed := Some now\<rparr>"

section \<open>Tags and tiers of a file\<close>

lemma model_category_roundtrip: "model_category_from_str (model_category_as_str c) = c"
  by (cases c; hypsubst; code_simp)

lemma tag_names: "vf_has_tag n f \<longleftrightarrow> n \<in> ft_name ` set (vf_tags f)"
  by (auto simp: vf_has_tag_def list_ex_iff)

lemma has_tag_after_add: "vf_has_tag n (vf_add_tag t f) \<longleftrightarrow> n = ft_name t \<or> vf_has_tag n f"
  by (auto simp: tag_names vf_add_tag_def)

lemma has_tag_after_remove: "vf_has_tag n (vf_remove_tag m f) \<longleftrightarrow> n \<noteq> m \<and> vf_has_tag n f"
  by (auto simp: tag_names vf_remove_tag_def)

lemma distinct_tags: "distinct (vf_tags f) \<Longrightarrow> distinct (vf_tags (vf_add_tag t f)) \<and> distinct (vf_tags (vf_remove_tag n f))"
  by (auto simp: vf_add_tag_def vf_remove_tag_def)

lemma hydrated_once: "\<not> needs_hydration (mark_hydrated now f)"
  by (simp add: needs_hydration_def mark_hydrated_def)

end
