(* ===== verification/Vfs_Service.thy ===== *)
theory Vfs_Service
  imports Virtual_File
begin

text \<open>
  The service of the desktop application that puts storage sources behind one interface
  (\<open>apps/vfs-desktop/src-tauri/src/vfs/application/vfs_service.rs\<close>), with the source entities of
  \<open>domain/entities.rs\<close> and the default pagination of the port \<open>ports/storage.rs\<close>. The files are those of
  \<open>Virtual_File\<close>; registering and restoring sources is in \<open>Service_Sources\<close>.

  The two ports a source is reached through, \<open>StorageAdapter\<close> and \<open>IFileOperations\<close>, are records of the methods
  the service calls, over a state \<open>'w\<close> of everything outside; so is the event bus. The cache port is the record
  \<open>cache_port\<close>, its contract the locale \<open>cache_adapter\<close>, which the cache of \<open>Nvme_Cache\<close> implements. Times and
  durations in events are left out.
\<close>

section \<open>Sources\<close>

datatype storage_source_type =
    S3 | FsxN | FsxOntap | LocalDir | Block | Gcs | Nas | Smb | Nfs | Sftp | WebDav | AzureBlob | S3Compatible
  | CustomType string

datatype storage_category = LocalCat | CloudCat | BlockCat | NetworkCat | HybridCat | CustomCat

fun category :: "storage_source_type \<Rightarrow> storage_category" where
  "category LocalDir = LocalCat"
| "category S3 = CloudCat"
| "category Gcs = CloudCat"
| "category AzureBlob = CloudCat"
| "category S3Compatible = CloudCat"
| "category Block = BlockCat"
| "category Nfs = NetworkCat"
| "category Smb = NetworkCat"
| "category Nas = NetworkCat"
| "category Sftp = NetworkCat"
| "category WebDav = NetworkCat"
| "category FsxN = HybridCat"
| "category FsxOntap = HybridCat"
| "category (CustomType i) = CustomCat"

fun to_provider_id :: "storage_source_type \<Rightarrow> string" where
  "to_provider_id LocalDir = ''local''"
| "to_provider_id S3 = ''aws-s3''"
| "to_provider_id Gcs = ''gcs''"
| "to_provider_id AzureBlob = ''azure-blob''"
| "to_provider_id S3Compatible = ''s3-compatible''"
| "to_provider_id FsxN = ''fsx-ontap''"
| "to_provider_id FsxOntap = ''fsx-ontap''"
| "to_provider_id Nfs = ''nfs''"
| "to_provider_id Smb = ''smb''"
| "to_provider_id Nas = ''smb''"
| "to_provider_id Sftp = ''sftp''"
| "to_provider_id WebDav = ''webdav''"
| "to_provider_id Block = ''block''"
| "to_provider_id (CustomType i) = i"

definition from_provider_id :: "string \<Rightarrow> storage_source_type" where
  "from_provider_id i =
     (if i = ''local'' then LocalDir else if i = ''aws-s3'' then S3 else if i = ''gcs'' then Gcs
      else if i = ''azure-blob'' then AzureBlob else if i = ''s3-compatible'' then S3Compatible
      else if i = ''fsx-ontap'' then FsxOntap else if i = ''nfs'' then Nfs else if i = ''smb'' then Smb
      else if i = ''sftp'' then Sftp else if i = ''webdav'' then WebDav else if i = ''block'' then Block
      else CustomType i)"

lemma provider_id_roundtrip: "to_provider_id (from_provider_id i) = i"
  by (simp add: from_provider_id_def)

datatype connection_status = Connected | Disconnected | ConnectionError string | Connecting

record storage_config =
  sc_path_or_bucket :: string
  sc_region :: "string option"
  sc_endpoint :: "string option"
  sc_access_key :: "string option"
  sc_secret_key :: "string option"
  sc_session_token :: "string option"

record storage_source =
  ss_id :: string
  ss_name :: string
  ss_type :: storage_source_type
  ss_status :: connection_status
  ss_mounted :: bool
  ss_mount_point :: "string option"
  ss_config :: storage_config

section \<open>Directory entries\<close>

text \<open>Of the statistics and the entry of a directory: the fields that listing and transfers use.\<close>

record file_stat =
  fs_size :: u64
  fs_is_dir :: bool

record file_entry =
  fe_name :: string
  fe_path :: string
  fe_size :: u64
  fe_is_dir :: bool

section \<open>Ports\<close>

type_synonym ('w, 'a) io_act = "'w \<Rightarrow> (string, 'a) outcome \<times> 'w"

record 'w storage_adapter =
  sa_list_files :: "string \<Rightarrow> ('w, virtual_file list) io_act"
  sa_list_files_paginated :: "string \<Rightarrow> usize option \<Rightarrow> string option \<Rightarrow> ('w, virtual_file list \<times> string option) io_act"
  sa_read_file :: "string \<Rightarrow> ('w, bytes) io_act"
  sa_file_size :: "string \<Rightarrow> ('w, u64) io_act"
  sa_get_metadata :: "string \<Rightarrow> ('w, virtual_file) io_act"

record copy_options =
  co_overwrite :: bool
  co_preserve_attributes :: bool
  co_recursive :: bool
  co_follow_symlinks :: bool

record 'w file_operations =
  fo_stat :: "string \<Rightarrow> ('w, file_stat) io_act"
  fo_read :: "string \<Rightarrow> ('w, bytes) io_act"
  fo_write :: "string \<Rightarrow> bytes \<Rightarrow> ('w, unit) io_act"
  fo_mkdir_p :: "string \<Rightarrow> ('w, unit) io_act"
  fo_list :: "string \<Rightarrow> ('w, file_entry list) io_act"
  fo_rm_rf :: "string \<Rightarrow> ('w, unit) io_act"
  fo_append :: "string \<Rightarrow> bytes \<Rightarrow> ('w, unit) io_act"
  fo_mkdir :: "string \<Rightarrow> ('w, unit) io_act"
  fo_rmdir :: "string \<Rightarrow> ('w, unit) io_act"
  fo_rename :: "string \<Rightarrow> string \<Rightarrow> ('w, unit) io_act"
  fo_copy :: "string \<Rightarrow> string \<Rightarrow> copy_options \<Rightarrow> ('w, unit) io_act"
  fo_mv :: "string \<Rightarrow> string \<Rightarrow> bool \<Rightarrow> ('w, unit) io_act"
  fo_rm :: "string \<Rightarrow> ('w, unit) io_act"
  fo_chmod :: "string \<Rightarrow> u32 \<Rightarrow> ('w, unit) io_act"
  fo_touch :: "string \<Rightarrow> ('w, unit) io_act"
  fo_exists :: "string \<Rightarrow> ('w, bool) io_act"

record 'c cache_port =
  cp_is_cached :: "string \<Rightarrow> 'c \<Rightarrow> bool"
  cp_cache_file :: "string \<Rightarrow> bytes \<Rightarrow> ('c, string) io_act"
  cp_read_from_cache :: "string \<Rightarrow> ('c, bytes) io_act"
  cp_clear :: "('c, unit) io_act"
  cp_stats :: "'c \<Rightarrow> cache_stats"

datatype vfs_event =
    HydrationStarted string storage_tier u64
  | HydrationCompleted string storage_tier storage_tier u64

record 'w source_state =
  st_source :: storage_source
  st_adapter :: "'w storage_adapter"
  st_file_ops :: "'w file_operations option"

record ('c, 'w) vfs_service =
  vs_sources :: "(string, 'w source_state) hash_map"
  vs_cache_port :: "'c cache_port"
  vs_cache :: 'c
  vs_event_bus :: "(vfs_event \<Rightarrow> ('w, unit) io_act) option"
  vs_world :: 'w

type_synonym ('c, 'w, 'a) svc_act = "(('c, 'w) vfs_service, string, 'a) act"

text \<open>Lifting the calls on the outside and on the cache to the service.\<close>

definition on_world :: "('w, 'a) io_act \<Rightarrow> ('c, 'w, 'a) svc_act" where
  "on_world f s = (case f (vs_world s) of (r, w) \<Rightarrow> (r, s\<lparr>vs_world := w\<rparr>))"

definition on_cache :: "('c, 'a) io_act \<Rightarrow> ('c, 'w, 'a) svc_act" where
  "on_cache f s = (case f (vs_cache s) of (r, c) \<Rightarrow> (r, s\<lparr>vs_cache := c\<rparr>))"

definition with_cache_and_factory :: "'c cache_port \<Rightarrow> 'c \<Rightarrow> 'w \<Rightarrow> ('c, 'w) vfs_service" where
  "with_cache_and_factory port c w =
     \<lparr>vs_sources = [], vs_cache_port = port, vs_cache = c, vs_event_bus = None, vs_world = w\<rparr>"

section \<open>The registry of sources\<close>

definition add_source :: "storage_source \<Rightarrow> 'w storage_adapter \<Rightarrow> 'w file_operations option \<Rightarrow> ('c, 'w) vfs_service \<Rightarrow>
    ('c, 'w) vfs_service" where
  "add_source src adapter ops s =
     s\<lparr>vs_sources := hm_insert (ss_id src) \<lparr>st_source = src, st_adapter = adapter, st_file_ops = ops\<rparr> (vs_sources s)\<rparr>"

definition list_sources :: "('c, 'w) vfs_service \<Rightarrow> storage_source list" where
  "list_sources s = map (st_source \<circ> snd) (vs_sources s)"

definition get_source :: "string \<Rightarrow> ('c, 'w) vfs_service \<Rightarrow> storage_source option" where
  "get_source i s = map_option st_source (hm_get (vs_sources s) i)"

definition get_adapter :: "string \<Rightarrow> ('c, 'w) vfs_service \<Rightarrow> 'w storage_adapter option" where
  "get_adapter i s = map_option st_adapter (hm_get (vs_sources s) i)"

definition update_source_status :: "string \<Rightarrow> connection_status \<Rightarrow> ('c, 'w, unit) svc_act" where
  "update_source_status i status s =
     (case hm_get (vs_sources s) i of
        None \<Rightarrow> (Err ''Source not found'', s)
      | Some st \<Rightarrow>
          (Ok (), s\<lparr>vs_sources := hm_insert i
             (st\<lparr>st_source := (st_source st)\<lparr>ss_status := status, ss_mounted := (status = Connected)\<rparr>\<rparr>) (vs_sources s)\<rparr>))"

definition remove_source :: "string \<Rightarrow> ('c, 'w) vfs_service \<Rightarrow> storage_source option \<times> ('c, 'w) vfs_service" where
  "remove_source i s = (get_source i s, s\<lparr>vs_sources := hm_remove i (vs_sources s)\<rparr>)"

definition get_transfer_targets :: "string option \<Rightarrow> ('c, 'w) vfs_service \<Rightarrow> storage_source list" where
  "get_transfer_targets exclude s =
     filter (\<lambda>src. ss_status src = Connected \<and> (case exclude of Some i \<Rightarrow> ss_id src \<noteq> i | None \<Rightarrow> True))
       (list_sources s)"

text \<open>The adapter of a source, or the error that the source is unknown.\<close>

definition adapter_of :: "string \<Rightarrow> ('c, 'w, 'w storage_adapter) svc_act" where
  "adapter_of i s =
     (case hm_get (vs_sources s) i of
        None \<Rightarrow> (Err (''Storage source not found: '' @ i), s)
      | Some st \<Rightarrow> (Ok (st_adapter st), s))"

definition get_file_ops :: "string \<Rightarrow> ('c, 'w, 'w file_operations) svc_act" where
  "get_file_ops i s =
     (case hm_get (vs_sources s) i of
        None \<Rightarrow> (Err (''Storage source not found: '' @ i), s)
      | Some st \<Rightarrow>
          (case st_file_ops st of
             None \<Rightarrow> (Err (''Source '' @ i @ '' does not support file operations''), s)
           | Some ops \<Rightarrow> (Ok ops, s)))"

section \<open>Listing\<close>

definition mark_cached :: "('c, 'w) vfs_service \<Rightarrow> virtual_file \<Rightarrow> virtual_file" where
  "mark_cached s f =
     (if \<not> vf_is_directory f \<and> cp_is_cached (vs_cache_port s) (vf_path f) (vs_cache s)
      then f\<lparr>vf_tier_status := (vf_tier_status f)\<lparr>ts_current_tier := Hot, ts_is_cached := True, ts_can_warm := False\<rparr>\<rparr>
      else f)"

definition list_files :: "string \<Rightarrow> string \<Rightarrow> ('c, 'w, virtual_file list) svc_act" where
  "list_files i p =
     and_then (adapter_of i) (\<lambda>a. and_then (on_world (sa_list_files a p)) (\<lambda>fs s. (Ok (map (mark_cached s) fs), s)))"

definition list_files_paginated ::
    "string \<Rightarrow> string \<Rightarrow> usize option \<Rightarrow> string option \<Rightarrow> ('c, 'w, virtual_file list \<times> string option) svc_act" where
  "list_files_paginated i p limit token =
     and_then (adapter_of i)
       (\<lambda>a. and_then (on_world (sa_list_files_paginated a p limit token))
              (\<lambda>(fs, next) s. (Ok (map (mark_cached s) fs, next), s)))"

text \<open>The default method of the port. \<open>drain\<close> takes the page out of the vector, panicking on a range that is not
  one, before the length is compared with the end of the page. \<open>parse_usize\<close> is \<open>str::parse\<close>.\<close>

definition parse_usize :: "string \<Rightarrow> usize option" where
  "parse_usize t =
     (let ds = (case t of c # cs \<Rightarrow> if c = CHR ''+'' then cs else t | [] \<Rightarrow> [])
      in if ds \<noteq> [] \<and> list_all (\<lambda>c. (48 :: nat) \<le> of_char c \<and> (of_char c :: nat) \<le> 57) ds \<and> undec ds < 2 ^ 64
         then Some (of_nat (undec ds)) else None)"

definition page_of :: "usize option \<Rightarrow> string option \<Rightarrow> 'f list \<Rightarrow> (string, 'f list \<times> string option) outcome" where
  "page_of limit token files =
     (let start = (case token of Some t \<Rightarrow> (case parse_usize t of Some n \<Rightarrow> n | None \<Rightarrow> 0) | None \<Rightarrow> 0);
          len = of_nat (length files);
          stop = (case limit of Some l \<Rightarrow> min (start + l) len | None \<Rightarrow> len)
      in if start < len \<and> stop < start then Panic
         else
           let page = (if start < len then drop (unat start) (take (unat stop) files) else []);
               rest = (if start < len then take (unat start) files @ drop (unat stop) files else files)
           in Ok (page, if stop < of_nat (length rest) then Some (dec (unat stop)) else None))"

definition default_list_files_paginated ::
    "(string \<Rightarrow> ('w, virtual_file list) io_act) \<Rightarrow> string \<Rightarrow> usize option \<Rightarrow> string option \<Rightarrow>
     ('w, virtual_file list \<times> string option) io_act" where
  "default_list_files_paginated lst p limit token =
     and_then (lst p) (\<lambda>files w. (page_of limit token files, w))"

section \<open>Reading and hydrating\<close>

definition source_tier :: "storage_source_type \<Rightarrow> storage_tier" where
  "source_tier ty =
     (case category ty of LocalCat \<Rightarrow> Hot | BlockCat \<Rightarrow> Hot | CloudCat \<Rightarrow> Cold | NetworkCat \<Rightarrow> Warm | HybridCat \<Rightarrow> Cold
      | CustomCat \<Rightarrow> Cold)"

definition publish :: "(string \<Rightarrow> u64 \<Rightarrow> vfs_event) \<Rightarrow> string \<Rightarrow> ('c, 'w, u64) svc_act \<Rightarrow> ('c, 'w, unit) svc_act" where
  "publish ev p sz s =
     (case vs_event_bus s of
        None \<Rightarrow> (Ok (), s)
      | Some bus \<Rightarrow> and_then sz (\<lambda>n. on_world (bus (ev p n))) s)"

text \<open>\<open>unwrap_or(0)\<close> on the size.\<close>

definition size_or_0 :: "('w, u64) io_act \<Rightarrow> ('c, 'w, u64) svc_act" where
  "size_or_0 f s = (case on_world f s of (Ok n, s) \<Rightarrow> (Ok n, s) | (Err e, s) \<Rightarrow> (Ok 0, s) | (Panic, s) \<Rightarrow> (Panic, s))"

definition hydrate_file :: "string \<Rightarrow> string \<Rightarrow> ('c, 'w, string) svc_act" where
  "hydrate_file i p s =
     and_then (adapter_of i)
       (\<lambda>a. let tier = (case get_source i s of Some src \<Rightarrow> source_tier (ss_type src) | None \<Rightarrow> Cold) in
         and_then (publish (\<lambda>p n. HydrationStarted p tier n) p (size_or_0 (sa_file_size a p)))
         (\<lambda>_. and_then (on_world (sa_read_file a p))
         (\<lambda>d. and_then (on_cache (cp_cache_file (vs_cache_port s) p d))
         (\<lambda>f. and_then (publish (\<lambda>p n. HydrationCompleted p tier Hot n) p (\<lambda>s. (Ok (of_nat (length d)), s)))
         (\<lambda>_ s. (Ok f, s)))))) s"

definition read_file :: "string \<Rightarrow> string \<Rightarrow> ('c, 'w, bytes) svc_act" where
  "read_file i p s =
     (if cp_is_cached (vs_cache_port s) p (vs_cache s)
      then on_cache (cp_read_from_cache (vs_cache_port s) p) s
      else
        and_then (adapter_of i)
          (\<lambda>a. and_then (on_world (sa_read_file a p))
          (\<lambda>d. and_then (on_cache (cp_cache_file (vs_cache_port s) p d))
          (\<lambda>_ s. (Ok d, s)))) s)"

section \<open>Transfers between sources\<close>

definition name_or :: "string \<Rightarrow> string \<Rightarrow> string" where
  "name_or dflt p = (case file_name p of Some n \<Rightarrow> n | None \<Rightarrow> dflt)"

text \<open>The recursion follows the listings of the source, which need not end; it carries fuel.\<close>

fun copy_dir_to_source :: "nat \<Rightarrow> string \<Rightarrow> string \<Rightarrow> string \<Rightarrow> string \<Rightarrow> ('c, 'w, u64) svc_act"
  and copy_entries :: "nat \<Rightarrow> string \<Rightarrow> string \<Rightarrow> string \<Rightarrow> string \<Rightarrow> 'w file_operations \<Rightarrow> 'w file_operations \<Rightarrow>
    file_entry list \<Rightarrow> ('c, 'w, u64) svc_act" where
  "copy_dir_to_source 0 from_id from_path to_id to_path s = (Err ''out of fuel'', s)"
| "copy_dir_to_source (Suc fuel) from_id from_path to_id to_path s =
     and_then (get_file_ops from_id)
       (\<lambda>from_ops. and_then (get_file_ops to_id)
       (\<lambda>to_ops. let dest = path_join to_path (name_or ''dir'' from_path) in
          and_then (on_world (fo_mkdir_p to_ops dest))
          (\<lambda>_. and_then (on_world (fo_list from_ops from_path))
          (\<lambda>es. copy_entries fuel from_id from_path to_id dest from_ops to_ops es)))) s"
| "copy_entries fuel from_id from_path to_id dest from_ops to_ops [] s = (Ok 0, s)"
| "copy_entries fuel from_id from_path to_id dest from_ops to_ops (e # es) s =
     and_then
       (\<lambda>s. if fe_is_dir e then copy_dir_to_source fuel from_id (path_join from_path (fe_name e)) to_id dest s
            else and_then (on_world (fo_read from_ops (path_join from_path (fe_name e))))
                   (\<lambda>d. and_then (on_world (fo_write to_ops (path_join dest (fe_name e)) d)) (\<lambda>_ s. (Ok (fe_size e), s))) s)
       (\<lambda>n. and_then (copy_entries fuel from_id from_path to_id dest from_ops to_ops es) (\<lambda>m s. (Ok (n + m), s))) s"

definition copy_to_source :: "nat \<Rightarrow> string \<Rightarrow> string \<Rightarrow> string \<Rightarrow> string \<Rightarrow> ('c, 'w, u64) svc_act" where
  "copy_to_source fuel from_id from_path to_id to_path =
     and_then (get_file_ops from_id)
       (\<lambda>from_ops. and_then (get_file_ops to_id)
       (\<lambda>to_ops. and_then (on_world (fo_stat from_ops from_path))
       (\<lambda>stat. if fs_is_dir stat then copy_dir_to_source fuel from_id from_path to_id to_path
               else and_then (on_world (fo_read from_ops from_path))
                 (\<lambda>d. and_then (on_world (fo_write to_ops (path_join to_path (name_or ''file'' from_path)) d))
                 (\<lambda>_ s. (Ok (fs_size stat), s))))))"

definition move_to_source :: "nat \<Rightarrow> string \<Rightarrow> string \<Rightarrow> string \<Rightarrow> string \<Rightarrow> ('c, 'w, u64) svc_act" where
  "move_to_source fuel from_id from_path to_id to_path =
     and_then (copy_to_source fuel from_id from_path to_id to_path)
       (\<lambda>n. and_then (get_file_ops from_id)
       (\<lambda>ops. and_then (on_world (fo_rm_rf ops from_path)) (\<lambda>_ s. (Ok n, s))))"

section \<open>Reads through the cache\<close>

text \<open>What the service relies on: a stored path is cached and reads back as stored, and a read changes neither
  what is cached nor what is read.\<close>

locale cache_adapter =
  fixes port :: "'c cache_port"
  assumes store: "cp_cache_file port p d c = (Ok f, c') \<Longrightarrow>
      cp_is_cached port p c' \<and> fst (cp_read_from_cache port p c') = Ok d"
    and read_keeps: "cp_is_cached port q (snd (cp_read_from_cache port p c)) \<longleftrightarrow> cp_is_cached port q c"
    and read_same: "fst (cp_read_from_cache port q (snd (cp_read_from_cache port p c))) = fst (cp_read_from_cache port q c)"
begin

lemma read_file_hit:
  assumes "vs_cache_port s = port" "cp_is_cached port p (vs_cache s)"
  shows "read_file i p s = (fst (cp_read_from_cache port p (vs_cache s)),
    s\<lparr>vs_cache := snd (cp_read_from_cache port p (vs_cache s))\<rparr>)"
  using assms by (simp add: read_file_def on_cache_def case_prod_beta)

lemma read_file_caches:
  assumes "vs_cache_port s = port" "read_file i p s = (Ok d, s')"
  shows "vs_cache_port s' = port \<and> cp_is_cached port p (vs_cache s') \<and> fst (cp_read_from_cache port p (vs_cache s')) = Ok d"
proof (cases "cp_is_cached port p (vs_cache s)")
  case True
  with assms read_file_hit [of s p i] show ?thesis
    using read_keeps [of p p "vs_cache s"] read_same [of p p "vs_cache s"] by auto
next
  case False
  with assms have "and_then (adapter_of i)
          (\<lambda>a. and_then (on_world (sa_read_file a p))
          (\<lambda>d. and_then (on_cache (cp_cache_file port p d))
          (\<lambda>_ s. (Ok d, s)))) s = (Ok d, s')"
    by (simp add: read_file_def)
  then obtain a s1 s2 f where "adapter_of i s = (Ok a, s1)" "on_world (sa_read_file a p) s1 = (Ok d, s2)"
    "on_cache (cp_cache_file port p d) s2 = (Ok f, s')"
    by (auto simp: and_then_Ok_iff)
  moreover from this have "vs_cache_port s' = port"
    using assms(1) by (auto simp: adapter_of_def on_world_def on_cache_def split: option.splits prod.splits)
  ultimately show ?thesis using store by (auto simp: on_cache_def split: prod.splits)
qed

lemma read_file_again:
  assumes "vs_cache_port s = port" "read_file i p s = (Ok d, s')"
  shows "fst (read_file j p s') = Ok d"
  using read_file_caches [OF assms] read_file_hit [of s' p j] by simp

end

definition nvme_port :: "(string \<Rightarrow> string) \<Rightarrow> (string \<Rightarrow> bool) \<Rightarrow> write_result \<Rightarrow> nvme_cache cache_port" where
  "nvme_port md5 undeleted r =
     \<lparr>cp_is_cached = is_cached md5,
      cp_cache_file = (\<lambda>p d c. case cache_file md5 undeleted r p d c of
                         (Ok e, c') \<Rightarrow> (Ok (ce_cache_path e), c') | (Err e, c') \<Rightarrow> (Err e, c') | (Panic, c') \<Rightarrow> (Panic, c')),
      cp_read_from_cache = read_from_cache md5, cp_clear = clear undeleted, cp_stats = stats\<rparr>"

lemma read_from_cache_fst: "fst (read_from_cache md5 p s) =
    (case hm_get (nc_files s) (cache_path_for md5 s p) of
       Some d \<Rightarrow> Ok d | None \<Rightarrow> Err (''Failed to read from cache: '' @ cache_path_for md5 s p))"
  by (simp add: read_from_cache_def Let_def)

lemma read_from_cache_frame:
  "nc_files (snd (read_from_cache md5 p s)) = nc_files s" "nc_config (snd (read_from_cache md5 p s)) = nc_config s"
  "is_cached md5 q (snd (read_from_cache md5 p s)) = is_cached md5 q s"
  using is_cached_touch [of md5 q p s] by (simp_all add: read_from_cache_def Let_def is_cached_def cache_path_for_def)

interpretation nvme: cache_adapter "nvme_port md5 undeleted r" for md5 undeleted r
proof
  fix p d c f c'
  assume "cp_cache_file (nvme_port md5 undeleted r) p d c = (Ok f, c')"
  then have "r = Written" "c' = snd (cache_file md5 undeleted Written p d c)"
    by (cases r; auto simp: nvme_port_def cache_file_failed split: prod.splits outcome.splits)+
  then show "cp_is_cached (nvme_port md5 undeleted r) p c' \<and>
      fst (cp_read_from_cache (nvme_port md5 undeleted r) p c') = Ok d"
    using cached_after [of md5 p undeleted d c]
    by (simp add: nvme_port_def read_from_cache_fst cache_file_Written index_entry_def Let_def cache_path_for_def)
next
  fix q p c
  show "cp_is_cached (nvme_port md5 undeleted r) q (snd (cp_read_from_cache (nvme_port md5 undeleted r) p c)) \<longleftrightarrow>
      cp_is_cached (nvme_port md5 undeleted r) q c"
    by (simp add: nvme_port_def read_from_cache_frame)
  show "fst (cp_read_from_cache (nvme_port md5 undeleted r) q (snd (cp_read_from_cache (nvme_port md5 undeleted r) p c))) =
      fst (cp_read_from_cache (nvme_port md5 undeleted r) q c)"
    by (simp add: nvme_port_def read_from_cache_fst read_from_cache_frame
        cache_path_config [OF read_from_cache_frame(2)] cong: option.case_cong)
qed

text \<open>Reads are repeatable through the cache, and the cache does not know sources: once a path has been read
  from one source, reading the same path from any other source - one that holds another file there, or one
  that is not registered - returns the bytes of the first.\<close>

theorem read_ignores_source:
  assumes "vs_cache_port s = nvme_port md5 undeleted r" and "read_file i p s = (Ok d, s')"
  shows "\<forall>j. fst (read_file j p s') = Ok d"
  using nvme.read_file_again [OF assms] by blast

text \<open>A store of files in memory as a source, for examples.\<close>

type_synonym files = "string \<Rightarrow> bytes option"

definition demo_adapter :: "files storage_adapter" where
  "demo_adapter =
     \<lparr>sa_list_files = (\<lambda>p w. (Ok [], w)), sa_list_files_paginated = (\<lambda>p l t w. (Ok ([], None), w)),
      sa_read_file = (\<lambda>p w. (case w p of Some d \<Rightarrow> Ok d | None \<Rightarrow> Err ''not found'', w)),
      sa_file_size = (\<lambda>p w. (Ok 0, w)), sa_get_metadata = (\<lambda>p w. (Err ''unsupported'', w))\<rparr>"

definition demo_ops :: "files file_operations" where
  "demo_ops =
     \<lparr>fo_stat = (\<lambda>p w. (case w p of Some d \<Rightarrow> Ok \<lparr>fs_size = of_nat (length d), fs_is_dir = False\<rparr> | None \<Rightarrow> Err ''not found'', w)),
      fo_read = (\<lambda>p w. (case w p of Some d \<Rightarrow> Ok d | None \<Rightarrow> Err ''not found'', w)),
      fo_write = (\<lambda>p d w. (Ok (), w(p \<mapsto> d))), fo_mkdir_p = (\<lambda>p w. (Ok (), w)), fo_list = (\<lambda>p w. (Ok [], w)),
      fo_rm_rf = (\<lambda>p w. (Ok (), \<lambda>q. if prefix p q then None else w q)),
      fo_append = (\<lambda>p d w. (Ok (), w(p \<mapsto> (case w p of Some b \<Rightarrow> b | None \<Rightarrow> []) @ d))), fo_mkdir = (\<lambda>p w. (Ok (), w)),
      fo_rmdir = (\<lambda>p w. (Ok (), w)), fo_rename = (\<lambda>p q w. (Ok (), w(q := w p, p := None))),
      fo_copy = (\<lambda>p q c w. (Ok (), w(q := w p))), fo_mv = (\<lambda>p q b w. (Ok (), w(q := w p, p := None))),
      fo_rm = (\<lambda>p w. (Ok (), w(p := None))), fo_chmod = (\<lambda>p m w. (Ok (), w)), fo_touch = (\<lambda>p w. (Ok (), w)),
      fo_exists = (\<lambda>p w. (Ok (w p \<noteq> None), w))\<rparr>"

definition demo_source :: storage_source where
  "demo_source =
     \<lparr>ss_id = ''a'', ss_name = ''a'', ss_type = LocalDir, ss_status = Connected, ss_mounted = True, ss_mount_point = None,
      ss_config = \<lparr>sc_path_or_bucket = ''/'', sc_region = None, sc_endpoint = None, sc_access_key = None,
                   sc_secret_key = None, sc_session_token = None\<rparr>\<rparr>"

definition demo_service :: "(nvme_cache, files) vfs_service" where
  "demo_service =
     add_source demo_source demo_adapter (Some demo_ops)
       (with_cache_and_factory (nvme_port id (\<lambda>_. False) Written) (cache_new demo_config [] int) [''/f'' \<mapsto> [1, 2]])"

theorem read_ignores_source_witness: "\<exists>s'. read_file ''a'' ''/f'' demo_service = (Ok [1, 2], s') \<and>
    fst (read_file ''other'' ''/f'' s') = Ok [1, 2]"
proof -
  have port: "vs_cache_port demo_service = nvme_port id (\<lambda>_. False) Written"
    by (simp add: demo_service_def add_source_def with_cache_and_factory_def)
  have "\<exists>s'. read_file ''a'' ''/f'' demo_service = (Ok [1, 2], s')"
    by (simp add: read_file_def demo_service_def add_source_def with_cache_and_factory_def nvme_port_def is_cached_def
        cache_new_def adapter_of_def and_then_def on_world_def on_cache_def demo_source_def demo_adapter_def
        cache_file_Written index_entry_def Let_def)
  then obtain s' where s': "read_file ''a'' ''/f'' demo_service = (Ok [1, 2], s')" by blast
  with read_ignores_source [OF port s'] show ?thesis by blast
qed

section \<open>Pagination\<close>

lemma parse_usize_dec: "n < 2 ^ 64 \<Longrightarrow> parse_usize (dec n) = Some (of_nat n)"
proof -
  assume n: "n < 2 ^ 64"
  have chars: "(48 :: nat) \<le> of_char c \<and> (of_char c :: nat) \<le> 57" if "c \<in> set (dec n)" for c
    using dec_chars [OF that] by simp
  obtain c cs where c: "dec n = c # cs" by (cases "dec n") auto
  then have "c \<noteq> CHR ''+''" using chars [of c] by auto
  then have ds: "(case dec n of c # cs \<Rightarrow> if c = CHR ''+'' then cs else dec n | [] \<Rightarrow> []) = dec n" by (simp add: c)
  show ?thesis unfolding parse_usize_def ds using n chars by (auto simp: list_all_iff undec_dec)
qed

text \<open>The default pagination, exactly: from position \<open>m\<close> the page holds the next files up to the limit, but
  the token for the next page is compared with what is left after the page was taken out. So the listing ends
  early: as soon as the end of the page is not below the number of files outside the page, the files after the
  page are never returned, although there are some.\<close>

theorem pagination_exact:
  assumes "length files < 2 ^ 64" and "m < length files" and "m + unat l < 2 ^ 64"
    and "token = (if m = 0 then None else Some (dec m))" and "stop = min (m + unat l) (length files)"
  shows "page_of (Some l) token files =
      Ok (take (unat l) (drop m files), if stop < length files - (stop - m) then Some (dec stop) else None) \<and>
    (stop < length files \<and> length files \<le> 2 * stop - m \<longrightarrow>
       page_of (Some l) token files = Ok (take (unat l) (drop m files), None) \<and> drop stop files \<noteq> [])"
proof -
  let ?n = "of_nat (length files) :: usize" and ?m = "of_nat m :: usize"
  have start: "(case token of Some t \<Rightarrow> (case parse_usize t of Some n \<Rightarrow> n | None \<Rightarrow> 0) | None \<Rightarrow> 0) = ?m"
    using assms(1,2,4) by (simp add: parse_usize_dec)
  have un: "unat ?n = length files" "unat ?m = m" using assms(1,2) by (simp_all add: unat_of_nat_le)
  then have sum: "unat (?m + l) = m + unat l" using assms(3) by (subst unat_add_nowrap) simp_all
  then have stop: "unat (min (?m + l) ?n) = stop" using assms(5) un by (simp add: min_def word_le_nat_alt)
  have lt: "?m < ?n" using un assms(2) by (simp add: word_less_nat_alt)
  have ge: "\<not> min (?m + l) ?n < ?m" using un sum stop assms(2,5) by (simp add: word_less_nat_alt)
  let ?rest = "take m files @ drop stop files"
  have rest: "length ?rest = length files - (stop - m)" using assms(2,5) by auto
  then have "unat (of_nat (length ?rest) :: usize) = length files - (stop - m)"
    using assms(1) by (subst unat_of_nat_le) auto
  then have cmp: "min (?m + l) ?n < of_nat (length ?rest) \<longleftrightarrow> stop < length files - (stop - m)"
    by (simp only: word_less_nat_alt stop)
  have page: "drop m (take stop files) = take (unat l) (drop m files)"
    using assms(2,5) by (simp add: drop_take min_def)
  have 1: "page_of (Some l) token files =
      Ok (take (unat l) (drop m files), if stop < length files - (stop - m) then Some (dec stop) else None)"
    unfolding page_of_def start Let_def using lt ge cmp page stop un by simp
  moreover have "drop stop files \<noteq> []" if "stop < length files" using that by simp
  ultimately show ?thesis by auto
qed

theorem pagination_exact_witness:
  "page_of (Some 2) None [True, False, True] = Ok ([True, False], None)"
proof -
  have "length [True, False, True] < 2 ^ 64" "(0 :: nat) < length [True, False, True]" "0 + unat (2 :: usize) < 2 ^ 64"
    "(None :: string option) = (if (0 :: nat) = 0 then None else Some (dec 0))"
    "2 = min (0 + unat (2 :: usize)) (length [True, False, True])" by simp_all
  note page = pagination_exact [OF this, THEN conjunct2, THEN mp, THEN conjunct1]
  have "take (unat (2 :: usize)) (drop 0 [True, False, True]) = [True, False]" by simp
  with page show ?thesis by simp
qed

section \<open>Moves\<close>

text \<open>The file operations of a source act on the files in \<open>view\<close>: reading and asking for statistics change
  nothing, writing sets one file, and \<open>rm_rf\<close> removes the path and touches nothing that is not below it.\<close>

definition stores :: "'w file_operations \<Rightarrow> ('w \<Rightarrow> string \<Rightarrow> bytes option) \<Rightarrow> bool" where
  "stores ops view \<longleftrightarrow>
     (\<forall>p w d w'. fo_read ops p w = (Ok d, w') \<longrightarrow> view w p = Some d \<and> view w' = view w) \<and>
     (\<forall>p w st w'. fo_stat ops p w = (Ok st, w') \<longrightarrow> view w' = view w) \<and>
     (\<forall>p d w w'. fo_write ops p d w = (Ok (), w') \<longrightarrow> view w' = (view w)(p \<mapsto> d)) \<and>
     (\<forall>p w w'. fo_rm_rf ops p w = (Ok (), w') \<longrightarrow> view w' p = None \<and> (\<forall>q. \<not> prefix p q \<longrightarrow> view w' q = view w q))"

lemma on_world_Ok_iff: "on_world f s = (Ok a, s') \<longleftrightarrow> (\<exists>w. f (vs_world s) = (Ok a, w) \<and> s' = s\<lparr>vs_world := w\<rparr>)"
  by (auto simp: on_world_def split: prod.splits)

lemma get_file_ops_Ok: "get_file_ops i s = (Ok ops, s') \<Longrightarrow> s' = s \<and> get_file_ops i (s\<lparr>vs_world := w\<rparr>) = (Ok ops, s\<lparr>vs_world := w\<rparr>)"
  by (auto simp: get_file_ops_def split: option.splits)

text \<open>Moving a file within one source: if the destination is another path, it ends up with the bytes of the
  source file and the source file is gone; but moving a file into the directory it is already in copies it onto
  itself and then deletes it, and the file is lost although the move succeeds.\<close>

theorem move_within_source:
  assumes "get_file_ops i s = (Ok ops, s)" and "stores ops view"
    and "fo_stat ops from (vs_world s) = (Ok st, w1)" and "\<not> fs_is_dir st"
    and "move_to_source fuel i from i to s = (Ok n, s')"
    and "dest = path_join to (name_or ''file'' from)"
  shows "view (vs_world s') from = None \<and>
    (\<not> prefix from dest \<longrightarrow> view (vs_world s') dest = view (vs_world s) from \<and> view (vs_world s) from \<noteq> None)"
proof -
  have ops: "get_file_ops i (s\<lparr>vs_world := w\<rparr>) = (Ok ops, s\<lparr>vs_world := w\<rparr>)" for w
    using get_file_ops_Ok [OF assms(1)] by blast
  from assms(5) obtain d w2 w3 w4 where w: "fo_read ops from w1 = (Ok d, w2)" "fo_write ops dest d w2 = (Ok (), w3)"
    "fo_rm_rf ops from w3 = (Ok (), w4)" "s' = s\<lparr>vs_world := w4\<rparr>"
    using assms(3,4)
    by (auto simp: move_to_source_def copy_to_source_def and_then_Ok_iff on_world_Ok_iff assms(1,6) ops split: if_splits)
  have "view w1 = view (vs_world s)" "view w1 from = Some d" "view w2 = view w1" "view w3 = (view w2)(dest \<mapsto> d)"
    "view w4 from = None" "\<not> prefix from dest \<Longrightarrow> view w4 dest = view w3 dest"
    using assms(2,3) w(1-3) unfolding stores_def by blast+
  then show ?thesis by (simp add: w(4))
qed

lemma demo_ops_stores: "stores demo_ops (\<lambda>w. w)"
proof -
  have "w p = Some d" if "(case w p of Some d \<Rightarrow> Ok d | None \<Rightarrow> Err ''not found'') = (Ok d :: (string, bytes) outcome)"
    for w :: files and p d
    using that by (cases "w p") simp_all
  then show ?thesis unfolding stores_def demo_ops_def by simp
qed

theorem move_within_source_witness:
  "vs_world (snd (move_to_source 1 ''a'' ''/f'' ''a'' ''/'' demo_service)) ''/f'' = None"
proof -
  have ops: "get_file_ops ''a'' demo_service = (Ok demo_ops, demo_service)"
    by (simp add: get_file_ops_def demo_service_def add_source_def with_cache_and_factory_def demo_source_def)
  have world: "vs_world demo_service = [''/f'' \<mapsto> [1, 2]]"
    by (simp add: demo_service_def add_source_def with_cache_and_factory_def)
  have stat: "fo_stat demo_ops ''/f'' (vs_world demo_service) = (Ok \<lparr>fs_size = 2, fs_is_dir = False\<rparr>, vs_world demo_service)"
    by (simp add: demo_ops_def world)
  have "\<exists>n s'. move_to_source 1 ''a'' ''/f'' ''a'' ''/'' demo_service = (Ok n, s')"
    by (simp add: move_to_source_def copy_to_source_def and_then_def get_file_ops_def demo_service_def add_source_def
        with_cache_and_factory_def demo_source_def demo_ops_def on_world_def)
  then obtain n s' where "move_to_source 1 ''a'' ''/f'' ''a'' ''/'' demo_service = (Ok n, s')" by blast
  with move_within_source [OF ops demo_ops_stores stat _ this refl] show ?thesis by simp
qed

section \<open>Copying directories ends\<close>

text \<open>A measure that decreases from a directory to the directories it lists.\<close>

definition ranked :: "'w file_operations \<Rightarrow> (string \<Rightarrow> nat) \<Rightarrow> bool" where
  "ranked ops rank \<longleftrightarrow>
     (\<forall>p w es w'. fo_list ops p w = (Ok es, w') \<longrightarrow>
        (\<forall>e\<in>set es. fe_is_dir e \<longrightarrow> rank (path_join p (fe_name e)) < rank p))"

definition ranked_source :: "string \<Rightarrow> (string \<Rightarrow> nat) \<Rightarrow> ('c, 'w) vfs_service \<Rightarrow> bool" where
  "ranked_source i rank s \<longleftrightarrow> (\<forall>ops. fst (get_file_ops i s) = Ok ops \<longrightarrow> ranked ops rank)"

lemma and_then_cong:
  "m s = m' s \<Longrightarrow> (\<And>a t. m s = (Ok a, t) \<Longrightarrow> f a t = g a t) \<Longrightarrow> and_then m f s = and_then m' g s"
  by (auto simp: and_then_def split: prod.split outcome.split)

lemma get_file_ops_state [simp]: "snd (get_file_ops i s) = s"
  by (simp add: get_file_ops_def split: option.split)

lemma on_world_sources [simp]: "vs_sources (snd (on_world f s)) = vs_sources s"
  by (simp add: on_world_def split: prod.split)

lemma and_then_sources:
  assumes "vs_sources (snd (m s)) = vs_sources s" and "\<And>a t. vs_sources (snd (f a t)) = vs_sources t"
  shows "vs_sources (snd (and_then m f s)) = vs_sources s"
  using assms by (cases "m s"; cases "fst (m s)") (auto simp: and_then_def)

lemma copy_entries_sources:
  fixes s :: "('c, 'w) vfs_service"
  assumes "\<And>p q (s :: ('c, 'w) vfs_service). vs_sources (snd (copy_dir_to_source fuel i p j q s)) = vs_sources s"
  shows "vs_sources (snd (copy_entries fuel i p j q ops ops' es s)) = vs_sources s"
proof (induction es arbitrary: s)
  case (Cons e es)
  show ?case
    unfolding copy_entries.simps
    by (rule and_then_sources) (auto simp: assms Cons.IH intro!: and_then_sources)
qed simp

lemma copy_dir_sources: "vs_sources (snd (copy_dir_to_source fuel i p j q s)) = vs_sources s"
proof (induction fuel arbitrary: p q s)
  case (Suc fuel)
  show ?case
    unfolding copy_dir_to_source.simps Let_def
    by (intro and_then_sources) (simp_all add: copy_entries_sources Suc.IH)
qed simp

lemma ranked_source_cong: "vs_sources t = vs_sources s \<Longrightarrow> ranked_source i rank t = ranked_source i rank s"
  by (simp add: ranked_source_def get_file_ops_def split: option.split)

lemma copy_entries_fuel:
  fixes s :: "('c, 'w) vfs_service"
  assumes "\<And>e q (s :: ('c, 'w) vfs_service). e \<in> set es \<Longrightarrow> fe_is_dir e \<Longrightarrow> ranked_source i rank s \<Longrightarrow>
      copy_dir_to_source fuel i (path_join p (fe_name e)) j q s = copy_dir_to_source fuel' i (path_join p (fe_name e)) j q s"
    and "ranked_source i rank s"
  shows "copy_entries fuel i p j q ops ops' es s = copy_entries fuel' i p j q ops ops' es s"
  using assms
proof (induction es arbitrary: s)
  case (Cons e es)
  let ?m = "\<lambda>fuel (s :: ('c, 'w) vfs_service). if fe_is_dir e then copy_dir_to_source fuel i (path_join p (fe_name e)) j q s
      else and_then (on_world (fo_read ops (path_join p (fe_name e))))
             (\<lambda>d. and_then (on_world (fo_write ops' (path_join q (fe_name e)) d)) (\<lambda>_ s. (Ok (fe_size e), s))) s"
  have sources: "vs_sources (snd (?m fuel s)) = vs_sources s" by (auto simp: copy_dir_sources intro!: and_then_sources)
  have rest: "copy_entries fuel i p j q ops ops' es t = copy_entries fuel' i p j q ops ops' es t"
    if "?m fuel s = (r, t)" for r t
  proof -
    have "vs_sources t = vs_sources s" using that sources by simp
    then have "ranked_source i rank t" using Cons.prems(2) ranked_source_cong by blast
    then show ?thesis using Cons.IH Cons.prems(1) by simp
  qed
  have first: "?m fuel s = ?m fuel' s" using Cons.prems by simp
  show ?case
    unfolding copy_entries.simps
  proof (rule and_then_cong [where m = "?m fuel" and m' = "?m fuel'" and s = s])
    show "?m fuel s = ?m fuel' s" by (rule first)
    show "and_then (copy_entries fuel i p j q ops ops' es) (\<lambda>m s. (Ok (a + m), s)) t =
        and_then (copy_entries fuel' i p j q ops ops' es) (\<lambda>m s. (Ok (a + m), s)) t" if "?m fuel s = (Ok a, t)" for a t
      using rest [OF that] by (simp add: and_then_def)
  qed
qed simp



end
