(* ===== verification/Service_Sources.thy ===== *)
theory Service_Sources
  imports Vfs_Service Settings_Store
begin

text \<open>
  The rest of the service of the desktop application (\<open>application/vfs_service.rs\<close>): the operations it hands to the
  file operations of a source, and the life of a source - registered, given credentials, saved
  (\<open>infrastructure/storage_persistence.rs\<close>), restored after a restart, removed.

  Adapters are built by a factory, which is an argument (\<open>factory\<close>); so are the identifiers, the clock and what the
  host does with the two files. Credentials are kept by the store of \<open>Settings_Store\<close>. Error texts are shortened.
\<close>

section \<open>Operations on a source\<close>

definition with_ops :: "string \<Rightarrow> ('w file_operations \<Rightarrow> ('w, 'a) io_act) \<Rightarrow> ('c, 'w, 'a) svc_act" where
  "with_ops i f = and_then (get_file_ops i) (\<lambda>ops. on_world (f ops))"

definition svc_mkdir :: "string \<Rightarrow> string \<Rightarrow> ('c, 'w, unit) svc_act" where
  "svc_mkdir i p = with_ops i (\<lambda>ops. fo_mkdir ops p)"

definition svc_mkdir_p :: "string \<Rightarrow> string \<Rightarrow> ('c, 'w, unit) svc_act" where
  "svc_mkdir_p i p = with_ops i (\<lambda>ops. fo_mkdir_p ops p)"

definition svc_rmdir :: "string \<Rightarrow> string \<Rightarrow> ('c, 'w, unit) svc_act" where
  "svc_rmdir i p = with_ops i (\<lambda>ops. fo_rmdir ops p)"

definition svc_rename :: "string \<Rightarrow> string \<Rightarrow> string \<Rightarrow> ('c, 'w, unit) svc_act" where
  "svc_rename i from to = with_ops i (\<lambda>ops. fo_rename ops from to)"

definition svc_copy :: "string \<Rightarrow> string \<Rightarrow> string \<Rightarrow> copy_options \<Rightarrow> ('c, 'w, unit) svc_act" where
  "svc_copy i from to opts = with_ops i (\<lambda>ops. fo_copy ops from to opts)"

text \<open>The only option of a move is whether to overwrite.\<close>

definition svc_mv :: "string \<Rightarrow> string \<Rightarrow> string \<Rightarrow> bool \<Rightarrow> ('c, 'w, unit) svc_act" where
  "svc_mv i from to overwrite = with_ops i (\<lambda>ops. fo_mv ops from to overwrite)"

definition svc_rm :: "string \<Rightarrow> string \<Rightarrow> ('c, 'w, unit) svc_act" where
  "svc_rm i p = with_ops i (\<lambda>ops. fo_rm ops p)"

definition svc_rm_rf :: "string \<Rightarrow> string \<Rightarrow> ('c, 'w, unit) svc_act" where
  "svc_rm_rf i p = with_ops i (\<lambda>ops. fo_rm_rf ops p)"

definition svc_chmod :: "string \<Rightarrow> string \<Rightarrow> u32 \<Rightarrow> ('c, 'w, unit) svc_act" where
  "svc_chmod i p m = with_ops i (\<lambda>ops. fo_chmod ops p m)"

definition svc_stat :: "string \<Rightarrow> string \<Rightarrow> ('c, 'w, file_stat) svc_act" where
  "svc_stat i p = with_ops i (\<lambda>ops. fo_stat ops p)"

definition svc_get_metadata :: "string \<Rightarrow> string \<Rightarrow> ('c, 'w, virtual_file) svc_act" where
  "svc_get_metadata i p = and_then (adapter_of i) (\<lambda>a. on_world (sa_get_metadata a p))"

definition svc_touch :: "string \<Rightarrow> string \<Rightarrow> ('c, 'w, unit) svc_act" where
  "svc_touch i p = with_ops i (\<lambda>ops. fo_touch ops p)"

definition svc_exists :: "string \<Rightarrow> string \<Rightarrow> ('c, 'w, bool) svc_act" where
  "svc_exists i p = with_ops i (\<lambda>ops. fo_exists ops p)"

definition svc_read :: "string \<Rightarrow> string \<Rightarrow> ('c, 'w, bytes) svc_act" where
  "svc_read i p = with_ops i (\<lambda>ops. fo_read ops p)"

definition svc_write :: "string \<Rightarrow> string \<Rightarrow> bytes \<Rightarrow> ('c, 'w, unit) svc_act" where
  "svc_write i p d = with_ops i (\<lambda>ops. fo_write ops p d)"

definition svc_append :: "string \<Rightarrow> string \<Rightarrow> bytes \<Rightarrow> ('c, 'w, unit) svc_act" where
  "svc_append i p d = with_ops i (\<lambda>ops. fo_append ops p d)"

definition svc_cache_stats :: "('c, 'w) vfs_service \<Rightarrow> cache_stats" where
  "svc_cache_stats s = cp_stats (vs_cache_port s) (vs_cache s)"

definition svc_clear_cache :: "('c, 'w, unit) svc_act" where
  "svc_clear_cache s = on_cache (cp_clear (vs_cache_port s)) s"

text \<open>A path on the host, up to the spelling of repeated slashes and dots.\<close>

definition get_real_path :: "string \<Rightarrow> string \<Rightarrow> ('c, 'w) vfs_service \<Rightarrow> (string, string) outcome" where
  "get_real_path i p s =
     (case get_source i s of
        None \<Rightarrow> Err (''Storage source not found: '' @ i)
      | Some src \<Rightarrow>
          (case ss_mount_point src of
             None \<Rightarrow> Err ''Cannot get real path for non-local storage source''
           | Some m \<Rightarrow>
               Ok (if p \<noteq> [] \<and> hd p = slash
                   then if prefix (path_components m) (path_components p) then p
                        else path_join m (trim_start_matches slash p)
                   else path_join m p)))"

section \<open>Saved sources\<close>

record persisted_source =
  pp_id :: string
  pp_name :: string
  pp_type :: string
  pp_config :: storage_config
  pp_mount_point :: "string option"

datatype sources_file = NoSources | BlankSources | UnparsableSources | SavedSources "persisted_source list"

text \<open>\<open>{:?}\<close> of a string: quotes, backslashes and control characters are escaped.\<close>

definition hex_digit :: "nat \<Rightarrow> char" where
  "hex_digit n = (if n < 10 then digit n else char_of (87 + n))"

definition escape_char :: "char \<Rightarrow> string" where
  "escape_char c =
     (let n = of_char c :: nat in
      if c = CHR 0x22 then [backslash, CHR 0x22]
      else if c = backslash then [backslash, backslash]
      else if n = 9 then [backslash, CHR ''t'']
      else if n = 10 then [backslash, CHR ''n'']
      else if n = 13 then [backslash, CHR ''r'']
      else if n = 0 then [backslash, CHR ''0'']
      else if n < 16 then backslash # ''u{'' @ [hex_digit n] @ ''}''
      else if n < 32 \<or> n = 127 then backslash # ''u{'' @ [hex_digit (n div 16), hex_digit (n mod 16)] @ ''}''
      else [c])"

definition debug_string :: "string \<Rightarrow> string" where
  "debug_string s = [CHR 0x22] @ concat (map escape_char s) @ [CHR 0x22]"

fun debug_type :: "storage_source_type \<Rightarrow> string" where
  "debug_type LocalDir = ''Local''"
| "debug_type S3 = ''S3''"
| "debug_type Gcs = ''Gcs''"
| "debug_type AzureBlob = ''AzureBlob''"
| "debug_type S3Compatible = ''S3Compatible''"
| "debug_type FsxN = ''FsxN''"
| "debug_type FsxOntap = ''FsxOntap''"
| "debug_type Nfs = ''Nfs''"
| "debug_type Smb = ''Smb''"
| "debug_type Nas = ''Nas''"
| "debug_type Sftp = ''Sftp''"
| "debug_type WebDav = ''WebDav''"
| "debug_type Block = ''Block''"
| "debug_type (CustomType i) = ''Custom('' @ debug_string i @ '')''"

definition strip_suffix :: "string \<Rightarrow> string \<Rightarrow> string option" where
  "strip_suffix q s = map_option rev (strip_prefix (rev q) (rev s))"

definition parse_type :: "string \<Rightarrow> storage_source_type" where
  "parse_type t =
     (if t = ''Local'' then LocalDir
      else if t = ''S3'' then S3
      else if t = ''Gcs'' then Gcs
      else if t = ''AzureBlob'' then AzureBlob
      else if t = ''S3Compatible'' then S3Compatible
      else if t = ''FsxOntap'' then FsxOntap
      else if t = ''Nfs'' then Nfs
      else if t = ''Smb'' \<or> t = ''Nas'' then Nas
      else if t = ''Sftp'' then Sftp
      else if t = ''WebDav'' then WebDav
      else
        (case strip_prefix ''Custom('' t of
           Some r \<Rightarrow> CustomType (case strip_suffix '')'' r of Some i \<Rightarrow> i | None \<Rightarrow> ''custom'')
         | None \<Rightarrow> CustomType t))"

definition persisted_from :: "storage_source \<Rightarrow> persisted_source" where
  "persisted_from src =
     \<lparr>pp_id = ss_id src, pp_name = ss_name src, pp_type = debug_type (ss_type src), pp_config = ss_config src,
      pp_mount_point = ss_mount_point src\<rparr>"

definition restored_from :: "persisted_source \<Rightarrow> storage_source" where
  "restored_from q =
     \<lparr>ss_id = pp_id q, ss_name = pp_name q, ss_type = parse_type (pp_type q), ss_status = Disconnected,
      ss_mounted = False, ss_mount_point = pp_mount_point q, ss_config = pp_config q\<rparr>"

definition system_names :: "string list" where
  "system_names = [''Home'', ''Desktop'', ''Documents'', ''Downloads'', ''Pictures'', ''Music'', ''Videos'']"

record sources_io =
  pi_data_dir :: bool
  pi_read :: bool
  pi_write :: write_result

definition persistence_load :: "sources_io \<Rightarrow> sources_file \<Rightarrow> (string, storage_source list) outcome" where
  "persistence_load i f =
     (if f = NoSources then Ok []
      else if \<not> pi_read i then Err ''Failed to read storage sources file''
      else
        (case f of
           SavedSources qs \<Rightarrow> Ok (map restored_from qs)
         | UnparsableSources \<Rightarrow> Err ''Failed to parse storage sources file''
         | _ \<Rightarrow> Ok []))"

definition persistence_save :: "sources_io \<Rightarrow> storage_source list \<Rightarrow> (sources_file, string, unit) act" where
  "persistence_save i srcs f =
     (case pi_write i of
        Written \<Rightarrow> (Ok (), SavedSources (map persisted_from (filter (\<lambda>src. ss_name src \<notin> set system_names) srcs)))
      | Refused \<Rightarrow> (Err ''Failed to write storage sources file'', f)
      | Torn b \<Rightarrow> (Err ''Failed to write storage sources file'', if b = [] then BlankSources else UnparsableSources))"

definition persistence_remove :: "sources_io \<Rightarrow> string \<Rightarrow> (sources_file, string, unit) act" where
  "persistence_remove i k f =
     (case persistence_load i f of
        Ok srcs \<Rightarrow> persistence_save i (filter (\<lambda>src. ss_id src \<noteq> k) srcs) f
      | Err e \<Rightarrow> (Err e, f)
      | Panic \<Rightarrow> (Panic, f))"

section \<open>The life of a source\<close>

record adapter_config =
  ac_type :: storage_source_type
  ac_path_or_bucket :: string
  ac_region :: "string option"
  ac_endpoint :: "string option"
  ac_access_key :: "string option"
  ac_secret_key :: "string option"

record s3_params =
  s3_bucket :: string
  s3_region :: string
  s3_access_key :: "string option"
  s3_secret_key :: "string option"
  s3_session_token :: "string option"
  s3_endpoint :: "string option"
  s3_name :: string

record 'w factory =
  fa_create :: "adapter_config \<Rightarrow> ('w, 'w storage_adapter) io_act"
  fa_test :: "'w storage_adapter \<Rightarrow> ('w, bool) io_act"
  fa_s3 :: "s3_params \<Rightarrow> ('w, 'w file_operations) io_act"
  fa_local :: "string \<Rightarrow> string \<Rightarrow> 'w file_operations"

record ('c, 'w) desktop =
  dt_service :: "('c, 'w) vfs_service"
  dt_settings :: "settings_store option"
  dt_file :: sources_file
  dt_uuids :: "nat \<Rightarrow> string"
  dt_next :: nat

record host =
  ho_codec :: codec
  ho_settings :: settings_io
  ho_sources :: sources_io
  ho_now :: int

type_synonym ('c, 'w, 'a) dt_act = "(('c, 'w) desktop, string, 'a) act"

definition on_service :: "('c, 'w, 'a) svc_act \<Rightarrow> ('c, 'w, 'a) dt_act" where
  "on_service f s = (case f (dt_service s) of (r, v) \<Rightarrow> (r, s\<lparr>dt_service := v\<rparr>))"

definition register :: "storage_source \<Rightarrow> 'w storage_adapter \<Rightarrow> 'w file_operations option \<Rightarrow> ('c, 'w) desktop \<Rightarrow> ('c, 'w) desktop" where
  "register src a ops s = s\<lparr>dt_service := add_source src a ops (dt_service s)\<rparr>"

definition empty_config :: storage_config where
  "empty_config =
     \<lparr>sc_path_or_bucket = [], sc_region = None, sc_endpoint = None, sc_access_key = None, sc_secret_key = None,
      sc_session_token = None\<rparr>"

text \<open>\<open>new\<close>, \<open>with_cache\<close> and \<open>with_cache_config\<close> are this with a cache and a factory of their own.\<close>

definition desktop_new :: "('c, 'w) vfs_service \<Rightarrow> sources_file \<Rightarrow> (nat \<Rightarrow> string) \<Rightarrow> ('c, 'w) desktop" where
  "desktop_new v f ids = \<lparr>dt_service = v, dt_settings = None, dt_file = f, dt_uuids = ids, dt_next = 0\<rparr>"

definition set_event_bus :: "(vfs_event \<Rightarrow> ('w, unit) io_act) \<Rightarrow> ('c, 'w) desktop \<Rightarrow> ('c, 'w) desktop" where
  "set_event_bus bus s = s\<lparr>dt_service := (dt_service s)\<lparr>vs_event_bus := Some bus\<rparr>\<rparr>"

definition set_settings_manager :: "settings_store \<Rightarrow> ('c, 'w) desktop \<Rightarrow> ('c, 'w) desktop" where
  "set_settings_manager st s = s\<lparr>dt_settings := Some st\<rparr>"

text \<open>\<open>f\<close>: the settings file on the host.\<close>

definition init_settings_manager :: "bool \<Rightarrow> settings_file \<Rightarrow> ('c, 'w, unit) dt_act" where
  "init_settings_manager dir_ok f s =
     (if dir_ok then (Ok (), set_settings_manager (settings_store_new f) s)
      else (Err ''Failed to create settings directory'', s))"

definition add_local_source :: "'w factory \<Rightarrow> string \<Rightarrow> string \<Rightarrow> ('c, 'w, storage_source) dt_act" where
  "add_local_source fa name path =
     and_then
       (on_service (on_world (fa_create fa
          \<lparr>ac_type = LocalDir, ac_path_or_bucket = path, ac_region = None, ac_endpoint = None, ac_access_key = None,
           ac_secret_key = None\<rparr>)))
       (\<lambda>a s.
          let src = \<lparr>ss_id = dt_uuids s (dt_next s), ss_name = name, ss_type = LocalDir, ss_status = Connected,
                     ss_mounted = True, ss_mount_point = Some path,
                     ss_config = empty_config\<lparr>sc_path_or_bucket := path\<rparr>\<rparr>
          in (Ok src, register src a (Some (fa_local fa path name)) (s\<lparr>dt_next := Suc (dt_next s)\<rparr>)))"

definition s3_config :: "string \<Rightarrow> string \<Rightarrow> string option \<Rightarrow> storage_config" where
  "s3_config bucket region endpoint =
     empty_config\<lparr>sc_path_or_bucket := bucket, sc_region := Some region, sc_endpoint := endpoint\<rparr>"

definition s3_credentials :: "string option \<Rightarrow> string option \<Rightarrow> string option \<Rightarrow> string \<Rightarrow> secrets" where
  "s3_credentials access secret token region =
     AwsS3 (case access of Some k \<Rightarrow> k | None \<Rightarrow> []) (new_plaintext (case secret of Some k \<Rightarrow> k | None \<Rightarrow> []))
       (map_option new_plaintext token) region"

definition keep_credentials :: "host \<Rightarrow> string \<Rightarrow> string \<Rightarrow> secrets \<Rightarrow> ('c, 'w, unit) dt_act" where
  "keep_credentials h k name c s =
     (case dt_settings s of
        None \<Rightarrow> (Err ''Settings manager not initialized. Cannot save credentials.'', s)
      | Some st \<Rightarrow>
          (case save_credentials (ho_codec h) (ho_settings h) (ho_now h) k name c st of
             (Ok _, st) \<Rightarrow> (Ok (), s\<lparr>dt_settings := Some st\<rparr>)
           | (Err e, st) \<Rightarrow> (Err ''Failed to save S3 credentials'', s\<lparr>dt_settings := Some st\<rparr>)
           | (Panic, st) \<Rightarrow> (Panic, s\<lparr>dt_settings := Some st\<rparr>)))"

text \<open>The result of the connection test becomes the status; a failed attempt to keep the credentials is ignored.\<close>

definition test_status :: "'w factory \<Rightarrow> 'w storage_adapter \<Rightarrow> ('c, 'w, connection_status) dt_act" where
  "test_status fa a s =
     (case on_service (on_world (fa_test fa a)) s of
        (Ok True, s) \<Rightarrow> (Ok Connected, s)
      | (Ok False, s) \<Rightarrow> (Ok (ConnectionError ''Connection test failed''), s)
      | (Err e, s) \<Rightarrow> (Ok (ConnectionError (''Connection test error: '' @ e)), s)
      | (Panic, s) \<Rightarrow> (Panic, s))"

definition add_s3_source ::
    "'w factory \<Rightarrow> host \<Rightarrow> string \<Rightarrow> string \<Rightarrow> string \<Rightarrow> string option \<Rightarrow> string option \<Rightarrow> string option \<Rightarrow> string option \<Rightarrow>
     ('c, 'w, storage_source) dt_act" where
  "add_s3_source fa h name bucket region access secret token endpoint =
     and_then
       (map_err (\<lambda>e. ''Failed to create S3 adapter: '' @ e)
          (on_service (on_world (fa_create fa
             \<lparr>ac_type = S3, ac_path_or_bucket = bucket, ac_region = Some region, ac_endpoint = endpoint,
              ac_access_key = access, ac_secret_key = secret\<rparr>))))
       (\<lambda>a. and_then (test_status fa a)
       (\<lambda>status s.
          let src = \<lparr>ss_id = dt_uuids s (dt_next s), ss_name = name, ss_type = S3, ss_status = status,
                     ss_mounted = (status = Connected), ss_mount_point = None,
                     ss_config = s3_config bucket region endpoint\<rparr>
          in and_then
               (on_service (on_world (fa_s3 fa
                  \<lparr>s3_bucket = bucket, s3_region = region, s3_access_key = access, s3_secret_key = secret,
                   s3_session_token = token, s3_endpoint = endpoint, s3_name = name\<rparr>)))
               (\<lambda>ops s.
                  let s = register src a (Some ops) s;
                      s = (if dt_settings s \<noteq> None \<and> (access \<noteq> None \<or> secret \<noteq> None)
                           then snd (keep_credentials h (ss_id src) name (s3_credentials access secret token region) s)
                           else s)
                  in (Ok src, s))
               (s\<lparr>dt_next := Suc (dt_next s)\<rparr>)))"

definition load_credentials :: "host \<Rightarrow> string \<Rightarrow> ('c, 'w) desktop \<Rightarrow> (string, secrets option) outcome" where
  "load_credentials h k s =
     (case dt_settings s of
        None \<Rightarrow> Ok None
      | Some st \<Rightarrow>
          (case get_credentials (ho_codec h) (ho_settings h) k st of
             Ok c \<Rightarrow> Ok c | Err e \<Rightarrow> Err ''Failed to load credentials'' | Panic \<Rightarrow> Panic))"

text \<open>Replacing the adapter and the file operations of a source, if it is still registered.\<close>

definition replace_adapters :: "string \<Rightarrow> 'w storage_adapter \<Rightarrow> 'w file_operations \<Rightarrow> ('c, 'w, unit) dt_act" where
  "replace_adapters k a ops s =
     (case hm_get (vs_sources (dt_service s)) k of
        None \<Rightarrow> (Err (''Storage source not found: '' @ k), s)
      | Some st \<Rightarrow>
          (Ok (), s\<lparr>dt_service := (dt_service s)\<lparr>vs_sources :=
             hm_insert k (st\<lparr>st_adapter := a, st_file_ops := Some ops\<rparr>) (vs_sources (dt_service s))\<rparr>\<rparr>))"

definition rebuild_s3 ::
    "'w factory \<Rightarrow> string \<Rightarrow> storage_source \<Rightarrow> string \<Rightarrow> string option \<Rightarrow> string option \<Rightarrow> string option \<Rightarrow> ('c, 'w, unit) dt_act" where
  "rebuild_s3 fa k src region access secret token =
     and_then
       (on_service (on_world (fa_create fa
          \<lparr>ac_type = S3, ac_path_or_bucket = sc_path_or_bucket (ss_config src), ac_region = Some region,
           ac_endpoint = sc_endpoint (ss_config src), ac_access_key = access, ac_secret_key = secret\<rparr>)))
       (\<lambda>a. and_then
          (on_service (on_world (fa_s3 fa
             \<lparr>s3_bucket = sc_path_or_bucket (ss_config src), s3_region = region, s3_access_key = access,
              s3_secret_key = secret, s3_session_token = token, s3_endpoint = sc_endpoint (ss_config src),
              s3_name = ss_name src\<rparr>)))
          (\<lambda>ops. replace_adapters k a ops))"

definition update_s3_credentials ::
    "'w factory \<Rightarrow> host \<Rightarrow> string \<Rightarrow> string \<Rightarrow> string \<Rightarrow> string option \<Rightarrow> ('c, 'w, unit) dt_act" where
  "update_s3_credentials fa h k access secret token s =
     (case get_source k (dt_service s) of
        None \<Rightarrow> (Err (''Storage source not found: '' @ k), s)
      | Some src \<Rightarrow>
          if ss_type src \<noteq> S3 then (Err (''Source '' @ k @ '' is not an S3 storage source''), s)
          else
            (case sc_region (ss_config src) of
               None \<Rightarrow> (Err (''S3 source '' @ k @ '' does not have a region configured''), s)
             | Some region \<Rightarrow>
                 and_then (keep_credentials h k (ss_name src) (s3_credentials (Some access) (Some secret) token region))
                   (\<lambda>_. rebuild_s3 fa k src region (Some access) (Some secret) token) s))"

definition refresh_s3_credentials ::
    "'w factory \<Rightarrow> string \<Rightarrow> string option \<Rightarrow> string option \<Rightarrow> string option \<Rightarrow> ('c, 'w, unit) dt_act" where
  "refresh_s3_credentials fa k access secret token s =
     (case get_source k (dt_service s) of
        None \<Rightarrow> (Err (''Storage source not found: '' @ k), s)
      | Some src \<Rightarrow>
          if ss_type src \<noteq> S3 then (Err (''Source '' @ k @ '' is not an S3 source''), s)
          else rebuild_s3 fa k src (case sc_region (ss_config src) of Some r \<Rightarrow> r | None \<Rightarrow> ''us-east-1'') access secret token s)"

definition remove_source_async :: "host \<Rightarrow> string \<Rightarrow> ('c, 'w) desktop \<Rightarrow> storage_source option \<times> ('c, 'w) desktop" where
  "remove_source_async h k s =
     (case remove_source k (dt_service s) of
        (removed, v) \<Rightarrow>
          (removed,
           s\<lparr>dt_service := v,
             dt_settings := (if removed = None then dt_settings s
                             else map_option (\<lambda>st. snd (remove_credentials (ho_codec h) (ho_settings h) k st)) (dt_settings s))\<rparr>))"

definition save_sources :: "host \<Rightarrow> ('c, 'w, unit) dt_act" where
  "save_sources h s =
     (if \<not> pi_data_dir (ho_sources h) then (Err ''Failed to create storage persistence directory'', s)
      else
        (case persistence_save (ho_sources h) (list_sources (dt_service s)) (dt_file s) of
           (r, f) \<Rightarrow> (r, s\<lparr>dt_file := f\<rparr>)))"

text \<open>The keys a restored source is given: \<open>if let Ok(Some(AwsS3 ...))\<close>.\<close>

definition stored_keys :: "host \<Rightarrow> string \<Rightarrow> ('c, 'w) desktop \<Rightarrow> string option \<times> string option \<times> string option" where
  "stored_keys h k s =
     (case load_credentials h k s of
        Ok (Some (AwsS3 access secret token region)) \<Rightarrow>
          (Some access, es_plaintext secret, Option.bind token es_plaintext)
      | _ \<Rightarrow> (None, None, None))"

definition restore_one :: "'w factory \<Rightarrow> host \<Rightarrow> storage_source \<Rightarrow> ('c, 'w, unit) dt_act" where
  "restore_one fa h src s =
     (if category (ss_type src) \<noteq> CloudCat then (Ok (), s)
      else
        (case on_service (on_world (fa_create fa
             \<lparr>ac_type = ss_type src, ac_path_or_bucket = sc_path_or_bucket (ss_config src),
              ac_region = sc_region (ss_config src), ac_endpoint = sc_endpoint (ss_config src), ac_access_key = None,
              ac_secret_key = None\<rparr>)) s of
           (Err e, s) \<Rightarrow> (Ok (), s)
         | (Panic, s) \<Rightarrow> (Panic, s)
         | (Ok a, s) \<Rightarrow>
             if ss_type src \<noteq> S3 then (Ok (), register src a None s)
             else
               (case stored_keys h (ss_id src) s of
                  (access, secret, token) \<Rightarrow>
                    (case on_service (on_world (fa_s3 fa
                         \<lparr>s3_bucket = sc_path_or_bucket (ss_config src),
                          s3_region = (case sc_region (ss_config src) of Some r \<Rightarrow> r | None \<Rightarrow> []),
                          s3_access_key = access, s3_secret_key = secret, s3_session_token = token,
                          s3_endpoint = sc_endpoint (ss_config src), s3_name = ss_name src\<rparr>)) s of
                       (Ok ops, s) \<Rightarrow> (Ok (), register src a (Some ops) s)
                     | (Err e, s) \<Rightarrow> (Ok (), s)
                     | (Panic, s) \<Rightarrow> (Panic, s)))))"

fun restore_all :: "'w factory \<Rightarrow> host \<Rightarrow> storage_source list \<Rightarrow> ('c, 'w, unit) dt_act" where
  "restore_all fa h [] s = (Ok (), s)"
| "restore_all fa h (src # srcs) s = and_then (restore_one fa h src) (\<lambda>_. restore_all fa h srcs) s"

definition load_sources :: "'w factory \<Rightarrow> host \<Rightarrow> ('c, 'w, unit) dt_act" where
  "load_sources fa h s =
     (if \<not> pi_data_dir (ho_sources h) then (Err ''Failed to create storage persistence directory'', s)
      else
        (case persistence_load (ho_sources h) (dt_file s) of
           Ok srcs \<Rightarrow> restore_all fa h srcs s
         | Err e \<Rightarrow> (Err e, s)
         | Panic \<Rightarrow> (Panic, s)))"

section \<open>Types of saved sources\<close>

lemma strip_suffix_append [simp]: "strip_suffix q (s @ q) = Some s"
  by (simp add: strip_suffix_def)

lemma parse_custom: "parse_type (''Custom('' @ i @ '')'') = CustomType i"
proof -
  have "strip_suffix '')'' (i @ '')'') = Some i" by simp
  then show ?thesis by (simp add: parse_type_def)
qed

lemma parse_debug_type:
  "parse_type (debug_type t) =
     (case t of
        FsxN \<Rightarrow> CustomType ''FsxN''
      | Block \<Rightarrow> CustomType ''Block''
      | Smb \<Rightarrow> Nas
      | CustomType i \<Rightarrow> CustomType (debug_string i)
      | _ \<Rightarrow> t)"
proof (cases t)
  case (CustomType i)
  then show ?thesis using parse_custom [of "debug_string i"] by simp
qed (simp_all add: parse_type_def)

lemma saved_category: "category (parse_type (debug_type t)) = CloudCat \<longleftrightarrow> category t = CloudCat"
  unfolding parse_debug_type by (cases t) simp_all

lemma saved_cloud_type: "category t = CloudCat \<Longrightarrow> parse_type (debug_type t) = t"
  unfolding parse_debug_type by (cases t) simp_all

section \<open>Restart\<close>

text \<open>The factory builds every adapter that is asked for.\<close>

definition builds ::
    "'w factory \<Rightarrow> (adapter_config \<Rightarrow> 'w storage_adapter) \<Rightarrow> (s3_params \<Rightarrow> 'w file_operations) \<Rightarrow> bool" where
  "builds fa mk mkops \<longleftrightarrow>
     (\<forall>c w. fa_create fa c w = (Ok (mk c), w)) \<and> (\<forall>q w. fa_s3 fa q w = (Ok (mkops q), w))"

definition registry_ok :: "('c, 'w) vfs_service \<Rightarrow> bool" where
  "registry_ok v \<longleftrightarrow> hm_wf (vs_sources v) \<and> (\<forall>k st. hm_get (vs_sources v) k = Some st \<longrightarrow> ss_id (st_source st) = k)"

text \<open>What a restored source is registered as: built without keys, its file operations with the stored keys.\<close>

definition as_restored ::
    "(adapter_config \<Rightarrow> 'w storage_adapter) \<Rightarrow> (s3_params \<Rightarrow> 'w file_operations) \<Rightarrow>
     string option \<times> string option \<times> string option \<Rightarrow> storage_source \<Rightarrow> 'w source_state" where
  "as_restored mk mkops keys src =
     \<lparr>st_source = src,
      st_adapter = mk \<lparr>ac_type = ss_type src, ac_path_or_bucket = sc_path_or_bucket (ss_config src),
        ac_region = sc_region (ss_config src), ac_endpoint = sc_endpoint (ss_config src), ac_access_key = None,
        ac_secret_key = None\<rparr>,
      st_file_ops = (if ss_type src \<noteq> S3 then None else Some (mkops
        \<lparr>s3_bucket = sc_path_or_bucket (ss_config src),
         s3_region = (case sc_region (ss_config src) of Some r \<Rightarrow> r | None \<Rightarrow> []), s3_access_key = fst keys,
         s3_secret_key = fst (snd keys), s3_session_token = snd (snd keys), s3_endpoint = sc_endpoint (ss_config src),
         s3_name = ss_name src\<rparr>))\<rparr>"

lemma stored_keys_cong: "dt_settings s = dt_settings t \<Longrightarrow> stored_keys h k s = stored_keys h k t"
  by (simp add: stored_keys_def load_credentials_def)

lemma register_frame [simp]:
  "dt_settings (register src a ops s) = dt_settings s" "dt_file (register src a ops s) = dt_file s"
  by (simp_all add: register_def)

lemma restore_one_builds:
  assumes "builds fa mk mkops"
  shows "restore_one fa h src s =
    (Ok (), if category (ss_type src) \<noteq> CloudCat then s
            else s\<lparr>dt_service := (dt_service s)\<lparr>vs_sources :=
              hm_insert (ss_id src) (as_restored mk mkops (stored_keys h (ss_id src) s) src) (vs_sources (dt_service s))\<rparr>\<rparr>)"
  using assms
  by (auto simp: restore_one_def builds_def on_service_def on_world_def register_def add_source_def as_restored_def
      split: prod.splits)

lemma restore_all_builds:
  assumes "builds fa mk mkops"
  shows "\<exists>s'. restore_all fa h srcs s = (Ok (), s') \<and>
    vs_sources (dt_service s') =
      fold (\<lambda>src. hm_insert (ss_id src) (as_restored mk mkops (stored_keys h (ss_id src) s) src))
        (filter (\<lambda>src. category (ss_type src) = CloudCat) srcs) (vs_sources (dt_service s))"
proof (induction srcs arbitrary: s)
  case (Cons src srcs)
  define t where "t = snd (restore_one fa h src s)"
  have one: "restore_one fa h src s = (Ok (), t)" by (simp add: t_def restore_one_builds [OF assms])
  have keys: "stored_keys h k t = stored_keys h k s" for k
    by (rule stored_keys_cong) (simp add: t_def restore_one_builds [OF assms])
  obtain s' where "restore_all fa h srcs t = (Ok (), s')"
    "vs_sources (dt_service s') =
      fold (\<lambda>src. hm_insert (ss_id src) (as_restored mk mkops (stored_keys h (ss_id src) t) src))
        (filter (\<lambda>src. category (ss_type src) = CloudCat) srcs) (vs_sources (dt_service t))"
    using Cons.IH by blast
  then show ?case using one unfolding keys by (auto simp: t_def restore_one_builds [OF assms])
qed simp

lemma fold_insert_get:
  assumes "distinct (map f xs)"
  shows "hm_get (fold (\<lambda>x. hm_insert (f x) (g x)) xs m) k =
    (case find (\<lambda>x. f x = k) xs of Some x \<Rightarrow> Some (g x) | None \<Rightarrow> hm_get m k)"
  using assms
proof (induction xs arbitrary: m)
  case (Cons x xs)
  have "find (\<lambda>y. f y = f x) xs = None" using Cons.prems unfolding find_None_iff by auto (metis imageI)
  then show ?case using Cons by (auto split: option.split)
qed simp

lemma find_filter_map_of:
  assumes "registry_ok v"
  shows "find (\<lambda>src. ss_id src = k) (filter P (list_sources v)) =
    (case get_source k v of Some src \<Rightarrow> if P src then Some src else None | None \<Rightarrow> None)"
proof -
  have "find (\<lambda>src. ss_id src = k) (filter P (map (st_source \<circ> snd) m)) =
      (case map_option st_source (hm_get m k) of Some src \<Rightarrow> if P src then Some src else None | None \<Rightarrow> None)"
    if "hm_wf m" "\<forall>x\<in>set m. ss_id (st_source (snd x)) = fst x" for m :: "(string \<times> 'b source_state) list"
    using that
  proof (induction m)
    case (Cons x m)
    have "fst x \<notin> fst ` set m" "hm_wf m" using Cons.prems(1) by (auto simp: hm_wf_def)
    then have "find (\<lambda>src. ss_id src = fst x) (filter P (map (st_source \<circ> snd) m)) = None" "hm_get m (fst x) = None"
      using Cons.prems(2) by (auto simp: find_None_iff map_of_eq_None_iff) (metis fst_conv image_eqI)
    with Cons \<open>hm_wf m\<close> show ?case by (cases x) (auto split: option.split)
  qed simp
  moreover have "\<forall>x\<in>set (vs_sources v). ss_id (st_source (snd x)) = fst x"
    using assms by (auto simp: registry_ok_def hm_get_set)
  ultimately show ?thesis using assms by (simp add: registry_ok_def list_sources_def get_source_def)
qed

lemma find_SomeD: "find P xs = Some x \<Longrightarrow> P x"
  by (auto simp: find_Some_iff)

lemma get_as_restored: "st_source (as_restored mk mkops keys src) = src"
  by (simp add: as_restored_def)


definition demo_factory :: "files factory" where
  "demo_factory =
     \<lparr>fa_create = (\<lambda>c w. (Ok demo_adapter, w)), fa_test = (\<lambda>a w. (Ok True, w)), fa_s3 = (\<lambda>q w. (Ok demo_ops, w)),
      fa_local = (\<lambda>p n. demo_ops)\<rparr>"

definition demo_host :: host where
  "demo_host =
     \<lparr>ho_codec = demo_codec, ho_settings = demo_settings_io,
      ho_sources = \<lparr>pi_data_dir = True, pi_read = True, pi_write = Written\<rparr>, ho_now = 1\<rparr>"

definition demo_desktop :: "storage_source list \<Rightarrow> sources_file \<Rightarrow> (nat, files) desktop" where
  "demo_desktop srcs f =
     desktop_new
       (fold (\<lambda>src. add_source src demo_adapter None) srcs
         \<lparr>vs_sources = [], vs_cache_port = \<lparr>cp_is_cached = (\<lambda>p c. False), cp_cache_file = (\<lambda>p d c. (Ok p, c)),
            cp_read_from_cache = (\<lambda>p c. (Err [], c)), cp_clear = (\<lambda>c. (Ok (), c)), cp_stats = (\<lambda>c. stats_default)\<rparr>,
          vs_cache = 0, vs_event_bus = None, vs_world = (\<lambda>_. None)\<rparr>)
       f (\<lambda>n. replicate n CHR ''x'')"

definition demo_bucket :: "string \<Rightarrow> string \<Rightarrow> storage_source" where
  "demo_bucket k name = demo_source\<lparr>ss_id := k, ss_name := name, ss_type := Gcs\<rparr>"


section \<open>Keys\<close>

text \<open>The configuration of a source carries no key, in the registry and in the file.\<close>

definition no_keys :: "storage_config \<Rightarrow> bool" where
  "no_keys c \<longleftrightarrow> sc_access_key c = None \<and> sc_secret_key c = None \<and> sc_session_token c = None"

definition registry_keyless :: "(string, 'w source_state) hash_map \<Rightarrow> bool" where
  "registry_keyless m \<longleftrightarrow> (\<forall>x\<in>set m. no_keys (ss_config (st_source (snd x))))"

definition file_keyless :: "sources_file \<Rightarrow> bool" where
  "file_keyless f \<longleftrightarrow> (case f of SavedSources qs \<Rightarrow> \<forall>q\<in>set qs. no_keys (pp_config q) | _ \<Rightarrow> True)"

definition keyless :: "('c, 'w) desktop \<Rightarrow> bool" where
  "keyless s \<longleftrightarrow> registry_keyless (vs_sources (dt_service s)) \<and> file_keyless (dt_file s)"

datatype 'w dt_op =
    AddLocal "'w factory" string string
  | AddS3 "'w factory" host string string string "string option" "string option" "string option" "string option"
  | UpdateS3 "'w factory" host string string string "string option"
  | RefreshS3 "'w factory" string "string option" "string option" "string option"
  | SetStatus string connection_status
  | RemoveSource host string
  | SaveSources host
  | LoadSources "'w factory" host

fun dt_apply :: "'w dt_op \<Rightarrow> ('c, 'w) desktop \<Rightarrow> ('c, 'w) desktop" where
  "dt_apply (AddLocal fa n p) s = snd (add_local_source fa n p s)"
| "dt_apply (AddS3 fa h n b r a k t e) s = snd (add_s3_source fa h n b r a k t e s)"
| "dt_apply (UpdateS3 fa h i a k t) s = snd (update_s3_credentials fa h i a k t s)"
| "dt_apply (RefreshS3 fa i a k t) s = snd (refresh_s3_credentials fa i a k t s)"
| "dt_apply (SetStatus i x) s = snd (on_service (update_source_status i x) s)"
| "dt_apply (RemoveSource h i) s = snd (remove_source_async h i s)"
| "dt_apply (SaveSources h) s = snd (save_sources h s)"
| "dt_apply (LoadSources fa h) s = snd (load_sources fa h s)"

text \<open>What an operation may do to the registry and the file, seen from outside.\<close>

definition same_sources :: "('c, 'w) desktop \<Rightarrow> ('c, 'w) desktop \<Rightarrow> bool" where
  "same_sources s t \<longleftrightarrow> vs_sources (dt_service t) = vs_sources (dt_service s) \<and> dt_file t = dt_file s"

lemma keyless_same: "same_sources s t \<Longrightarrow> keyless s \<Longrightarrow> keyless t"
  by (simp add: same_sources_def keyless_def)

lemma same_sources_outside: "on_service (on_world f) s = (r, t) \<Longrightarrow> same_sources s t"
  by (auto simp: on_service_def on_world_def same_sources_def split: prod.splits)

lemma registry_keyless_insert:
  "registry_keyless m \<Longrightarrow> no_keys (ss_config (st_source st)) \<Longrightarrow> registry_keyless (hm_insert k st m)"
  unfolding registry_keyless_def by (induction m) auto

lemma registry_keyless_remove: "registry_keyless m \<Longrightarrow> registry_keyless (hm_remove k m)"
  unfolding registry_keyless_def by (induction m) auto

lemma registry_keyless_get: "registry_keyless m \<Longrightarrow> hm_get m k = Some st \<Longrightarrow> no_keys (ss_config (st_source st))"
  by (auto simp: registry_keyless_def dest!: map_of_SomeD)

lemma keyless_register [step_inv]: "keyless s \<Longrightarrow> no_keys (ss_config src) \<Longrightarrow> keyless (register src a ops s)"
  by (simp add: keyless_def register_def add_source_def registry_keyless_insert)

lemma keyless_next [simp]: "keyless (s\<lparr>dt_next := n\<rparr>) = keyless s" "keyless (s\<lparr>dt_settings := x\<rparr>) = keyless s"
  by (simp_all add: keyless_def)

lemma keyless_keep [simp]: "keyless (snd (keep_credentials h k n c s)) = keyless s"
  by (auto simp: keep_credentials_def split: option.split prod.split outcome.split)

lemma no_keys_config [simp]: "no_keys (s3_config b r e)" "no_keys (empty_config\<lparr>sc_path_or_bucket := p\<rparr>)"
  by (simp_all add: no_keys_def s3_config_def empty_config_def)

lemma keyless_replace [step_inv]: "keyless s \<Longrightarrow> keyless (snd (replace_adapters k a ops s))"
  by (auto simp: replace_adapters_def keyless_def split: option.split
      intro!: registry_keyless_insert dest: registry_keyless_get)

lemma keyless_and_then:
  "keyless (snd (m s)) \<Longrightarrow> (\<And>a t. keyless t \<Longrightarrow> keyless (snd (f a t))) \<Longrightarrow> keyless (snd (and_then m f s))"
  by (cases "m s"; cases "fst (m s)") (auto simp: and_then_def)

lemma keyless_outside: "keyless s \<Longrightarrow> keyless (snd (on_service (on_world f) s))"
  by (metis keyless_same same_sources_outside prod.collapse)

lemma keyless_map_err: "keyless (snd (m s)) \<Longrightarrow> keyless (snd (map_err g m s))"
  by (auto simp: map_err_def split: prod.split outcome.split)

lemma keyless_add_local [step_inv]: "keyless s \<Longrightarrow> keyless (snd (add_local_source fa n p s))"
  unfolding add_local_source_def
  by (rule keyless_and_then) (auto simp: Let_def intro!: keyless_outside keyless_register)

lemma keyless_test [step_inv]: "keyless s \<Longrightarrow> keyless (snd (test_status fa a s))"
  using keyless_outside [of s "fa_test fa a"]
  by (auto simp: test_status_def split: prod.splits outcome.splits bool.splits)

lemma keyless_add_s3 [step_inv]: "keyless s \<Longrightarrow> keyless (snd (add_s3_source fa h n b r a k t e s))"
  unfolding add_s3_source_def Let_def
  by (intro keyless_and_then keyless_map_err keyless_outside keyless_test)
    (auto simp: Let_def intro!: keyless_register keyless_outside)

lemma keyless_rebuild [step_inv]: "keyless s \<Longrightarrow> keyless (snd (rebuild_s3 fa i src r a k t s))"
  unfolding rebuild_s3_def by (intro keyless_and_then keyless_outside keyless_replace)

lemma keyless_update [step_inv]: "keyless s \<Longrightarrow> keyless (snd (update_s3_credentials fa h i a k t s))"
  unfolding update_s3_credentials_def
  by (auto split: option.split intro!: keyless_and_then keyless_rebuild)

lemma keyless_refresh [step_inv]: "keyless s \<Longrightarrow> keyless (snd (refresh_s3_credentials fa i a k t s))"
  unfolding refresh_s3_credentials_def by (auto split: option.split intro!: keyless_rebuild)

lemma keyless_status [step_inv]: "keyless s \<Longrightarrow> keyless (snd (on_service (update_source_status i x) s))"
  by (auto simp: on_service_def update_source_status_def keyless_def split: option.split
      intro!: registry_keyless_insert dest: registry_keyless_get)

lemma keyless_remove [step_inv]: "keyless s \<Longrightarrow> keyless (snd (remove_source_async h i s))"
  by (simp add: remove_source_async_def remove_source_def keyless_def registry_keyless_remove)

lemma keyless_save [step_inv]: "keyless s \<Longrightarrow> keyless (snd (save_sources h s))"
  by (auto simp: save_sources_def persistence_save_def keyless_def list_sources_def persisted_from_def file_keyless_def
      registry_keyless_def split: write_result.split)

lemma keyless_outsideD: "on_service (on_world f) s = (r, t) \<Longrightarrow> keyless s \<Longrightarrow> keyless t"
  using same_sources_outside keyless_same by blast

lemma keyless_restore_one [step_inv]:
  "keyless s \<Longrightarrow> no_keys (ss_config src) \<Longrightarrow> keyless (snd (restore_one fa h src s))"
  by (auto simp: restore_one_def split: prod.split outcome.split intro!: keyless_register dest!: keyless_outsideD)

lemma keyless_restore_all [step_inv]:
  "keyless s \<Longrightarrow> \<forall>src\<in>set srcs. no_keys (ss_config src) \<Longrightarrow> keyless (snd (restore_all fa h srcs s))"
  by (induction srcs arbitrary: s) (auto intro!: keyless_and_then keyless_restore_one)

lemma keyless_load [step_inv]:
  assumes "keyless s" shows "keyless (snd (load_sources fa h s))"
proof -
  have "\<forall>src\<in>set srcs. no_keys (ss_config src)" if "persistence_load (ho_sources h) (dt_file s) = Ok srcs" for srcs
    using that assms
    by (auto simp: persistence_load_def keyless_def file_keyless_def restored_from_def split: sources_file.splits if_splits)
  then show ?thesis using assms by (auto simp: load_sources_def split: outcome.split intro!: keyless_restore_all)
qed

lemma keyless_apply [step_inv]: "keyless s \<Longrightarrow> keyless (dt_apply x s)"
  by (cases x) (simp_all add: step_inv)

text \<open>(C10) No key of a source reaches the registry or the file of sources: whatever sources are added with whatever
  keys, given new keys, saved, restored or removed, and whatever fails, the configurations that are listed and
  written hold no access key, no secret key and no session token, if the first file held none.\<close>

theorem sources_hold_no_keys:
  assumes "vs_sources v = []" and "\<forall>qs. f = SavedSources qs \<longrightarrow> (\<forall>q\<in>set qs. no_keys (pp_config q))"
  shows "let s = fold dt_apply xs (desktop_new v f ids) in
    (\<forall>src\<in>set (list_sources (dt_service s)). no_keys (ss_config src)) \<and>
    (\<forall>qs. dt_file s = SavedSources qs \<longrightarrow> (\<forall>q\<in>set qs. no_keys (pp_config q)))"
proof -
  have "keyless (desktop_new v f ids)"
    using assms by (auto simp: keyless_def desktop_new_def registry_keyless_def file_keyless_def split: sources_file.split)
  then have "keyless (fold dt_apply xs (desktop_new v f ids))"
    by (induction xs arbitrary: v f ids rule: rev_induct) (simp_all add: keyless_apply)
  then show ?thesis
    by (auto simp: Let_def keyless_def registry_keyless_def file_keyless_def list_sources_def)
qed

theorem sources_hold_no_keys_witness:
  "let s = fold dt_apply [AddS3 demo_factory demo_host ''n'' ''b'' ''r'' (Some ''k'') (Some ''s'') None None, SaveSources demo_host]
         (demo_desktop [] NoSources)
   in (\<forall>src\<in>set (list_sources (dt_service s)). no_keys (ss_config src)) \<and> length (list_sources (dt_service s)) = 1"
proof -
  let ?xs = "[AddS3 demo_factory demo_host ''n'' ''b'' ''r'' (Some ''k'') (Some ''s'') None None, SaveSources demo_host]"
  define v where "v = dt_service (demo_desktop [] NoSources)"
  have d: "demo_desktop [] NoSources = desktop_new v NoSources (\<lambda>n. replicate n CHR ''x'')" and "vs_sources v = []"
    by (simp_all add: v_def demo_desktop_def desktop_new_def)
  then have "\<forall>src\<in>set (list_sources (dt_service (fold dt_apply ?xs (demo_desktop [] NoSources)))). no_keys (ss_config src)"
    using sources_hold_no_keys [of v NoSources ?xs "\<lambda>n. replicate n CHR ''x''"] by (simp only: d Let_def) blast
  moreover have "length (list_sources (dt_service (fold dt_apply ?xs (demo_desktop [] NoSources)))) = 1"
    by (simp add: add_s3_source_def demo_desktop_def desktop_new_def demo_factory_def test_status_def on_service_def
        on_world_def and_then_def map_err_def register_def add_source_def list_sources_def save_sources_def demo_host_def
        persistence_save_def Let_def)
  ultimately show ?thesis unfolding Let_def by blast
qed

section \<open>Keys after a restart\<close>

lemma replace_adapters_settings [simp]: "dt_settings (snd (replace_adapters k a ops s)) = dt_settings s"
  by (simp add: replace_adapters_def split: option.split)

lemma outside_settings: "on_service f s = (r, t) \<Longrightarrow> dt_settings t = dt_settings s"
  by (auto simp: on_service_def split: prod.splits)

lemma rebuild_settings: "rebuild_s3 fa k src region a b c s = (Ok (), t) \<Longrightarrow> dt_settings t = dt_settings s"
  by (auto simp: rebuild_s3_def and_then_Ok_iff dest!: outside_settings) (metis replace_adapters_settings snd_conv)

text \<open>The keys a restart finds: after the credentials of an S3 source were updated, a later service with the same
  settings builds its file operations with the access key - and, unless the store of settings encrypts, which
  the one the application creates does not, without the secret key and without the session token.\<close>

theorem keys_after_restart:
  assumes "update_s3_credentials fa h k access secret token s = (Ok (), s')" and "dt_settings s = Some st"
    and "codec_ok (ho_codec h)" and "si_read (ho_settings h)" and "dt_settings t = dt_settings s'"
  shows "stored_keys h k t =
    (Some access, if st_encryption_enabled st then Some secret else None,
     if st_encryption_enabled st then token else None)"
proof -
  obtain region name u where u:
    "keep_credentials h k name (s3_credentials (Some access) (Some secret) token region) s = (Ok (), u)"
    "dt_settings s' = dt_settings u"
    using assms(1)
    by (auto simp: update_s3_credentials_def and_then_Ok_iff dest: rebuild_settings split: option.splits if_splits)
  let ?c = "s3_credentials (Some access) (Some secret) token region"
  from u(1) assms(2) obtain st' where st':
    "save_credentials (ho_codec h) (ho_settings h) (ho_now h) k name ?c st = (Ok (), st')" "dt_settings u = Some st'"
    by (auto simp: keep_credentials_def split: prod.splits outcome.splits)
  have "\<forall>x\<in>set_credentials ?c. es_encrypted x = None"
    by (auto simp: s3_credentials_def new_plaintext_def)
  from credentials_after_save [OF assms(3) this st'(1) assms(4,4), of k]
  have "get_credentials (ho_codec h) (ho_settings h) k st' =
      Ok (Some (if st_encryption_enabled st then ?c else map_credentials (\<lambda>_. \<lparr>es_encrypted = None, es_plaintext = None\<rparr>) ?c))"
    by simp
  then show ?thesis
    using assms(5) u(2) st'(2)
    by (cases token) (simp_all add: stored_keys_def load_credentials_def s3_credentials_def new_plaintext_def)
qed

definition demo_s3 :: "(nat, files) desktop" where
  "demo_s3 =
     set_settings_manager (settings_store_new NoSettings)
       (demo_desktop [demo_source\<lparr>ss_type := S3, ss_config := s3_config ''b'' ''r'' None\<rparr>] NoSources)"

theorem keys_after_restart_witness:
  "stored_keys demo_host ''a'' (snd (update_s3_credentials demo_factory demo_host ''a'' ''key'' ''secret'' (Some ''t'') demo_s3)) =
     (Some ''key'', None, None)"
proof -
  let ?u = "update_s3_credentials demo_factory demo_host ''a'' ''key'' ''secret'' (Some ''t'') demo_s3"
  have "fst ?u = Ok ()" by code_simp
  then have "?u = (Ok (), snd ?u)" by (metis prod.collapse)
  moreover have "dt_settings demo_s3 = Some (settings_store_new NoSettings)"
    by (simp add: demo_s3_def set_settings_manager_def)
  moreover have "codec_ok (ho_codec demo_host)" "si_read (ho_settings demo_host)"
    by (simp_all add: demo_host_def demo_codec_def codec_ok_def demo_settings_io_def)
  ultimately show ?thesis
    using keys_after_restart [of demo_factory demo_host "''a''" "''key''" "''secret''" "Some ''t''" demo_s3 "snd ?u"
        "settings_store_new NoSettings" "snd ?u"]
    by (simp add: settings_store_new_def)
qed

section \<open>Real paths\<close>

text \<open>A real path starts with the mount point, but may leave it again through parent segments.\<close>

lemma real_path_example:
  "get_real_path ''m'' ''/../x'' (dt_service (demo_desktop [demo_source\<lparr>ss_id := ''m'', ss_mount_point := Some ''/home''\<rparr>] NoSources)) =
     Ok ''/home/../x''"
  by (simp add: get_real_path_def get_source_def demo_desktop_def desktop_new_def add_source_def path_components_def
      path_join_def trim_start_matches_def)

end
