(* ===== verification/Model_Hub.thy ===== *)
theory Model_Hub
  imports Prelude
begin

text \<open>
  The model catalogue, the hub that resolves model identifiers to verified local files, and the inference
  pipeline with its tensors (\<open>crates/diaspor-infer/src\<close>: \<open>catalog.rs\<close>, \<open>hub.rs\<close>, \<open>tensor.rs\<close>, \<open>tenant.rs\<close>,
  \<open>pipeline.rs\<close>).

  Parameters: the TOML parser, SHA-256 (\<open>sha\<close>, the lower-case hexadecimal digest of a byte string; the
  incremental hasher is the digest of the concatenation), and the record \<open>hub_world\<close>, what the network and the
  file system do. The state is the files below the cache and the list of URLs that were requested.
\<close>

section \<open>The catalogue\<close>

definition UNPINNED_SHA256 :: string where
  "UNPINNED_SHA256 = ''PENDING_FIRST_PULL''"

record model_ref =
  mr_id :: string
  mr_description :: string
  mr_format :: string
  mr_url :: string
  mr_sha256 :: string
  mr_bytes :: u64
  mr_license :: string
  mr_feature_gate :: string
  mr_nonfree :: bool
  mr_notes :: "string option"

definition is_ascii_hexdigit :: "char \<Rightarrow> bool" where
  "is_ascii_hexdigit c \<longleftrightarrow>
     (of_char c :: nat) \<in> {48..57} \<or> (of_char c :: nat) \<in> {65..70} \<or> (of_char c :: nat) \<in> {97..102}"

definition is_pinned :: "model_ref \<Rightarrow> bool" where
  "is_pinned e \<longleftrightarrow> length (mr_sha256 e) = 64 \<and> list_all is_ascii_hexdigit (mr_sha256 e) \<and> mr_bytes e > 0"

record catalog_toml =
  ct_schema_version :: u32
  ct_models :: "model_ref list"

datatype catalog_error = CatalogParse | UnsupportedSchemaVersion u32 | DuplicateId string

record catalog =
  by_id :: "(string, model_ref) hash_map"
  order :: "string list"

fun load_entries :: "model_ref list \<Rightarrow> catalog \<Rightarrow> (catalog_error, catalog) outcome" where
  "load_entries [] c = Ok c"
| "load_entries (e # es) c =
     (if hm_get (by_id c) (mr_id e) \<noteq> None then Err (DuplicateId (mr_id e))
      else load_entries es \<lparr>by_id = hm_insert (mr_id e) e (by_id c), order = order c @ [mr_id e]\<rparr>)"

definition from_toml_str :: "(string \<Rightarrow> catalog_toml option) \<Rightarrow> string \<Rightarrow> (catalog_error, catalog) outcome" where
  "from_toml_str parse s =
     (case parse s of
        None \<Rightarrow> Err CatalogParse
      | Some raw \<Rightarrow>
          if ct_schema_version raw \<noteq> 1 then Err (UnsupportedSchemaVersion (ct_schema_version raw))
          else load_entries (ct_models raw) \<lparr>by_id = [], order = []\<rparr>)"

definition catalog_get :: "catalog \<Rightarrow> string \<Rightarrow> model_ref option" where
  "catalog_get c i = hm_get (by_id c) i"

definition catalog_iter :: "catalog \<Rightarrow> model_ref list" where
  "catalog_iter c = List.map_filter (\<lambda>i. hm_get (by_id c) i) (order c)"

definition catalog_len :: "catalog \<Rightarrow> nat" where
  "catalog_len c = length (by_id c)"

definition catalog_is_empty :: "catalog \<Rightarrow> bool" where
  "catalog_is_empty c \<longleftrightarrow> by_id c = []"

section \<open>Configuration and paths\<close>

datatype hub_error =
    UnknownId string
  | NonfreeBlocked string string
  | Unpinned string
  | ChecksumMismatch string string string
  | NetworkBlocked string
  | UnsupportedScheme string string
  | CatalogFailed catalog_error
  | Io
  | DownloadFailed string

record hub_config =
  hc_root :: string
  hc_offline :: bool
  hc_trust_unpinned :: bool
  hc_allow_nonfree :: bool

text \<open>\<open>env\<close> is the process environment, \<open>home\<close> and \<open>temp\<close> the directories of the host, \<open>nonfree\<close> the build feature.\<close>

definition env_flag :: "(string \<Rightarrow> string option) \<Rightarrow> string \<Rightarrow> bool" where
  "env_flag env name \<longleftrightarrow> env name \<in> {Some ''1'', Some ''true'', Some ''yes'', Some ''on''}"

definition default_cache_root :: "string option \<Rightarrow> string \<Rightarrow> string" where
  "default_cache_root home temp =
     (case home of
        None \<Rightarrow> path_join (path_join temp ''diaspor'') ''models''
      | Some h \<Rightarrow> path_join (path_join h ''.diaspor'') ''models'')"

definition hub_config_from_env :: "(string \<Rightarrow> string option) \<Rightarrow> string option \<Rightarrow> string \<Rightarrow> bool \<Rightarrow> hub_config" where
  "hub_config_from_env env home temp nonfree =
     \<lparr>hc_root = (case env ''DIASPOR_MODELS_DIR'' of None \<Rightarrow> default_cache_root home temp | Some d \<Rightarrow> d),
      hc_offline = env_flag env ''DIASPOR_OFFLINE'', hc_trust_unpinned = env_flag env ''DIASPOR_TRUST_UNPINNED'',
      hc_allow_nonfree = nonfree\<rparr>"

definition is_ascii_alphanumeric :: "char \<Rightarrow> bool" where
  "is_ascii_alphanumeric c \<longleftrightarrow>
     (of_char c :: nat) \<in> {48..57} \<or> (of_char c :: nat) \<in> {65..90} \<or> (of_char c :: nat) \<in> {97..122}"

text \<open>One dash per code point that is not allowed: continuation bytes of UTF-8 (128 to 191) add none.\<close>

definition slug :: "string \<Rightarrow> string" where
  "slug i =
     map (\<lambda>c. if is_ascii_alphanumeric c \<or> c = CHR ''-'' \<or> c = CHR ''.'' then c else CHR ''-'')
       (filter (\<lambda>c. (of_char c :: nat) \<notin> {128..191}) i)"

definition url_basename :: "string \<Rightarrow> string option" where
  "url_basename url =
     (case rsplit_once slash url of Some (a, b) \<Rightarrow> if b = [] then None else Some b | None \<Rightarrow> None)"

definition hub_cache_path_for :: "hub_config \<Rightarrow> model_ref \<Rightarrow> string" where
  "hub_cache_path_for cfg e =
     path_join (path_join (hc_root cfg) (slug (mr_id e) @ ''@'' @ take 12 (mr_sha256 e)))
       (case url_basename (mr_url e) of Some b \<Rightarrow> b | None \<Rightarrow> ''model.bin'')"

definition tmp_path_for :: "string \<Rightarrow> string" where
  "tmp_path_for target = target @ ''.partial''"

record model_hub =
  mh_config :: hub_config
  mh_catalog :: catalog

definition with_catalog :: "hub_config \<Rightarrow> catalog \<Rightarrow> model_hub" where
  "with_catalog cfg c = \<lparr>mh_config = cfg, mh_catalog = c\<rparr>"

definition with_catalog_file ::
    "(string \<Rightarrow> catalog_toml option) \<Rightarrow> hub_config \<Rightarrow> string option \<Rightarrow> (hub_error, model_hub) outcome" where
  "with_catalog_file parse cfg raw =
     (case raw of
        None \<Rightarrow> Err Io
      | Some s \<Rightarrow>
          (case from_toml_str parse s of
             Ok c \<Rightarrow> Ok (with_catalog cfg c) | Err e \<Rightarrow> Err (CatalogFailed e) | Panic \<Rightarrow> Panic))"

definition local_path :: "model_hub \<Rightarrow> string \<Rightarrow> string option" where
  "local_path hub i = map_option (hub_cache_path_for (mh_config hub)) (catalog_get (mh_catalog hub) i)"

section \<open>Downloading\<close>

text \<open>\<open>hw_get url\<close> is \<open>None\<close> for a failed request, otherwise the chunks of the body; a chunk \<open>None\<close> is an error of
  the stream.\<close>

record hub_world =
  hw_get :: "string \<Rightarrow> bytes option list option"
  hw_chunk_write :: "nat \<Rightarrow> write_result"
  hw_write :: write_result
  hw_create :: bool
  hw_rename :: bool
  hw_remove :: bool
  hw_mkdir :: bool
  hw_readable :: "string \<Rightarrow> bool"
  hw_workspace :: string

record hub_state =
  hs_files :: "(string, bytes) hash_map"
  hs_requests :: "string list"

type_synonym 'a hub_act = "(hub_state, hub_error, 'a) act"

definition fs_read :: "hub_world \<Rightarrow> string \<Rightarrow> bytes hub_act" where
  "fs_read w p s =
     (case hm_get (hs_files s) p of Some b \<Rightarrow> if hw_readable w p then (Ok b, s) else (Err Io, s) | None \<Rightarrow> (Err Io, s))"

definition fs_write :: "write_result \<Rightarrow> string \<Rightarrow> bytes \<Rightarrow> unit hub_act" where
  "fs_write r p b s =
     (case r of
        Written \<Rightarrow> (Ok (), s\<lparr>hs_files := hm_insert p b (hs_files s)\<rparr>)
      | Refused \<Rightarrow> (Err Io, s)
      | Torn b' \<Rightarrow> (Err Io, s\<lparr>hs_files := hm_insert p b' (hs_files s)\<rparr>))"

definition fs_rename :: "hub_world \<Rightarrow> string \<Rightarrow> string \<Rightarrow> unit hub_act" where
  "fs_rename w a b s =
     (case hm_get (hs_files s) a of
        None \<Rightarrow> (Err Io, s)
      | Some d \<Rightarrow>
          if hw_rename w then (Ok (), s\<lparr>hs_files := hm_insert b d (hm_remove a (hs_files s))\<rparr>) else (Err Io, s))"

definition fs_remove :: "hub_world \<Rightarrow> string \<Rightarrow> unit hub_act" where
  "fs_remove w p s = (if hw_remove w then (Ok (), s\<lparr>hs_files := hm_remove p (hs_files s)\<rparr>) else (Err Io, s))"

definition write_atomic :: "hub_world \<Rightarrow> string \<Rightarrow> bytes \<Rightarrow> unit hub_act" where
  "write_atomic w target b =
     and_then (fs_write (hw_write w) (tmp_path_for target) b) (\<lambda>_. fs_rename w (tmp_path_for target) target)"

definition sha256_of_file :: "(bytes \<Rightarrow> string) \<Rightarrow> hub_world \<Rightarrow> string \<Rightarrow> string hub_act" where
  "sha256_of_file sha w p = and_then (fs_read w p) (\<lambda>b s. (Ok (sha b), s))"

definition resolve_file_url :: "hub_world \<Rightarrow> string \<Rightarrow> string" where
  "resolve_file_url w p = (if p \<noteq> [] \<and> hd p = slash then p else path_join (hw_workspace w) p)"

text \<open>The loop over the body: it returns what the hasher has seen.\<close>

fun stream_body :: "hub_world \<Rightarrow> string \<Rightarrow> string \<Rightarrow> nat \<Rightarrow> bytes \<Rightarrow> bytes option list \<Rightarrow> bytes hub_act" where
  "stream_body w i tmp n seen [] s = (Ok seen, s)"
| "stream_body w i tmp n seen (None # cs) s = (Err (DownloadFailed i), s)"
| "stream_body w i tmp n seen (Some c # cs) s =
     (let old = (case hm_get (hs_files s) tmp of Some b \<Rightarrow> b | None \<Rightarrow> []) in
      case hw_chunk_write w n of
        Written \<Rightarrow>
          stream_body w i tmp (Suc n) (seen @ c) cs (s\<lparr>hs_files := hm_insert tmp (old @ c) (hs_files s)\<rparr>)
      | Refused \<Rightarrow> (Err Io, s)
      | Torn c' \<Rightarrow> (Err Io, s\<lparr>hs_files := hm_insert tmp (old @ take (length c') c) (hs_files s)\<rparr>))"

definition fs_create :: "hub_world \<Rightarrow> string \<Rightarrow> unit hub_act" where
  "fs_create w p s = (if hw_create w then (Ok (), s\<lparr>hs_files := hm_insert p [] (hs_files s)\<rparr>) else (Err Io, s))"

definition send_request :: "hub_world \<Rightarrow> model_ref \<Rightarrow> bytes option list hub_act" where
  "send_request w e s =
     (let s = s\<lparr>hs_requests := hs_requests s @ [mr_url e]\<rparr> in
      case hw_get w (mr_url e) of None \<Rightarrow> (Err (DownloadFailed (mr_id e)), s) | Some cs \<Rightarrow> (Ok cs, s))"

definition download_to :: "(bytes \<Rightarrow> string) \<Rightarrow> hub_world \<Rightarrow> model_ref \<Rightarrow> string \<Rightarrow> string hub_act" where
  "download_to sha w e target =
     (case strip_prefix ''file://'' (mr_url e) of
        Some p \<Rightarrow>
          and_then (fs_read w (resolve_file_url w p))
            (\<lambda>b. and_then (write_atomic w target b) (\<lambda>_ s. (Ok (sha b), s)))
      | None \<Rightarrow>
          if strip_prefix ''https://'' (mr_url e) = None \<and> strip_prefix ''http://'' (mr_url e) = None
          then (\<lambda>s. (Err (UnsupportedScheme (mr_id e) (mr_url e)), s))
          else
            and_then (send_request w e)
              (\<lambda>cs. and_then (fs_create w (tmp_path_for target))
              (\<lambda>_. and_then (stream_body w (mr_id e) (tmp_path_for target) 0 [] cs)
              (\<lambda>seen. and_then (fs_rename w (tmp_path_for target) target) (\<lambda>_ s. (Ok (sha seen), s))))))"

section \<open>Resolving\<close>

text \<open>Step 3: \<open>Some\<close> the cached file, or \<open>None\<close> when a download is needed.\<close>

definition cache_lookup :: "(bytes \<Rightarrow> string) \<Rightarrow> hub_world \<Rightarrow> model_ref \<Rightarrow> string \<Rightarrow> string option hub_act" where
  "cache_lookup sha w e target s =
     (if hm_get (hs_files s) target = None then (Ok None, s)
      else if is_pinned e then
        and_then (sha256_of_file sha w target)
          (\<lambda>actual. if actual = mr_sha256 e then (\<lambda>s. (Ok (Some target), s))
                    else and_then (fs_remove w target) (\<lambda>_ s. (Ok None, s))) s
      else (Ok (Some target), s))"

text \<open>Steps 5 and 6.\<close>

definition fetch_and_verify :: "(bytes \<Rightarrow> string) \<Rightarrow> hub_world \<Rightarrow> model_ref \<Rightarrow> string \<Rightarrow> string hub_act" where
  "fetch_and_verify sha w e target s =
     (if \<not> hw_mkdir w then (Err Io, s)
      else
        and_then (download_to sha w e target)
          (\<lambda>actual s.
             if is_pinned e \<and> actual \<noteq> mr_sha256 e
             then (Err (ChecksumMismatch (mr_id e) (mr_sha256 e) actual), snd (fs_remove w target s))
             else (Ok target, s)) s)"

definition resolve_entry :: "(bytes \<Rightarrow> string) \<Rightarrow> hub_world \<Rightarrow> hub_config \<Rightarrow> model_ref \<Rightarrow> string hub_act" where
  "resolve_entry sha w cfg e s =
     (let target = hub_cache_path_for cfg e in
      and_then (cache_lookup sha w e target)
        (\<lambda>hit s.
           case hit of
             Some p \<Rightarrow> (Ok p, s)
           | None \<Rightarrow>
               if hc_offline cfg then (Err (NetworkBlocked (mr_id e)), s)
               else fetch_and_verify sha w e target s) s)"

definition resolve :: "(bytes \<Rightarrow> string) \<Rightarrow> hub_world \<Rightarrow> model_hub \<Rightarrow> string \<Rightarrow> string hub_act" where
  "resolve sha w hub i s =
     (case catalog_get (mh_catalog hub) i of
        None \<Rightarrow> (Err (UnknownId i), s)
      | Some e \<Rightarrow>
          if mr_nonfree e \<and> \<not> hc_allow_nonfree (mh_config hub) then (Err (NonfreeBlocked (mr_id e) (mr_license e)), s)
          else if (mr_sha256 e = UNPINNED_SHA256 \<or> \<not> is_pinned e) \<and> \<not> hc_trust_unpinned (mh_config hub)
          then (Err (Unpinned (mr_id e)), s)
          else resolve_entry sha w (mh_config hub) e s)"

fun ensure_entries :: "(bytes \<Rightarrow> string) \<Rightarrow> hub_world \<Rightarrow> model_hub \<Rightarrow> nat \<Rightarrow> model_ref list \<Rightarrow> nat hub_act" where
  "ensure_entries sha w hub n [] s = (Ok n, s)"
| "ensure_entries sha w hub n (e # es) s =
     (if mr_nonfree e \<and> \<not> hc_allow_nonfree (mh_config hub) then ensure_entries sha w hub n es s
      else if mr_sha256 e = UNPINNED_SHA256 \<and> \<not> hc_trust_unpinned (mh_config hub) then ensure_entries sha w hub n es s
      else and_then (resolve sha w hub (mr_id e)) (\<lambda>_. ensure_entries sha w hub (Suc n) es) s)"

definition ensure_all :: "(bytes \<Rightarrow> string) \<Rightarrow> hub_world \<Rightarrow> model_hub \<Rightarrow> nat hub_act" where
  "ensure_all sha w hub = ensure_entries sha w hub 0 (catalog_iter (mh_catalog hub))"

section \<open>The catalogue holds what was declared\<close>

lemma load_entries_Ok:
  assumes "load_entries es c = Ok c'" "order c = hm_keys (by_id c)"
  shows "by_id c' = by_id c @ map (\<lambda>e. (mr_id e, e)) es \<and> order c' = hm_keys (by_id c') \<and>
    (hm_wf (by_id c) \<longrightarrow> hm_wf (by_id c'))"
  using assms
proof (induction es arbitrary: c)
  case (Cons e es)
  let ?c = "\<lparr>by_id = hm_insert (mr_id e) e (by_id c), order = order c @ [mr_id e]\<rparr>"
  have new: "hm_get (by_id c) (mr_id e) = None" and load: "load_entries es ?c = Ok c'"
    using Cons.prems(1) by (auto split: if_splits)
  have "order ?c = hm_keys (by_id ?c)" using Cons.prems(2) new by (simp add: hm_insert_new)
  moreover have "hm_wf (by_id c) \<longrightarrow> hm_wf (by_id c @ [(mr_id e, e)])"
    using hm_wf_insert [of "by_id c" "mr_id e" e] new by (simp add: hm_insert_new)
  ultimately show ?case using Cons.IH [OF load] new by (auto simp: hm_insert_new simp del: map_append)
qed simp

lemma load_entries_total:
  "distinct (map mr_id es) \<Longrightarrow> \<forall>e\<in>set es. hm_get (by_id c) (mr_id e) = None \<Longrightarrow> \<exists>c'. load_entries es c = Ok c'"
proof (induction es arbitrary: c)
  case (Cons e es)
  let ?c = "\<lparr>by_id = hm_insert (mr_id e) e (by_id c), order = order c @ [mr_id e]\<rparr>"
  have "\<forall>f\<in>set es. hm_get (by_id ?c) (mr_id f) = None"
    using Cons.prems by (simp, metis image_eqI)
  with Cons show ?case by simp
qed simp

lemma map_filter_get:
  "\<forall>e\<in>set es. hm_get m (mr_id e) = Some e \<Longrightarrow> List.map_filter (hm_get m) (map mr_id es) = es"
  by (induction es) (simp_all add: List.map_filter_simps)

lemma get_pairs:
  assumes "distinct (map mr_id es)"
  shows "hm_get (map (\<lambda>e. (mr_id e, e)) es) i = Some e \<longleftrightarrow> e \<in> set es \<and> mr_id e = i"
proof -
  have "distinct (map fst (map (\<lambda>e. (mr_id e, e)) es))" using assms by (simp add: comp_def)
  then show ?thesis by (auto simp: map_of_eq_Some_iff)
qed

text \<open>The catalogue is faithful to the document: it loads exactly if the document parses, has the supported
  schema version and no two entries share an identifier; then iterating gives the entries in the order of
  their declaration, and looking up an identifier gives the entry that declares it.\<close>

theorem catalog_faithful:
  assumes "parse doc = Some raw"
  shows "(\<forall>c. from_toml_str parse doc = Ok c \<longrightarrow>
      catalog_iter c = ct_models raw \<and> catalog_len c = length (ct_models raw) \<and>
      (\<forall>i e. catalog_get c i = Some e \<longleftrightarrow> e \<in> set (ct_models raw) \<and> mr_id e = i)) \<and>
    ((\<exists>c. from_toml_str parse doc = Ok c) \<longleftrightarrow>
      ct_schema_version raw = 1 \<and> distinct (map mr_id (ct_models raw)))"
proof -
  let ?es = "ct_models raw" and ?c0 = "\<lparr>by_id = [], order = []\<rparr>"
  have load: "from_toml_str parse doc = (if ct_schema_version raw \<noteq> 1
      then Err (UnsupportedSchemaVersion (ct_schema_version raw)) else load_entries ?es ?c0)"
    using assms by (simp add: from_toml_str_def)
  have ok: "by_id c = map (\<lambda>e. (mr_id e, e)) ?es \<and> order c = map mr_id ?es \<and> distinct (map mr_id ?es)"
    if "load_entries ?es ?c0 = Ok c" for c
    using load_entries_Ok [OF that] by (auto simp: hm_wf_def comp_def)
  have "catalog_iter c = ?es \<and> catalog_len c = length ?es \<and>
      (\<forall>i e. catalog_get c i = Some e \<longleftrightarrow> e \<in> set ?es \<and> mr_id e = i)" if "load_entries ?es ?c0 = Ok c" for c
    using ok [OF that] get_pairs [of ?es] map_filter_get [of ?es "by_id c"]
    by (auto simp: catalog_iter_def catalog_len_def catalog_get_def)
  moreover have "\<exists>c. load_entries ?es ?c0 = Ok c" if "distinct (map mr_id ?es)"
    using load_entries_total [OF that, of ?c0] by simp
  ultimately show ?thesis using load ok by auto
qed

section \<open>Integrity\<close>

lemma fs_write_Ok: "fs_write r p b s = (Ok (), s') \<Longrightarrow> s' = s\<lparr>hs_files := hm_insert p b (hs_files s)\<rparr>"
  by (auto simp: fs_write_def split: write_result.splits)

lemma fs_rename_Ok:
  "fs_rename w a b s = (Ok (), s') \<Longrightarrow> hm_get (hs_files s) a = Some d \<Longrightarrow> hm_get (hs_files s') b = Some d"
  by (auto simp: fs_rename_def split: option.splits if_splits)

lemma write_atomic_Ok: "write_atomic w target b s = (Ok (), s') \<Longrightarrow> hm_get (hs_files s') target = Some b"
  by (auto simp: write_atomic_def and_then_Ok_iff dest!: fs_write_Ok dest: fs_rename_Ok)

lemma stream_body_Ok:
  "stream_body w i tmp n seen cs s = (Ok out, s') \<Longrightarrow> hm_get (hs_files s) tmp = Some seen \<Longrightarrow>
   hm_get (hs_files s') tmp = Some out"
proof (induction w i tmp n seen cs s rule: stream_body.induct)
  case (3 w i tmp n seen c cs s)
  then show ?case by (simp add: Let_def split: write_result.splits)
qed simp_all

text \<open>What is downloaded is what was hashed.\<close>

lemma download_to_Ok:
  assumes "download_to sha w e target s = (Ok actual, s')"
  obtains b where "hm_get (hs_files s') target = Some b" "actual = sha b"
proof (cases "strip_prefix ''file://'' (mr_url e)")
  case (Some p)
  with assms that show ?thesis
    by (auto simp: download_to_def and_then_Ok_iff dest: write_atomic_Ok)
next
  case None
  with assms obtain cs s1 s2 seen s3 where "send_request w e s = (Ok cs, s1)"
    "fs_create w (tmp_path_for target) s1 = (Ok (), s2)"
    "stream_body w (mr_id e) (tmp_path_for target) 0 [] cs s2 = (Ok seen, s3)"
    "fs_rename w (tmp_path_for target) target s3 = (Ok (), s')" "actual = sha seen"
    by (auto simp: download_to_def and_then_Ok_iff split: if_splits)
  moreover from this have "hm_get (hs_files s2) (tmp_path_for target) = Some []"
    by (auto simp: fs_create_def split: if_splits)
  ultimately show ?thesis using that stream_body_Ok fs_rename_Ok by blast
qed

lemma fetch_and_verify_Ok:
  assumes "fetch_and_verify sha w e target s = (Ok p, s')"
  shows "p = target \<and> (\<exists>b. hm_get (hs_files s') target = Some b \<and> (is_pinned e \<longrightarrow> sha b = mr_sha256 e))"
proof -
  from assms obtain actual s1 where "download_to sha w e target s = (Ok actual, s1)"
    "s' = s1" "p = target" "is_pinned e \<longrightarrow> actual = mr_sha256 e"
    by (auto simp: fetch_and_verify_def and_then_Ok_iff split: if_splits)
  then show ?thesis by (elim download_to_Ok) auto
qed

lemma cache_lookup_Ok:
  assumes "cache_lookup sha w e target s = (Ok hit, s')"
  shows "(\<forall>p. hit = Some p \<longrightarrow> p = target \<and> s' = s \<and>
      (\<exists>b. hm_get (hs_files s) target = Some b \<and> (is_pinned e \<longrightarrow> sha b = mr_sha256 e))) \<and>
    (s' = s \<or> s' = s\<lparr>hs_files := hm_remove target (hs_files s)\<rparr>)"
proof (cases "hm_get (hs_files s) target = None \<or> \<not> is_pinned e")
  case True
  with assms show ?thesis by (auto simp: cache_lookup_def split: if_splits)
next
  case False
  then obtain b where "hm_get (hs_files s) target = Some b" "is_pinned e" by auto
  with assms show ?thesis
    by (auto simp: cache_lookup_def and_then_def sha256_of_file_def fs_read_def fs_remove_def split: if_splits)
qed

lemma resolve_OkD:
  assumes "resolve sha w hub i s = (Ok p, s')"
  obtains e where "catalog_get (mh_catalog hub) i = Some e" "mr_nonfree e \<longrightarrow> hc_allow_nonfree (mh_config hub)"
    "is_pinned e \<or> hc_trust_unpinned (mh_config hub)" "resolve_entry sha w (mh_config hub) e s = (Ok p, s')"
  using assms by (auto simp: resolve_def split: option.splits if_splits)

text \<open>(C12) Whatever the network serves and the disk does, a path that the hub returns is the cache path of a
  catalogued entry, a file is there, and - unless the operator trusts unpinned entries - the file has the
  SHA-256 pinned in the catalogue; entries under a non-free license are only returned where they are allowed.\<close>

theorem hub_integrity:
  assumes "resolve sha w hub i s = (Ok p, s')"
  shows "\<exists>e b. catalog_get (mh_catalog hub) i = Some e \<and> p = hub_cache_path_for (mh_config hub) e \<and>
    hm_get (hs_files s') p = Some b \<and>
    (is_pinned e \<longrightarrow> sha b = mr_sha256 e) \<and> (\<not> hc_trust_unpinned (mh_config hub) \<longrightarrow> is_pinned e) \<and>
    (mr_nonfree e \<longrightarrow> hc_allow_nonfree (mh_config hub))"
proof -
  from assms obtain e where e: "catalog_get (mh_catalog hub) i = Some e"
    "mr_nonfree e \<longrightarrow> hc_allow_nonfree (mh_config hub)" "is_pinned e \<or> hc_trust_unpinned (mh_config hub)"
    "resolve_entry sha w (mh_config hub) e s = (Ok p, s')" by (rule resolve_OkD)
  let ?t = "hub_cache_path_for (mh_config hub) e"
  from e(4) obtain hit s1 where hit: "cache_lookup sha w e ?t s = (Ok hit, s1)"
    "(case hit of Some p \<Rightarrow> (Ok p, s1)
       | None \<Rightarrow> if hc_offline (mh_config hub) then (Err (NetworkBlocked (mr_id e)), s1)
                else fetch_and_verify sha w e ?t s1) = (Ok p, s')"
    by (auto simp: resolve_entry_def Let_def and_then_Ok_iff)
  have "p = ?t \<and> (\<exists>b. hm_get (hs_files s') ?t = Some b \<and> (is_pinned e \<longrightarrow> sha b = mr_sha256 e))"
  proof (cases hit)
    case None
    with hit(2) have "fetch_and_verify sha w e ?t s1 = (Ok p, s')" by (simp split: if_splits)
    then show ?thesis by (rule fetch_and_verify_Ok)
  next
    case (Some q)
    with hit(2) cache_lookup_Ok [OF hit(1)] show ?thesis by auto
  qed
  with e(1-3) show ?thesis by blast
qed

text \<open>Offline means offline: with the offline switch the hub requests no URL and creates or changes no file,
  even for local URLs; the only effect it can have is to delete a cached file whose digest is wrong; and it
  returns only what was in the cache before.\<close>

theorem hub_offline:
  assumes "hc_offline (mh_config hub)" and "resolve sha w hub i s = (r, s')"
  shows "hs_requests s' = hs_requests s \<and>
    (\<forall>f. hm_get (hs_files s') f = None \<or> hm_get (hs_files s') f = hm_get (hs_files s) f) \<and>
    (\<forall>p. r = Ok p \<longrightarrow> s' = s \<and> hm_get (hs_files s) p \<noteq> None)"
proof -
  have lookup: "t = s \<or> t = s\<lparr>hs_files := hm_remove target (hs_files s)\<rparr>"
    if "cache_lookup sha w e target s = (q, t)" for e target q t
    using that
    by (auto simp: cache_lookup_def and_then_def sha256_of_file_def fs_read_def fs_remove_def
        split: if_splits option.splits)
  show ?thesis
  proof (cases "\<exists>e. catalog_get (mh_catalog hub) i = Some e \<and> resolve_entry sha w (mh_config hub) e s = (r, s')")
    case False
    then show ?thesis using assms(2) by (auto simp: resolve_def split: option.splits if_splits)
  next
    case True
    then obtain e where e: "resolve_entry sha w (mh_config hub) e s = (r, s')" by blast
    let ?t = "hub_cache_path_for (mh_config hub) e"
    obtain q t where qt: "cache_lookup sha w e ?t s = (q, t)" by fastforce
    have "s' = t" "r = Ok p \<Longrightarrow> q = Ok (Some p)" for p
      using e qt assms(1) by (auto simp: resolve_entry_def Let_def and_then_def split: outcome.splits option.splits)
    moreover have "s' = s \<and> hm_get (hs_files s) p \<noteq> None" if "q = Ok (Some p)" "s' = t" for p
      using cache_lookup_Ok [of sha w e ?t s "Some p" t] qt that by auto
    ultimately show ?thesis using lookup [OF qt] by auto
  qed
qed

definition demo_ref :: model_ref where
  "demo_ref =
     \<lparr>mr_id = ''m'', mr_description = [], mr_format = ''onnx'', mr_url = ''file:///m'', mr_sha256 = replicate 64 CHR ''0'',
      mr_bytes = 1, mr_license = ''MIT'', mr_feature_gate = [], mr_nonfree = False, mr_notes = None\<rparr>"

definition demo_toml :: catalog_toml where
  "demo_toml = \<lparr>ct_schema_version = 1, ct_models = [demo_ref]\<rparr>"

definition demo_hub :: "bool \<Rightarrow> model_hub" where
  "demo_hub offline =
     with_catalog \<lparr>hc_root = ''/c'', hc_offline = offline, hc_trust_unpinned = False, hc_allow_nonfree = False\<rparr>
       \<lparr>by_id = [(''m'', demo_ref)], order = [''m'']\<rparr>"

definition demo_hub_world :: hub_world where
  "demo_hub_world =
     \<lparr>hw_get = (\<lambda>_. None), hw_chunk_write = (\<lambda>_. Written), hw_write = Written, hw_create = True, hw_rename = True,
      hw_remove = True, hw_mkdir = True, hw_readable = (\<lambda>_. True), hw_workspace = ''/''\<rparr>"

definition demo_hub_state :: hub_state where
  "demo_hub_state = \<lparr>hs_files = [(''/m'', [7])], hs_requests = []\<rparr>"

theorem catalog_faithful_witness:
  "\<exists>c. from_toml_str (\<lambda>_. Some demo_toml) [] = Ok c \<and> catalog_iter c = [demo_ref]"
  using catalog_faithful [of "\<lambda>_. Some demo_toml" "[]" demo_toml] by (auto simp: demo_toml_def)

lemma demo_pinned: "is_pinned demo_ref" "mr_sha256 demo_ref \<noteq> UNPINNED_SHA256"
proof -
  have "list_all is_ascii_hexdigit (replicate n CHR ''0'')" for n by (induction n) (simp_all add: is_ascii_hexdigit_def)
  then show "is_pinned demo_ref" by (simp add: is_pinned_def demo_ref_def)
  have "length (mr_sha256 demo_ref) = 64" by (simp add: demo_ref_def)
  then show "mr_sha256 demo_ref \<noteq> UNPINNED_SHA256" by (auto simp: UNPINNED_SHA256_def)
qed

lemma demo_hub_get: "catalog_get (mh_catalog (demo_hub b)) ''m'' = Some demo_ref" "mh_config (demo_hub b) =
    \<lparr>hc_root = ''/c'', hc_offline = b, hc_trust_unpinned = False, hc_allow_nonfree = False\<rparr>"
  by (simp_all add: demo_hub_def with_catalog_def catalog_get_def)

lemma demo_resolve: "\<exists>p s'. resolve (\<lambda>_. replicate 64 CHR ''0'') demo_hub_world (demo_hub False) ''m'' demo_hub_state = (Ok p, s')"
proof -
  let ?t = "hub_cache_path_for (mh_config (demo_hub False)) demo_ref"
  have miss: "hm_get (hs_files demo_hub_state) ?t = None"
    by (simp add: demo_hub_state_def hub_cache_path_for_def demo_hub_get path_join_def demo_ref_def url_basename_def)
  have url: "strip_prefix ''file://'' (mr_url demo_ref) = Some ''/m''" by (simp add: demo_ref_def)
  have "\<exists>p s'. resolve_entry (\<lambda>_. replicate 64 CHR ''0'') demo_hub_world (mh_config (demo_hub False)) demo_ref demo_hub_state = (Ok p, s')"
    using miss url
    by (simp add: resolve_entry_def Let_def and_then_def cache_lookup_def demo_hub_get fetch_and_verify_def
        demo_hub_world_def download_to_def fs_read_def resolve_file_url_def demo_hub_state_def write_atomic_def
        fs_write_def fs_rename_def) (simp add: demo_ref_def)
  then show ?thesis using demo_pinned by (simp add: resolve_def demo_hub_get demo_ref_def)
qed

theorem hub_integrity_witness:
  "\<exists>p s' b. resolve (\<lambda>_. replicate 64 CHR ''0'') demo_hub_world (demo_hub False) ''m'' demo_hub_state = (Ok p, s') \<and>
     hm_get (hs_files s') p = Some b"
  using demo_resolve hub_integrity by metis

theorem hub_offline_witness:
  "hs_requests (snd (resolve (\<lambda>_. []) demo_hub_world (demo_hub True) ''m'' demo_hub_state)) = []"
proof -
  have "hc_offline (mh_config (demo_hub True))" by (simp add: demo_hub_get)
  from hub_offline [OF this, of "\<lambda>_. []" demo_hub_world "''m''" demo_hub_state] show ?thesis
    by (cases "resolve (\<lambda>_. []) demo_hub_world (demo_hub True) ''m'' demo_hub_state") (simp add: demo_hub_state_def)
qed

text \<open>An entry that is neither pinned nor marked with the sentinel makes \<open>ensure_all\<close> fail instead of being
  skipped.\<close>

lemma ensure_stops:
  assumes "mr_sha256 e \<noteq> UNPINNED_SHA256" "\<not> is_pinned e" "\<not> mr_nonfree e" "\<not> hc_trust_unpinned (mh_config hub)"
    and "catalog_get (mh_catalog hub) (mr_id e) = Some e"
  shows "ensure_entries sha w hub n (e # es) s = (Err (Unpinned (mr_id e)), s)"
  using assms by (simp add: and_then_def resolve_def)

section \<open>Tensors\<close>

datatype dtype = F16 | F32 | I8 | U8

fun size_bytes :: "dtype \<Rightarrow> usize" where
  "size_bytes F16 = 2"
| "size_bytes F32 = 4"
| "size_bytes I8 = 1"
| "size_bytes U8 = 1"

fun dtype_name :: "dtype \<Rightarrow> string" where
  "dtype_name F16 = ''FP16''"
| "dtype_name F32 = ''FP32''"
| "dtype_name I8 = ''INT8''"
| "dtype_name U8 = ''UINT8''"

record tensor =
  tn_name :: string
  tn_shape :: "usize list"
  tn_dtype :: dtype
  tn_bytes :: bytes

definition sat_mul :: "usize \<Rightarrow> usize \<Rightarrow> usize" where
  "sat_mul a b = (if unat a * unat b < 2 ^ 64 then a * b else - 1)"

text \<open>The product wraps, the multiplication by the element size saturates.\<close>

definition element_count :: "tensor \<Rightarrow> usize" where
  "element_count t = prod_list (tn_shape t)"

definition is_well_formed :: "tensor \<Rightarrow> bool" where
  "is_well_formed t \<longleftrightarrow> length (tn_bytes t) = unat (sat_mul (prod_list (tn_shape t)) (size_bytes (tn_dtype t)))"

record tensor_batch =
  tb_tensors :: "tensor list"
  tb_latency_us :: u64

definition tensor_batch_new :: "tensor list \<Rightarrow> tensor_batch" where
  "tensor_batch_new ts = \<lparr>tb_tensors = ts, tb_latency_us = 0\<rparr>"

definition tensor_batch_get :: "tensor_batch \<Rightarrow> string \<Rightarrow> tensor option" where
  "tensor_batch_get b n = find (\<lambda>t. tn_name t = n) (tb_tensors b)"

lemma unat_prod_list:
  "prod_list (map unat xs) < 2 ^ 64 \<Longrightarrow> 0 \<notin> set xs \<Longrightarrow> unat (prod_list xs) = prod_list (map unat xs)" for xs :: "usize list"
proof (induction xs)
  case (Cons x xs)
  have "1 \<le> unat x" using Cons.prems(2) by (simp add: Suc_le_eq unat_gt_0)
  then have le: "prod_list (map unat xs) \<le> unat x * prod_list (map unat xs)" by simp
  have "unat x * prod_list (map unat xs) < 2 ^ 64" using Cons.prems(1) by simp
  with le have "prod_list (map unat xs) < 2 ^ 64" by (rule order_le_less_trans)
  with Cons have "unat (prod_list xs) = prod_list (map unat xs)" by simp
  with Cons.prems(1) show ?case by (simp add: unat_word_ariths)
qed simp

lemma unat_prod_list_zero: "0 \<in> set xs \<Longrightarrow> prod_list xs = (0 :: usize)"
  by (induction xs) auto

text \<open>(C40) The check of a tensor is exact as long as the true number of elements is below \<open>2 ^ 64\<close>: it holds if and
  only if there are as many bytes as elements times the element size. Beyond that the product wraps, and a
  tensor of \<open>2 ^ 64\<close> elements with no bytes at all is well formed.\<close>

theorem tensor_well_formed:
  assumes "prod_list (map unat (tn_shape t)) < 2 ^ 64" and "length (tn_bytes t) < 2 ^ 64 - 1"
  shows "(is_well_formed t \<longleftrightarrow>
      length (tn_bytes t) = prod_list (map unat (tn_shape t)) * unat (size_bytes (tn_dtype t))) \<and>
    is_well_formed \<lparr>tn_name = [], tn_shape = [2 ^ 32, 2 ^ 32], tn_dtype = d, tn_bytes = []\<rparr>"
proof -
  have unat: "unat (prod_list (tn_shape t)) = prod_list (map unat (tn_shape t))"
  proof (cases "0 \<in> set (tn_shape t)")
    case True
    then have "0 \<in> set (map unat (tn_shape t))" by force
    then have "prod_list (map unat (tn_shape t)) = 0" by (simp add: prod_list_zero_iff)
    with True show ?thesis by (simp add: unat_prod_list_zero)
  qed (use assms(1) in \<open>simp add: unat_prod_list\<close>)
  have max: "unat (- 1 :: usize) = 2 ^ 64 - 1" by (simp add: unat_max_word)
  have mul: "unat (sat_mul a b) = (if unat a * unat b < 2 ^ 64 then unat a * unat b else 2 ^ 64 - 1)" for a b
    using max by (simp add: sat_mul_def unat_word_ariths)
  have zero: "prod_list [2 ^ 32, 2 ^ 32] = (0 :: usize)" by (simp add: power_add [symmetric])
  have "is_well_formed \<lparr>tn_name = [], tn_shape = [2 ^ 32, 2 ^ 32], tn_dtype = d, tn_bytes = []\<rparr>"
    unfolding is_well_formed_def by (simp add: mul)
  moreover have "is_well_formed t \<longleftrightarrow>
      length (tn_bytes t) = prod_list (map unat (tn_shape t)) * unat (size_bytes (tn_dtype t))"
    using assms(2) by (auto simp: is_well_formed_def mul unat)
  ultimately show ?thesis by blast
qed

theorem tensor_well_formed_witness:
  "is_well_formed \<lparr>tn_name = [], tn_shape = [2, 3], tn_dtype = U8, tn_bytes = [1, 2, 3, 4, 5, 6]\<rparr>"
  using tensor_well_formed [of "\<lparr>tn_name = [], tn_shape = [2, 3], tn_dtype = U8, tn_bytes = [1, 2, 3, 4, 5, 6]\<rparr>" U8]
  by simp

section \<open>The inference pipeline\<close>

datatype infer_tenant_id = InferTenantId string
datatype model_id = ModelId string
datatype adapter_id = AdapterId string

type_synonym adapter_table = "(infer_tenant_id \<times> model_id, adapter_id) hash_map"

definition register_adapter :: "infer_tenant_id \<Rightarrow> model_id \<Rightarrow> adapter_id \<Rightarrow> adapter_table \<Rightarrow> adapter_id option \<times> adapter_table" where
  "register_adapter t m a tab = (hm_get tab (t, m), hm_insert (t, m) a tab)"

definition unregister_adapter :: "infer_tenant_id \<Rightarrow> model_id \<Rightarrow> adapter_table \<Rightarrow> adapter_id option \<times> adapter_table" where
  "unregister_adapter t m tab = (hm_get tab (t, m), hm_remove (t, m) tab)"

definition adapter_for :: "infer_tenant_id \<Rightarrow> model_id \<Rightarrow> adapter_table \<Rightarrow> adapter_id option" where
  "adapter_for t m tab = hm_get tab (t, m)"

text \<open>\<open>run\<close> is the backend, \<open>elapsed\<close> the microseconds the call took.\<close>

definition infer ::
    "(model_id \<Rightarrow> adapter_id option \<Rightarrow> tensor_batch \<Rightarrow> (string, tensor_batch) outcome) \<Rightarrow> nat \<Rightarrow> adapter_table \<Rightarrow>
     infer_tenant_id \<Rightarrow> model_id \<Rightarrow> tensor_batch \<Rightarrow> (string, tensor_batch) outcome" where
  "infer run elapsed tab t m inputs =
     (case run m (adapter_for t m tab) inputs of
        Ok out \<Rightarrow>
          let us = (if elapsed < 2 ^ 64 then of_nat elapsed else - 1 :: u64)
          in Ok (out\<lparr>tb_latency_us := max (tb_latency_us out) us\<rparr>)
      | Err e \<Rightarrow> Err e
      | Panic \<Rightarrow> Panic)"

lemma adapters_isolated:
  "adapter_for t' m' (snd (register_adapter t m a tab)) = (if (t', m') = (t, m) then Some a else adapter_for t' m' tab)"
  "adapter_for t' m' (snd (unregister_adapter t m tab)) = (if (t', m') = (t, m) then None else adapter_for t' m' tab)"
  by (auto simp: adapter_for_def register_adapter_def unregister_adapter_def)

end
