(* ===== verification/File_Ports.thy ===== *)
theory File_Ports
  imports Service_Sources
begin

text \<open>
  What clients of the file operations rely on, and the service as a provider of file operations
  (\<open>ports/clipboard.rs\<close>, \<open>IFileOperationsProvider\<close>, implemented at the end of \<open>application/vfs_service.rs\<close>, under
  \<open>apps/vfs-desktop/src-tauri/src/vfs\<close>).

  The locale \<open>file_store\<close> is the contract of the port \<open>IFileOperations\<close> for files: a store is a map from the paths it
  tells apart (its names) to contents, and a call that succeeds changes it as its name says. The adapters for local
  directories and for S3 are interpretations. The locale \<open>file_provider\<close> is the same contract one level up; the
  service satisfies it for every source whose operations are a \<open>file_store\<close>.
\<close>

section \<open>Stores of files\<close>

text \<open>Nothing is stored below a path.\<close>

definition leaf :: "(string \<Rightarrow> bytes option) \<Rightarrow> string \<Rightarrow> bool" where
  "leaf v p \<longleftrightarrow> (\<forall>q. prefix (p @ [slash]) q \<longrightarrow> v q = None)"

locale file_store =
  fixes ops :: "'w file_operations"
    and ok :: "'w \<Rightarrow> bool"
    and names :: "string set"
    and view :: "'w \<Rightarrow> string \<Rightarrow> bytes option"
  assumes view_names: "view w p \<noteq> None \<Longrightarrow> p \<in> names"
    and stat: "ok w \<Longrightarrow> fo_stat ops p w = (rs, w') \<Longrightarrow>
      ok w' \<and> view w' = view w \<and> (\<forall>st. p \<in> names \<longrightarrow> rs = Ok st \<longrightarrow> fs_is_dir st = (view w p = None))"
    and exists: "ok w \<Longrightarrow> fo_exists ops p w = (re, w') \<Longrightarrow>
      ok w' \<and> view w' = view w \<and> (p \<in> names \<longrightarrow> re = Ok False \<longrightarrow> view w p = None)"
    and list: "ok w \<Longrightarrow> fo_list ops p w = (rl, w') \<Longrightarrow> ok w' \<and> view w' = view w"
    and read: "ok w \<Longrightarrow> fo_read ops p w = (rr, w') \<Longrightarrow>
      ok w' \<and> view w' = view w \<and> (\<forall>d. p \<in> names \<longrightarrow> rr = Ok d \<longrightarrow> view w p = Some d)"
    and put: "ok w \<Longrightarrow> p \<in> names \<Longrightarrow> fo_write ops p d w = (Ok (), w') \<Longrightarrow> ok w' \<and> view w' = (view w)(p \<mapsto> d)"
    and rm: "ok w \<Longrightarrow> view w p = Some d \<Longrightarrow> fo_rm ops p w = (Ok (), w') \<Longrightarrow>
      ok w' \<and> view w' = (view w)(p := None)"
    and rm_rf: "ok w \<Longrightarrow> view w p = Some d \<Longrightarrow> leaf (view w) p \<Longrightarrow> fo_rm_rf ops p w = (Ok (), w') \<Longrightarrow>
      ok w' \<and> view w' = (view w)(p := None)"
    and copy: "ok w \<Longrightarrow> view w p = Some d \<Longrightarrow> leaf (view w) p \<Longrightarrow> q \<in> names \<Longrightarrow> q \<noteq> p \<Longrightarrow>
      fo_copy ops p q opts w = (Ok (), w') \<Longrightarrow> ok w' \<and> view w' = (view w)(q \<mapsto> d)"
    and failed_copy: "ok w \<Longrightarrow> view w p = Some d \<Longrightarrow> leaf (view w) p \<Longrightarrow> q \<in> names \<Longrightarrow> q \<noteq> p \<Longrightarrow>
      fo_copy ops p q opts w = (Err e, w') \<Longrightarrow> ok w' \<and> (\<forall>r. r \<noteq> q \<longrightarrow> view w' r = view w r)"
    and mv: "ok w \<Longrightarrow> view w p = Some d \<Longrightarrow> leaf (view w) p \<Longrightarrow> q \<in> names \<Longrightarrow> q \<noteq> p \<Longrightarrow>
      \<not> prefix (p @ [slash]) q \<Longrightarrow> fo_mv ops p q True w = (Ok (), w') \<Longrightarrow>
      ok w' \<and> view w' = (view w)(q \<mapsto> d, p := None)"
    and failed_rm_rf: "ok w \<Longrightarrow> view w p = Some d \<Longrightarrow> leaf (view w) p \<Longrightarrow> fo_rm_rf ops p w = (Err e, w') \<Longrightarrow>
      ok w' \<and> view w' = view w"

section \<open>Providers\<close>

text \<open>The operations of a source, over a state \<open>'s\<close> that holds the sources.\<close>

record 's provider =
  pv_file_ops :: "string \<Rightarrow> ('s, string, 's file_operations) act"
  pv_mkdir_p :: "string \<Rightarrow> string \<Rightarrow> ('s, string, unit) act"
  pv_write :: "string \<Rightarrow> string \<Rightarrow> bytes \<Rightarrow> ('s, string, unit) act"
  pv_read :: "string \<Rightarrow> string \<Rightarrow> ('s, string, bytes) act"
  pv_stat :: "string \<Rightarrow> string \<Rightarrow> ('s, string, file_stat) act"
  pv_list_files :: "string \<Rightarrow> string \<Rightarrow> ('s, string, file_entry list) act"
  pv_copy :: "string \<Rightarrow> string \<Rightarrow> string \<Rightarrow> copy_options \<Rightarrow> ('s, string, unit) act"
  pv_copy_to_source :: "string \<Rightarrow> string \<Rightarrow> string \<Rightarrow> string \<Rightarrow> ('s, string, unit) act"
  pv_rm :: "string \<Rightarrow> string \<Rightarrow> ('s, string, unit) act"
  pv_rm_rf :: "string \<Rightarrow> string \<Rightarrow> ('s, string, unit) act"
  pv_exists :: "string \<Rightarrow> string \<Rightarrow> ('s, string, bool) act"

text \<open>The operations of a source as operations over the state of the service.\<close>

definition service_ops :: "'w file_operations \<Rightarrow> ('c, 'w) vfs_service file_operations" where
  "service_ops ops =
     \<lparr>fo_stat = (\<lambda>p. on_world (fo_stat ops p)), fo_read = (\<lambda>p. on_world (fo_read ops p)),
      fo_write = (\<lambda>p d. on_world (fo_write ops p d)), fo_mkdir_p = (\<lambda>p. on_world (fo_mkdir_p ops p)),
      fo_list = (\<lambda>p. on_world (fo_list ops p)), fo_rm_rf = (\<lambda>p. on_world (fo_rm_rf ops p)),
      fo_append = (\<lambda>p d. on_world (fo_append ops p d)), fo_mkdir = (\<lambda>p. on_world (fo_mkdir ops p)),
      fo_rmdir = (\<lambda>p. on_world (fo_rmdir ops p)), fo_rename = (\<lambda>p q. on_world (fo_rename ops p q)),
      fo_copy = (\<lambda>p q c. on_world (fo_copy ops p q c)), fo_mv = (\<lambda>p q b. on_world (fo_mv ops p q b)),
      fo_rm = (\<lambda>p. on_world (fo_rm ops p)), fo_chmod = (\<lambda>p m. on_world (fo_chmod ops p m)),
      fo_touch = (\<lambda>p. on_world (fo_touch ops p)), fo_exists = (\<lambda>p. on_world (fo_exists ops p))\<rparr>"

text \<open>Reading is the read through the cache. \<open>fuel\<close> is that of the copy of a directory to another source.\<close>

definition service_provider :: "nat \<Rightarrow> ('c, 'w) vfs_service provider" where
  "service_provider fuel =
     \<lparr>pv_file_ops = (\<lambda>i. and_then (get_file_ops i) (\<lambda>ops s. (Ok (service_ops ops), s))),
      pv_mkdir_p = svc_mkdir_p,
      pv_write = (\<lambda>i p d. with_ops i (\<lambda>ops. fo_write ops p d)),
      pv_read = read_file,
      pv_stat = svc_stat,
      pv_list_files = (\<lambda>i p. with_ops i (\<lambda>ops. fo_list ops p)),
      pv_copy = svc_copy,
      pv_copy_to_source = (\<lambda>i p j q. and_then (copy_to_source fuel i p j q) (\<lambda>_ s. (Ok (), s))),
      pv_rm = svc_rm,
      pv_rm_rf = svc_rm_rf,
      pv_exists = (\<lambda>i p. with_ops i (\<lambda>ops. fo_exists ops p))\<rparr>"

locale file_provider =
  fixes pv :: "'s provider"
    and i :: string
    and ok :: "'s \<Rightarrow> bool"
    and names :: "string set"
    and view :: "'s \<Rightarrow> string \<Rightarrow> bytes option"
  assumes view_names: "view s p \<noteq> None \<Longrightarrow> p \<in> names"
    and stat: "ok s \<Longrightarrow> pv_stat pv i p s = (rs, s') \<Longrightarrow>
      ok s' \<and> view s' = view s \<and> (\<forall>st. p \<in> names \<longrightarrow> rs = Ok st \<longrightarrow> fs_is_dir st = (view s p = None))"
    and exists: "ok s \<Longrightarrow> pv_exists pv i p s = (re, s') \<Longrightarrow>
      ok s' \<and> view s' = view s \<and> (p \<in> names \<longrightarrow> re = Ok False \<longrightarrow> view s p = None)"
    and list: "ok s \<Longrightarrow> pv_list_files pv i p s = (rl, s') \<Longrightarrow> ok s' \<and> view s' = view s"
    and file_ops: "ok s \<Longrightarrow> pv_file_ops pv i s = (ro, s') \<Longrightarrow> ok s' \<and> view s' = view s"
    and ops_stat: "ok s \<Longrightarrow> pv_file_ops pv i s = (Ok ops, s1) \<Longrightarrow> fo_stat ops p s1 = (rs, s') \<Longrightarrow> ok s' \<and> view s' = view s"
    and put: "ok s \<Longrightarrow> p \<in> names \<Longrightarrow> pv_write pv i p d s = (Ok (), s') \<Longrightarrow> ok s' \<and> view s' = (view s)(p \<mapsto> d)"
    and rm: "ok s \<Longrightarrow> view s p = Some d \<Longrightarrow> pv_rm pv i p s = (Ok (), s') \<Longrightarrow> ok s' \<and> view s' = (view s)(p := None)"
    and rm_rf: "ok s \<Longrightarrow> view s p = Some d \<Longrightarrow> leaf (view s) p \<Longrightarrow> pv_rm_rf pv i p s = (Ok (), s') \<Longrightarrow>
      ok s' \<and> view s' = (view s)(p := None)"
    and failed_rm_rf: "ok s \<Longrightarrow> view s p = Some d \<Longrightarrow> leaf (view s) p \<Longrightarrow> pv_rm_rf pv i p s = (Err e, s') \<Longrightarrow>
      ok s' \<and> view s' = view s"
    and copy: "ok s \<Longrightarrow> view s p = Some d \<Longrightarrow> leaf (view s) p \<Longrightarrow> q \<in> names \<Longrightarrow> q \<noteq> p \<Longrightarrow>
      pv_copy pv i p q opts s = (Ok (), s') \<Longrightarrow> ok s' \<and> view s' = (view s)(q \<mapsto> d)"
    and failed_copy: "ok s \<Longrightarrow> view s p = Some d \<Longrightarrow> leaf (view s) p \<Longrightarrow> q \<in> names \<Longrightarrow> q \<noteq> p \<Longrightarrow>
      pv_copy pv i p q opts s = (Err e, s') \<Longrightarrow> ok s' \<and> (\<forall>r. r \<noteq> q \<longrightarrow> view s' r = view s r)"
    and mv: "ok s \<Longrightarrow> view s p = Some d \<Longrightarrow> leaf (view s) p \<Longrightarrow> q \<in> names \<Longrightarrow> q \<noteq> p \<Longrightarrow>
      \<not> prefix (p @ [slash]) q \<Longrightarrow> pv_file_ops pv i s = (Ok ops, s1) \<Longrightarrow> fo_mv ops p q True s1 = (Ok (), s') \<Longrightarrow>
      ok s' \<and> view s' = (view s)(q \<mapsto> d, p := None)"

text \<open>A source of the service whose operations are given.\<close>

definition source_has :: "string \<Rightarrow> 'w file_operations \<Rightarrow> ('c, 'w) vfs_service \<Rightarrow> bool" where
  "source_has i ops s \<longleftrightarrow> (case hm_get (vs_sources s) i of None \<Rightarrow> False | Some st \<Rightarrow> st_file_ops st = Some ops)"

lemma source_has_ops: "source_has i ops s \<Longrightarrow> get_file_ops i s = (Ok ops, s)"
  by (auto simp: source_has_def get_file_ops_def split: option.splits)

lemma source_has_world [simp]: "source_has i ops (s\<lparr>vs_world := w\<rparr>) = source_has i ops s"
  by (simp add: source_has_def)

lemma with_ops_source:
  "source_has i ops s \<Longrightarrow>
     with_ops i f s = (r, s') \<longleftrightarrow> (\<exists>w. f ops (vs_world s) = (r, w) \<and> s' = s\<lparr>vs_world := w\<rparr>)"
  using source_has_ops [of i ops s] by (auto simp: with_ops_def on_world_def split: prod.splits)

sublocale file_store \<subseteq> provided: file_provider "service_provider fuel" i
    "\<lambda>s. source_has i ops s \<and> ok (vs_world s)" names "\<lambda>s. view (vs_world s)" for fuel i
proof
  fix s :: "('c, 'w) vfs_service" and p q d opts r s' e
  assume s: "source_has i ops s \<and> ok (vs_world s)"
  note pv = service_provider_def svc_stat_def svc_rm_def svc_rm_rf_def svc_copy_def with_ops_source [OF conjunct1 [OF s]]
  show "(source_has i ops s' \<and> ok (vs_world s')) \<and> view (vs_world s') = view (vs_world s) \<and>
      (\<forall>st. p \<in> names \<longrightarrow> r = Ok st \<longrightarrow> fs_is_dir st = (view (vs_world s) p = None))"
    if "pv_stat (service_provider fuel) i p s = (r, s')" for r
    using stat [OF conjunct2 [OF s], of p r] that conjunct1 [OF s] by (auto simp: pv)
  show "(source_has i ops s' \<and> ok (vs_world s')) \<and> view (vs_world s') = view (vs_world s) \<and>
      (p \<in> names \<longrightarrow> r = Ok False \<longrightarrow> view (vs_world s) p = None)"
    if "pv_exists (service_provider fuel) i p s = (r, s')" for r
    using exists [OF conjunct2 [OF s], of p r] that conjunct1 [OF s] by (auto simp: pv)
  show "(source_has i ops s' \<and> ok (vs_world s')) \<and> view (vs_world s') = view (vs_world s)"
    if "pv_list_files (service_provider fuel) i p s = (r, s')" for r
    using list [OF conjunct2 [OF s], of p r] that conjunct1 [OF s] by (auto simp: pv)
  have file_ops: "pv_file_ops (service_provider fuel) i s = (Ok (service_ops ops), s)"
    using source_has_ops [OF conjunct1 [OF s]] by (simp add: service_provider_def)
  then show "(source_has i ops s' \<and> ok (vs_world s')) \<and> view (vs_world s') = view (vs_world s)"
    if "pv_file_ops (service_provider fuel) i s = (r, s')" for r :: "(string, ('c, 'w) vfs_service file_operations) outcome"
    using that s by simp
  show "(source_has i ops s' \<and> ok (vs_world s')) \<and> view (vs_world s') = view (vs_world s)"
    if "pv_file_ops (service_provider fuel) i s = (Ok o', s1)" "fo_stat o' p s1 = (r, s')" for o' s1 r
    using that file_ops stat [OF conjunct2 [OF s], of p r] conjunct1 [OF s]
    by (auto simp: service_ops_def on_world_def split: prod.splits)
  show "(source_has i ops s' \<and> ok (vs_world s')) \<and> view (vs_world s') = (view (vs_world s))(p \<mapsto> d)"
    if "p \<in> names" "pv_write (service_provider fuel) i p d s = (Ok (), s')"
    using put [OF conjunct2 [OF s] that(1)] that(2) conjunct1 [OF s] by (auto simp: pv)
  show "(source_has i ops s' \<and> ok (vs_world s')) \<and> view (vs_world s') = (view (vs_world s))(p := None)"
    if "view (vs_world s) p = Some d" "pv_rm (service_provider fuel) i p s = (Ok (), s')"
    using rm [OF conjunct2 [OF s] that(1)] that(2) conjunct1 [OF s] by (auto simp: pv)
  show "(source_has i ops s' \<and> ok (vs_world s')) \<and> view (vs_world s') = (view (vs_world s))(p := None)"
    if "view (vs_world s) p = Some d" "leaf (view (vs_world s)) p" "pv_rm_rf (service_provider fuel) i p s = (Ok (), s')"
    using rm_rf [OF conjunct2 [OF s] that(1,2)] that(3) conjunct1 [OF s] by (auto simp: pv)
  show "(source_has i ops s' \<and> ok (vs_world s')) \<and> view (vs_world s') = view (vs_world s)"
    if "view (vs_world s) p = Some d" "leaf (view (vs_world s)) p" "pv_rm_rf (service_provider fuel) i p s = (Err e, s')"
    using failed_rm_rf [OF conjunct2 [OF s] that(1,2)] that(3) conjunct1 [OF s] by (auto simp: pv)
  show "(source_has i ops s' \<and> ok (vs_world s')) \<and> view (vs_world s') = (view (vs_world s))(q \<mapsto> d)"
    if "view (vs_world s) p = Some d" "leaf (view (vs_world s)) p" "q \<in> names" "q \<noteq> p"
      "pv_copy (service_provider fuel) i p q opts s = (Ok (), s')"
    using copy [OF conjunct2 [OF s] that(1-4)] that(5) conjunct1 [OF s] by (auto simp: pv)
  show "(source_has i ops s' \<and> ok (vs_world s')) \<and> (\<forall>r. r \<noteq> q \<longrightarrow> view (vs_world s') r = view (vs_world s) r)"
    if "view (vs_world s) p = Some d" "leaf (view (vs_world s)) p" "q \<in> names" "q \<noteq> p"
      "pv_copy (service_provider fuel) i p q opts s = (Err e, s')"
    using failed_copy [OF conjunct2 [OF s] that(1-4)] that(5) conjunct1 [OF s] by (auto simp: pv)
  show "(source_has i ops s' \<and> ok (vs_world s')) \<and> view (vs_world s') = (view (vs_world s))(q \<mapsto> d, p := None)"
    if "view (vs_world s) p = Some d" "leaf (view (vs_world s)) p" "q \<in> names" "q \<noteq> p" "\<not> prefix (p @ [slash]) q"
      "pv_file_ops (service_provider fuel) i s = (Ok o', s1)" "fo_mv o' p q True s1 = (Ok (), s')" for o' s1
    using that(6,7) mv [OF conjunct2 [OF s] that(1-5)] source_has_ops [OF conjunct1 [OF s]] conjunct1 [OF s]
    by (auto simp: service_provider_def service_ops_def on_world_Ok_iff)
qed (use view_names in blast)

end
