(* ===== verification/Host_Files.thy ===== *)
theory Host_Files
  imports Nvme_Cache
begin

text \<open>
  The part of \<open>std::fs\<close> that the desktop adapters use (through \<open>tokio::fs\<close>, which runs the same calls on a thread
  pool), on a host without symbolic links.

  A directory tree is a map from locations (component lists that begin with the root) to nodes. A path is turned into
  its location component by component, a \<open>..\<close> going up. \<open>hf_denied\<close> says which locations the host does not let the
  application read or change, \<open>hf_writes\<close> how a write of a file ends, \<open>hf_read_max\<close> how many bytes one call of
  \<open>read\<close> returns at most, and \<open>hf_dir_len\<close> which length the host reports for a directory.
\<close>

section \<open>State\<close>

type_synonym location = "string list"

datatype host_node = FileNode bytes | DirNode

record host_files =
  hf_nodes :: "(location, host_node) hash_map"
  hf_cwd :: location
  hf_denied :: "location \<Rightarrow> bool"
  hf_writes :: "location \<Rightarrow> write_result"
  hf_read_max :: nat
  hf_dir_len :: u64

type_synonym 'a host_act = "(host_files, string, 'a) act"

definition go :: "location \<Rightarrow> string \<Rightarrow> location" where
  "go l c = (if c = ''.'' then l else if c = ''..'' then (if length l \<le> 1 then l else butlast l) else l @ [c])"

definition locate :: "host_files \<Rightarrow> string \<Rightarrow> location" where
  "locate s p = foldl go (if p \<noteq> [] \<and> hd p = slash then [] else hf_cwd s) (path_components p)"

definition node_at :: "host_files \<Rightarrow> location \<Rightarrow> host_node option" where
  "node_at s l = hm_get (hf_nodes s) l"

definition put_node :: "location \<Rightarrow> host_node \<Rightarrow> host_files \<Rightarrow> host_files" where
  "put_node l n s = s\<lparr>hf_nodes := hm_insert l n (hf_nodes s)\<rparr>"

definition drop_nodes :: "(location \<Rightarrow> bool) \<Rightarrow> host_files \<Rightarrow> host_files" where
  "drop_nodes P s = s\<lparr>hf_nodes := filter (\<lambda>(k, _). \<not> P k) (hf_nodes s)\<rparr>"

definition below :: "location \<Rightarrow> location \<Rightarrow> bool" where
  "below l k \<longleftrightarrow> strict_prefix l k"

section \<open>Asking\<close>

definition host_node_of :: "string \<Rightarrow> host_node host_act" where
  "host_node_of p s =
     (let l = locate s p in
      if hf_denied s l then (Err ''permission denied'', s)
      else (case node_at s l of None \<Rightarrow> (Err ''not found'', s) | Some n \<Rightarrow> (Ok n, s)))"

definition node_len :: "host_files \<Rightarrow> host_node \<Rightarrow> u64" where
  "node_len s n = (case n of FileNode b \<Rightarrow> of_nat (length b) | DirNode \<Rightarrow> hf_dir_len s)"

text \<open>\<open>Path::exists\<close> and \<open>Path::is_dir\<close> take every error for a no.\<close>

definition host_exists :: "string \<Rightarrow> host_files \<Rightarrow> bool" where
  "host_exists p s \<longleftrightarrow> \<not> hf_denied s (locate s p) \<and> node_at s (locate s p) \<noteq> None"

definition host_is_dir :: "string \<Rightarrow> host_files \<Rightarrow> bool" where
  "host_is_dir p s \<longleftrightarrow> \<not> hf_denied s (locate s p) \<and> node_at s (locate s p) = Some DirNode"

definition host_read :: "string \<Rightarrow> bytes host_act" where
  "host_read p =
     and_then (host_node_of p)
       (\<lambda>n s. case n of FileNode b \<Rightarrow> (Ok b, s) | DirNode \<Rightarrow> (Err ''is a directory'', s))"

text \<open>Opening, seeking to an offset and one call of \<open>read\<close> with a buffer of \<open>len\<close> bytes.\<close>

definition host_read_at :: "string \<Rightarrow> nat \<Rightarrow> nat \<Rightarrow> bytes host_act" where
  "host_read_at p off len =
     and_then (host_read p) (\<lambda>b s. (Ok (take (min len (hf_read_max s)) (drop off b)), s))"

text \<open>The names in a directory, in the order in which the host gives them.\<close>

definition host_read_dir :: "string \<Rightarrow> string list host_act" where
  "host_read_dir p =
     and_then (host_node_of p)
       (\<lambda>n s. case n of
          FileNode b \<Rightarrow> (Err ''not a directory'', s)
        | DirNode \<Rightarrow>
            (let l = locate s p in
             (Ok (map last (filter (\<lambda>k. k \<noteq> [] \<and> butlast k = l \<and> length k = Suc (length l)) (hm_keys (hf_nodes s)))), s)))"

section \<open>Changing\<close>

definition parent_is_dir :: "location \<Rightarrow> host_files \<Rightarrow> bool" where
  "parent_is_dir l s \<longleftrightarrow> l \<noteq> [] \<and> node_at s (butlast l) = Some DirNode"

definition host_create_dir :: "string \<Rightarrow> unit host_act" where
  "host_create_dir p s =
     (let l = locate s p in
      if hf_denied s l then (Err ''permission denied'', s)
      else if node_at s l \<noteq> None then (Err ''file exists'', s)
      else if \<not> parent_is_dir l s then (Err ''not found'', s)
      else (Ok (), put_node l DirNode s))"

text \<open>\<open>create_dir_all\<close> makes the missing directories from the top.\<close>

fun make_dirs :: "location list \<Rightarrow> unit host_act" where
  "make_dirs [] s = (Ok (), s)"
| "make_dirs (l # ls) s =
     (case node_at s l of
        Some DirNode \<Rightarrow> make_dirs ls s
      | Some (FileNode b) \<Rightarrow> (Err ''not a directory'', s)
      | None \<Rightarrow> if hf_denied s l then (Err ''permission denied'', s) else make_dirs ls (put_node l DirNode s))"

definition host_create_dir_all :: "string \<Rightarrow> unit host_act" where
  "host_create_dir_all p s = make_dirs (tl (prefixes (locate s p))) s"

text \<open>Giving a file new content, which creates it in a directory that exists.\<close>

definition host_put :: "location \<Rightarrow> bytes \<Rightarrow> unit host_act" where
  "host_put l b s =
     (if hf_denied s l then (Err ''permission denied'', s)
      else if node_at s l = Some DirNode then (Err ''is a directory'', s)
      else if \<not> parent_is_dir l s then (Err ''not found'', s)
      else
        (case hf_writes s l of
           Written \<Rightarrow> (Ok (), put_node l (FileNode b) s)
         | Refused \<Rightarrow> (Err ''write failed'', s)
         | Torn b' \<Rightarrow> (Err ''write failed'', put_node l (FileNode b') s)))"

definition host_write :: "string \<Rightarrow> bytes \<Rightarrow> unit host_act" where
  "host_write p b s = host_put (locate s p) b s"

definition file_bytes :: "location \<Rightarrow> host_files \<Rightarrow> bytes" where
  "file_bytes l s = (case node_at s l of Some (FileNode b) \<Rightarrow> b | _ \<Rightarrow> [])"

definition host_append :: "string \<Rightarrow> bytes \<Rightarrow> unit host_act" where
  "host_append p b s = (let l = locate s p in host_put l (file_bytes l s @ b) s)"

text \<open>Opening an existing file for writing, and then giving it the content \<open>f\<close> makes of the one it has.\<close>

definition host_edit :: "string \<Rightarrow> (bytes \<Rightarrow> bytes) \<Rightarrow> unit host_act" where
  "host_edit p f s =
     (let l = locate s p in
      case node_at s l of None \<Rightarrow> (Err ''not found'', s) | Some n \<Rightarrow> host_put l (f (file_bytes l s)) s)"

text \<open>Writing at an offset fills a gap with zeros; \<open>set_len\<close> cuts or fills.\<close>

definition overlay :: "nat \<Rightarrow> bytes \<Rightarrow> bytes \<Rightarrow> bytes" where
  "overlay off d b =
     (if d = [] then b else take off (b @ replicate (off - length b) 0) @ d @ drop (off + length d) b)"

definition resized :: "nat \<Rightarrow> bytes \<Rightarrow> bytes" where
  "resized n b = take n (b @ replicate (n - length b) 0)"

text \<open>\<open>std::fs::copy\<close> opens both files and truncates the destination before it copies, so a file copied onto itself
  is emptied.\<close>

definition host_copy :: "string \<Rightarrow> string \<Rightarrow> unit host_act" where
  "host_copy p q =
     and_then (host_read p)
       (\<lambda>b s. host_put (locate s q) (if locate s p = locate s q then [] else b) s)"

definition host_remove_file :: "string \<Rightarrow> unit host_act" where
  "host_remove_file p =
     and_then (host_node_of p)
       (\<lambda>n s. case n of
          DirNode \<Rightarrow> (Err ''is a directory'', s)
        | FileNode b \<Rightarrow> (Ok (), drop_nodes (\<lambda>k. k = locate s p) s))"

definition host_remove_dir :: "string \<Rightarrow> unit host_act" where
  "host_remove_dir p =
     and_then (host_node_of p)
       (\<lambda>n s.
          let l = locate s p in
          case n of
            FileNode b \<Rightarrow> (Err ''not a directory'', s)
          | DirNode \<Rightarrow>
              if list_ex (below l) (hm_keys (hf_nodes s)) then (Err ''directory not empty'', s)
              else (Ok (), drop_nodes (\<lambda>k. k = l) s))"

text \<open>What cannot be removed stays, with the directories that lead to it.\<close>

definition host_remove_dir_all :: "string \<Rightarrow> unit host_act" where
  "host_remove_dir_all p =
     and_then (host_node_of p)
       (\<lambda>n s.
          let l = locate s p;
              stuck = (\<lambda>k. list_ex (\<lambda>d. prefix k d \<and> hf_denied s d) (hm_keys (hf_nodes s)));
              s' = drop_nodes (\<lambda>k. prefix l k \<and> \<not> stuck k) s
          in case n of
               FileNode b \<Rightarrow> (Err ''not a directory'', s)
             | DirNode \<Rightarrow> if stuck l then (Err ''permission denied'', s') else (Ok (), s'))"

text \<open>\<open>rename\<close> replaces a file by a file and an empty directory by a directory, and refuses to put a directory below
  itself.\<close>

definition rebase :: "location \<Rightarrow> location \<Rightarrow> location \<Rightarrow> location" where
  "rebase l m k = (if prefix l k then m @ drop (length l) k else k)"

definition host_rename :: "string \<Rightarrow> string \<Rightarrow> unit host_act" where
  "host_rename p q =
     and_then (host_node_of p)
       (\<lambda>n s.
          let l = locate s p; m = locate s q in
          if hf_denied s m then (Err ''permission denied'', s)
          else if l = m then (Ok (), s)
          else if prefix l m then (Err ''invalid argument'', s)
          else if \<not> parent_is_dir m s then (Err ''not found'', s)
          else
            (case (n, node_at s m) of
               (FileNode b, Some DirNode) \<Rightarrow> (Err ''is a directory'', s)
             | (DirNode, Some (FileNode b)) \<Rightarrow> (Err ''not a directory'', s)
             | (DirNode, Some DirNode) \<Rightarrow>
                 if list_ex (below m) (hm_keys (hf_nodes s)) then (Err ''directory not empty'', s)
                 else (Ok (), (drop_nodes (\<lambda>k. k = m) s)
                   \<lparr>hf_nodes := map (\<lambda>(k, v). (rebase l m k, v)) (hf_nodes (drop_nodes (\<lambda>k. k = m) s))\<rparr>)
             | _ \<Rightarrow> (Ok (), (drop_nodes (\<lambda>k. k = m) s)
                   \<lparr>hf_nodes := map (\<lambda>(k, v). (rebase l m k, v)) (hf_nodes (drop_nodes (\<lambda>k. k = m) s))\<rparr>)))"

section \<open>Well-formed trees\<close>

text \<open>The root is a directory, and every other node is in a directory.\<close>

definition host_ok :: "host_files \<Rightarrow> bool" where
  "host_ok s \<longleftrightarrow>
     hm_wf (hf_nodes s) \<and> node_at s [''/''] = Some DirNode \<and>
     (\<forall>l n. node_at s l = Some n \<longrightarrow> l \<noteq> [] \<and> (l = [''/''] \<or> node_at s (butlast l) = Some DirNode))"

named_theorems host_simps "lookup after a change of the host"

lemma node_at_put [host_simps, simp]: "node_at (put_node l n s) k = (if k = l then Some n else node_at s k)"
  by (simp add: node_at_def put_node_def)

lemma node_at_drop [host_simps]:
  "hm_wf (hf_nodes s) \<Longrightarrow> node_at (drop_nodes P s) k = (if P k then None else node_at s k)"
  by (auto simp: node_at_def drop_nodes_def hm_get_filter split: option.split)

lemma host_wf [simp]:
  "hm_wf (hf_nodes s) \<Longrightarrow> hm_wf (hf_nodes (put_node l n s))" "hm_wf (hf_nodes s) \<Longrightarrow> hm_wf (hf_nodes (drop_nodes P s))"
  by (auto simp: put_node_def drop_nodes_def)

lemma host_frame [simp]:
  "hf_cwd (put_node l n s) = hf_cwd s" "hf_denied (put_node l n s) = hf_denied s"
  "hf_writes (put_node l n s) = hf_writes s" "hf_read_max (put_node l n s) = hf_read_max s"
  "hf_cwd (drop_nodes P s) = hf_cwd s" "hf_denied (drop_nodes P s) = hf_denied s"
  "hf_writes (drop_nodes P s) = hf_writes s" "hf_read_max (drop_nodes P s) = hf_read_max s"
  by (simp_all add: put_node_def drop_nodes_def)

lemma locate_cong: "hf_cwd s = hf_cwd t \<Longrightarrow> locate s p = locate t p"
  by (simp add: locate_def)

lemma locate_put [simp]: "locate (put_node l n s) p = locate s p" "locate (drop_nodes P s) p = locate s p"
  by (simp_all add: locate_def)

lemma host_ok_wf: "host_ok s \<Longrightarrow> hm_wf (hf_nodes s)"
  by (simp add: host_ok_def)

lemma host_okI:
  assumes "hm_wf (hf_nodes s)" and "node_at s [''/''] = Some DirNode"
    and "\<And>l n. node_at s l = Some n \<Longrightarrow> l \<noteq> [''/''] \<Longrightarrow> l \<noteq> [] \<and> node_at s (butlast l) = Some DirNode"
  shows "host_ok s"
  using assms by (auto simp: host_ok_def)

lemma host_ok_nonempty: "host_ok s \<Longrightarrow> node_at s l = Some n \<Longrightarrow> l \<noteq> []"
  by (auto simp: host_ok_def)

lemma host_ok_root: "host_ok s \<Longrightarrow> node_at s [''/''] = Some DirNode"
  by (simp add: host_ok_def)

lemma host_ok_parent: "host_ok s \<Longrightarrow> node_at s l = Some n \<Longrightarrow> l \<noteq> [''/''] \<Longrightarrow> node_at s (butlast l) = Some DirNode"
  by (auto simp: host_ok_def)

text \<open>The ancestors of a node are directories.\<close>

lemma host_ok_prefix:
  assumes "host_ok s" and "node_at s l = Some n" and "strict_prefix k l" and "k \<noteq> []"
  shows "node_at s k = Some DirNode"
  using assms(2,3)
proof (induction l arbitrary: n rule: rev_induct)
  case (snoc c l)
  have "l @ [c] \<noteq> [''/'']" using snoc.prems(2) assms(4) by (cases l) (auto simp: prefix_Cons strict_prefix_def)
  then have "node_at s l = Some DirNode" using host_ok_parent [OF assms(1) snoc.prems(1)] by simp
  moreover have "k = l \<or> strict_prefix k l" using snoc.prems(2) by (auto simp: strict_prefix_def prefix_snoc)
  ultimately show ?case using snoc.IH by blast
qed (simp add: strict_prefix_def)

lemma host_ok_put [step_inv]:
  assumes "host_ok s" and "parent_is_dir l s" and "n = DirNode \<or> (\<exists>b. n = FileNode b) \<and> node_at s l \<noteq> Some DirNode"
  shows "host_ok (put_node l n s)"
proof -
  have l: "l \<noteq> []" "node_at s (butlast l) = Some DirNode" "l \<noteq> butlast l"
    using assms(2) by (auto simp: parent_is_dir_def) (metis append_butlast_last_id append_self_conv not_Cons_self2)
  show ?thesis
  proof (rule host_okI)
    show "node_at (put_node l n s) [''/''] = Some DirNode"
      using assms(3) host_ok_root [OF assms(1)] by auto
    fix k m
    assume k: "node_at (put_node l n s) k = Some m" "k \<noteq> [''/'']"
    have "n = DirNode" if "butlast k = l"
    proof (rule ccontr)
      assume "n \<noteq> DirNode"
      then have "node_at s l \<noteq> Some DirNode" using assms(3) by blast
      moreover have "k \<noteq> l" using that l(3) by auto
      ultimately show False using that k host_ok_parent [OF assms(1), of k m] by simp
    qed
    then show "k \<noteq> [] \<and> node_at (put_node l n s) (butlast k) = Some DirNode"
      using k l host_ok_parent [OF assms(1), of k m] host_ok_nonempty [OF assms(1), of k m] by (auto split: if_splits)
  qed (simp add: host_ok_wf [OF assms(1)])
qed

lemma host_ok_drop:
  assumes "host_ok s" and "\<not> P [''/'']" and "\<And>k. P k \<Longrightarrow> \<forall>l. below k l \<longrightarrow> node_at s l \<noteq> None \<longrightarrow> P l"
  shows "host_ok (drop_nodes P s)"
proof -
  note drop = node_at_drop [OF host_ok_wf [OF assms(1)]]
  have "node_at (drop_nodes P s) (butlast l) = Some DirNode"
    if "node_at (drop_nodes P s) l = Some n" "l \<noteq> [''/'']" for l n
  proof -
    have l: "node_at s l = Some n" "\<not> P l" using that(1) by (auto simp: drop split: if_splits)
    then have "l \<noteq> []" using assms(1) by (auto simp: host_ok_def)
    then have "below (butlast l) l"
      by (metis append_butlast_last_id append_self_conv below_def not_Cons_self2 prefixI strict_prefix_def)
    then have "\<not> P (butlast l)" using assms(3) l by auto
    then show ?thesis using host_ok_parent [OF assms(1) l(1) that(2)] by (simp add: drop)
  qed
  then show ?thesis
    using assms(2) host_ok_root [OF assms(1)] host_ok_nonempty [OF assms(1)] host_ok_wf [OF assms(1)]
    by (intro host_okI) (auto simp: drop split: if_splits)
qed

section \<open>What the calls do\<close>

text \<open>No call changes the working directory or what the host refuses.\<close>

definition host_const :: "host_files \<Rightarrow> location \<times> (location \<Rightarrow> bool) \<times> (location \<Rightarrow> write_result) \<times> nat" where
  "host_const s = (hf_cwd s, hf_denied s, hf_writes s, hf_read_max s)"

lemma host_const_simps [simp]:
  "host_const (put_node l n s) = host_const s" "host_const (drop_nodes P s) = host_const s"
  "host_const (s\<lparr>hf_nodes := m\<rparr>) = host_const s"
  by (simp_all add: host_const_def)

lemma host_constD:
  assumes "host_const s' = host_const s"
  shows "locate s' = locate s" "hf_denied s' = hf_denied s" "hf_writes s' = hf_writes s" "hf_read_max s' = hf_read_max s"
  using assms by (auto simp: host_const_def locate_def)

lemma host_node_of_Ok [simp]:
  "host_node_of p s = (Ok n, s') \<longleftrightarrow> s' = s \<and> \<not> hf_denied s (locate s p) \<and> node_at s (locate s p) = Some n"
  by (auto simp: host_node_of_def Let_def split: option.splits)

lemma on_node_Ok:
  "and_then (host_node_of p) (\<lambda>n s. case n of FileNode b \<Rightarrow> f b s | DirNode \<Rightarrow> g s) s = (Ok a, s') \<longleftrightarrow>
     \<not> hf_denied s (locate s p) \<and>
     ((\<exists>b. node_at s (locate s p) = Some (FileNode b) \<and> f b s = (Ok a, s')) \<or>
      node_at s (locate s p) = Some DirNode \<and> g s = (Ok a, s'))"
  by (auto simp: and_then_def host_node_of_def Let_def split: option.splits host_node.splits)

lemma host_node_of_state [simp]: "snd (host_node_of p s) = s"
  by (simp add: host_node_of_def Let_def split: option.split)

lemma host_read_Ok [simp]:
  "host_read p s = (Ok b, s') \<longleftrightarrow> s' = s \<and> \<not> hf_denied s (locate s p) \<and> node_at s (locate s p) = Some (FileNode b)"
  by (auto simp: host_read_def and_then_def host_node_of_def Let_def split: option.splits host_node.splits)

lemma and_then_state:
  assumes "snd (m s) = s" and "\<And>a. fst (m s) = Ok a \<Longrightarrow> snd (f a s) = s"
  shows "snd (and_then m f s) = s"
  using assms by (cases "m s"; cases "fst (m s)") (auto simp: and_then_def)

lemma host_read_state [simp]: "snd (host_read p s) = s"
  unfolding host_read_def by (rule and_then_state) (auto split: host_node.split)

lemma host_put_Ok [simp]:
  "host_put l b s = (Ok (), s') \<longleftrightarrow>
     \<not> hf_denied s l \<and> node_at s l \<noteq> Some DirNode \<and> parent_is_dir l s \<and> hf_writes s l = Written \<and>
     s' = put_node l (FileNode b) s"
  by (auto simp: host_put_def split: write_result.splits)

lemma host_put_cases:
  "snd (host_put l b s) = s \<or>
   (\<exists>b'. snd (host_put l b s) = put_node l (FileNode b') s \<and> parent_is_dir l s \<and> node_at s l \<noteq> Some DirNode)"
  by (auto simp: host_put_def split: write_result.split)

lemma host_ok_host_put [step_inv]: "host_ok s \<Longrightarrow> host_ok (snd (host_put l b s))"
  using host_put_cases [of l b s] host_ok_put [of s l] by auto

lemma host_const_put_file [simp]: "host_const (snd (host_put l b s)) = host_const s"
  using host_put_cases [of l b s] by auto

lemma node_at_host_put: "k \<noteq> l \<Longrightarrow> node_at (snd (host_put l b s)) k = node_at s k"
  using host_put_cases [of l b s] by auto

lemma host_copy_Ok:
  "host_copy p q s = (Ok (), s') \<longleftrightarrow>
     (\<exists>b. host_read p s = (Ok b, s) \<and>
       host_put (locate s q) (if locate s p = locate s q then [] else b) s = (Ok (), s'))"
  by (auto simp: host_copy_def and_then_Ok_iff)

text \<open>Making directories adds directories where nothing was, at the locations given.\<close>

lemma make_dirs_effect:
  "make_dirs ls s = (r, s') \<Longrightarrow>
     host_const s' = host_const s \<and>
     (\<forall>k. node_at s' k = node_at s k \<or> k \<in> set ls \<and> node_at s k = None \<and> node_at s' k = Some DirNode)"
proof (induction ls arbitrary: s)
  case (Cons l ls)
  consider "make_dirs ls s = (r, s')" | "s' = s"
    | "node_at s l = None" "make_dirs ls (put_node l DirNode s) = (r, s')"
    using Cons.prems by (auto split: option.splits host_node.splits if_splits)
  then show ?case
  proof cases
    case 3
    from Cons.IH [OF 3(2)] 3(1) show ?thesis by (auto split: if_splits)
  qed (use Cons.IH in auto)
qed simp

lemma make_dirs_Ok:
  "make_dirs ls s = (Ok (), s') \<Longrightarrow> k \<in> set ls \<Longrightarrow> node_at s' k = Some DirNode"
proof (induction ls arbitrary: s)
  case (Cons l ls)
  obtain t where t: "make_dirs ls t = (Ok (), s')" "node_at t l = Some DirNode"
    using Cons.prems(1) by (auto split: option.splits host_node.splits if_splits)
  have "node_at s' l = Some DirNode" using make_dirs_effect [OF t(1)] t(2) by (metis option.distinct(1))
  then show ?case using Cons.IH [OF t(1)] Cons.prems(2) by auto
qed simp

lemma make_dirs_ok:
  assumes "host_ok s" and "l \<noteq> []" and "node_at s l = Some DirNode"
  shows "host_ok (snd (make_dirs (map (\<lambda>k. l @ k) (tl (prefixes cs))) s))"
  using assms
proof (induction cs arbitrary: l s)
  case (Cons c cs)
  have split: "map (\<lambda>k. l @ k) (tl (prefixes (c # cs))) = (l @ [c]) # map (\<lambda>k. (l @ [c]) @ k) (tl (prefixes cs))"
    by (cases cs) (simp_all add: comp_def)
  have "host_ok (put_node (l @ [c]) DirNode s)"
    using Cons.prems by (intro host_ok_put) (auto simp: parent_is_dir_def)
  then show ?case unfolding split using Cons by (auto split: option.split host_node.split)
qed simp

lemma locate_root: "p \<noteq> [] \<Longrightarrow> hd p = slash \<Longrightarrow> \<exists>cs. locate s p = [''/''] @ cs"
proof -
  assume p: "p \<noteq> []" "hd p = slash"
  have go: "\<exists>cs. go ([''/''] @ xs) c = [''/''] @ cs" for xs c
    by (cases xs rule: rev_cases) (auto simp: go_def)
  have fold: "\<exists>cs. foldl go ([''/''] @ xs) ws = [''/''] @ cs" for xs ws
  proof (induction ws arbitrary: xs)
    case (Cons w ws)
    obtain cs where cs: "go ([''/''] @ xs) w = [''/''] @ cs" using go by blast
    show ?case unfolding foldl_Cons cs by (rule Cons.IH)
  qed simp
  have "path_components p = [''/''] @ filter (\<lambda>w. w \<noteq> [] \<and> w \<noteq> ''.'') (split_on (\<lambda>c. c = slash) p)"
    using p by (simp add: path_components_def Let_def)
  moreover have "go [] ''/'' = [''/''] @ []" by (simp add: go_def)
  ultimately have "locate s p = foldl go ([''/''] @ []) (filter (\<lambda>w. w \<noteq> [] \<and> w \<noteq> ''.'') (split_on (\<lambda>c. c = slash) p))"
    using p by (simp add: locate_def)
  with fold [of "[]"] show ?thesis by simp
qed

definition absolute :: "string \<Rightarrow> bool" where
  "absolute p \<longleftrightarrow> p \<noteq> [] \<and> hd p = slash"

lemma host_create_dir_all_ok [step_inv]:
  assumes "host_ok s" and "absolute p"
  shows "host_ok (snd (host_create_dir_all p s))"
proof -
  obtain cs where cs: "locate s p = [''/''] @ cs" using locate_root assms(2) unfolding absolute_def by blast
  have "tl (prefixes (locate s p)) = [''/''] # map (\<lambda>k. [''/''] @ k) (tl (prefixes cs))"
    unfolding cs by (cases cs) (simp_all add: comp_def)
  then show ?thesis
    using make_dirs_ok [of s "[''/'']" cs] assms(1) host_ok_root [OF assms(1)] by (simp add: host_create_dir_all_def)
qed

lemma host_create_dir_all_effect:
  assumes "host_create_dir_all p s = (r, s')"
  shows "host_const s' = host_const s"
    and "node_at s' k = node_at s k \<or> prefix k (locate s p) \<and> node_at s k = None \<and> node_at s' k = Some DirNode"
    and "r = Ok () \<Longrightarrow> prefix k (locate s p) \<Longrightarrow> k \<noteq> [] \<Longrightarrow> node_at s' k = Some DirNode"
proof -
  have m: "make_dirs (tl (prefixes (locate s p))) s = (r, s')" using assms by (simp add: host_create_dir_all_def)
  have mem: "k \<in> set (tl (prefixes l)) \<longleftrightarrow> prefix k l \<and> k \<noteq> []" for l :: location
    by (cases l) (auto simp: prefix_Cons)
  show "host_const s' = host_const s"
    and "node_at s' k = node_at s k \<or> prefix k (locate s p) \<and> node_at s k = None \<and> node_at s' k = Some DirNode"
    using make_dirs_effect [OF m] mem by blast+
  show "node_at s' k = Some DirNode" if "r = Ok ()" "prefix k (locate s p)" "k \<noteq> []"
    using make_dirs_Ok m mem that by blast
qed

section \<open>Removing and renaming\<close>

lemma host_remove_file_Ok:
  "host_remove_file p s = (Ok (), s') \<longleftrightarrow>
     \<not> hf_denied s (locate s p) \<and> (\<exists>b. node_at s (locate s p) = Some (FileNode b)) \<and>
     s' = drop_nodes (\<lambda>k. k = locate s p) s"
  by (auto simp: host_remove_file_def on_node_Ok)

lemma host_remove_dir_Ok:
  "host_remove_dir p s = (Ok (), s') \<longleftrightarrow>
     \<not> hf_denied s (locate s p) \<and> node_at s (locate s p) = Some DirNode \<and>
     \<not> list_ex (below (locate s p)) (hm_keys (hf_nodes s)) \<and> s' = drop_nodes (\<lambda>k. k = locate s p) s"
  by (auto simp: host_remove_dir_def on_node_Ok Let_def)

lemma host_remove_dir_all_Ok:
  assumes "host_remove_dir_all p s = (Ok (), s')" and "hm_wf (hf_nodes s)"
  shows "node_at s (locate s p) = Some DirNode" and "host_const s' = host_const s"
    and "node_at s' k = (if prefix (locate s p) k then None else node_at s k)"
proof -
  let ?l = "locate s p"
  let ?stuck = "\<lambda>k. list_ex (\<lambda>d. prefix k d \<and> hf_denied s d) (hm_keys (hf_nodes s))"
  have s': "node_at s ?l = Some DirNode" "\<not> ?stuck ?l" "s' = drop_nodes (\<lambda>k. prefix ?l k \<and> \<not> ?stuck k) s"
    using assms(1) by (auto simp: host_remove_dir_all_def on_node_Ok Let_def split: if_splits)
  have "\<not> ?stuck k" if "prefix ?l k" for k
    using s'(2) that prefix_order.trans by (fastforce simp: list_ex_iff)
  then show "node_at s' k = (if prefix ?l k then None else node_at s k)" by (auto simp: s'(3) node_at_drop [OF assms(2)])
  show "node_at s ?l = Some DirNode" "host_const s' = host_const s" using s' by simp_all
qed

lemma hm_get_map_key:
  assumes "hm_wf m" and "inj_on f (set (hm_keys m))"
  shows "hm_get (map (\<lambda>(k, v). (f k, v)) m) y = Some v \<longleftrightarrow> (\<exists>k. f k = y \<and> hm_get m k = Some v)"
    and "hm_wf (map (\<lambda>(k, v). (f k, v)) m)"
proof -
  have keys: "hm_keys (map (\<lambda>(k, v). (f k, v)) m) = map f (hm_keys m)" by (simp add: case_prod_beta)
  show wf: "hm_wf (map (\<lambda>(k, v). (f k, v)) m)"
    unfolding hm_wf_def keys distinct_map [of f] using assms unfolding hm_wf_def by blast
  show "hm_get (map (\<lambda>(k, v). (f k, v)) m) y = Some v \<longleftrightarrow> (\<exists>k. f k = y \<and> hm_get m k = Some v)"
    unfolding hm_get_set [OF wf, symmetric] hm_get_set [OF assms(1), symmetric] by force
qed

lemma rebase_inj:
  assumes "\<And>k. k \<in> A \<Longrightarrow> \<not> prefix m k \<or> prefix l k" and "\<not> prefix m l" and "\<not> prefix l m"
  shows "inj_on (rebase l m) A"
proof (rule inj_onI)
  fix j k assume "j \<in> A" "k \<in> A" and eq: "rebase l m j = rebase l m k"
  have no: "\<not> prefix m i" if "i \<in> A" "\<not> prefix l i" for i using assms(1) that by blast
  show "j = k"
  proof (cases "prefix l j"; cases "prefix l k")
    assume "prefix l j" "prefix l k"
    then show ?thesis using eq by (auto simp: rebase_def prefix_def)
  next
    assume "prefix l j" "\<not> prefix l k"
    then show ?thesis using eq no [OF \<open>k \<in> A\<close>] by (auto simp: rebase_def)
  next
    assume "\<not> prefix l j" "prefix l k"
    then show ?thesis using eq no [OF \<open>j \<in> A\<close>] by (auto simp: rebase_def)
  qed (use eq in \<open>auto simp: rebase_def\<close>)
qed

text \<open>Nothing is below a file, nor below what is missing.\<close>

lemma leaf_below:
  assumes "host_ok s" and "node_at s l \<noteq> Some DirNode" and "l \<noteq> []" and "below l k"
  shows "node_at s k = None"
  using host_ok_prefix [OF assms(1) _ _ assms(3)] assms(2,4) unfolding below_def by (cases "node_at s k") auto

lemma host_rename_Ok:
  assumes "host_ok s" and "host_rename p q s = (Ok (), s')" and "l = locate s p" and "m = locate s q" and "l \<noteq> m"
  obtains n where "node_at s l = Some n" and "\<not> prefix l m" and "\<not> prefix m l" and "parent_is_dir m s"
    and "\<And>k. below m k \<Longrightarrow> node_at s k = None"
    and "hf_nodes s' = map (\<lambda>(k, v). (rebase l m k, v)) (hf_nodes (drop_nodes (\<lambda>k. k = m) s))"
    and "host_const s' = host_const s" and "node_at s m = Some DirNode \<Longrightarrow> n = DirNode"
proof -
  obtain n where n: "node_at s l = Some n" "\<not> prefix l m" "parent_is_dir m s"
      "n = DirNode \<and> node_at s m = Some DirNode \<and> \<not> list_ex (below m) (hm_keys (hf_nodes s)) \<or> node_at s m = None \<or>
       (\<exists>b c. n = FileNode b \<and> node_at s m = Some (FileNode c))"
      "s' = (drop_nodes (\<lambda>k. k = m) s)\<lparr>hf_nodes := map (\<lambda>(k, v). (rebase l m k, v)) (hf_nodes (drop_nodes (\<lambda>k. k = m) s))\<rparr>"
    using assms(2-5)
    by (auto simp: host_rename_def and_then_Ok_iff Let_def split: host_node.splits option.splits if_splits)
  have m: "m \<noteq> []" using n(3) by (simp add: parent_is_dir_def)
  have empty: "node_at s k = None" if "below m k" for k
  proof (cases "node_at s m = Some DirNode")
    case True
    then have "\<not> list_ex (below m) (hm_keys (hf_nodes s))" using n(4) by auto
    then show ?thesis using that hm_keys_iff [of k "hf_nodes s"] unfolding list_ex_iff node_at_def by blast
  next
    case False
    then show ?thesis using leaf_below [OF assms(1) _ m that] by blast
  qed
  moreover have "\<not> prefix m l" using empty [of l] n(1) assms(5) by (auto simp: below_def strict_prefix_def)
  moreover have "n = DirNode" if "node_at s m = Some DirNode" using n(4) that by auto
  ultimately show ?thesis using that n by auto
qed

lemma host_rename_effect:
  assumes "host_ok s" and "host_rename p q s = (Ok (), s')" and "l = locate s p" and "m = locate s q" and "l \<noteq> m"
  shows "node_at s' k = (if prefix m k then node_at s (l @ drop (length m) k) else if prefix l k then None else node_at s k)"
    and "hm_wf (hf_nodes s')"
proof -
  from host_rename_Ok [OF assms] obtain n where n: "\<not> prefix l m" "\<not> prefix m l"
    "\<And>k. below m k \<Longrightarrow> node_at s k = None"
    "hf_nodes s' = map (\<lambda>(k, v). (rebase l m k, v)) (hf_nodes (drop_nodes (\<lambda>k. k = m) s))" by metis
  let ?t = "drop_nodes (\<lambda>k. k = m) s"
  note wf = host_ok_wf [OF assms(1)]
  have t: "node_at ?t j = (if j = m then None else node_at s j)" for j by (simp add: node_at_drop [OF wf])
  have keys: "\<not> prefix m j" if "node_at ?t j \<noteq> None" for j
    using that n(3) [of j] by (auto simp: t below_def strict_prefix_def split: if_splits)
  have "inj_on (rebase l m) (set (hm_keys (hf_nodes ?t)))"
    using keys n(1,2) by (intro rebase_inj) (auto simp: hm_keys_iff node_at_def simp del: set_map)
  note get = hm_get_map_key [OF host_wf(2) [OF wf] this]
  show "hm_wf (hf_nodes s')" unfolding n(4) by (rule get(2))
  have eq: "node_at s' k = Some v \<longleftrightarrow> (\<exists>j. rebase l m j = k \<and> node_at ?t j = Some v)" for v
    unfolding node_at_def n(4) by (rule get(1))
  let ?r = "if prefix m k then node_at s (l @ drop (length m) k) else if prefix l k then None else node_at s k"
  have "node_at s' k = Some v \<longleftrightarrow> ?r = Some v" for v
  proof (cases "prefix m k")
    case True
    have "rebase l m j = k \<and> node_at ?t j = Some v \<longleftrightarrow> j = l @ drop (length m) k \<and> node_at s j = Some v" for j
      using True keys [of j] n(1,2) t [of j] by (auto simp: rebase_def prefix_def split: if_splits)
    then show ?thesis using True eq by auto
  next
    case False
    have "rebase l m j = k \<and> node_at ?t j = Some v \<longleftrightarrow> j = k \<and> \<not> prefix l k \<and> node_at s j = Some v" for j
      using False t [of j] by (auto simp: rebase_def split: if_splits)
    then show ?thesis using False eq by auto
  qed
  then show "node_at s' k = ?r" by (metis option.exhaust)
qed

lemma node_starts_root:
  assumes "host_ok s" and "node_at s l = Some n"
  shows "\<exists>cs. l = ''/'' # cs"
  using assms(2)
proof (induction l arbitrary: n rule: rev_induct)
  case (snoc c l)
  show ?case
  proof (cases "l = []")
    case True
    have "node_at s [] = None" using host_ok_nonempty [OF assms(1), of "[]"] by (cases "node_at s []") auto
    then show ?thesis using host_ok_parent [OF assms(1) snoc.prems] True by auto
  next
    case False
    then have "l @ [c] \<noteq> [''/'']" by (cases l) auto
    then have "node_at s l = Some DirNode" using host_ok_parent [OF assms(1) snoc.prems] by simp
    then show ?thesis using snoc.IH by fastforce
  qed
qed (use host_ok_nonempty [OF assms(1)] in blast)

lemma host_ok_rename [step_inv]:
  assumes "host_ok s" and "host_rename p q s = (Ok (), s')"
  shows "host_ok s'"
proof (cases "locate s p = locate s q")
  case True
  then show ?thesis using assms by (auto simp: host_rename_def and_then_Ok_iff Let_def split: if_splits)
next
  case False
  let ?l = "locate s p" and ?m = "locate s q"
  note eff = host_rename_effect [OF assms refl refl False]
  from host_rename_Ok [OF assms refl refl False] obtain n where n: "node_at s ?l = Some n" "\<not> prefix ?l ?m" "\<not> prefix ?m ?l"
    "parent_is_dir ?m s" by metis
  have m: "?m \<noteq> []" "node_at s (butlast ?m) = Some DirNode" using n(4) by (auto simp: parent_is_dir_def)
  obtain cs where cs: "?l = ''/'' # cs" using node_starts_root [OF assms(1) n(1)] by blast
  obtain ds where ds: "butlast ?m = ''/'' # ds" using node_starts_root [OF assms(1) m(2)] by blast
  have short: "prefix ?m k \<Longrightarrow> length k \<ge> 2" for k
    using ds m(1) by (metis One_nat_def Suc_1 Suc_leI append_butlast_last_id length_Cons length_append_singleton
        not_less_eq_eq prefix_length_le order_trans zero_less_Suc)
  show ?thesis
  proof (rule host_okI [OF eff(2)])
    have "\<not> prefix ?l [''/'']" using n(2) cs ds m(1)
      by (metis Cons_prefix_Cons Nil_prefix append_butlast_last_id append_Cons prefix_Nil)
    then show "node_at s' [''/''] = Some DirNode"
      using short [of "[''/'']"] host_ok_root [OF assms(1)] by (auto simp: eff(1))
    fix k v assume k: "node_at s' k = Some v" "k \<noteq> [''/'']"
    have below_l: "node_at s (?l @ butlast zs) = Some DirNode" if "node_at s (?l @ zs) = Some v" "zs \<noteq> []" for zs
      using host_ok_parent [OF assms(1) that(1)] that(2) cs by (simp add: butlast_append)
    have "k \<noteq> []" using k(1) m(1) host_ok_nonempty [OF assms(1), of k v] by (auto simp: eff(1) split: if_splits)
    moreover have "if prefix ?m k then k = ?m \<or> node_at s (?l @ butlast (drop (length ?m) k)) = Some DirNode
        else \<not> prefix ?l k \<and> node_at s (butlast k) = Some DirNode"
      using k(1) below_l host_ok_parent [OF assms(1) _ k(2), of v] by (auto simp: eff(1) prefix_def split: if_splits)
    moreover have "node_at s' (butlast ?m) = Some DirNode"
    proof -
      have "\<not> prefix ?m (butlast ?m)" using m(1) prefix_length_le [of ?m "butlast ?m"] by (cases ?m) auto
      moreover have "\<not> prefix ?l (butlast ?m)" using n(2) prefix_order.trans prefixeq_butlast by blast
      ultimately show ?thesis using m(2) by (simp add: eff(1))
    qed
    moreover have "node_at s' (butlast k) = Some DirNode" if sub: "prefix ?m k" "k \<noteq> ?m"
      "node_at s (?l @ butlast (drop (length ?m) k)) = Some DirNode"
    proof -
      obtain zs where "k = ?m @ zs" "zs \<noteq> []" using sub(1,2) by (auto simp: prefix_def)
      then show ?thesis using sub(3) by (simp add: eff(1) butlast_append)
    qed
    moreover have "node_at s' (butlast k) = Some DirNode" if "\<not> prefix ?m k" "\<not> prefix ?l k" "node_at s (butlast k) = Some DirNode"
    proof -
      have "\<not> prefix ?m (butlast k)" "\<not> prefix ?l (butlast k)" using that prefix_order.trans prefixeq_butlast by blast+
      then show ?thesis using that(3) by (simp add: eff(1))
    qed
    ultimately show "k \<noteq> [] \<and> node_at s' (butlast k) = Some DirNode" by (metis (full_types))
  qed
qed

end
