(* ===== verification/Host_Paths.thy ===== *)
theory Host_Paths
  imports Host_Files
begin

text \<open>
  The functions of \<open>std::path::Path\<close> that the desktop adapters use, on Unix, in terms of the components of a path
  (\<open>path_components\<close>), and what they do to locations.
\<close>

section \<open>Functions on paths\<close>

text \<open>A path with the given components; \<open>Path::parent\<close>; equality and \<open>Path::starts_with\<close>, which compare components.\<close>

definition path_string :: "string list \<Rightarrow> string" where
  "path_string cs = foldl path_join [] cs"

definition path_parent :: "string \<Rightarrow> string option" where
  "path_parent p =
     (let cs = path_components p in if cs = [] \<or> cs = [''/''] then None else Some (path_string (butlast cs)))"

definition same_path :: "string \<Rightarrow> string \<Rightarrow> bool" where
  "same_path p q \<longleftrightarrow> path_components p = path_components q"

definition path_starts_with :: "string \<Rightarrow> string \<Rightarrow> bool" where
  "path_starts_with p q \<longleftrightarrow> prefix (path_components q) (path_components p)"

text \<open>Joining several components, and the name with what follows the last dot split off (\<open>rfind('.')\<close>).\<close>

definition path_join_all :: "string \<Rightarrow> string list \<Rightarrow> string" where
  "path_join_all p cs = foldl path_join p cs"

definition split_ext :: "string \<Rightarrow> string \<times> string" where
  "split_ext n = (case rsplit_once CHR ''.'' n of Some (a, b) \<Rightarrow> (a, CHR ''.'' # b) | None \<Rightarrow> (n, []))"

text \<open>``name copy.ext'', ``name copy 2.ext'', and so on.\<close>

definition copy_name :: "string \<Rightarrow> nat \<Rightarrow> string" where
  "copy_name n k =
     (case split_ext n of
        (name, ext) \<Rightarrow> if k = 1 then name @ '' copy'' @ ext else name @ '' copy '' @ dec k @ ext)"

section \<open>Components\<close>

text \<open>A normal component.\<close>

definition plain :: "string \<Rightarrow> bool" where
  "plain w \<longleftrightarrow> w \<noteq> [] \<and> slash \<notin> set w \<and> w \<noteq> ''.'' \<and> w \<noteq> ''..''"

abbreviation pieces :: "string \<Rightarrow> string list" where
  "pieces p \<equiv> filter (\<lambda>w. w \<noteq> [] \<and> w \<noteq> ''.'') (split_on (\<lambda>c. c = slash) p)"

lemma components_absolute: "absolute p \<Longrightarrow> path_components p = ''/'' # pieces p"
  by (simp add: path_components_def absolute_def Let_def)

lemma pieces_no_slash: "w \<in> set (pieces p) \<Longrightarrow> slash \<notin> set w"
  using split_on_no_sep by fastforce

lemma absolute_components: "absolute p \<longleftrightarrow> (\<exists>cs. path_components p = ''/'' # cs)"
proof
  assume "\<exists>cs. path_components p = ''/'' # cs"
  then obtain cs where cs: "path_components p = ''/'' # cs" by blast
  show "absolute p"
  proof (rule ccontr)
    assume "\<not> absolute p"
    then have "path_components p = (if hd (split_on (\<lambda>c. c = slash) p) = ''.'' then [''.''] else []) @ pieces p"
      by (auto simp: path_components_def absolute_def Let_def)
    then have "pieces p = ''/'' # cs" using cs by (simp split: if_splits)
    then have "''/'' \<in> set (pieces p)" by (metis list.set_intros(1))
    then show False using pieces_no_slash by fastforce
  qed
qed (use components_absolute in blast)

lemma split_on_append_sep: "P c \<Longrightarrow> split_on P (a @ c # b) = split_on P a @ split_on P b"
proof (induction a)
  case (Cons x a)
  obtain w ws where w: "split_on P a = w # ws" by (cases "split_on P a") auto
  with Cons show ?case by simp
qed simp

lemma pieces_plain: "w \<in> set (pieces p) \<Longrightarrow> w \<noteq> ''..'' \<Longrightarrow> plain w"
  using pieces_no_slash by (fastforce simp: plain_def)

lemma pieces_plain_word: "plain w \<Longrightarrow> pieces w = [w]"
  by (subst split_on_single) (auto simp: plain_def)

lemma pieces_append_slash: "pieces (a @ slash # b) = pieces a @ pieces b"
  by (simp add: split_on_append_sep)

lemma pieces_trim: "pieces (trim_start_matches slash p) = pieces p"
  by (induction p) (simp_all add: trim_start_matches_def)

lemma absolute_join: "absolute b \<Longrightarrow> absolute (path_join b n)"
  by (auto simp: absolute_def path_join_def)

lemma pieces_join: "\<not> absolute n \<Longrightarrow> pieces (path_join b n) = pieces b @ pieces n" if "b \<noteq> []"
proof -
  assume n: "\<not> absolute n"
  show ?thesis
  proof (cases "last b = slash")
    case True
    with that obtain a where "b = a @ [slash]" by (metis append_butlast_last_id)
    then show ?thesis using n pieces_append_slash [of a n] pieces_append_slash [of a "[]"]
      by (cases n) (simp_all add: path_join_def absolute_def)
  next
    case False
    then show ?thesis using n that pieces_append_slash [of b n] by (cases n) (simp_all add: path_join_def absolute_def)
  qed
qed

lemma components_join:
  assumes "absolute b" and "\<not> absolute n"
  shows "path_components (path_join b n) = path_components b @ pieces n"
proof -
  have "b \<noteq> []" using assms(1) by (simp add: absolute_def)
  then show ?thesis
    using components_absolute [OF assms(1)] components_absolute [OF absolute_join [OF assms(1)]] pieces_join assms(2) by simp
qed

lemma plain_not_absolute: "plain w \<Longrightarrow> \<not> absolute w"
  by (cases w) (auto simp: plain_def absolute_def)

lemma components_join_plain: "absolute b \<Longrightarrow> plain w \<Longrightarrow> path_components (path_join b w) = path_components b @ [w]"
  using components_join plain_not_absolute pieces_plain_word by simp

lemma components_join_all:
  "absolute b \<Longrightarrow> list_all plain ws \<Longrightarrow>
     absolute (path_join_all b ws) \<and> path_components (path_join_all b ws) = path_components b @ ws"
  by (induction ws arbitrary: b) (auto simp: path_join_all_def absolute_join components_join_plain)

lemma path_string_root: "path_string (''/'' # ws) = path_join_all ''/'' ws"
  by (simp add: path_string_def path_join_all_def path_join_def)

lemma components_path_string:
  "list_all plain ws \<Longrightarrow> path_components (path_string (''/'' # ws)) = ''/'' # ws"
proof -
  assume "list_all plain ws"
  moreover have "absolute ''/''" "path_components ''/'' = [''/'']" by (simp_all add: absolute_def path_components_def)
  ultimately show ?thesis using components_join_all [of "''/''" ws] by (simp add: path_string_root)
qed

lemma components_again: "absolute p \<Longrightarrow> path_components (path_string (path_components p)) = path_components p"
proof -
  assume p: "absolute p"
  have fold: "absolute b \<Longrightarrow> \<forall>w\<in>set ws. pieces w = [w] \<and> \<not> absolute w \<Longrightarrow>
      path_components (path_join_all b ws) = path_components b @ ws" for b ws
    by (induction ws arbitrary: b) (auto simp: path_join_all_def absolute_join components_join)
  have "pieces w = [w] \<and> \<not> absolute w" if w: "w \<in> set (pieces p)" for w
  proof -
    have "slash \<notin> set w" by (rule pieces_no_slash [OF w])
    then have "split_on (\<lambda>c. c = slash) w = [w]" by (intro split_on_single) auto
    moreover have "w \<noteq> []" "w \<noteq> ''.''" using w by simp_all
    moreover have "\<not> absolute w" using \<open>slash \<notin> set w\<close> \<open>w \<noteq> []\<close> by (cases w) (auto simp: absolute_def)
    ultimately show ?thesis by simp
  qed
  then have "\<forall>w\<in>set (pieces p). pieces w = [w] \<and> \<not> absolute w" by blast
  moreover have "absolute ''/''" "path_components ''/'' = [''/'']" by (simp_all add: absolute_def path_components_def)
  ultimately have "path_components (path_join_all ''/'' (pieces p)) = [''/''] @ pieces p"
    using fold [of "''/''" "pieces p"] by simp
  then show ?thesis unfolding components_absolute [OF p] path_string_root by simp
qed

section \<open>Locations\<close>

lemma locate_absolute: "absolute p \<Longrightarrow> locate s p = foldl go [] (path_components p)"
  by (simp add: locate_def absolute_def)

lemma locate_join:
  assumes "absolute b" and "\<not> absolute n"
  shows "locate s (path_join b n) = foldl go (locate s b) (pieces n)"
  using assms by (simp add: locate_absolute absolute_join components_join)

lemma go_plain: "plain w \<Longrightarrow> go l w = l @ [w]"
  by (simp add: go_def plain_def)

lemma foldl_go_plain: "list_all plain ws \<Longrightarrow> foldl go l ws = l @ ws"
  by (induction ws arbitrary: l) (auto simp: go_plain)

lemma locate_join_plain: "absolute b \<Longrightarrow> plain w \<Longrightarrow> locate s (path_join b w) = locate s b @ [w]"
  using locate_join plain_not_absolute pieces_plain_word go_plain by simp

lemma locate_join_all: "absolute b \<Longrightarrow> list_all plain ws \<Longrightarrow> locate s (path_join_all b ws) = locate s b @ ws"
  using components_join_all [of b ws] by (simp add: locate_absolute foldl_go_plain)

lemma locate_path_string: "list_all plain ws \<Longrightarrow> locate s (path_string (''/'' # ws)) = ''/'' # ws"
proof -
  assume ws: "list_all plain ws"
  have "absolute (path_string (''/'' # ws))" using components_path_string [OF ws] absolute_components by blast
  then show ?thesis using ws by (simp add: locate_absolute components_path_string foldl_go_plain go_def)
qed

lemma locate_same: "same_path p q \<Longrightarrow> locate s p = locate s q"
proof -
  assume "same_path p q"
  then have "path_components p = path_components q" "absolute p \<longleftrightarrow> absolute q"
    using absolute_components by (simp_all add: same_path_def)
  then show ?thesis by (simp add: locate_def absolute_def)
qed

lemma path_string_concat: "ws \<noteq> [] \<Longrightarrow> list_all plain ws \<Longrightarrow> path_string (''/'' # ws) = concat (map ((#) slash) ws)"
proof (induction ws rule: rev_induct)
  case (snoc w ws)
  have w: "plain w" using snoc.prems by simp
  have last: "ws \<noteq> [] \<Longrightarrow> last (concat (map ((#) slash) ws)) \<noteq> slash"
  proof -
    assume "ws \<noteq> []"
    then obtain vs v where v: "ws = vs @ [v]" "plain v" using snoc.prems by (cases ws rule: rev_cases) auto
    then have "v \<noteq> []" "last v \<noteq> slash" using last_in_set [of v] unfolding plain_def by metis+
    then show ?thesis by (simp add: v(1))
  qed
  have step: "path_string (''/'' # ws @ [w]) = path_join (path_string (''/'' # ws)) w" by (simp add: path_string_def)
  have "path_join a w = a @ slash # w" if "a \<noteq> []" "last a \<noteq> slash" for a
    using that plain_not_absolute [OF w] by (auto simp: path_join_def absolute_def)
  moreover have "path_string [''/''] = ''/''" by (simp add: path_string_def path_join_def)
  moreover have "path_join ''/'' w = slash # w" using plain_not_absolute [OF w] by (auto simp: path_join_def absolute_def)
  moreover have "concat (map ((#) slash) ws) \<noteq> []" if "ws \<noteq> []" using that by (cases ws) auto
  ultimately show ?case using step snoc.IH snoc.prems last by (cases "ws = []") simp_all
qed simp

lemma absolute_path_string: "absolute (path_string (''/'' # ws))"
proof -
  have "absolute (path_join_all b ws)" if "absolute b" for b
    using that by (induction ws arbitrary: b) (simp_all add: path_join_all_def absolute_join)
  then show ?thesis by (simp add: path_string_root absolute_def)
qed

lemma path_parent_absolute: "absolute p \<Longrightarrow> path_parent p = Some d \<Longrightarrow> absolute d"
  using absolute_path_string by (auto simp: path_parent_def components_absolute Let_def split: if_splits)

section \<open>Parents that are made on the way\<close>

text \<open>\<open>t\<close> is \<open>s\<close> with some directories where nothing was.\<close>

definition grew :: "host_files \<Rightarrow> host_files \<Rightarrow> bool" where
  "grew s t \<longleftrightarrow> host_const t = host_const s \<and> (host_ok s \<longrightarrow> host_ok t) \<and>
     (\<forall>k. node_at t k = node_at s k \<or> node_at s k = None \<and> node_at t k = Some DirNode)"

lemma grew_refl [simp]: "grew s s"
  by (simp add: grew_def)

lemma grew_file: "grew s t \<Longrightarrow> node_at t k = Some (FileNode b) \<longleftrightarrow> node_at s k = Some (FileNode b)"
  unfolding grew_def by (metis host_node.distinct(1) option.distinct(1) option.inject)

lemma grew_some: "grew s t \<Longrightarrow> node_at s k = Some n \<Longrightarrow> node_at t k = Some n"
  unfolding grew_def by (metis option.distinct(1))

lemma grew_const: "grew s t \<Longrightarrow> locate t = locate s \<and> hf_denied t = hf_denied s \<and> hf_writes t = hf_writes s"
  unfolding grew_def using host_constD by blast

lemma create_dir_all_grew: "absolute p \<Longrightarrow> host_create_dir_all p s = (r, t) \<Longrightarrow> grew s t"
  using host_create_dir_all_effect [of p s r t] host_create_dir_all_ok [of s p] by (auto simp: grew_def)

end
