(* ===== verification/Local_Storage.thy ===== *)
theory Local_Storage
  imports File_Ports Host_Paths "HOL-Library.Product_Lexorder"
begin

text \<open>
  The adapter for a local directory as a source of the desktop application
  (\<open>apps/vfs-desktop/src-tauri/src/vfs/adapters/local_storage.rs\<close>), on the host of \<open>Host_Files\<close>, as an implementation
  of the two ports of \<open>Vfs_Service\<close>.

  Of the metadata of a file the size and whether it is a directory are kept; times, permissions and symbolic links are
  left out. The crate \<open>walkdir\<close> is the argument \<open>walk\<close>: the locations below a location, relative to it. Fresh
  identifiers of files are the argument \<open>ids\<close>.
\<close>

section \<open>Paths\<close>

record local_storage =
  lsa_base :: string
  lsa_name :: string

definition local_storage_new :: "string \<Rightarrow> string \<Rightarrow> local_storage" where
  "local_storage_new base name = \<lparr>lsa_base = base, lsa_name = name\<rparr>"

definition resolve_path :: "string \<Rightarrow> string \<Rightarrow> string" where
  "resolve_path base p =
     (if absolute p \<and> path_starts_with p base then p
      else
        let normalized = trim_start_matches backslash (trim_start_matches slash p)
        in if normalized = [] then base else path_join base normalized)"

definition failing :: "string \<Rightarrow> 'a host_act \<Rightarrow> 'a host_act" where
  "failing msg m = map_err (\<lambda>_. msg) m"

section \<open>The storage port\<close>

definition ls_test_connection :: "string \<Rightarrow> host_files \<Rightarrow> bool" where
  "ls_test_connection base s \<longleftrightarrow> host_exists base s \<and> host_is_dir base s"

text \<open>An entry whose metadata cannot be read is left out.\<close>

definition ls_virtual_file :: "(string \<Rightarrow> string) \<Rightarrow> string \<Rightarrow> string \<Rightarrow> host_files \<Rightarrow> string \<Rightarrow> virtual_file option" where
  "ls_virtual_file ids full p s n =
     (case fst (host_node_of (path_join full n) s) of
        Ok nd \<Rightarrow>
          Some (virtual_file_new (ids n) n (if same_path p ''/'' \<or> p = [] then path_join ''/'' n else path_join p n)
            (case nd of DirNode \<Rightarrow> 0 | FileNode b \<Rightarrow> of_nat (length b)) (nd = DirNode))
      | _ \<Rightarrow> None)"

definition ls_list_files :: "(string \<Rightarrow> string) \<Rightarrow> string \<Rightarrow> string \<Rightarrow> virtual_file list host_act" where
  "ls_list_files ids base p s =
     (let full = resolve_path base p in
      case host_node_of full s of
        (Err e, s) \<Rightarrow>
          if e = ''not found'' then (Ok [], s) else (Err (''Failed to read directory: '' @ full), s)
      | (Panic, s) \<Rightarrow> (Panic, s)
      | (Ok (FileNode b), s) \<Rightarrow> (Err (''Path is not a directory: '' @ full), s)
      | (Ok DirNode, s) \<Rightarrow>
          (case host_read_dir full s of
             (Err e, s) \<Rightarrow>
               if e = ''not found'' then (Ok [], s) else (Err (''Failed to read directory: '' @ full), s)
           | (Panic, s) \<Rightarrow> (Panic, s)
           | (Ok ns, s) \<Rightarrow>
               (Ok (sort_key (\<lambda>f. (\<not> vf_is_directory f, vf_name f))
                      (List.map_filter (ls_virtual_file ids full p s) ns)), s)))"

definition ls_read_file :: "string \<Rightarrow> string \<Rightarrow> bytes host_act" where
  "ls_read_file base p =
     (let full = resolve_path base p in failing (''Failed to read file: '' @ full) (host_read full))"

text \<open>The host takes signed offsets. The buffer is allocated first; one call of \<open>read\<close> fills what it can.\<close>

definition ls_read_file_range :: "string \<Rightarrow> string \<Rightarrow> u64 \<Rightarrow> u64 \<Rightarrow> bytes host_act" where
  "ls_read_file_range base p off len s =
     (let full = resolve_path base p in
      case host_read full s of
        (Ok b, s) \<Rightarrow>
          if 2 ^ 63 \<le> unat off then (Err (''Failed to seek in file: '' @ full), s)
          else if 2 ^ 63 \<le> unat len then (Panic, s)
          else failing (''Failed to read from file: '' @ full) (host_read_at full (unat off) (unat len)) s
      | (_, s) \<Rightarrow> (Err (''Failed to open file: '' @ full), s))"

definition ensure_parent :: "string \<Rightarrow> unit host_act" where
  "ensure_parent full s = (case path_parent full of Some d \<Rightarrow> host_create_dir_all d s | None \<Rightarrow> (Ok (), s))"

definition ls_write_file :: "string \<Rightarrow> string \<Rightarrow> bytes \<Rightarrow> unit host_act" where
  "ls_write_file base p d =
     (let full = resolve_path base p in
      and_then (failing (''Failed to create parent directories for: '' @ full) (ensure_parent full))
        (\<lambda>_. failing (''Failed to write file: '' @ full) (host_write full d)))"

text \<open>The size of a directory: the files that the walk finds down to 100 levels; the sum wraps.\<close>

definition calculate_dir_size :: "(host_files \<Rightarrow> location \<Rightarrow> location list) \<Rightarrow> string \<Rightarrow> host_files \<Rightarrow> u64" where
  "calculate_dir_size walk full s =
     sum_list (map (\<lambda>r. case node_at s (locate s full @ r) of Some (FileNode b) \<Rightarrow> of_nat (length b) | _ \<Rightarrow> 0)
       (filter (\<lambda>r. length r \<le> 100) (walk s (locate s full))))"

definition ls_get_metadata ::
    "(host_files \<Rightarrow> location \<Rightarrow> location list) \<Rightarrow> (string \<Rightarrow> string) \<Rightarrow> string \<Rightarrow> string \<Rightarrow> virtual_file host_act" where
  "ls_get_metadata walk ids base p =
     (let full = resolve_path base p; n = name_or ''unknown'' full in
      and_then (failing (''Failed to get metadata for: '' @ full) (host_node_of full))
        (\<lambda>nd s. (Ok (virtual_file_new (ids n) n p
           (case nd of DirNode \<Rightarrow> calculate_dir_size walk full s | FileNode b \<Rightarrow> of_nat (length b)) (nd = DirNode)), s)))"

definition ls_exists :: "string \<Rightarrow> string \<Rightarrow> bool host_act" where
  "ls_exists base p s = (Ok (host_exists (resolve_path base p) s), s)"

definition ls_delete :: "string \<Rightarrow> string \<Rightarrow> unit host_act" where
  "ls_delete base p =
     (let full = resolve_path base p in
      and_then (failing (''Failed to get metadata for: '' @ full) (host_node_of full))
        (\<lambda>nd. if nd = DirNode then failing (''Failed to remove directory: '' @ full) (host_remove_dir full)
              else failing (''Failed to remove file: '' @ full) (host_remove_file full)))"

definition ls_create_dir :: "string \<Rightarrow> string \<Rightarrow> unit host_act" where
  "ls_create_dir base p =
     (let full = resolve_path base p in failing (''Failed to create directory: '' @ full) (host_create_dir_all full))"

definition ls_file_size :: "string \<Rightarrow> string \<Rightarrow> u64 host_act" where
  "ls_file_size base p =
     (let full = resolve_path base p in
      and_then (failing (''Failed to get metadata for: '' @ full) (host_node_of full)) (\<lambda>nd s. (Ok (node_len s nd), s)))"

section \<open>The file operations\<close>

text \<open>The entries carry the path on the host. The first entry whose metadata cannot be read ends the listing.\<close>

fun ls_entries :: "string \<Rightarrow> string list \<Rightarrow> file_entry list host_act" where
  "ls_entries full [] s = (Ok [], s)"
| "ls_entries full (n # ns) s =
     and_then (host_node_of (path_join full n))
       (\<lambda>nd. and_then (ls_entries full ns)
       (\<lambda>es s. (Ok (\<lparr>fe_name = n, fe_path = path_join full n,
                  fe_size = (case nd of DirNode \<Rightarrow> 0 | FileNode b \<Rightarrow> of_nat (length b)), fe_is_dir = (nd = DirNode)\<rparr> # es), s))) s"

definition ls_list :: "string \<Rightarrow> string \<Rightarrow> file_entry list host_act" where
  "ls_list base p =
     (let full = resolve_path base p in
      and_then (failing (''Failed to read directory: '' @ full) (host_read_dir full)) (ls_entries full))"

definition ls_stat :: "string \<Rightarrow> string \<Rightarrow> file_stat host_act" where
  "ls_stat base p =
     (let full = resolve_path base p in
      and_then (failing (''Failed to stat: '' @ full) (host_node_of full))
        (\<lambda>nd s. (Ok \<lparr>fs_size = node_len s nd, fs_is_dir = (nd = DirNode)\<rparr>, s)))"

definition ls_append :: "string \<Rightarrow> string \<Rightarrow> bytes \<Rightarrow> unit host_act" where
  "ls_append base p d =
     (let full = resolve_path base p in failing (''Failed to append to file: '' @ full) (host_append full d))"

definition ls_write_at :: "string \<Rightarrow> string \<Rightarrow> u64 \<Rightarrow> bytes \<Rightarrow> unit host_act" where
  "ls_write_at base p off d s =
     (let full = resolve_path base p in
      if 2 ^ 63 \<le> unat off then (Err (''Failed to write at offset: '' @ full), s) else
      failing (''Failed to write at offset: '' @ full) (host_edit full (overlay (unat off) d)) s)"

definition ls_truncate :: "string \<Rightarrow> string \<Rightarrow> u64 \<Rightarrow> unit host_act" where
  "ls_truncate base p len s =
     (let full = resolve_path base p in
      if 2 ^ 63 \<le> unat len then (Err (''Failed to truncate file: '' @ full), s) else
      failing (''Failed to truncate file: '' @ full) (host_edit full (resized (unat len))) s)"

definition ls_mkdir :: "string \<Rightarrow> string \<Rightarrow> unit host_act" where
  "ls_mkdir base p =
     (let full = resolve_path base p in failing (''Failed to create directory: '' @ full) (host_create_dir full))"

definition ls_rmdir :: "string \<Rightarrow> string \<Rightarrow> unit host_act" where
  "ls_rmdir base p =
     (let full = resolve_path base p in failing (''Failed to remove directory: '' @ full) (host_remove_dir full))"

text \<open>Copying. A copy onto itself gets the first free name of 101.\<close>

definition unique_destination :: "string \<Rightarrow> host_files \<Rightarrow> (string, string) outcome" where
  "unique_destination to s =
     (case path_parent to of
        None \<Rightarrow> Err ''Cannot copy file or folder to itself''
      | Some d \<Rightarrow>
          (let n = name_or ''unnamed'' to in
           case find (\<lambda>k. \<not> host_exists (path_join d (copy_name n k)) s) [1..<102] of
             Some k \<Rightarrow> Ok (path_join d (copy_name n k))
           | None \<Rightarrow> Err ''Cannot generate unique name for copy''))"

definition copy_entry :: "copy_options \<Rightarrow> string \<Rightarrow> string \<Rightarrow> unit host_act" where
  "copy_entry opts from to s =
     (if host_is_dir from s then (if host_exists to s then (Ok (), s) else host_create_dir_all to s)
      else
        and_then
          (\<lambda>s. case path_parent to of
                 Some d \<Rightarrow> if host_exists d s then (Ok (), s) else host_create_dir_all d s
               | None \<Rightarrow> (Ok (), s))
          (\<lambda>_ s. if host_exists to s \<and> \<not> co_overwrite opts then (Ok (), s) else host_copy from to s) s)"

fun copy_walked :: "copy_options \<Rightarrow> string \<Rightarrow> string \<Rightarrow> location list \<Rightarrow> unit host_act" where
  "copy_walked opts from to [] s = (Ok (), s)"
| "copy_walked opts from to (r # rs) s =
     (if r = [] then copy_walked opts from to rs s
      else and_then (copy_entry opts (path_join_all from r) (path_join_all to r)) (\<lambda>_. copy_walked opts from to rs) s)"

definition copy_dir_recursive ::
    "(host_files \<Rightarrow> location \<Rightarrow> location list) \<Rightarrow> copy_options \<Rightarrow> string \<Rightarrow> string \<Rightarrow> unit host_act" where
  "copy_dir_recursive walk opts from to =
     and_then
       (\<lambda>s. if host_exists to s
             then (if co_overwrite opts then (Ok (), s) else (Err (''Destination directory already exists: '' @ to), s))
             else host_create_dir_all to s)
       (\<lambda>_ s. copy_walked opts from to (walk s (locate s from)) s)"

definition ls_copy ::
    "(host_files \<Rightarrow> location \<Rightarrow> location list) \<Rightarrow> string \<Rightarrow> string \<Rightarrow> string \<Rightarrow> copy_options \<Rightarrow> unit host_act" where
  "ls_copy walk base from to opts =
     (let from_path = resolve_path base from; to_path = resolve_path base to in
      and_then (\<lambda>s. (if same_path from_path to_path then unique_destination to_path s else Ok to_path, s))
        (\<lambda>to_path s.
           if path_starts_with to_path from_path \<and> host_is_dir from_path s
           then (Err (''Cannot copy folder '' @ name_or ''folder'' from_path @ '' into itself''), s)
           else
             and_then (ensure_parent to_path)
               (\<lambda>_ s.
                  if host_is_dir from_path s then
                    failing (''Failed to copy directory '' @ from_path) (copy_dir_recursive walk opts from_path to_path) s
                  else if host_exists to_path s \<and> \<not> co_overwrite opts
                  then (Err (''Destination file already exists: '' @ to_path), s)
                  else failing (''Failed to copy '' @ from_path) (host_copy from_path to_path) s) s))"

definition ls_rename :: "string \<Rightarrow> string \<Rightarrow> string \<Rightarrow> unit host_act" where
  "ls_rename base from to =
     (let from_path = resolve_path base from; to_path = resolve_path base to in
      and_then (ensure_parent to_path)
        (\<lambda>_. failing (''Failed to rename '' @ from_path) (host_rename from_path to_path)))"

definition ls_mv :: "string \<Rightarrow> string \<Rightarrow> string \<Rightarrow> bool \<Rightarrow> unit host_act" where
  "ls_mv base from to overwrite = ls_rename base from to"

definition ls_rm_rf :: "string \<Rightarrow> string \<Rightarrow> unit host_act" where
  "ls_rm_rf base p s =
     (let full = resolve_path base p in
      if host_is_dir full s then failing (''Failed to remove directory recursively: '' @ full) (host_remove_dir_all full) s
      else failing (''Failed to remove file: '' @ full) (host_remove_file full) s)"

text \<open>Touching a file that exists changes its times only.\<close>

definition ls_touch :: "string \<Rightarrow> string \<Rightarrow> unit host_act" where
  "ls_touch base p s =
     (let full = resolve_path base p in
      if host_exists full s then (Ok (), s)
      else and_then (ensure_parent full) (\<lambda>_. host_write full []) s)"

definition ls_is_dir :: "string \<Rightarrow> string \<Rightarrow> bool host_act" where
  "ls_is_dir base p = and_then (host_node_of (resolve_path base p)) (\<lambda>nd s. (Ok (nd = DirNode), s))"

definition ls_is_file :: "string \<Rightarrow> string \<Rightarrow> bool host_act" where
  "ls_is_file base p = and_then (host_node_of (resolve_path base p)) (\<lambda>nd s. (Ok (nd \<noteq> DirNode), s))"

text \<open>Permissions are not part of the host; changing them needs the file.\<close>

definition ls_chmod :: "string \<Rightarrow> string \<Rightarrow> u32 \<Rightarrow> unit host_act" where
  "ls_chmod base p mode = and_then (host_node_of (resolve_path base p)) (\<lambda>_ s. (Ok (), s))"

definition local_file_ops :: "(host_files \<Rightarrow> location \<Rightarrow> location list) \<Rightarrow> string \<Rightarrow> host_files file_operations" where
  "local_file_ops walk base =
     \<lparr>fo_stat = ls_stat base, fo_read = ls_read_file base, fo_write = ls_write_file base, fo_mkdir_p = ls_create_dir base,
      fo_list = ls_list base, fo_rm_rf = ls_rm_rf base, fo_append = ls_append base, fo_mkdir = ls_mkdir base,
      fo_rmdir = ls_rmdir base, fo_rename = ls_rename base, fo_copy = ls_copy walk base, fo_mv = ls_mv base,
      fo_rm = ls_delete base, fo_chmod = ls_chmod base, fo_touch = ls_touch base, fo_exists = ls_exists base\<rparr>"

definition local_adapter ::
    "(host_files \<Rightarrow> location \<Rightarrow> location list) \<Rightarrow> (string \<Rightarrow> string) \<Rightarrow> string \<Rightarrow> host_files storage_adapter" where
  "local_adapter walk ids base =
     \<lparr>sa_list_files = ls_list_files ids base,
      sa_list_files_paginated = default_list_files_paginated (ls_list_files ids base),
      sa_read_file = ls_read_file base, sa_file_size = ls_file_size base,
      sa_get_metadata = ls_get_metadata walk ids base\<rparr>"

text \<open>The third port of the adapter: a mounted directory.\<close>

definition ls_mount :: "string \<Rightarrow> unit host_act" where
  "ls_mount base = failing (''Failed to create mount point: '' @ base) (host_create_dir_all base)"

definition ls_unmount :: "unit host_act" where
  "ls_unmount s = (Ok (), s)"

section \<open>Where a path leads\<close>

lemma locate_starts_with:
  assumes "absolute base" and "path_starts_with p base" and "''..'' \<notin> set (pieces p)"
  shows "prefix (locate s base) (locate s p)"
proof -
  obtain rest where rest: "path_components p = path_components base @ rest"
    using assms(2) by (auto simp: path_starts_with_def prefix_def)
  then have "absolute p" using components_absolute [OF assms(1)] absolute_components by auto
  then have "set rest \<subseteq> set (pieces p)"
    using rest components_absolute [of p] components_absolute [OF assms(1)] by auto
  then have "list_all plain rest" using assms(3) pieces_plain [of _ p] by (auto simp: list_all_iff)
  then show ?thesis using \<open>absolute p\<close> assms(1) rest by (simp add: locate_absolute foldl_go_plain)
qed

text \<open>(C25) A path without \<open>..\<close>, also when leading slashes and backslashes are gone, is resolved below the base of the
  source, unless a slash follows a leading backslash: then it is taken for a path of the host, so that every path
  of the host can be reached. (\<open>..\<close> is not refused either.)\<close>

theorem resolve_confined:
  assumes "absolute base" and "stripped = trim_start_matches backslash (trim_start_matches slash p)"
  shows "(''..'' \<notin> set (pieces p) \<union> set (pieces stripped) \<and> \<not> absolute stripped \<longrightarrow>
       prefix (locate s base) (locate s (resolve_path base p))) \<and>
    (absolute q \<longrightarrow> resolve_path base (backslash # q) = q)"
proof -
  have "prefix (locate s base) (locate s (path_join base stripped))"
    if n: "''..'' \<notin> set (pieces stripped)" "\<not> absolute stripped"
  proof -
    have "plain w" if "w \<in> set (pieces stripped)" for w
      by (rule pieces_plain [OF that]) (use that n(1) in blast)
    then have "list_all plain (pieces stripped)" unfolding list_all_iff by blast
    then show ?thesis using n by (simp add: locate_join [OF assms(1)] foldl_go_plain)
  qed
  then have "''..'' \<notin> set (pieces p) \<union> set (pieces stripped) \<and> \<not> absolute stripped \<longrightarrow>
      prefix (locate s base) (locate s (resolve_path base p))"
    using locate_starts_with [OF assms(1)] assms(2) by (auto simp: resolve_path_def Let_def)
  moreover have "trim_start_matches backslash (trim_start_matches slash (backslash # q)) = q" if "absolute q"
    using that by (cases q) (auto simp: trim_start_matches_def absolute_def)
  then have "absolute q \<longrightarrow> resolve_path base (backslash # q) = q"
    by (auto simp: resolve_path_def path_join_def absolute_def Let_def)
  ultimately show ?thesis by blast
qed

theorem resolve_confined_witness:
  "(\<forall>s. prefix (locate s ''/data'') (locate s (resolve_path ''/data'' ''//a/./b''))) \<and>
     resolve_path ''/data'' (backslash # ''/etc/passwd'') = ''/etc/passwd''"
proof -
  have "''..'' \<notin> set (pieces ''//a/./b'') \<union> set (pieces ''a/./b'') \<and> \<not> absolute ''a/./b''" by code_simp
  moreover have "absolute ''/data'' \<and> absolute ''/etc/passwd'' \<and>
      ''a/./b'' = trim_start_matches backslash (trim_start_matches slash ''//a/./b'')" by code_simp
  ultimately show ?thesis
    using resolve_confined [of "''/data''" "''a/./b''" "''//a/./b''" _ "''/etc/passwd''"] by blast
qed

section \<open>Local directories store files\<close>

text \<open>The paths the adapter tells apart: normal components from the root of the source, without a leading backslash
  and not by accident a path of the host below the base.\<close>

definition local_name :: "string \<Rightarrow> string \<Rightarrow> bool" where
  "local_name base p \<longleftrightarrow>
     absolute base \<and> (let ws = pieces p in ws \<noteq> [] \<and> list_all plain ws \<and> p = path_string (''/'' # ws) \<and> hd (hd ws) \<noteq> backslash) \<and>
     (path_components base = [''/''] \<or> \<not> path_starts_with p base)"

definition local_view :: "string \<Rightarrow> host_files \<Rightarrow> string \<Rightarrow> bytes option" where
  "local_view base s p =
     (let l = locate s (resolve_path base p) in
      if local_name base p \<and> \<not> hf_denied s l
      then (case node_at s l of Some (FileNode b) \<Rightarrow> Some b | _ \<Rightarrow> None) else None)"

lemma resolve_absolute: "absolute base \<Longrightarrow> absolute (resolve_path base p)"
  by (auto simp: resolve_path_def Let_def absolute_join)

lemma resolve_name:
  assumes "local_name base p"
  shows "absolute (resolve_path base p)" and "locate s (resolve_path base p) = locate s base @ pieces p"
proof -
  define ws where "ws = pieces p"
  have base: "absolute base" and ws: "ws \<noteq> []" "list_all plain ws" "p = path_string (''/'' # ws)" "hd (hd ws) \<noteq> backslash"
    and apart: "path_components base = [''/''] \<or> \<not> path_starts_with p base"
    using assms by (auto simp: local_name_def ws_def Let_def)
  show "absolute (resolve_path base p)" by (rule resolve_absolute [OF base])
  show "locate s (resolve_path base p) = locate s base @ pieces p"
  proof (cases "path_starts_with p base")
    case True
    with apart have "path_components base = [''/'']" by blast
    moreover have "resolve_path base p = p" using True absolute_path_string by (simp add: resolve_path_def ws(3))
    ultimately show ?thesis using locate_path_string [OF ws(2)] locate_absolute [OF base] ws(2)
      by (simp add: ws_def [symmetric] flip: ws(3)) (simp add: go_def)
  next
    case False
    obtain v vs where v: "ws = v # vs" "plain v" using ws(1,2) by (cases ws) auto
    then obtain c cs where c: "v = c # cs" "c \<noteq> slash" "c \<noteq> backslash"
      using ws(4) by (cases v) (auto simp: plain_def)
    let ?n = "v @ concat (map ((#) slash) vs)"
    have "p = slash # ?n" using path_string_concat [OF ws(1,2)] ws(3) v by simp
    then have n: "trim_start_matches backslash (trim_start_matches slash p) = ?n" "\<not> absolute ?n" "?n \<noteq> []"
      using c by (simp_all add: trim_start_matches_def absolute_def)
    moreover have "pieces ?n = ws" using pieces_append_slash [of "[]" ?n] \<open>p = slash # ?n\<close> by (simp add: ws_def)
    moreover have "resolve_path base p = path_join base ?n"
      using False n(3) unfolding resolve_path_def n(1) Let_def by argo
    ultimately show ?thesis using locate_join [OF base, of ?n s] ws(2) by (simp add: foldl_go_plain ws_def)
  qed
qed

lemma local_name_inj:
  assumes "local_name base p" and "local_name base q" and "p \<noteq> q"
  shows "locate s (resolve_path base p) \<noteq> locate s (resolve_path base q)"
proof -
  have "pieces p \<noteq> pieces q" using assms by (auto simp: local_name_def Let_def)
  then show ?thesis by (simp add: resolve_name [OF assms(1)] resolve_name [OF assms(2)])
qed

lemma local_view_Some:
  "local_view base s p = Some b \<longleftrightarrow>
     local_name base p \<and> \<not> hf_denied s (locate s (resolve_path base p)) \<and>
     node_at s (locate s (resolve_path base p)) = Some (FileNode b)"
  by (auto simp: local_view_def Let_def split: option.splits host_node.splits)

lemma local_view_cong:
  assumes "host_const t = host_const s"
    and "\<And>q b. local_name base q \<Longrightarrow> node_at t (locate s (resolve_path base q)) = Some (FileNode b) \<longleftrightarrow>
      node_at s (locate s (resolve_path base q)) = Some (FileNode b)"
  shows "local_view base t = local_view base s"
proof
  fix q
  have "local_view base t q = Some b \<longleftrightarrow> local_view base s q = Some b" for b
    using assms(2) [of q b] host_constD [OF assms(1)] by (auto simp: local_view_Some)
  then show "local_view base t q = local_view base s q" by (metis option.exhaust)
qed

lemma local_view_grew: "grew s t \<Longrightarrow> local_view base t = local_view base s"
  by (rule local_view_cong) (use grew_def grew_file in blast)+

text \<open>A change of one location is a change of one name.\<close>

lemma local_view_update:
  assumes "local_name base p" and "host_const t = host_const s" and "l = locate s (resolve_path base p)"
    and "\<not> hf_denied s l" and "node_at t l = map_option FileNode x"
    and "\<And>k b. k \<noteq> l \<Longrightarrow> node_at t k = Some (FileNode b) \<longleftrightarrow> node_at s k = Some (FileNode b)"
  shows "local_view base t = (local_view base s)(p := x)"
proof
  fix q
  note const = host_constD [OF assms(2)]
  have "local_view base t q = Some b \<longleftrightarrow> ((local_view base s)(p := x)) q = Some b" for b
  proof (cases "q = p")
    case True
    then show ?thesis using assms by (auto simp: local_view_Some const)
  next
    case False
    then have "local_name base q \<Longrightarrow> locate s (resolve_path base q) \<noteq> l"
      using local_name_inj [OF assms(1)] assms(3) by metis
    then show ?thesis using False assms(6) by (auto simp: local_view_Some const)
  qed
  then show "local_view base t q = ((local_view base s)(p := x)) q" by (metis option.exhaust)
qed

lemma failing_Ok [simp]: "failing msg m s = (Ok a, s') \<longleftrightarrow> m s = (Ok a, s')"
  by (simp add: failing_def)

lemma failing_state [simp]: "snd (failing msg m s) = snd (m s)"
  by (simp add: failing_def map_err_def split: prod.split outcome.split)

lemma ensure_parent_grew: "absolute p \<Longrightarrow> ensure_parent p s = (r, t) \<Longrightarrow> grew s t"
  using create_dir_all_grew [OF path_parent_absolute] by (auto simp: ensure_parent_def split: option.splits)

lemma ensure_parent_no_panic: "fst (ensure_parent p s) \<noteq> Panic"
proof -
  have "fst (make_dirs ls t) \<noteq> Panic" for ls t
    by (induction ls arbitrary: t) (auto split: option.split host_node.split)
  then show ?thesis by (auto simp: ensure_parent_def host_create_dir_all_def split: option.split)
qed

text \<open>A write of one location changes the view at one name at most, however it ends.\<close>

lemma host_put_others:
  assumes "local_name base q" and "host_ok u" and "v = snd (host_put (locate u (resolve_path base q)) d u)"
  shows "host_ok v \<and> (\<forall>r. r \<noteq> q \<longrightarrow> local_view base v r = local_view base u r)"
proof (intro conjI allI impI)
  show "host_ok v" unfolding assms(3) by (rule host_ok_host_put [OF assms(2)])
  fix r assume "r \<noteq> q"
  have c: "host_const v = host_const u" unfolding assms(3) by simp
  show "local_view base v r = local_view base u r"
  proof (cases "local_name base r")
    case True
    have "node_at v (locate u (resolve_path base r)) = node_at u (locate u (resolve_path base r))"
      unfolding assms(3) by (rule node_at_host_put) (rule local_name_inj [OF True assms(1) \<open>r \<noteq> q\<close>])
    then show ?thesis using host_constD [OF c] by (simp add: local_view_def Let_def)
  qed (simp add: local_view_def)
qed

lemma host_put_view:
  assumes "local_name base p" and "host_ok s" and "host_put (locate s (resolve_path base p)) d s = (Ok (), t)"
  shows "host_ok t \<and> local_view base t = (local_view base s)(p \<mapsto> d)"
proof -
  let ?l = "locate s (resolve_path base p)"
  have t: "\<not> hf_denied s ?l" "t = put_node ?l (FileNode d) s" using assms(3) by auto
  have "host_ok t" using host_ok_host_put [OF assms(2), of ?l d] assms(3) by simp
  moreover have "local_view base t = (local_view base s)(p \<mapsto> d)"
    by (rule local_view_update [OF assms(1) _ refl t(1)]) (simp_all add: t(2))
  ultimately show ?thesis by blast
qed

lemma drop_file_view:
  assumes "local_name base p" and "host_ok s" and "local_view base s p = Some d"
    and "t = drop_nodes (\<lambda>k. k = locate s (resolve_path base p)) s"
  shows "host_ok t \<and> local_view base t = (local_view base s)(p := None)"
proof -
  let ?l = "locate s (resolve_path base p)"
  have l: "\<not> hf_denied s ?l" "node_at s ?l = Some (FileNode d)" using assms(3) by (simp_all add: local_view_Some)
  note drop = node_at_drop [OF host_ok_wf [OF assms(2)], of "\<lambda>k. k = ?l"]
  have "?l \<noteq> []" "?l \<noteq> [''/'']" using host_ok_nonempty [OF assms(2) l(2)] host_ok_root [OF assms(2)] l(2) by auto
  then have "host_ok t" unfolding assms(4)
    by (intro host_ok_drop [OF assms(2)]) (use leaf_below [OF assms(2), of ?l] l(2) in auto)
  moreover have "local_view base t = (local_view base s)(p := None)"
    by (rule local_view_update [OF assms(1) _ refl l(1)]) (simp_all add: assms(4) drop)
  ultimately show ?thesis by blast
qed

lemma rename_view:
  assumes "local_name base p" and "local_name base q" and "p \<noteq> q" and "host_ok s" and "local_view base s p = Some d"
    and "host_rename (resolve_path base p) (resolve_path base q) s = (Ok (), t)"
  shows "host_ok t \<and> local_view base t = (local_view base s)(q \<mapsto> d, p := None)"
proof -
  let ?l = "locate s (resolve_path base p)" and ?m = "locate s (resolve_path base q)"
  note ne = local_name_inj [OF assms(1-3), of s]
  have l: "\<not> hf_denied s ?l" "node_at s ?l = Some (FileNode d)" using assms(5) by (simp_all add: local_view_Some)
  from host_rename_Ok [OF assms(4,6) refl refl ne] obtain n where n: "node_at s ?l = Some n" "\<not> prefix ?l ?m" "\<not> prefix ?m ?l"
    "\<And>k. below ?m k \<Longrightarrow> node_at s k = None" "host_const t = host_const s" by metis
  have m: "\<not> hf_denied s ?m"
    using assms(6) ne by (auto simp: host_rename_def and_then_Ok_iff Let_def split: if_splits)
  have empty: "node_at s k = None" if "below ?l k" for k
    using leaf_below [OF assms(4) _ _ that] l(2) host_ok_nonempty [OF assms(4) l(2)] by auto
  note eff = host_rename_effect [OF assms(4,6) refl refl ne]
  have node: "node_at t k = (if k = ?m then Some (FileNode d) else if k = ?l then None else node_at s k)" for k
  proof -
    have "node_at s (?l @ drop (length ?m) k) = None" if "prefix ?m k" "k \<noteq> ?m"
      using that by (intro empty) (auto simp: below_def strict_prefix_def prefix_def)
    moreover have "node_at s k = None" if "prefix ?m k" "k \<noteq> ?m" using that n(4) by (auto simp: below_def strict_prefix_def)
    moreover have "node_at s k = None" if "prefix ?l k" "k \<noteq> ?l" using that empty by (auto simp: below_def strict_prefix_def)
    ultimately show ?thesis using l(2) n(2,3) by (auto simp: eff(1))
  qed
  define u where "u = s\<lparr>hf_nodes := hm_insert ?m (FileNode d) (hf_nodes s)\<rparr>"
  have u: "host_const u = host_const s" "node_at u k = (if k = ?m then Some (FileNode d) else node_at s k)" for k
    by (simp_all add: u_def node_at_def)
  have uloc: "locate u = locate s" "hf_denied u = hf_denied s" using host_constD [OF u(1)] by simp_all
  have "local_view base u = (local_view base s)(q \<mapsto> d)"
    by (rule local_view_update [OF assms(2) u(1) refl m]) (simp_all add: u(2))
  moreover have "local_view base t = (local_view base u)(p := None)"
    by (rule local_view_update [OF assms(1)]) (use ne n(5) u l(1) uloc node in \<open>auto simp: u\<close>)
  moreover have "host_ok t" by (rule host_ok_rename [OF assms(4,6)])
  ultimately show ?thesis by simp
qed

lemma host_read_cases: "fst (host_read p s) = Ok d \<longleftrightarrow> host_read p s = (Ok d, s)"
  using host_read_state [of p s] by (cases "host_read p s") auto

lemma ls_entries_state [simp]: "snd (ls_entries full ns s) = s"
proof (induction ns)
  case (Cons n ns)
  then show ?case
    by (cases "host_node_of (path_join full n) s"; cases "ls_entries full ns s")
      (auto simp: and_then_def host_node_of_def Let_def split: outcome.splits option.splits if_splits)
qed simp

lemma ls_list_state [simp]: "snd (ls_list base p s) = s"
proof -
  have "snd (host_read_dir q s) = s" for q
    unfolding host_read_dir_def by (rule and_then_state) (auto simp: Let_def split: host_node.split)
  then show ?thesis unfolding ls_list_def Let_def by (intro and_then_state) simp_all
qed

text \<open>Copying a file: the parents of the destination are made, and the bytes are put there.\<close>

lemma ls_copy_file:
  assumes "local_name base p" and "local_name base q" and "q \<noteq> p" and "local_view base s p = Some d"
  shows "ls_copy walk base p q opts s = (Ok (), t) \<Longrightarrow>
      \<exists>u. grew s u \<and> host_put (locate u (resolve_path base q)) d u = (Ok (), t)"
    and "ls_copy walk base p q opts s = (Err e, t) \<Longrightarrow>
      \<exists>u. grew s u \<and> (t = u \<or> t = snd (host_put (locate u (resolve_path base q)) d u))"
proof -
  let ?p = "resolve_path base p" and ?q = "resolve_path base q"
  note ne = local_name_inj [OF assms(1,2) assms(3) [symmetric]]
  have diff: "\<not> same_path ?p ?q" using ne locate_same by metis
  have p: "\<not> hf_denied s (locate s ?p)" "node_at s (locate s ?p) = Some (FileNode d)" using assms(4) by (simp_all add: local_view_Some)
  then have nd: "\<not> host_is_dir ?p s" by (simp add: host_is_dir_def)
  obtain x u where u: "ensure_parent ?q s = (x, u)" by force
  have g: "grew s u" by (rule ensure_parent_grew [OF resolve_name(1) [OF assms(2)] u])
  note c = grew_const [OF g]
  have pu: "node_at u (locate u ?p) = Some (FileNode d)" using grew_some [OF g p(2)] c by simp
  then have ndu: "\<not> host_is_dir ?p u" by (simp add: host_is_dir_def)
  have rd: "host_read ?p u = (Ok d, u)" using pu p(1) c by simp
  have cp: "host_copy ?p ?q u = host_put (locate u ?q) d u" using rd ne [of u] by (simp add: host_copy_def)
  have run: "ls_copy walk base p q opts s =
      and_then (ensure_parent ?q) (\<lambda>_ u.
        if host_is_dir ?p u then failing (''Failed to copy directory '' @ ?p) (copy_dir_recursive walk opts ?p ?q) u
        else if host_exists ?q u \<and> \<not> co_overwrite opts then (Err (''Destination file already exists: '' @ ?q), u)
        else failing (''Failed to copy '' @ ?p) (host_copy ?p ?q) u) s"
    using diff nd by (simp add: ls_copy_def Let_def)
  have put: "failing msg (host_copy ?p ?q) u = (y, v) \<Longrightarrow> v = snd (host_put (locate u ?q) d u)" for msg y v
    using failing_state [of msg "host_copy ?p ?q" u] cp by simp
  have "x \<noteq> Panic" using ensure_parent_no_panic u by (metis fst_conv)
  show "\<exists>u. grew s u \<and> host_put (locate u ?q) d u = (Ok (), t)" if ok: "ls_copy walk base p q opts s = (Ok (), t)"
  proof -
    have "failing (''Failed to copy '' @ ?p) (host_copy ?p ?q) u = (Ok (), t)"
      using ok \<open>x \<noteq> Panic\<close> ndu unfolding run by (cases x; simp add: u) (simp split: if_splits)
    then have "host_put (locate u ?q) d u = (Ok (), t)" using cp by (simp only: failing_Ok)
    then show ?thesis using g by blast
  qed
  show "\<exists>u. grew s u \<and> (t = u \<or> t = snd (host_put (locate u ?q) d u))" if err: "ls_copy walk base p q opts s = (Err e, t)"
  proof -
    have "t = u \<or> failing (''Failed to copy '' @ ?p) (host_copy ?p ?q) u = (Err e, t)"
      using err \<open>x \<noteq> Panic\<close> ndu unfolding run by (cases x; simp add: u) (simp split: if_splits)
    then show ?thesis using g put by blast
  qed
qed

interpretation local: file_store "local_file_ops walk base" host_ok "{p. local_name base p}" "local_view base" for walk base
proof
  fix s t :: host_files and p q d opts r e
  show "p \<in> {p. local_name base p}" if "local_view base s p \<noteq> None" using that by (auto simp: local_view_Some)
  have same: "snd (fo_stat (local_file_ops walk base) p s) = s" "snd (fo_exists (local_file_ops walk base) p s) = s"
    "snd (fo_read (local_file_ops walk base) p s) = s" "snd (fo_list (local_file_ops walk base) p s) = s"
    using ls_list_state by (simp_all add: local_file_ops_def ls_stat_def ls_exists_def ls_read_file_def Let_def and_then_state)
  show "host_ok t \<and> local_view base t = local_view base s \<and>
      (\<forall>st. p \<in> {p. local_name base p} \<longrightarrow> rs = Ok st \<longrightarrow> fs_is_dir st = (local_view base s p = None))"
    if "host_ok s" "fo_stat (local_file_ops walk base) p s = (rs, t)" for rs
  proof -
    have "t = s" using same(1) that(2) by simp
    moreover have "fs_is_dir st = (local_view base s p = None)" if st: "rs = Ok st" "local_name base p" for st
    proof -
      obtain n where "host_node_of (resolve_path base p) s = (Ok n, s)" "fs_is_dir st = (n = DirNode)"
        using \<open>fo_stat (local_file_ops walk base) p s = (rs, t)\<close> st(1)
        by (auto simp: local_file_ops_def ls_stat_def and_then_Ok_iff Let_def)
      then show ?thesis using st(2) by (cases n) (auto simp: local_view_def)
    qed
    ultimately show ?thesis using that(1) by simp
  qed
  show "host_ok t \<and> local_view base t = local_view base s \<and>
      (p \<in> {p. local_name base p} \<longrightarrow> re = Ok False \<longrightarrow> local_view base s p = None)"
    if "host_ok s" "fo_exists (local_file_ops walk base) p s = (re, t)" for re
    using that by (auto simp: local_file_ops_def ls_exists_def host_exists_def local_view_def Let_def split: option.splits)
  show "host_ok t \<and> local_view base t = local_view base s"
    if "host_ok s" "fo_list (local_file_ops walk base) p s = (rl, t)" for rl
    using that same(4) by simp
  show "host_ok t \<and> local_view base t = local_view base s \<and>
      (\<forall>d. p \<in> {p. local_name base p} \<longrightarrow> rr = Ok d \<longrightarrow> local_view base s p = Some d)"
    if "host_ok s" "fo_read (local_file_ops walk base) p s = (rr, t)" for rr
  proof -
    have "t = s" using same(3) that(2) by simp
    then show ?thesis using that by (auto simp: local_file_ops_def ls_read_file_def Let_def local_view_Some)
  qed
  show "host_ok t \<and> local_view base t = (local_view base s)(p \<mapsto> d)"
    if "host_ok s" "p \<in> {p. local_name base p}" "fo_write (local_file_ops walk base) p d s = (Ok (), t)"
  proof -
    have name: "local_name base p" using that(2) by simp
    from that(3) obtain u where u: "ensure_parent (resolve_path base p) s = (Ok (), u)"
      "host_put (locate u (resolve_path base p)) d u = (Ok (), t)"
      by (auto simp: local_file_ops_def ls_write_file_def and_then_Ok_iff Let_def host_write_def)
    have g: "grew s u" by (rule ensure_parent_grew [OF resolve_name(1) [OF name] u(1)])
    then have "host_ok u" using that(1) by (simp add: grew_def)
    from host_put_view [OF name this u(2)] show ?thesis using local_view_grew [OF g] by simp
  qed
  show "host_ok t \<and> local_view base t = (local_view base s)(p := None)"
    if "host_ok s" "local_view base s p = Some d" "fo_rm (local_file_ops walk base) p s = (Ok (), t)"
    using that
    by (intro drop_file_view [of base p s d t])
      (auto simp: local_view_Some local_file_ops_def ls_delete_def and_then_Ok_iff Let_def host_remove_file_Ok)
  show "host_ok t \<and> local_view base t = (local_view base s)(p := None)"
    if "host_ok s" "local_view base s p = Some d" "fo_rm_rf (local_file_ops walk base) p s = (Ok (), t)"
    using that
    by (intro drop_file_view [of base p s d t])
      (auto simp: local_view_Some local_file_ops_def ls_rm_rf_def Let_def host_is_dir_def host_remove_file_Ok)
  show "host_ok t \<and> local_view base t = local_view base s"
    if "host_ok s" "local_view base s p = Some d" "fo_rm_rf (local_file_ops walk base) p s = (Err e, t)"
    using that
    by (auto simp: local_view_Some local_file_ops_def ls_rm_rf_def Let_def host_is_dir_def failing_def map_err_def
        host_remove_file_def and_then_def host_node_of_def)
  show "host_ok t \<and> local_view base t = (local_view base s)(q \<mapsto> d)"
    if hyp: "host_ok s" "local_view base s p = Some d" "q \<in> {p. local_name base p}" "q \<noteq> p"
      "fo_copy (local_file_ops walk base) p q opts s = (Ok (), t)"
  proof -
    have names: "local_name base p" "local_name base q" using hyp(2,3) by (auto simp: local_view_Some)
    have "ls_copy walk base p q opts s = (Ok (), t)" using hyp(5) by (simp add: local_file_ops_def)
    from ls_copy_file(1) [OF names hyp(4,2) this] obtain u
      where u: "grew s u" "host_put (locate u (resolve_path base q)) d u = (Ok (), t)" by blast
    then have "host_ok u" "local_view base u = local_view base s"
      using hyp(1) local_view_grew [OF u(1)] by (simp_all add: grew_def)
    then show ?thesis using host_put_view [OF names(2) _ u(2)] by simp
  qed
  show "host_ok t \<and> (\<forall>r. r \<noteq> q \<longrightarrow> local_view base t r = local_view base s r)"
    if hyp: "host_ok s" "local_view base s p = Some d" "q \<in> {p. local_name base p}" "q \<noteq> p"
      "fo_copy (local_file_ops walk base) p q opts s = (Err e, t)"
  proof -
    have names: "local_name base p" "local_name base q" using hyp(2,3) by (auto simp: local_view_Some)
    have "ls_copy walk base p q opts s = (Err e, t)" using hyp(5) by (simp add: local_file_ops_def)
    from ls_copy_file(2) [OF names hyp(4,2) this] obtain u
      where u: "grew s u" "t = u \<or> t = snd (host_put (locate u (resolve_path base q)) d u)" by blast
    then have "host_ok u" "local_view base u = local_view base s"
      using hyp(1) local_view_grew [OF u(1)] by (simp_all add: grew_def)
    then show ?thesis using host_put_others [OF names(2)] u(2) by metis
  qed
  show "host_ok t \<and> local_view base t = (local_view base s)(q \<mapsto> d, p := None)"
    if "host_ok s" "local_view base s p = Some d" "q \<in> {p. local_name base p}" "q \<noteq> p"
      "fo_mv (local_file_ops walk base) p q True s = (Ok (), t)"
  proof -
    have names: "local_name base p" "local_name base q" using that(2,3) by (auto simp: local_view_Some)
    from that(5) obtain u where u: "ensure_parent (resolve_path base q) s = (Ok (), u)"
      "host_rename (resolve_path base p) (resolve_path base q) u = (Ok (), t)"
      by (auto simp: local_file_ops_def ls_mv_def ls_rename_def and_then_Ok_iff Let_def)
    have g: "grew s u" by (rule ensure_parent_grew [OF resolve_name(1) [OF names(2)] u(1)])
    then have "host_ok u" "local_view base u = local_view base s"
      using that(1) local_view_grew [OF g] by (simp_all add: grew_def)
    with rename_view [OF names that(4) [symmetric] _ _ u(2)] that(2) show ?thesis by simp
  qed
qed

end
