(* ===== verification/Local_Copy.thy ===== *)
theory Local_Copy
  imports Local_Storage
begin

text \<open>
  What copying does on a local source (\<open>adapters/local_storage.rs\<close>): a directory arrives with every file the walk
  reaches, a copy onto itself gets a free name, and a directory is not copied into itself.
\<close>

section \<open>The walk\<close>

text \<open>What \<open>walkdir\<close> documents of a walk whose errors are left out: it gives every entry that can be reached.\<close>

definition walks :: "(host_files \<Rightarrow> location \<Rightarrow> location list) \<Rightarrow> bool" where
  "walks walk \<longleftrightarrow>
     (\<forall>s l. set (walk s l) =
        {r. list_all plain r \<and> node_at s (l @ r) \<noteq> None \<and> (\<forall>k. prefix k r \<longrightarrow> \<not> hf_denied s (l @ k))})"

definition walk_nodes :: "host_files \<Rightarrow> location \<Rightarrow> location list" where
  "walk_nodes s l =
     filter (\<lambda>r. list_all plain r \<and> list_all (\<lambda>k. \<not> hf_denied s (l @ k)) (prefixes r))
       (map (drop (length l)) (filter (prefix l) (hm_keys (hf_nodes s))))"

lemma walks_walk_nodes: "walks walk_nodes"
proof -
  have "r \<in> drop (length l) ` (set (hm_keys (hf_nodes s)) \<inter> {k. prefix l k}) \<longleftrightarrow> node_at s (l @ r) \<noteq> None" for s l r
  proof
    assume "r \<in> drop (length l) ` (set (hm_keys (hf_nodes s)) \<inter> {k. prefix l k})"
    then obtain k where "k \<in> set (hm_keys (hf_nodes s))" "prefix l k" "r = drop (length l) k" by blast
    then show "node_at s (l @ r) \<noteq> None" unfolding hm_keys_iff node_at_def by (auto simp: prefix_def)
  next
    assume "node_at s (l @ r) \<noteq> None"
    then have "l @ r \<in> set (hm_keys (hf_nodes s))" unfolding hm_keys_iff node_at_def .
    then show "r \<in> drop (length l) ` (set (hm_keys (hf_nodes s)) \<inter> {k. prefix l k})"
      by (intro image_eqI [where x = "l @ r"]) auto
  qed
  then show ?thesis
    by (auto simp: walks_def walk_nodes_def list_all_iff Int_def conj_commute)
qed

section \<open>One entry\<close>

text \<open>What copying the entry \<open>r\<close> of the directory \<open>l\<close> to \<open>m\<close> does: directories on the way, and the entry itself.\<close>

lemma make_dirs_below:
  assumes "grew t u" and "\<And>k. node_at u k \<noteq> node_at t k \<Longrightarrow> prefix k (m @ r)"
    and "\<And>k. strict_prefix k m \<Longrightarrow> k \<noteq> [] \<Longrightarrow> node_at t k = Some DirNode" and "node_at t m \<noteq> None" and "node_at u [] = node_at t []"
  shows "node_at u k = node_at t k \<or>
    (\<exists>j. k = m @ j \<and> j \<noteq> [] \<and> prefix j r \<and> node_at t k = None \<and> node_at u k = Some DirNode)"
proof (cases "node_at u k = node_at t k")
  case False
  then have k: "prefix k (m @ r)" "node_at t k = None" "node_at u k = Some DirNode"
    using assms(1,2) unfolding grew_def by metis+
  have "k \<noteq> []" using False assms(5) by blast
  then have "\<not> strict_prefix k m" "k \<noteq> m" using k(2) assms(3) [of k] assms(4) by auto
  then obtain j where "k = m @ j" "j \<noteq> []" "prefix j r" using k(1) by (auto simp: prefix_append strict_prefix_def)
  with k show ?thesis by blast
qed simp

lemma create_dir_all_below:
  assumes "absolute p" and "host_create_dir_all p t = (x, u)" and "prefix (locate t p) (m @ r)" and "host_ok t"
    and "node_at t m \<noteq> None" and "m \<noteq> []"
  shows "grew t u" and "node_at u k = node_at t k \<or>
    (\<exists>j. k = m @ j \<and> j \<noteq> [] \<and> prefix j r \<and> node_at t k = None \<and> node_at u k = Some DirNode)"
proof -
  show g: "grew t u" by (rule create_dir_all_grew [OF assms(1,2)])
  have "node_at u [] = node_at t []"
    using g assms(4) host_ok_nonempty [of t "[]"] host_ok_nonempty [of u "[]"]
    by (cases "node_at t []"; cases "node_at u []") (auto simp: grew_def)
  moreover have "prefix k (m @ r)" if "node_at u k \<noteq> node_at t k" for k
    using host_create_dir_all_effect(2) [OF assms(2), of k] that assms(3) prefix_order.trans by blast
  moreover have "node_at t k = Some DirNode" if "strict_prefix k m" "k \<noteq> []" for k
    using host_ok_prefix [OF assms(4) _ that] assms(5) by auto
  ultimately show "node_at u k = node_at t k \<or>
    (\<exists>j. k = m @ j \<and> j \<noteq> [] \<and> prefix j r \<and> node_at t k = None \<and> node_at u k = Some DirNode)"
    using make_dirs_below [OF g, of m r] assms(5) by blast
qed

lemma copy_entry_Ok:
  assumes ok: "host_ok t" and "absolute from" and to: "absolute to" and l: "l = locate t from" and m: "m = locate t to"
    and r: "r \<noteq> []" "list_all plain r" and src: "node_at t (l @ r) = Some n" "\<not> hf_denied t (l @ r)"
    and "node_at t m \<noteq> None" and disj: "\<not> prefix m (l @ r)" "l @ r \<noteq> m @ r"
    and run: "copy_entry opts (path_join_all from r) (path_join_all to r) t = (Ok (), t')"
  shows "host_ok t'" and "host_const t' = host_const t"
    and "k \<noteq> m @ r \<Longrightarrow> node_at t' k = node_at t k \<or>
      (\<exists>j. k = m @ j \<and> j \<noteq> [] \<and> prefix j r \<and> node_at t k = None \<and> node_at t' k = Some DirNode)"
    and "n = DirNode \<Longrightarrow> node_at t' (m @ r) = (if node_at t (m @ r) = None then Some DirNode else node_at t (m @ r))"
    and "n = FileNode b \<Longrightarrow> node_at t' (m @ r) = Some (FileNode b) \<or>
      \<not> co_overwrite opts \<and> node_at t (m @ r) \<noteq> None \<and> node_at t' (m @ r) = node_at t (m @ r)"
proof -
  let ?f = "path_join_all from r" and ?g = "path_join_all to r"
  have loc: "locate t ?f = l @ r" "locate t ?g = m @ r" "absolute ?g" "m \<noteq> []"
    using locate_join_all assms(2-7) components_join_all locate_root [of to t] unfolding absolute_def by auto
  have isdir: "host_is_dir ?f t \<longleftrightarrow> n = DirNode" using src by (simp add: host_is_dir_def loc)
  have ex: "host_exists ?g t \<Longrightarrow> node_at t (m @ r) \<noteq> None" by (simp add: host_exists_def loc)
  let ?mid = "\<lambda>t' k. node_at t' k = node_at t k \<or>
      (\<exists>j. k = m @ j \<and> j \<noteq> [] \<and> prefix j r \<and> node_at t k = None \<and> node_at t' k = Some DirNode)"
  note below_m = create_dir_all_below [OF _ _ _ ok assms(10) loc(4)]
  have "host_ok t' \<and> host_const t' = host_const t \<and> (\<forall>k. k \<noteq> m @ r \<longrightarrow> ?mid t' k) \<and>
      (n = DirNode \<longrightarrow> node_at t' (m @ r) = (if node_at t (m @ r) = None then Some DirNode else node_at t (m @ r))) \<and>
      (\<forall>b. n = FileNode b \<longrightarrow> node_at t' (m @ r) = Some (FileNode b) \<or>
         \<not> co_overwrite opts \<and> node_at t (m @ r) \<noteq> None \<and> node_at t' (m @ r) = node_at t (m @ r))"
  proof (cases "n = DirNode")
    case True
    show ?thesis
    proof (cases "host_exists ?g t")
      case True
      then show ?thesis using run isdir \<open>n = DirNode\<close> ok ex by (simp add: copy_entry_def)
    next
      case False
      then have mk: "host_create_dir_all ?g t = (Ok (), t')" using run isdir \<open>n = DirNode\<close> by (simp add: copy_entry_def)
      have "node_at t' (m @ r) = Some DirNode" using host_create_dir_all_effect(3) [OF mk] loc r(1) by simp
      moreover have "node_at t (m @ r) = None \<or> node_at t (m @ r) = Some DirNode"
        using host_create_dir_all_effect(2) [OF mk, of "m @ r"] calculation by auto
      moreover have "grew t t'" "\<forall>k. ?mid t' k" using below_m [OF loc(3) mk] loc(2) by auto
      ultimately show ?thesis using True ok by (auto simp: grew_def)
    qed
  next
    case False
    then obtain u where u: "(case path_parent ?g of Some d \<Rightarrow> if host_exists d t then (Ok (), t) else host_create_dir_all d t
        | None \<Rightarrow> (Ok (), t)) = (Ok (), u)"
      "(if host_exists ?g u \<and> \<not> co_overwrite opts then (Ok (), u) else host_copy ?f ?g u) = (Ok (), t')"
      using run isdir by (auto simp: copy_entry_def and_then_Ok_iff)
    have mid: "grew t u \<and> (\<forall>k. ?mid u k \<and> (k = m @ r \<longrightarrow> node_at u k = node_at t k))"
    proof (cases "u = t")
      case False
      then obtain d where d: "path_parent ?g = Some d" "host_create_dir_all d t = (Ok (), u)"
        using u(1) by (auto split: option.splits if_splits)
      have "absolute d" by (rule path_parent_absolute [OF loc(3) d(1)])
      have "path_components ?g = path_components to @ r" using components_join_all [OF to r(2)] by blast
      then have "d = path_string (path_components to @ butlast r)"
        using d(1) r(1) by (auto simp: path_parent_def Let_def butlast_append split: if_splits)
      moreover have "path_string (path_components to @ butlast r) = path_join_all (path_string (path_components to)) (butlast r)"
        by (simp add: path_string_def path_join_all_def)
      moreover have "locate t (path_string (path_components to)) = m" "absolute (path_string (path_components to))"
        using locate_same [of "path_string (path_components to)" to t] components_again [OF to] absolute_components to m
        by (simp_all add: same_path_def)
      moreover have "list_all plain (butlast r)" using r(2) in_set_butlastD by (fastforce simp: list_all_iff)
      ultimately have "locate t d = m @ butlast r" using locate_join_all by simp
      moreover have "\<not> prefix r (butlast r)" using r(1) prefix_length_le [of r "butlast r"] by (cases r) auto
      ultimately have "prefix (locate t d) (m @ r)" "\<not> prefix (m @ r) (locate t d)" by (simp_all add: prefixeq_butlast)
      then show ?thesis
        using below_m [OF \<open>absolute d\<close> d(2)] host_create_dir_all_effect(2) [OF d(2), of "m @ r"] by auto
    qed simp
    note uc = grew_const [OF conjunct1 [OF mid]]
    show ?thesis
    proof (cases "host_exists ?g u \<and> \<not> co_overwrite opts")
      case True
      then have "t' = u" "node_at u (m @ r) \<noteq> None" using u(2) by (simp_all add: host_exists_def uc loc)
      then show ?thesis using True mid ok False by (auto simp: grew_def)
    next
      case no: False
      then have cp: "host_copy ?f ?g u = (Ok (), t')" using u(2) by (simp only: if_False)
      obtain b where b: "n = FileNode b" using False by (cases n) auto
      have "node_at u (l @ r) = Some (FileNode b)" using grew_some mid src(1) b by blast
      then have put: "host_put (m @ r) b u = (Ok (), t')"
        using cp disj(2) by (auto simp: host_copy_Ok uc loc)
      have "host_ok u" using mid ok by (simp add: grew_def)
      then have "host_ok t'" using host_ok_host_put [of u "m @ r" b] put by simp
      moreover have "host_const u = host_const t" using mid by (simp add: grew_def)
      ultimately show ?thesis using put mid b by auto
    qed
  qed
  then show "host_ok t'" "host_const t' = host_const t"
    "k \<noteq> m @ r \<Longrightarrow> node_at t' k = node_at t k \<or>
      (\<exists>j. k = m @ j \<and> j \<noteq> [] \<and> prefix j r \<and> node_at t k = None \<and> node_at t' k = Some DirNode)"
    "n = DirNode \<Longrightarrow> node_at t' (m @ r) = (if node_at t (m @ r) = None then Some DirNode else node_at t (m @ r))"
    "n = FileNode b \<Longrightarrow> node_at t' (m @ r) = Some (FileNode b) \<or>
      \<not> co_overwrite opts \<and> node_at t (m @ r) \<noteq> None \<and> node_at t' (m @ r) = node_at t (m @ r)" by blast+
qed

section \<open>A directory\<close>

lemma strict_prefix_append [simp]:
  "strict_prefix (l @ j) (l @ r) \<longleftrightarrow> strict_prefix j r" "strict_prefix l (l @ r) \<longleftrightarrow> r \<noteq> []" for l :: "'a list"
  by (auto simp: strict_prefix_def)

text \<open>What is below \<open>m\<close> is what is at the same place below \<open>l\<close>.\<close>

definition mirrors :: "location \<Rightarrow> location \<Rightarrow> host_files \<Rightarrow> bool" where
  "mirrors l m t \<longleftrightarrow> (\<forall>r n. r \<noteq> [] \<longrightarrow> node_at t (m @ r) = Some n \<longrightarrow> node_at t (l @ r) = Some n)"

definition copied :: "location \<Rightarrow> location \<Rightarrow> location list \<Rightarrow> host_files \<Rightarrow> host_files \<Rightarrow> bool" where
  "copied l m rs t t' \<longleftrightarrow>
     host_ok t' \<and> host_const t' = host_const t \<and> (\<forall>k. \<not> strict_prefix m k \<longrightarrow> node_at t' k = node_at t k) \<and>
     (\<forall>r b. r \<in> set rs \<longrightarrow> r \<noteq> [] \<longrightarrow> node_at t (l @ r) = Some (FileNode b) \<longrightarrow> node_at t' (m @ r) = Some (FileNode b)) \<and>
     (\<forall>r b. r \<notin> set rs \<or> node_at t (l @ r) = Some DirNode \<longrightarrow> node_at t (m @ r) = Some (FileNode b) \<longrightarrow>
       node_at t' (m @ r) = Some (FileNode b))"

lemma copied_keeps:
  "copied l m rs t t' \<Longrightarrow> r \<notin> set rs \<or> node_at t (l @ r) = Some DirNode \<Longrightarrow> node_at t (m @ r) = Some (FileNode b) \<Longrightarrow>
     node_at t' (m @ r) = Some (FileNode b)"
  unfolding copied_def by blast

lemma copied_src:
  assumes "copied l m rs t t'" and "\<not> prefix l m" and "\<not> prefix m l"
  shows "node_at t' (l @ r) = node_at t (l @ r)"
proof -
  have "\<not> strict_prefix m (l @ r)" using assms(2,3) by (auto simp: strict_prefix_def prefix_append) 
  then show ?thesis using assms(1) unfolding copied_def by blast
qed

lemma copied_one:
  assumes ok: "host_ok t" and "absolute from" and "absolute to" and "l = locate t from" and "m = locate t to"
    and r: "r \<noteq> []" "list_all plain r" and src: "node_at t (l @ r) \<noteq> None" "\<not> hf_denied t (l @ r)"
    and m: "node_at t m \<noteq> None" and disj: "\<not> prefix l m" "\<not> prefix m l"
    and mir: "co_overwrite opts \<or> mirrors l m t"
    and run: "copy_entry opts (path_join_all from r) (path_join_all to r) t = (Ok (), t')"
  shows "copied l m [r] t t' \<and> (mirrors l m t \<longrightarrow> mirrors l m t')"
proof -
  from src(1) obtain n where n: "node_at t (l @ r) = Some n" by blast
  have d: "\<not> prefix m (l @ r)" "l @ r \<noteq> m @ r" using disj by (auto simp: prefix_append)
  note one = copy_entry_Ok [OF ok assms(2-7) n src(2) m d run]
  have out: "node_at t' k = node_at t k" if k: "\<not> strict_prefix m k" for k
  proof -
    have "k \<noteq> m @ r" "\<And>j. j \<noteq> [] \<Longrightarrow> k \<noteq> m @ j" using k r(1) by (auto simp: strict_prefix_def)
    then show ?thesis using one(3) [of k] by blast
  qed
  have same_src: "node_at t' (l @ j) = node_at t (l @ j)" for j
    by (rule out) (use disj in \<open>auto simp: strict_prefix_def prefix_append\<close>)
  have "node_at t' (m @ r) = Some (FileNode b)" if b: "node_at t (l @ r) = Some (FileNode b)" for b
    using one(5) [of b] mir b n r(1) unfolding mirrors_def by (metis option.exhaust option.inject)
  moreover have "node_at t' (m @ j) = Some (FileNode b)"
    if j: "j \<noteq> r \<or> node_at t (l @ j) = Some DirNode" "node_at t (m @ j) = Some (FileNode b)" for j b
    using one(3) [of "m @ j"] one(4) n j by (cases "j = r") auto
  ultimately have "copied l m [r] t t'" using one(1,2) out unfolding copied_def by auto
  moreover have "mirrors l m t'" if mt: "mirrors l m t"
    unfolding mirrors_def same_src
  proof (intro allI impI)
    fix j x assume j: "j \<noteq> []" "node_at t' (m @ j) = Some x"
    show "node_at t (l @ j) = Some x"
    proof (cases "j = r")
      case True
      then show ?thesis using one(4,5) j n mt
        by (cases n) (auto simp: mirrors_def split: if_splits)
    next
      case False
      then consider "node_at t' (m @ j) = node_at t (m @ j)" | "strict_prefix j r" "node_at t' (m @ j) = Some DirNode"
        using one(3) [of "m @ j"] by (auto simp: strict_prefix_def)
      then show ?thesis
      proof cases
        case 1
        then have "node_at t (m @ j) = Some x" using j(2) by simp
        then show ?thesis using mt j(1) unfolding mirrors_def by blast
      next
        case 2
        then have "node_at t (l @ j) = Some DirNode" using host_ok_prefix [OF ok n, of "l @ j"] j(1) by simp
        then show ?thesis using 2 j by simp
      qed
    qed
  qed
  ultimately show ?thesis by blast
qed

lemma copied_trans:
  assumes a: "copied l m [r] t u" and b: "copied l m rs u v" and "\<not> prefix l m" and "\<not> prefix m l"
  shows "copied l m (r # rs) t v"
  unfolding copied_def
proof (intro conjI allI impI)
  show "host_ok v" "host_const v = host_const t" using a b by (simp_all add: copied_def)
  show "node_at v k = node_at t k" if "\<not> strict_prefix m k" for k using a b that by (simp add: copied_def)
  show "node_at v (m @ j) = Some (FileNode x)"
    if j: "j \<in> set (r # rs)" "j \<noteq> []" "node_at t (l @ j) = Some (FileNode x)" for j x
  proof (cases "j \<in> set rs")
    case True
    then show ?thesis using b j copied_src [OF a assms(3,4)] by (simp add: copied_def)
  next
    case False
    then show ?thesis using a b j by (simp add: copied_def)
  qed
  show "node_at v (m @ j) = Some (FileNode x)"
    if "j \<notin> set (r # rs) \<or> node_at t (l @ j) = Some DirNode" "node_at t (m @ j) = Some (FileNode x)" for j x
    using copied_keeps [OF b, of j x] copied_keeps [OF a, of j x] copied_src [OF a assms(3,4), of j] that by simp blast
qed

lemma copied_walked:
  assumes "copy_walked opts from to rs t = (Ok (), t')" and "host_ok t" and "absolute from" and "absolute to"
    and "l = locate t from" and "m = locate t to" and "node_at t m \<noteq> None" and "\<not> prefix l m" and "\<not> prefix m l"
    and "co_overwrite opts \<or> mirrors l m t"
    and "\<forall>r\<in>set rs. list_all plain r \<and> node_at t (l @ r) \<noteq> None \<and> \<not> hf_denied t (l @ r)"
  shows "copied l m rs t t'"
  using assms
proof (induction rs arbitrary: t)
  case Nil
  then show ?case by (simp add: copied_def)
next
  case (Cons r rs)
  show ?case
  proof (cases "r = []")
    case True
    then have "copied l m rs t t'" using Cons by simp
    then show ?thesis using True by (auto simp: copied_def)
  next
    case False
    then obtain u where u: "copy_entry opts (path_join_all from r) (path_join_all to r) t = (Ok (), u)"
      "copy_walked opts from to rs u = (Ok (), t')"
      using Cons.prems(1) by (auto simp: and_then_Ok_iff)
    have one: "copied l m [r] t u" "mirrors l m t \<longrightarrow> mirrors l m u"
      using copied_one [OF Cons.prems(2-6) False _ _ _ Cons.prems(7-10) u(1)] Cons.prems(11) by auto
    then have c: "host_ok u" "host_const u = host_const t" "node_at u m = node_at t m" by (simp_all add: copied_def)
    have "copied l m rs u t'"
      by (rule Cons.IH [OF u(2) c(1) Cons.prems(3,4)])
        (use Cons.prems one(2) c host_constD [OF c(2)] copied_src [OF one(1) Cons.prems(8,9)] in auto)
    then show ?thesis using copied_trans one(1) Cons.prems(8,9) by blast
  qed
qed

text \<open>
  (C15) Copying a directory of a local source to a place that is neither in it nor around it: when it succeeds, every file of
  the source directory that can be reached is at the same place in the copy, with the same bytes; nothing outside the
  copy changes but for directories that are made on the way; and a file of the destination with no counterpart
  in the source directory stays as it was.
\<close>

theorem copy_directory:
  assumes "walks walk" and "host_ok s" and "local_name base from" and "local_name base to"
    and "l = locate s (resolve_path base from)" and "m = locate s (resolve_path base to)"
    and "host_is_dir (resolve_path base from) s" and "\<not> hf_denied s m" and "\<not> prefix l m" and "\<not> prefix m l"
    and "ls_copy walk base from to opts s = (Ok (), t)"
  shows "host_ok t \<and>
    (\<forall>r b. node_at s (l @ r) = Some (FileNode b) \<longrightarrow> list_all plain r \<longrightarrow> (\<forall>k. prefix k r \<longrightarrow> \<not> hf_denied s (l @ k)) \<longrightarrow>
       node_at t (m @ r) = Some (FileNode b)) \<and>
    (\<forall>k. \<not> prefix m k \<longrightarrow> node_at t k = node_at s k \<or> node_at s k = None \<and> node_at t k = Some DirNode) \<and>
    (\<forall>r b. node_at s (m @ r) = Some (FileNode b) \<longrightarrow> (\<nexists>b. node_at s (l @ r) = Some (FileNode b)) \<longrightarrow>
       node_at t (m @ r) = Some (FileNode b))"
proof -
  let ?f = "resolve_path base from" and ?g = "resolve_path base to"
  note af = resolve_name(1) [OF assms(3)] and ag = resolve_name(1) [OF assms(4)]
  have dir: "node_at s l = Some DirNode" using assms(5,7) by (simp add: host_is_dir_def)
  have "l \<noteq> m" using assms(9) by auto
  then have "\<not> same_path ?f ?g" using locate_same assms(5,6) by metis
  with assms(7,11) obtain u where u: "ensure_parent ?g s = (Ok (), u)"
    "(if host_is_dir ?f u then failing (''Failed to copy directory '' @ ?f) (copy_dir_recursive walk opts ?f ?g) u
      else if host_exists ?g u \<and> \<not> co_overwrite opts then (Err (''Destination file already exists: '' @ ?g), u)
      else failing (''Failed to copy '' @ ?f) (host_copy ?f ?g) u) = (Ok (), t)"
    by (auto simp: ls_copy_def and_then_Ok_iff Let_def split: if_splits)
  have g: "grew s u" by (rule ensure_parent_grew [OF ag u(1)])
  note gc = grew_const [OF g]
  have "host_is_dir ?f u" using grew_some [OF g dir] assms(5,7) gc by (simp add: host_is_dir_def)
  with u(2) obtain v where v:
    "(if host_exists ?g u then if co_overwrite opts then (Ok (), u) else (Err (''Destination directory already exists: '' @ ?g), u)
      else host_create_dir_all ?g u) = (Ok (), v)"
    "copy_walked opts ?f ?g (walk v (locate v ?f)) v = (Ok (), t)"
    by (auto simp: copy_dir_recursive_def and_then_Ok_iff)
  have uok: "host_ok u" using g assms(2) by (simp add: grew_def)
  have gv: "grew u v" using v(1) create_dir_all_grew [OF ag] by (auto split: if_splits)
  have vok: "host_ok v" using gv uok by (simp add: grew_def)
  have vc: "locate v = locate s" "hf_denied v = hf_denied s" using grew_const [OF gv] gc by simp_all
  have made: "node_at v m \<noteq> None \<and> (co_overwrite opts \<or> mirrors l m v)"
  proof (cases "host_exists ?g u")
    case True
    then show ?thesis using v(1) gc assms(6) by (simp add: host_exists_def split: if_splits)
  next
    case False
    then have mk: "host_create_dir_all ?g u = (Ok (), v)" using v(1) by simp
    have none: "node_at u m = None" using False assms(6,8) gc by (simp add: host_exists_def)
    have "m \<noteq> []" using assms(10) by auto
    have "node_at u (m @ r) = None" if "r \<noteq> []" for r
      using host_ok_prefix [OF uok, of "m @ r" _ m] none that \<open>m \<noteq> []\<close> by (cases "node_at u (m @ r)") simp_all
    moreover have "node_at v (m @ r) = node_at u (m @ r)" if "r \<noteq> []" for r
      using host_create_dir_all_effect(2) [OF mk, of "m @ r"] that gc assms(6) by auto
    ultimately have "mirrors l m v" by (simp add: mirrors_def)
    moreover have "node_at v m = Some DirNode"
      using host_create_dir_all_effect(3) [OF mk] \<open>m \<noteq> []\<close> gc assms(6) by simp
    ultimately show ?thesis by simp
  qed
  have lv: "l = locate v ?f" "m = locate v ?g" using assms(5,6) vc by simp_all
  have walk: "set (walk v l) =
      {r. list_all plain r \<and> node_at v (l @ r) \<noteq> None \<and> (\<forall>k. prefix k r \<longrightarrow> \<not> hf_denied s (l @ k))}"
    using assms(1) vc by (simp add: walks_def)
  have cp: "copied l m (walk v l) v t"
    by (rule copied_walked [OF v(2) [folded lv(1)] vok af ag lv])
      (use made assms(9,10) walk vc in auto)
  have sv: "node_at v k = node_at s k \<or> node_at s k = None \<and> node_at v k = Some DirNode" for k
    using g gv unfolding grew_def by metis
  have kept: "node_at v k = Some (FileNode b)" if "node_at s k = Some (FileNode b)" for k b
    using sv [of k] that by auto
  have t: "host_ok t" "\<And>k. \<not> strict_prefix m k \<Longrightarrow> node_at t k = node_at v k"
    "\<And>r b. r \<in> set (walk v l) \<Longrightarrow> r \<noteq> [] \<Longrightarrow> node_at v (l @ r) = Some (FileNode b) \<Longrightarrow> node_at t (m @ r) = Some (FileNode b)"
    "\<And>r b. r \<notin> set (walk v l) \<or> node_at v (l @ r) = Some DirNode \<Longrightarrow> node_at v (m @ r) = Some (FileNode b) \<Longrightarrow>
       node_at t (m @ r) = Some (FileNode b)"
    using cp unfolding copied_def by blast+
  show ?thesis
  proof (intro conjI allI impI)
    show "host_ok t" by (rule t(1))
    show "node_at t (m @ r) = Some (FileNode b)"
      if "node_at s (l @ r) = Some (FileNode b)" "list_all plain r" "\<forall>k. prefix k r \<longrightarrow> \<not> hf_denied s (l @ k)" for r b
      using that t(3) [of r b] kept dir walk by (cases "r = []") auto
    show "node_at t k = node_at s k \<or> node_at s k = None \<and> node_at t k = Some DirNode" if "\<not> prefix m k" for k
      using t(2) [of k] sv [of k] that by auto
    show "node_at t (m @ r) = Some (FileNode b)"
      if "node_at s (m @ r) = Some (FileNode b)" "\<nexists>b. node_at s (l @ r) = Some (FileNode b)" for r b
    proof -
      have "r \<notin> set (walk v l) \<or> node_at v (l @ r) = Some DirNode"
        using that(2) sv [of "l @ r"] walk by (cases "node_at v (l @ r)" rule: option.exhaust; auto) (metis host_node.exhaust)
      then show ?thesis by (rule t(4)) (rule kept [OF that(1)])
    qed
  qed
qed

definition demo_host :: host_files where
  "demo_host =
     \<lparr>hf_nodes = [([''/''], DirNode), ([''/'', ''b''], DirNode), ([''/'', ''b'', ''src''], DirNode),
        ([''/'', ''b'', ''src'', ''d''], DirNode), ([''/'', ''b'', ''src'', ''d'', ''f''], FileNode [7]),
        ([''/'', ''b'', ''out''], DirNode), ([''/'', ''b'', ''out'', ''keep''], FileNode [1])],
      hf_cwd = [''/''], hf_denied = (\<lambda>_. False), hf_writes = (\<lambda>_. Written), hf_read_max = 100, hf_dir_len = 0\<rparr>"

definition demo_options :: copy_options where
  "demo_options = \<lparr>co_overwrite = True, co_preserve_attributes = False, co_recursive = True, co_follow_symlinks = False\<rparr>"

lemma host_ok_check:
  "hm_wf (hf_nodes s) \<Longrightarrow> node_at s [''/''] = Some DirNode \<Longrightarrow>
   list_all (\<lambda>l. l \<noteq> [] \<and> (l = [''/''] \<or> node_at s (butlast l) = Some DirNode)) (hm_keys (hf_nodes s)) \<Longrightarrow> host_ok s"
  using hm_keys_iff [of _ "hf_nodes s"] unfolding host_ok_def list_all_iff node_at_def by (metis option.distinct(1))

lemma demo_host_ok: "host_ok demo_host"
  by (rule host_ok_check) code_simp+

theorem copy_directory_witness:
  "\<exists>t. ls_copy walk_nodes ''/b'' ''/src'' ''/out'' demo_options demo_host = (Ok (), t) \<and>
     node_at t [''/'', ''b'', ''out'', ''d'', ''f''] = Some (FileNode [7]) \<and>
     node_at t [''/'', ''b'', ''out'', ''keep''] = Some (FileNode [1])"
proof -
  let ?c = "ls_copy walk_nodes ''/b'' ''/src'' ''/out'' demo_options demo_host"
  have "fst ?c = Ok ()" by code_simp
  then have run: "?c = (Ok (), snd ?c)" by (metis prod.collapse)
  have "local_name ''/b'' ''/src'' \<and> local_name ''/b'' ''/out''" by code_simp
  moreover have "locate demo_host (resolve_path ''/b'' ''/src'') = [''/'', ''b'', ''src'']"
    "locate demo_host (resolve_path ''/b'' ''/out'') = [''/'', ''b'', ''out'']" by code_simp+
  moreover have "host_is_dir (resolve_path ''/b'' ''/src'') demo_host" by code_simp
  moreover have "hf_denied demo_host = (\<lambda>_. False)" by (simp add: demo_host_def)
  moreover have "node_at demo_host [''/'', ''b'', ''src'', ''d'', ''f''] = Some (FileNode [7])"
    "node_at demo_host [''/'', ''b'', ''out'', ''keep''] = Some (FileNode [1])" by code_simp+
  moreover have "node_at demo_host [''/'', ''b'', ''src'', ''keep''] = None" "list_all plain [''d'', ''f'']" by code_simp+
  ultimately have
    "node_at (snd ?c) ([''/'', ''b'', ''out''] @ [''d'', ''f'']) = Some (FileNode [7])"
    "node_at (snd ?c) ([''/'', ''b'', ''out''] @ [''keep'']) = Some (FileNode [1])"
    using copy_directory [OF walks_walk_nodes demo_host_ok _ _ refl refl _ _ _ _ run] by auto
  then show ?thesis using run by auto
qed

section \<open>A copy onto itself\<close>

text \<open>
  A file copied onto itself on a local source is neither emptied nor replaced: the copy is a new file next to it,
  with the first name of ``name copy'', ``name copy 2'', and so on that is free, and with the same bytes; nothing else
  changes but for directories that are made on the way.
\<close>

theorem copy_onto_itself:
  assumes "local_name base p" and "host_ok s" and "local_view base s p = Some b" and "ls_copy walk base p p opts s = (Ok (), t)"
    and "d = path_string (butlast (path_components (resolve_path base p)))"
  shows "\<exists>k \<in> {1..101}. let l = locate s (path_join d (copy_name (name_or ''unnamed'' (resolve_path base p)) k)) in
    (\<forall>j. 1 \<le> j \<longrightarrow> j < k \<longrightarrow> host_exists (path_join d (copy_name (name_or ''unnamed'' (resolve_path base p)) j)) s) \<and>
    node_at s l = None \<and> node_at t l = Some (FileNode b) \<and> local_view base t p = Some b \<and>
    (\<forall>j. j \<noteq> l \<longrightarrow> node_at t j = node_at s j \<or> node_at s j = None \<and> node_at t j = Some DirNode)"
proof -
  let ?p = "resolve_path base p" and ?name = "copy_name (name_or ''unnamed'' (resolve_path base p))"
  have view: "\<not> hf_denied s (locate s ?p)" "node_at s (locate s ?p) = Some (FileNode b)"
    using assms(3) by (simp_all add: local_view_Some)
  have ndir: "\<not> host_is_dir ?p s" using view by (simp add: host_is_dir_def)
  from assms(4) obtain q where q: "unique_destination ?p s = Ok q" by (auto simp: ls_copy_def and_then_Ok_iff same_path_def Let_def)
  then obtain k where k: "path_parent ?p = Some d" "q = path_join d (?name k)"
    "find (\<lambda>k. \<not> host_exists (path_join d (?name k)) s) [1..<102] = Some k"
    using assms(5) by (auto simp: unique_destination_def path_parent_def Let_def split: option.splits if_splits)
  from q assms(4) ndir obtain u where u: "ensure_parent q s = (Ok (), u)"
    "(if host_is_dir ?p u then failing (''Failed to copy directory '' @ ?p) (copy_dir_recursive walk opts ?p q) u
      else if host_exists q u \<and> \<not> co_overwrite opts then (Err (''Destination file already exists: '' @ q), u)
      else failing (''Failed to copy '' @ ?p) (host_copy ?p q) u) = (Ok (), t)"
    by (auto simp: ls_copy_def and_then_Ok_iff same_path_def Let_def)
  have "absolute q"
    using absolute_join [OF path_parent_absolute [OF resolve_name(1) [OF assms(1)] k(1)]] k(2) by simp
  then have g: "grew s u" using ensure_parent_grew u(1) by blast
  note c = grew_const [OF g]
  have pu: "node_at u (locate s ?p) = Some (FileNode b)" by (rule grew_some [OF g view(2)])
  then have "host_copy ?p q u = (Ok (), t)" using u(2) c by (auto simp: host_is_dir_def split: if_splits)
  then have put: "host_put (locate s q) (if locate s ?p = locate s q then [] else b) u = (Ok (), t)"
    using pu c by (auto simp: host_copy_Ok)
  then have free: "\<not> hf_denied s (locate s q)" using c by auto
  have small: "1 \<le> k" "k < 102" "\<not> host_exists q s" "\<forall>j. 1 \<le> j \<longrightarrow> j < k \<longrightarrow> host_exists (path_join d (?name j)) s"
    using k(2) find_Some_iff [THEN iffD1, OF k(3)] by (auto simp: Suc_le_eq dest!: gr0_implies_Suc)
  then have none: "node_at s (locate s q) = None" using free by (simp add: host_exists_def)
  then have ne: "locate s ?p \<noteq> locate s q" using view(2) by auto
  then have t: "t = put_node (locate s q) (FileNode b) u" using put by auto
  have "node_at t j = node_at s j \<or> node_at s j = None \<and> node_at t j = Some DirNode" if "j \<noteq> locate s q" for j
    using g that unfolding grew_def by (auto simp: t)
  moreover have "local_view base t p = Some b" using assms(1) view pu ne c by (simp add: local_view_Some t)
  ultimately show ?thesis using small none k(2) by (intro bexI [of _ k]) (auto simp: t Let_def)
qed

theorem copy_onto_itself_witness:
  "\<exists>t l. ls_copy walk_nodes ''/b'' ''/out/keep'' ''/out/keep'' demo_options demo_host = (Ok (), t) \<and>
     node_at demo_host l = None \<and> node_at t l = Some (FileNode [1]) \<and> local_view ''/b'' t ''/out/keep'' = Some [1]"
proof -
  let ?c = "ls_copy walk_nodes ''/b'' ''/out/keep'' ''/out/keep'' demo_options demo_host"
  have "fst ?c = Ok ()" by code_simp
  then have run: "?c = (Ok (), snd ?c)" by (metis prod.collapse)
  have "local_name ''/b'' ''/out/keep''" "local_view ''/b'' demo_host ''/out/keep'' = Some [1]" by code_simp+
  from copy_onto_itself [OF this(1) demo_host_ok this(2) run refl] run show ?thesis unfolding Let_def by blast
qed

end
