(* ===== verification/S3_Storage.thy ===== *)
theory S3_Storage
  imports File_Ports Host_Paths "HOL-Library.Product_Lexorder"
begin

text \<open>
  The adapter for a bucket as a source of the desktop application
  (\<open>apps/vfs-desktop/src-tauri/src/vfs/adapters/s3_storage.rs\<close>).

  The operator of the crate \<open>opendal\<close> is the argument \<open>op\<close>, over a world \<open>'w\<close>: an error is its text, and \<open>so_debug\<close>
  gives its debug text. What its documentation promises is the predicate \<open>object_store\<close>. Times, content types and log
  lines are left out; fresh identifiers of files are the argument \<open>ids\<close>. Objects that are deleted concurrently are
  deleted one after the other. The recursion of a copy follows the listings of the bucket and carries fuel.
\<close>

section \<open>State\<close>

record s3_entry =
  se_name :: string
  se_is_dir :: bool
  se_len :: u64

record 'w s3_operator =
  so_list :: "string \<Rightarrow> ('w, s3_entry list) io_act"
  so_stat :: "string \<Rightarrow> ('w, bool \<times> u64) io_act"
  so_read :: "string \<Rightarrow> ('w, bytes) io_act"
  so_read_range :: "string \<Rightarrow> u64 \<Rightarrow> u64 \<Rightarrow> ('w, bytes) io_act"
  so_write :: "string \<Rightarrow> bytes \<Rightarrow> ('w, unit) io_act"
  so_delete :: "string \<Rightarrow> ('w, unit) io_act"
  so_exists :: "string \<Rightarrow> ('w, bool) io_act"
  so_presign :: "string \<Rightarrow> nat \<Rightarrow> ('w, string) io_act"
  so_debug :: "string \<Rightarrow> string"

record 'w s3_storage =
  sg_operator :: "'w s3_operator"
  sg_bucket :: string
  sg_name :: string
  sg_region :: string
  sg_endpoint :: "string option"

section \<open>Opening a bucket\<close>

definition white :: "char \<Rightarrow> bool" where
  "white c \<longleftrightarrow> c = CHR '' '' \<or> (9 \<le> (of_char c :: nat) \<and> (of_char c :: nat) \<le> 13)"

definition trim_white :: "string \<Rightarrow> string" where
  "trim_white s = rev (dropWhile white (rev (dropWhile white s)))"

text \<open>A credential is given, or read from one of two variables of the environment.\<close>

definition s3_credential :: "(string \<Rightarrow> string option) \<Rightarrow> string option \<Rightarrow> string \<Rightarrow> string \<Rightarrow> string option" where
  "s3_credential env given upper lower =
     (case given of Some v \<Rightarrow> Some v | None \<Rightarrow> (case env upper of Some v \<Rightarrow> Some v | None \<Rightarrow> env lower))"

definition s3_with_credentials :: "(string \<Rightarrow> string option) \<Rightarrow> s3_params \<Rightarrow> s3_params" where
  "s3_with_credentials env p =
     p\<lparr>s3_access_key := s3_credential env (s3_access_key p) ''AWS_ACCESS_KEY_ID'' ''aws_access_key_id'',
       s3_secret_key := s3_credential env (s3_secret_key p) ''AWS_SECRET_ACCESS_KEY'' ''aws_secret_access_key'',
       s3_session_token := s3_credential env (s3_session_token p) ''AWS_SESSION_TOKEN'' ''aws_session_token''\<rparr>"

definition s3_new ::
    "(string \<Rightarrow> string option) \<Rightarrow> (s3_params \<Rightarrow> (string, 'w s3_operator) outcome) \<Rightarrow> s3_params \<Rightarrow>
     (string, 'w s3_storage) outcome" where
  "s3_new env build p =
     (let bucket = trim_white (s3_bucket p); region = to_lowercase (s3_region p) in
      if bucket = [] then Err ''Bucket name cannot be empty''
      else if CHR '' '' \<in> set bucket then Err (''Bucket name '' @ bucket @ '' contains spaces'')
      else if length bucket < 3 \<or> 63 < length bucket then
        Err (''Bucket name '' @ bucket @ '' must be between 3 and 63 characters (got '' @ dec (length bucket) @ '')'')
      else
        (case build ((s3_with_credentials env p)\<lparr>s3_bucket := bucket, s3_region := region\<rparr>) of
           Ok op \<Rightarrow>
             Ok \<lparr>sg_operator = op, sg_bucket = bucket, sg_name = s3_name p, sg_region = region, sg_endpoint = s3_endpoint p\<rparr>
         | Err e \<Rightarrow> Err (''Failed to create S3 operator for bucket '' @ bucket @ '' in region '' @ s3_region p @ '': '' @ e)
         | Panic \<Rightarrow> Panic))"

text \<open>New credentials make a new operator, for the same bucket and region.\<close>

definition s3_refresh_credentials ::
    "(string \<Rightarrow> string option) \<Rightarrow> (s3_params \<Rightarrow> (string, 'w s3_operator) outcome) \<Rightarrow> string option \<Rightarrow> string option \<Rightarrow>
     string option \<Rightarrow> ('w s3_storage, string, unit) act" where
  "s3_refresh_credentials env build ak sk tok c =
     (case build (s3_with_credentials env
         \<lparr>s3_bucket = sg_bucket c, s3_region = sg_region c, s3_access_key = ak, s3_secret_key = sk, s3_session_token = tok,
          s3_endpoint = None, s3_name = []\<rparr>) of
        Ok op \<Rightarrow> (Ok (), c\<lparr>sg_operator := op\<rparr>)
      | Err e \<Rightarrow> (Err (''Failed to refresh S3 operator: '' @ e), c)
      | Panic \<Rightarrow> (Panic, c))"

section \<open>Keys\<close>

text \<open>Stripping the root of a path takes the empty and \<open>.\<close> components at its two ends away, too; inner ones stay.\<close>

definition joined :: "string list \<Rightarrow> string" where
  "joined ws = tl (concat (map ((#) slash) ws))"

definition to_key :: "string \<Rightarrow> string" where
  "to_key p =
     (if absolute p
      then let skip = dropWhile (\<lambda>w. w = [] \<or> w = ''.'') in joined (rev (skip (rev (skip (split_on (\<lambda>c. c = slash) p)))))
      else p)"

definition list_prefix :: "string \<Rightarrow> string" where
  "list_prefix key = (if key = [] then [] else key @ [slash])"

definition s3_generate_presigned_url :: "'w s3_storage \<Rightarrow> string \<Rightarrow> nat \<Rightarrow> ('w, string) io_act" where
  "s3_generate_presigned_url c key secs w =
     (let k = trim_start_matches slash key in
      case so_presign (sg_operator c) k secs w of
        (Err e, w) \<Rightarrow>
          (Ok (case sg_endpoint c of
                 Some ep \<Rightarrow> ep @ slash # k
               | None \<Rightarrow> ''https://'' @ sg_bucket c @ ''.s3.'' @ sg_region c @ ''.amazonaws.com/'' @ k), w)
      | r \<Rightarrow> r)"

definition detect_tier :: "string option \<Rightarrow> storage_tier" where
  "detect_tier cls =
     (case cls of
        None \<Rightarrow> Nearline
      | Some s \<Rightarrow>
          if s = ''STANDARD'' then Nearline
          else if s = ''STANDARD_IA'' \<or> s = ''ONEZONE_IA'' then Nearline
          else if s = ''INTELLIGENT_TIERING'' then Nearline
          else if s = ''GLACIER_IR'' then Cold
          else if s = ''GLACIER'' \<or> s = ''DEEP_ARCHIVE'' then Cold
          else Nearline)"

section \<open>The storage port\<close>

definition s3_test_connection :: "'w s3_storage \<Rightarrow> ('w, bool) io_act" where
  "s3_test_connection c =
     and_then
       (map_err (\<lambda>e. ''Failed to connect to S3 bucket '' @ sg_bucket c @ '' in region '' @ sg_region c @ '': '' @ e)
          (so_list (sg_operator c) []))
       (\<lambda>_ w. (Ok True, w))"

text \<open>The advice in the error of a listing, by what the error says.\<close>

datatype s3_advice = TokenExpired | CredentialsInvalid (names_token: bool) | PermissionMissing | BucketWrong | RegionWrong

definition s3_list_advice :: "string \<Rightarrow> string \<Rightarrow> s3_advice list" where
  "s3_list_advice msg debug =
     (let expired = str_contains ''ExpiredToken'' msg \<or> str_contains ''ExpiredToken'' debug;
          invalid = str_contains ''InvalidToken'' msg \<or> str_contains ''InvalidAccessKeyId'' msg \<or>
            str_contains ''SignatureDoesNotMatch'' msg
      in (if expired then [TokenExpired] else if invalid then [CredentialsInvalid (str_contains ''InvalidToken'' msg)] else []) @
         (if str_contains ''AccessDenied'' msg \<or> str_contains ''Forbidden'' msg then [PermissionMissing] else []) @
         (if str_contains ''NoSuchBucket'' msg \<or> str_contains ''NotFound'' msg then [BucketWrong] else []) @
         (if str_contains ''IllegalLocationConstraintException'' msg \<or> str_contains ''InvalidLocationConstraint'' msg
          then [RegionWrong] else []))"

text \<open>Each piece of advice begins with a heading; what follows is fixed text.\<close>

definition s3_heading :: "s3_advice \<Rightarrow> string" where
  "s3_heading a =
     (case a of
        TokenExpired \<Rightarrow> ''Credential Error Detected: EXPIRED TOKEN''
      | CredentialsInvalid t \<Rightarrow>
          ''Credential Error Detected: verify keys'' @ (if t then '', verify AWS_SESSION_TOKEN'' else [])
      | PermissionMissing \<Rightarrow> ''Permission Error Detected''
      | BucketWrong \<Rightarrow> ''Bucket Error Detected''
      | RegionWrong \<Rightarrow> ''Region Error Detected'')"

definition s3_list_error :: "'w s3_storage \<Rightarrow> string \<Rightarrow> string \<Rightarrow> string" where
  "s3_list_error c pre e =
     ''Failed to list S3 objects in bucket '' @ sg_bucket c @ '' (region: '' @ sg_region c @ '') with prefix '' @ pre @
     concat (map (\<lambda>a. CHR 0x0A # s3_heading a) (s3_list_advice e (so_debug (sg_operator c) e))) @
     ''Error details: '' @ so_debug (sg_operator c) e"

text \<open>The name of an entry below the prefix, up to the next slash.\<close>

definition trim_end_slash :: "string \<Rightarrow> string" where
  "trim_end_slash s = rev (dropWhile (\<lambda>c. c = slash) (rev s))"

definition s3_child :: "string \<Rightarrow> string \<Rightarrow> string option" where
  "s3_child pre n =
     (if pre = [] then Some (trim_end_slash (hd (split_on (\<lambda>c. c = slash) n)))
      else (case strip_prefix pre n of
              None \<Rightarrow> None | Some r \<Rightarrow> Some (trim_end_slash (hd (split_on (\<lambda>c. c = slash) r)))))"

definition s3_temporary :: "string \<Rightarrow> string \<Rightarrow> bool" where
  "s3_temporary child n \<longleftrightarrow>
     suffix ''.part'' child \<or> str_contains ''.part.'' child \<or> str_contains ''.chunk.'' child \<or> str_contains ''.tmp.'' child \<or>
     suffix ''.tmp'' child \<or> str_contains ''.part'' n \<or> str_contains ''.chunk.'' n \<or> str_contains ''.tmp.'' n"

definition s3_virtual_file :: "(string \<Rightarrow> string) \<Rightarrow> string \<Rightarrow> string \<Rightarrow> u64 \<Rightarrow> bool \<Rightarrow> virtual_file" where
  "s3_virtual_file ids n p sz dir =
     (let tier = detect_tier None;
          f = (virtual_file_new (ids n) n p sz dir)
            \<lparr>vf_tier_status := \<lparr>ts_current_tier = tier, ts_is_cached = False, ts_can_warm = True,
               ts_retrieval_time_estimate = (if tier = Nearline then Some 0 else Some 5)\<rparr>\<rparr>
      in f\<lparr>vf_transcodable := can_transcode f\<rparr>)"

text \<open>The name under which an entry is kept, if it is.\<close>

definition s3_kept :: "string \<Rightarrow> string list \<Rightarrow> string \<Rightarrow> string option" where
  "s3_kept pre seen n =
     (if n = [] \<or> n = ''/'' then None
      else if n = pre then None
      else
        (case s3_child pre n of
           None \<Rightarrow> None
         | Some child \<Rightarrow>
             if child = [] then None
             else if s3_temporary child n then None
             else if child \<in> set seen then None
             else Some child))"

fun s3_children :: "(string \<Rightarrow> string) \<Rightarrow> string \<Rightarrow> string \<Rightarrow> string list \<Rightarrow> s3_entry list \<Rightarrow> virtual_file list" where
  "s3_children ids p pre seen [] = []"
| "s3_children ids p pre seen (e # es) =
     (case s3_kept pre seen (se_name e) of
        None \<Rightarrow> s3_children ids p pre seen es
      | Some child \<Rightarrow>
          s3_virtual_file ids child (if p = [] \<or> same_path p ''/'' then path_join ''/'' child else path_join p child)
            (se_len e) (se_is_dir e) # s3_children ids p pre (child # seen) es)"

definition s3_order :: "virtual_file \<Rightarrow> bool \<times> string" where
  "s3_order f = (\<not> vf_is_directory f, to_lowercase (vf_name f))"

definition s3_list_files :: "(string \<Rightarrow> string) \<Rightarrow> 'w s3_storage \<Rightarrow> string \<Rightarrow> ('w, virtual_file list) io_act" where
  "s3_list_files ids c p =
     (let pre = list_prefix (to_key p) in
      and_then (map_err (s3_list_error c pre) (so_list (sg_operator c) pre))
        (\<lambda>es w. (Ok (sort_key s3_order (s3_children ids p pre [] es)), w)))"

text \<open>A page begins after the file that the token names; a token that is not found begins at the start. The sum wraps.\<close>

definition s3_page :: "usize option \<Rightarrow> string option \<Rightarrow> virtual_file list \<Rightarrow> virtual_file list \<times> string option" where
  "s3_page limit token files =
     (let all = sort_key s3_order files;
          n = (case limit of Some l \<Rightarrow> l | None \<Rightarrow> 50);
          start = (case token of
              Some t \<Rightarrow> (let i = length (takeWhile (\<lambda>f. vf_path f \<noteq> t) all) in if i < length all then Suc i else 0)
            | None \<Rightarrow> 0);
          page = take (unat n) (drop start all)
      in (page, if of_nat start + n < of_nat (length all) \<and> page \<noteq> [] then Some (vf_path (last page)) else None))"

definition s3_list_files_paginated ::
    "(string \<Rightarrow> string) \<Rightarrow> 'w s3_storage \<Rightarrow> string \<Rightarrow> usize option \<Rightarrow> string option \<Rightarrow>
     ('w, virtual_file list \<times> string option) io_act" where
  "s3_list_files_paginated ids c p limit token =
     and_then (s3_list_files ids c p) (\<lambda>files w. (Ok (s3_page limit token files), w))"

definition s3_read_file :: "'w s3_storage \<Rightarrow> string \<Rightarrow> ('w, bytes) io_act" where
  "s3_read_file c p = so_read (sg_operator c) (to_key p)"

text \<open>The end of the range wraps.\<close>

definition s3_read_file_range :: "'w s3_storage \<Rightarrow> string \<Rightarrow> u64 \<Rightarrow> u64 \<Rightarrow> ('w, bytes) io_act" where
  "s3_read_file_range c p off len = so_read_range (sg_operator c) (to_key p) off (off + len)"

definition s3_write_file :: "'w s3_storage \<Rightarrow> string \<Rightarrow> bytes \<Rightarrow> ('w, unit) io_act" where
  "s3_write_file c p d = so_write (sg_operator c) (to_key p) d"

definition s3_get_metadata :: "(string \<Rightarrow> string) \<Rightarrow> 'w s3_storage \<Rightarrow> string \<Rightarrow> ('w, virtual_file) io_act" where
  "s3_get_metadata ids c p =
     (let key = to_key p in
      and_then (so_stat (sg_operator c) key) (\<lambda>(dir, len) w. (Ok (s3_virtual_file ids (name_or key p) p len dir), w)))"

definition s3_exists :: "'w s3_storage \<Rightarrow> string \<Rightarrow> ('w, bool) io_act" where
  "s3_exists c p = so_exists (sg_operator c) (to_key p)"

definition s3_delete :: "'w s3_storage \<Rightarrow> string \<Rightarrow> ('w, unit) io_act" where
  "s3_delete c p = so_delete (sg_operator c) (to_key p)"

definition s3_create_dir :: "'w s3_storage \<Rightarrow> string \<Rightarrow> ('w, unit) io_act" where
  "s3_create_dir c p = so_write (sg_operator c) (to_key p @ [slash]) []"

definition s3_file_size :: "'w s3_storage \<Rightarrow> string \<Rightarrow> ('w, u64) io_act" where
  "s3_file_size c p = and_then (so_stat (sg_operator c) (to_key p)) (\<lambda>(dir, len) w. (Ok len, w))"

definition s3_adapter :: "(string \<Rightarrow> string) \<Rightarrow> 'w s3_storage \<Rightarrow> 'w storage_adapter" where
  "s3_adapter ids c =
     \<lparr>sa_list_files = s3_list_files ids c, sa_list_files_paginated = s3_list_files_paginated ids c,
      sa_read_file = s3_read_file c, sa_file_size = s3_file_size c, sa_get_metadata = s3_get_metadata ids c\<rparr>"

section \<open>The file operations\<close>

definition s3_list :: "'w s3_storage \<Rightarrow> string \<Rightarrow> ('w, file_entry list) io_act" where
  "s3_list c p =
     (let pre = list_prefix (to_key p) in
      and_then (so_list (sg_operator c) pre)
        (\<lambda>es w.
           (Ok (sort_key (\<lambda>e. (\<not> fe_is_dir e, to_lowercase (fe_name e)))
              (map (\<lambda>e. \<lparr>fe_name = trim_end_slash (se_name e), fe_path = path_join (path_join ''/'' pre) (se_name e),
                          fe_size = se_len e, fe_is_dir = se_is_dir e\<rparr>)
                 (filter (\<lambda>e. se_name e \<noteq> [] \<and> se_name e \<noteq> ''/'') es))), w)))"

definition s3_stat :: "'w s3_storage \<Rightarrow> string \<Rightarrow> ('w, file_stat) io_act" where
  "s3_stat c p =
     and_then (so_stat (sg_operator c) (to_key p)) (\<lambda>(dir, len) w. (Ok \<lparr>fs_size = len, fs_is_dir = dir\<rparr>, w))"

text \<open>Appending, writing at an offset and truncating read the object, change the bytes and write it back. An object
  that cannot be read is appended to as if it were empty. A buffer of more than \<open>2^63 - 1\<close> bytes is a panic.\<close>

definition s3_append :: "'w s3_storage \<Rightarrow> string \<Rightarrow> bytes \<Rightarrow> ('w, unit) io_act" where
  "s3_append c p d w =
     (let key = to_key p in
      case so_read (sg_operator c) key w of
        (Ok b, w) \<Rightarrow> so_write (sg_operator c) key (b @ d) w
      | (Err e, w) \<Rightarrow> so_write (sg_operator c) key d w
      | (Panic, w) \<Rightarrow> (Panic, w))"

definition splice :: "nat \<Rightarrow> bytes \<Rightarrow> bytes \<Rightarrow> bytes" where
  "splice off d b =
     (let b = b @ replicate (off + length d - length b) 0 in take off b @ d @ drop (off + length d) b)"

definition s3_write_at :: "'w s3_storage \<Rightarrow> string \<Rightarrow> u64 \<Rightarrow> bytes \<Rightarrow> ('w, unit) io_act" where
  "s3_write_at c p off d =
     (let key = to_key p in
      and_then (so_read (sg_operator c) key)
        (\<lambda>b w. if 2 ^ 63 \<le> unat off + length d then (Panic, w)
               else so_write (sg_operator c) key (splice (unat off) d b) w))"

definition s3_truncate :: "'w s3_storage \<Rightarrow> string \<Rightarrow> u64 \<Rightarrow> ('w, unit) io_act" where
  "s3_truncate c p len =
     (let key = to_key p in
      and_then (so_read (sg_operator c) key) (\<lambda>b. so_write (sg_operator c) key (take (unat len) b)))"

text \<open>\<open>unwrap_or(false)\<close> on whether an object exists.\<close>

definition s3_exists_or_not :: "'w s3_operator \<Rightarrow> string \<Rightarrow> 'w \<Rightarrow> (string, bool) outcome \<times> 'w" where
  "s3_exists_or_not op key w = (case so_exists op key w of (Err e, w) \<Rightarrow> (Ok False, w) | r \<Rightarrow> r)"

definition s3_mkdir :: "'w s3_storage \<Rightarrow> string \<Rightarrow> ('w, unit) io_act" where
  "s3_mkdir c p w =
     (let base_key = to_key p; key = base_key @ [slash] in
      if base_key = [] then (Err ''Cannot create directory at root path'', w)
      else
        and_then (s3_exists_or_not (sg_operator c) key)
          (\<lambda>present w.
             if present then (Ok (), w)
             else
               (case so_write (sg_operator c) key [] w of
                  (Err e, w) \<Rightarrow>
                    (let low = to_lowercase e in
                     if str_contains ''isadirectory'' low \<or> str_contains ''is a directory'' low \<or>
                        str_contains ''write path is a directory'' low
                     then (Ok (), w)
                     else if str_contains ''accessdenied'' low \<or> str_contains ''forbidden'' low \<or> str_contains ''403'' low \<or>
                        str_contains ''PermissionDenied'' e
                     then (Err (''Permission denied when creating directory '' @ key @ '' in bucket '' @ sg_bucket c @ '': '' @ e), w)
                     else (Err (''Failed to create directory '' @ key @ '': '' @ e), w))
                | r \<Rightarrow> r)) w)"

definition s3_rmdir :: "'w s3_storage \<Rightarrow> string \<Rightarrow> ('w, unit) io_act" where
  "s3_rmdir c p = so_delete (sg_operator c) (to_key p @ [slash])"

section \<open>Copying, moving and deleting\<close>

text \<open>The two readings of an error that says that access was denied.\<close>

definition s3_denied :: "string \<Rightarrow> bool" where
  "s3_denied e \<longleftrightarrow>
     (let low = to_lowercase e in
      str_contains ''permissiondenied'' low \<or> str_contains ''403'' low \<or> str_contains ''accessdenied'' low)"

definition s3_check_error :: "string \<Rightarrow> string \<Rightarrow> string \<Rightarrow> string" where
  "s3_check_error denied failed e = (if s3_denied e then ''Permission denied: '' @ denied @ e else failed @ e)"

text \<open>What is checked before a copy, and whether it is one of a directory; the copy of one object; the copy of the marker
  of a directory, whose failure is ignored.\<close>

definition s3_copy_check :: "'w s3_storage \<Rightarrow> string \<Rightarrow> string \<Rightarrow> copy_options \<Rightarrow> ('w, bool) io_act" where
  "s3_copy_check c from_key dest_key opts =
     (let op = sg_operator c in
      if from_key = [] then (\<lambda>w. (Err ''Source path cannot be empty'', w))
      else if dest_key = [] then
        (\<lambda>w. (Err ''Destination path cannot be empty - cannot copy to root. Specify a file name.'', w))
      else
        and_then (\<lambda>w. if co_overwrite opts then (Ok False, w) else so_exists op dest_key w)
          (\<lambda>taken. if taken then (\<lambda>w. (Err (''Destination already exists: '' @ dest_key), w)) else
           and_then (so_exists op from_key)
          (\<lambda>there. if \<not> there then (\<lambda>w. (Err (''Source does not exist: '' @ from_key), w)) else
           and_then (so_stat op from_key) (\<lambda>(dir, len) w. (Ok (dir \<and> co_recursive opts), w)))))"

definition s3_copy_object :: "'w s3_storage \<Rightarrow> string \<Rightarrow> string \<Rightarrow> ('w, unit) io_act" where
  "s3_copy_object c from_key dest_key =
     and_then (map_err (\<lambda>e. ''Failed to read source object '' @ from_key @ '': '' @ e) (so_read (sg_operator c) from_key))
       (\<lambda>d. map_err (\<lambda>e. ''Failed to write destination object '' @ dest_key @ '': '' @ e)
              (so_write (sg_operator c) dest_key d))"

definition s3_copy_marker :: "'w s3_storage \<Rightarrow> string \<Rightarrow> string \<Rightarrow> ('w, unit) io_act" where
  "s3_copy_marker c from_key dest_key =
     (let op = sg_operator c; pre = from_key @ [slash] in
      and_then (s3_exists_or_not op pre)
        (\<lambda>marker w.
           if marker then
             (case so_read op pre w of
                (Ok d, w) \<Rightarrow>
                  (case so_write op (dest_key @ [slash]) d w of (Panic, w) \<Rightarrow> (Panic, w) | (_, w) \<Rightarrow> (Ok (), w))
              | (Err e, w) \<Rightarrow> (Ok (), w)
              | (Panic, w) \<Rightarrow> (Panic, w))
           else (Ok (), w)))"

fun s3_copy :: "nat \<Rightarrow> 'w s3_storage \<Rightarrow> string \<Rightarrow> string \<Rightarrow> copy_options \<Rightarrow> ('w, unit) io_act"
  and s3_copy_entries :: "nat \<Rightarrow> 'w s3_storage \<Rightarrow> string \<Rightarrow> string \<Rightarrow> copy_options \<Rightarrow> s3_entry list \<Rightarrow> ('w, unit) io_act" where
  "s3_copy 0 c from to opts w = (Err ''out of fuel'', w)"
| "s3_copy (Suc fuel) c from to opts w =
     and_then (s3_copy_check c (to_key from) (to_key to) opts)
       (\<lambda>dir. if dir then
           and_then (so_list (sg_operator c) (to_key from @ [slash]))
             (\<lambda>es. and_then (s3_copy_entries fuel c from to opts es)
             (\<lambda>_. s3_copy_marker c (to_key from) (to_key to)))
         else s3_copy_object c (to_key from) (to_key to)) w"
| "s3_copy_entries fuel c from to opts [] w = (Ok (), w)"
| "s3_copy_entries fuel c from to opts (e # es) w =
     (let relative = (case strip_prefix (to_key from @ [slash]) (se_name e) of Some r \<Rightarrow> r | None \<Rightarrow> se_name e) in
      and_then (s3_copy fuel c (path_join from relative) (path_join to relative) opts)
        (\<lambda>_. s3_copy_entries fuel c from to opts es) w)"

text \<open>What the error of a deletion becomes; an object that is not there counts as deleted.\<close>

definition s3_part_key :: "string \<Rightarrow> bool" where
  "s3_part_key key \<longleftrightarrow> str_contains ''.part'' key \<or> suffix ''.part0'' key \<or> suffix ''.part1'' key"

definition s3_missing :: "string \<Rightarrow> bool" where
  "s3_missing low \<longleftrightarrow> str_contains ''nosuchkey'' low \<or> str_contains ''404'' low"

definition s3_glacier :: "string \<Rightarrow> bool" where
  "s3_glacier low \<longleftrightarrow> str_contains ''glacier'' low \<or> str_contains ''restore'' low \<or> str_contains ''invalidobjectstate'' low"

definition s3_rm_error :: "'w s3_storage \<Rightarrow> string \<Rightarrow> string \<Rightarrow> (string, unit) outcome" where
  "s3_rm_error c key e =
     (let msg = ''Failed to delete S3 object '' @ key @ '': '' @ e; low = to_lowercase e in
      if s3_part_key key then
        Err (msg @ '' - This appears to be an orphaned multipart upload part. (bucket '' @ sg_bucket c @ '', key '' @ key @ '')'')
      else if str_contains ''accessdenied'' low \<or> str_contains ''403'' low then Err (msg @ '' - Access Denied. Check IAM permissions'')
      else if s3_missing low then Ok ()
      else if s3_glacier low then
        Err (msg @ '' - Objects in Glacier storage classes must be restored before deletion. (bucket '' @ sg_bucket c @
          '', key '' @ key @ '')'')
      else if str_contains ''version'' low \<or> str_contains ''versionid'' low then
        Err (msg @ '' - This bucket may have versioning enabled. Check IAM permissions: s3:DeleteObjectVersion.'')
      else Err (msg @ '' - Possible causes: Insufficient IAM permissions. Error details: '' @ so_debug (sg_operator c) e))"

definition s3_rm :: "'w s3_storage \<Rightarrow> string \<Rightarrow> ('w, unit) io_act" where
  "s3_rm c p w =
     (let key = to_key p in
      case so_delete (sg_operator c) key w of (Err e, w) \<Rightarrow> (s3_rm_error c key e, w) | r \<Rightarrow> r)"

text \<open>The error of deleting a single object with \<open>rm_rf\<close>: its text decides once more whether it is an error.\<close>

definition s3_rm_rf_message :: "'w s3_storage \<Rightarrow> string \<Rightarrow> string \<Rightarrow> string" where
  "s3_rm_rf_message c key e =
     (let msg = ''Failed to delete S3 object '' @ key @ '': '' @ e; low = to_lowercase e in
      if s3_part_key key then msg @ '' - This appears to be an orphaned multipart upload part. (bucket '' @ sg_bucket c @ '')''
      else if str_contains ''accessdenied'' low \<or> str_contains ''403'' low then msg @ '' - Access Denied. Check IAM permissions''
      else if s3_missing low then ''OBJECT_NOT_FOUND''
      else if s3_glacier low then
        msg @ '' - Objects in Glacier storage classes must be restored before deletion. (bucket '' @ sg_bucket c @
          '', key '' @ key @ '')''
      else msg @ '' - Check IAM permissions. Error: '' @ so_debug (sg_operator c) e)"

text \<open>Deleting many: the errors, but for those that say that the object is not there.\<close>

fun s3_delete_all :: "'w s3_operator \<Rightarrow> string list \<Rightarrow> ('w, string list) io_act" where
  "s3_delete_all op [] w = (Ok [], w)"
| "s3_delete_all op (k # ks) w =
     (case so_delete op k w of
        (Panic, w) \<Rightarrow> (Panic, w)
      | (Ok u, w) \<Rightarrow> s3_delete_all op ks w
      | (Err e, w) \<Rightarrow>
          and_then (s3_delete_all op ks)
            (\<lambda>errs w.
               (Ok (if s3_missing (to_lowercase e) \<or> str_contains ''not found'' (to_lowercase e) then errs else e # errs), w)) w)"

definition s3_delete_many :: "'w s3_storage \<Rightarrow> string \<Rightarrow> string list \<Rightarrow> ('w, unit) io_act" where
  "s3_delete_many c key keys =
     and_then (s3_delete_all (sg_operator c) keys)
       (\<lambda>errs w.
          if length errs = length keys \<and> keys \<noteq> [] then
            (Err (''Failed to delete directory '' @ key @ '': All '' @ dec (length keys) @
               '' delete operations failed. First error: '' @ hd errs), w)
          else (Ok (), w))"

definition s3_delete_single :: "'w s3_storage \<Rightarrow> string \<Rightarrow> ('w, unit) io_act" where
  "s3_delete_single c key w =
     (case so_delete (sg_operator c) key w of
        (Err e, w) \<Rightarrow>
          (let msg = s3_rm_rf_message c key e in (if str_contains ''OBJECT_NOT_FOUND'' msg then Ok () else Err msg, w))
      | r \<Rightarrow> r)"

text \<open>The entries below a directory. A listing that fails has none.\<close>

definition s3_below :: "'w s3_operator \<Rightarrow> string \<Rightarrow> ('w, s3_entry list) io_act" where
  "s3_below op key w =
     (let pre = key @ [slash] in
      case so_list op (list_prefix key) w of
        (Ok es, w) \<Rightarrow> (Ok (if key = [] then es else filter (\<lambda>e. prefix pre (se_name e) \<or> se_name e = pre) es), w)
      | (Err e, w) \<Rightarrow> (Ok [], w)
      | (Panic, w) \<Rightarrow> (Panic, w))"

definition s3_rm_rf :: "'w s3_storage \<Rightarrow> string \<Rightarrow> ('w, unit) io_act" where
  "s3_rm_rf c p =
     (let key = to_key p; pre = key @ [slash] in
      and_then (s3_exists_or_not (sg_operator c) pre)
        (\<lambda>marker. and_then (s3_below (sg_operator c) key)
        (\<lambda>es.
           if es \<noteq> [] \<or> marker then
             s3_delete_many c key
               (let names = map se_name es in if marker \<and> pre \<notin> set names then names @ [pre] else names)
           else s3_delete_single c key)))"

definition s3_mv :: "nat \<Rightarrow> 'w s3_storage \<Rightarrow> string \<Rightarrow> string \<Rightarrow> bool \<Rightarrow> ('w, unit) io_act" where
  "s3_mv fuel c from to overwrite =
     and_then
       (s3_copy fuel c from to
          \<lparr>co_overwrite = overwrite, co_preserve_attributes = False, co_recursive = True, co_follow_symlinks = False\<rparr>)
       (\<lambda>_. s3_rm_rf c from)"

text \<open>Renaming does not replace another object.\<close>

definition s3_rename :: "nat \<Rightarrow> 'w s3_storage \<Rightarrow> string \<Rightarrow> string \<Rightarrow> ('w, unit) io_act" where
  "s3_rename fuel c from to =
     (let op = sg_operator c; from_key = to_key from; dest_key = to_key to;
          source_error = s3_check_error (''Cannot access source file '' @ from_key) ''Failed to check if source file exists: '';
          dest_error = s3_check_error (''Cannot check if destination exists '' @ dest_key)
            ''Failed to check if destination exists: ''
      in and_then (map_err source_error (so_exists op from_key))
        (\<lambda>there. if \<not> there then (\<lambda>w. (Err (''Source does not exist: '' @ from_key), w)) else
         and_then (\<lambda>w. if from_key \<noteq> dest_key then map_err dest_error (so_exists op dest_key) w else (Ok False, w))
        (\<lambda>taken. if taken then (\<lambda>w. (Err (''Destination already exists: '' @ dest_key), w)) else
         and_then (map_err source_error (so_stat op from_key))
        (\<lambda>(dir, len).
         and_then
           (s3_copy fuel c from to
              \<lparr>co_overwrite = True, co_preserve_attributes = False, co_recursive = dir, co_follow_symlinks = False\<rparr>)
           (\<lambda>_. if dir then s3_rm_rf c from else s3_rm c from)))))"

section \<open>Asking and the rest\<close>

definition s3_is_dir :: "'w s3_storage \<Rightarrow> string \<Rightarrow> ('w, bool) io_act" where
  "s3_is_dir c p w =
     (let op = sg_operator c; key = to_key p in
      case so_stat op key w of
        (Ok (dir, len), w) \<Rightarrow> (Ok dir, w)
      | (Panic, w) \<Rightarrow> (Panic, w)
      | (Err e, w) \<Rightarrow>
          (case so_stat op (key @ [slash]) w of
             (Ok (dir, len), w) \<Rightarrow> (Ok dir, w) | (Err e, w) \<Rightarrow> (Ok False, w) | (Panic, w) \<Rightarrow> (Panic, w)))"

definition s3_is_file :: "'w s3_storage \<Rightarrow> string \<Rightarrow> ('w, bool) io_act" where
  "s3_is_file c p w =
     (case so_stat (sg_operator c) (to_key p) w of
        (Ok (dir, len), w) \<Rightarrow> (Ok (\<not> dir), w) | (Err e, w) \<Rightarrow> (Ok False, w) | (Panic, w) \<Rightarrow> (Panic, w))"

definition s3_chmod :: "'w s3_storage \<Rightarrow> string \<Rightarrow> u32 \<Rightarrow> ('w, unit) io_act" where
  "s3_chmod c p mode w = (Ok (), w)"

definition s3_touch :: "'w s3_storage \<Rightarrow> string \<Rightarrow> ('w, unit) io_act" where
  "s3_touch c p =
     (let key = to_key p in
      and_then (so_exists (sg_operator c) key)
        (\<lambda>there. if there then (\<lambda>w. (Ok (), w)) else so_write (sg_operator c) key []))"

definition s3_file_ops :: "nat \<Rightarrow> 'w s3_storage \<Rightarrow> 'w file_operations" where
  "s3_file_ops fuel c =
     \<lparr>fo_stat = s3_stat c, fo_read = s3_read_file c, fo_write = s3_write_file c, fo_mkdir_p = s3_mkdir c,
      fo_list = s3_list c, fo_rm_rf = s3_rm_rf c, fo_append = s3_append c, fo_mkdir = s3_mkdir c,
      fo_rmdir = s3_rmdir c, fo_rename = s3_rename fuel c, fo_copy = s3_copy fuel c, fo_mv = s3_mv fuel c,
      fo_rm = s3_rm c, fo_chmod = s3_chmod c, fo_touch = s3_touch c, fo_exists = s3_exists c\<rparr>"

section \<open>What the operator promises\<close>

text \<open>
  The documented behaviour of \<open>opendal\<close> on a bucket, in terms of the objects in it (\<open>v\<close>): asking and reading change
  nothing; a written object has the bytes given, and a write that fails leaves the other objects alone; a deleted one is gone, and one whose deletion fails stays; a path with a slash
  at its end exists when there are objects below it; a listing has entries for objects with the prefix only, and the
  name of an entry is the last segment of its path. An error that says that an object is not there is right.
\<close>

definition object_key :: "string \<Rightarrow> bool" where
  "object_key k \<longleftrightarrow> k \<noteq> [] \<and> last k \<noteq> slash"

definition tells_missing :: "'w s3_operator \<Rightarrow> string \<Rightarrow> bool" where
  "tells_missing op e \<longleftrightarrow>
     s3_missing (to_lowercase e) \<or> str_contains ''not found'' (to_lowercase e) \<or>
     str_contains ''OBJECT_NOT_FOUND'' e \<or> str_contains ''OBJECT_NOT_FOUND'' (so_debug op e)"

definition object_store :: "'w s3_operator \<Rightarrow> ('w \<Rightarrow> string \<Rightarrow> bytes option) \<Rightarrow> bool" where
  "object_store op v \<longleftrightarrow>
     (\<forall>k w r w'. so_stat op k w = (r, w') \<longrightarrow>
        v w' = v w \<and> (\<forall>dir len. object_key k \<longrightarrow> r = Ok (dir, len) \<longrightarrow> dir = (v w k = None))) \<and>
     (\<forall>k w r w'. so_exists op k w = (r, w') \<longrightarrow>
        v w' = v w \<and> (\<forall>b. object_key k \<longrightarrow> r = Ok b \<longrightarrow> b = (v w k \<noteq> None)) \<and>
        (\<not> object_key k \<longrightarrow> r = Ok True \<longrightarrow> (\<exists>q. prefix k q \<and> v w q \<noteq> None))) \<and>
     (\<forall>k w r w'. so_read op k w = (r, w') \<longrightarrow> v w' = v w \<and> (\<forall>d. r = Ok d \<longrightarrow> v w k = Some d)) \<and>
     (\<forall>k d w w'. object_key k \<longrightarrow> so_write op k d w = (Ok (), w') \<longrightarrow> v w' = (v w)(k \<mapsto> d)) \<and>
     (\<forall>k d w e w'. so_write op k d w = (Err e, w') \<longrightarrow> (\<forall>k'. k' \<noteq> k \<longrightarrow> v w' k' = v w k')) \<and>
     (\<forall>k w w'. so_delete op k w = (Ok (), w') \<longrightarrow> v w' = (v w)(k := None)) \<and>
     (\<forall>k w e w'. so_delete op k w = (Err e, w') \<longrightarrow> v w' = v w \<and> (tells_missing op e \<longrightarrow> v w k = None)) \<and>
     (\<forall>k w r w'. so_list op k w = (r, w') \<longrightarrow>
        v w' = v w \<and> (\<forall>es e. r = Ok es \<longrightarrow> e \<in> set es \<longrightarrow>
          slash \<notin> set (butlast (se_name e)) \<and> (\<exists>q. prefix k q \<and> v w q \<noteq> None)))"

lemma object_storeD:
  assumes "object_store op v"
  shows "\<forall>k w r w'. so_stat op k w = (r, w') \<longrightarrow>
      v w' = v w \<and> (\<forall>dir len. object_key k \<longrightarrow> r = Ok (dir, len) \<longrightarrow> dir = (v w k = None))"
    and "\<forall>k w r w'. so_exists op k w = (r, w') \<longrightarrow>
      v w' = v w \<and> (\<forall>b. object_key k \<longrightarrow> r = Ok b \<longrightarrow> b = (v w k \<noteq> None)) \<and>
      (\<not> object_key k \<longrightarrow> r = Ok True \<longrightarrow> (\<exists>q. prefix k q \<and> v w q \<noteq> None))"
    and "\<forall>k w r w'. so_read op k w = (r, w') \<longrightarrow> v w' = v w \<and> (\<forall>d. r = Ok d \<longrightarrow> v w k = Some d)"
    and "\<forall>k d w w'. object_key k \<longrightarrow> so_write op k d w = (Ok (), w') \<longrightarrow> v w' = (v w)(k \<mapsto> d)"
    and "\<forall>k d w e w'. so_write op k d w = (Err e, w') \<longrightarrow> (\<forall>k'. k' \<noteq> k \<longrightarrow> v w' k' = v w k')"
    and "\<forall>k w w'. so_delete op k w = (Ok (), w') \<longrightarrow> v w' = (v w)(k := None)"
    and "\<forall>k w e w'. so_delete op k w = (Err e, w') \<longrightarrow> v w' = v w \<and> (tells_missing op e \<longrightarrow> v w k = None)"
    and "\<forall>k w r w'. so_list op k w = (r, w') \<longrightarrow>
      v w' = v w \<and> (\<forall>es e. r = Ok es \<longrightarrow> e \<in> set es \<longrightarrow>
        slash \<notin> set (butlast (se_name e)) \<and> (\<exists>q. prefix k q \<and> v w q \<noteq> None))"
  using assms unfolding object_store_def by - (elim conjE, assumption)+

lemma store_stat:
  assumes "object_store op v" and "so_stat op k w = (r, w')"
  shows "v w' = v w" and "object_key k \<Longrightarrow> r = Ok (dir, len) \<Longrightarrow> dir = (v w k = None)"
  using object_storeD(1) [OF assms(1), rule_format, OF assms(2)] by auto

lemma store_exists:
  assumes "object_store op v" and "so_exists op k w = (r, w')"
  shows "v w' = v w" and "object_key k \<Longrightarrow> r = Ok b \<Longrightarrow> b = (v w k \<noteq> None)"
    and "\<not> object_key k \<Longrightarrow> r = Ok True \<Longrightarrow> \<exists>q. prefix k q \<and> v w q \<noteq> None"
  using object_storeD(2) [OF assms(1), rule_format, OF assms(2)] by auto

lemma store_read:
  assumes "object_store op v" and "so_read op k w = (r, w')"
  shows "v w' = v w" and "r = Ok d \<Longrightarrow> v w k = Some d"
  using object_storeD(3) [OF assms(1), rule_format, OF assms(2)] by auto

lemma store_write: "object_store op v \<Longrightarrow> object_key k \<Longrightarrow> so_write op k d w = (Ok (), w') \<Longrightarrow> v w' = (v w)(k \<mapsto> d)"
  using object_storeD(4) by blast

lemma store_write_failed: "object_store op v \<Longrightarrow> so_write op k d w = (Err e, w') \<Longrightarrow> k' \<noteq> k \<Longrightarrow> v w' k' = v w k'"
  using object_storeD(5) by blast

lemma store_delete: "object_store op v \<Longrightarrow> so_delete op k w = (Ok (), w') \<Longrightarrow> v w' = (v w)(k := None)"
  using object_storeD(6) by blast

lemma store_delete_failed:
  assumes "object_store op v" and "so_delete op k w = (Err e, w')"
  shows "v w' = v w" and "tells_missing op e \<Longrightarrow> v w k = None"
  using object_storeD(7) [OF assms(1), rule_format, OF assms(2)] by auto

lemma store_list:
  assumes "object_store op v" and "so_list op k w = (r, w')"
  shows "v w' = v w" and "r = Ok es \<Longrightarrow> e \<in> set es \<Longrightarrow> slash \<notin> set (butlast (se_name e))"
    and "r = Ok es \<Longrightarrow> e \<in> set es \<Longrightarrow> \<exists>q. prefix k q \<and> v w q \<noteq> None"
  using object_storeD(8) [OF assms(1), rule_format, OF assms(2)] by auto

section \<open>Names\<close>

definition s3_named :: "string \<Rightarrow> bool" where
  "s3_named p \<longleftrightarrow> pieces p \<noteq> [] \<and> list_all plain (pieces p) \<and> p = concat (map ((#) slash) (pieces p))"

lemma split_joined: "list_all plain (w # ws) \<Longrightarrow> split_on (\<lambda>c. c = slash) (w @ concat (map ((#) slash) ws)) = w # ws"
proof (induction ws arbitrary: w)
  case Nil
  then show ?case by (auto intro!: split_on_single simp: plain_def)
next
  case (Cons v ws)
  have "split_on (\<lambda>c. c = slash) (w @ concat (map ((#) slash) (v # ws))) =
      split_on (\<lambda>c. c = slash) w @ split_on (\<lambda>c. c = slash) (v @ concat (map ((#) slash) ws))"
    by (simp add: split_on_append_sep)
  moreover have "split_on (\<lambda>c. c = slash) w = [w]" using Cons.prems by (intro split_on_single) (auto simp: plain_def)
  ultimately show ?case using Cons.IH [of v] Cons.prems by simp
qed

lemma s3_named_key:
  assumes "s3_named p"
  shows "p = slash # to_key p" and "object_key (to_key p)" and "absolute p"
proof -
  define ws where "ws = pieces p"
  have ws: "ws \<noteq> []" "list_all plain ws" "p = concat (map ((#) slash) ws)"
    using assms by (simp_all add: s3_named_def flip: ws_def)
  then obtain v vs where v: "ws = v # vs" by (cases ws) auto
  show abs: "absolute p" by (simp add: ws(3) v absolute_def)
  have "split_on (\<lambda>c. c = slash) p = [] # ws" using split_joined ws(2,3) v by simp
  moreover have "dropWhile (\<lambda>w. w = [] \<or> w = ''.'') xs = xs" if "list_all plain xs" for xs
    using that by (cases xs) (auto simp: plain_def)
  ultimately have key: "to_key p = joined ws" using abs ws(2) by (simp add: to_key_def Let_def list_all_iff)
  then show "p = slash # to_key p" by (simp add: joined_def ws(3) v)
  obtain us u where u: "ws = us @ [u]" "plain u" using ws(1,2) by (cases ws rule: rev_cases) auto
  then have "last p = last u" "u \<noteq> []" "length p > 1" using ws(3) by (auto simp: plain_def)
  then show "object_key (to_key p)"
    using \<open>p = slash # to_key p\<close> u(2) last_in_set [of u] unfolding object_key_def plain_def
    by (metis last_ConsR length_Cons list.size(3) less_numeral_extra(4) One_nat_def)
qed

definition s3_names :: "'w s3_storage \<Rightarrow> string set" where
  "s3_names c =
     {p. s3_named p \<and> \<not> str_contains ''OBJECT_NOT_FOUND'' (to_key p) \<and> \<not> str_contains ''OBJECT_NOT_FOUND'' (sg_bucket c)}"

text \<open>The operator keeps its promises, and the bucket holds nothing but named objects: no markers of directories and no
  keys with empty segments.\<close>

definition s3_clean :: "'w s3_storage \<Rightarrow> ('w \<Rightarrow> string \<Rightarrow> bytes option) \<Rightarrow> 'w \<Rightarrow> bool" where
  "s3_clean c v w \<longleftrightarrow> object_store (sg_operator c) v \<and> (\<forall>k. v w k \<noteq> None \<longrightarrow> slash # k \<in> s3_names c)"

definition s3_view :: "'w s3_storage \<Rightarrow> ('w \<Rightarrow> string \<Rightarrow> bytes option) \<Rightarrow> 'w \<Rightarrow> string \<Rightarrow> bytes option" where
  "s3_view c v w p = (if p \<in> s3_names c then v w (to_key p) else None)"

lemma s3_namesD:
  assumes "p \<in> s3_names c"
  shows "s3_named p" and "absolute p" and "object_key (to_key p)" and "p = slash # to_key p"
    and "\<not> str_contains ''OBJECT_NOT_FOUND'' (to_key p)" and "\<not> str_contains ''OBJECT_NOT_FOUND'' (sg_bucket c)"
  using assms s3_named_key by (auto simp: s3_names_def)

lemma s3_names_inj: "p \<in> s3_names c \<Longrightarrow> q \<in> s3_names c \<Longrightarrow> to_key p = to_key q \<longleftrightarrow> p = q"
  using s3_namesD(4) by metis

lemma s3_clean_store: "s3_clean c v w \<Longrightarrow> object_store (sg_operator c) v"
  by (simp add: s3_clean_def)

lemma s3_view_Some: "s3_view c v w p = Some d \<longleftrightarrow> p \<in> s3_names c \<and> v w (to_key p) = Some d"
  by (simp add: s3_view_def)

lemma s3_view_cong: "v w' = v w \<Longrightarrow> s3_view c v w' = s3_view c v w \<and> s3_clean c v w' = s3_clean c v w"
  by (simp add: s3_view_def s3_clean_def fun_eq_iff)

lemma s3_view_update:
  assumes "p \<in> s3_names c" and "v w' = (v w)(to_key p := x)" and "s3_clean c v w"
  shows "s3_clean c v w' \<and> s3_view c v w' = (s3_view c v w)(p := x)"
proof
  have "slash # k \<in> s3_names c" if "v w' k \<noteq> None" for k
  proof (cases "k = to_key p")
    case True
    then show ?thesis using assms(1) s3_namesD(4) [OF assms(1)] by simp
  next
    case False
    then show ?thesis using that assms(2,3) by (simp add: s3_clean_def)
  qed
  then show "s3_clean c v w'" using s3_clean_store [OF assms(3)] by (simp add: s3_clean_def)
  have "s3_view c v w' q = ((s3_view c v w)(p := x)) q" for q
    using assms(1,2) s3_names_inj [OF assms(1), of q] by (cases "q \<in> s3_names c") (auto simp: s3_view_def)
  then show "s3_view c v w' = (s3_view c v w)(p := x)" by blast
qed

lemma s3_leaf:
  assumes "p \<in> s3_names c" and "leaf (s3_view c v w) p" and "s3_clean c v w"
  shows "\<not> (prefix (to_key p @ [slash]) q \<and> v w q \<noteq> None)"
proof
  assume q: "prefix (to_key p @ [slash]) q \<and> v w q \<noteq> None"
  then have n: "slash # q \<in> s3_names c" using assms(3) by (simp add: s3_clean_def)
  from s3_namesD(4) [OF n] have "to_key (slash # q) = q" by simp
  moreover have "prefix (p @ [slash]) (slash # q)"
    by (subst s3_namesD(4) [OF assms(1)]) (use q in simp)
  ultimately show False using assms(2) n q by (auto simp: leaf_def s3_view_def)
qed

section \<open>The text of an error\<close>

lemma str_contains_sep:
  "c \<notin> set p \<Longrightarrow> p \<noteq> [] \<Longrightarrow> str_contains p (a @ c # b) \<longleftrightarrow> str_contains p a \<or> str_contains p b"
proof (induction a)
  case Nil
  then show ?case by (cases p) auto
next
  case (Cons x a)
  have "strip_prefix p (x # a @ c # b) \<noteq> None \<longleftrightarrow> strip_prefix p (x # a) \<noteq> None"
  proof -
    have "prefix p ((x # a) @ c # b) \<longleftrightarrow> prefix p (x # a)"
      unfolding prefix_append using Cons.prems(1) by (auto simp only: prefix_Cons append_Nil2 set_append list.set Un_iff insert_iff)
    moreover have "strip_prefix p s \<noteq> None \<longleftrightarrow> prefix p s" for s
      using strip_prefix_Some_iff by (auto simp: prefix_def)
    ultimately show ?thesis by simp
  qed
  with Cons show ?case by simp
qed

lemma s3_rm_rf_message_taken:
  assumes "str_contains ''OBJECT_NOT_FOUND'' (s3_rm_rf_message c key e)"
    and "\<not> str_contains ''OBJECT_NOT_FOUND'' key" and "\<not> str_contains ''OBJECT_NOT_FOUND'' (sg_bucket c)"
  shows "tells_missing (sg_operator c) e"
  using assms by (auto simp: s3_rm_rf_message_def tells_missing_def Let_def str_contains_sep split: if_splits)

section \<open>A bucket stores files\<close>

text \<open>The steps on objects, for files.\<close>

lemma s3_exists_or_not_view:
  "object_store op v \<Longrightarrow> s3_exists_or_not op k w = (r, w') \<Longrightarrow>
     v w' = v w \<and> (r = Ok True \<longrightarrow> \<not> object_key k \<longrightarrow> (\<exists>q. prefix k q \<and> v w q \<noteq> None))"
  using store_exists [of op v k w] by (cases "so_exists op k w") (auto simp: s3_exists_or_not_def split: outcome.splits)

lemma s3_rm_view:
  assumes "p \<in> s3_names c" and "s3_clean c v w" and "s3_view c v w p = Some d" and "s3_rm c p w = (Ok (), w')"
  shows "s3_clean c v w' \<and> s3_view c v w' = (s3_view c v w)(p := None)"
proof (rule s3_view_update [OF assms(1) _ assms(2)])
  note st = s3_clean_store [OF assms(2)]
  have "v w (to_key p) \<noteq> None" using assms(3) by (simp add: s3_view_Some)
  moreover have "s3_rm_error c k e = Ok () \<Longrightarrow> tells_missing (sg_operator c) e" for k e
    by (auto simp: s3_rm_error_def tells_missing_def Let_def split: if_splits)
  ultimately show "v w' = (v w)(to_key p := None)"
    using assms(4) store_delete [OF st] store_delete_failed(2) [OF st]
    by (auto simp: s3_rm_def Let_def split: prod.splits outcome.splits)
qed

lemma s3_rm_rf_view:
  assumes "p \<in> s3_names c" and "s3_clean c v w" and "s3_view c v w p = Some d" and "leaf (s3_view c v w) p"
    and "s3_rm_rf c p w = (r, w')"
  shows "r = Ok () \<Longrightarrow> s3_clean c v w' \<and> s3_view c v w' = (s3_view c v w)(p := None)"
    and "r = Err e \<Longrightarrow> s3_clean c v w' \<and> s3_view c v w' = s3_view c v w"
proof -
  let ?op = "sg_operator c" and ?k = "to_key p"
  note st = s3_clean_store [OF assms(2)] and key = s3_namesD(3) [OF assms(1)]
  have there: "v w ?k \<noteq> None" using assms(3) by (simp add: s3_view_Some)
  have empty: "\<not> (prefix (?k @ [slash]) q \<and> v w q \<noteq> None)" for q by (rule s3_leaf [OF assms(1,4,2)])
  have ne: "?k \<noteq> []" using key by (simp add: object_key_def)
  obtain m w1 where m: "s3_exists_or_not ?op (?k @ [slash]) w = (m, w1)" by force
  have v1: "v w1 = v w" using s3_exists_or_not_view [OF st m] by simp
  have "m \<noteq> Ok True" using s3_exists_or_not_view [OF st m] empty by (auto simp: object_key_def)
  moreover have "m \<noteq> Err e" for e using m by (auto simp: s3_exists_or_not_def split: prod.splits outcome.splits)
  ultimately have m_cases: "m = Ok False \<or> m = Panic" by (cases m) auto
  obtain l w2 where l: "so_list ?op (?k @ [slash]) w1 = (l, w2)" by force
  have v2: "v w2 = v w" using store_list(1) [OF st l] v1 by simp
  have "l = Ok es \<Longrightarrow> es = []" for es
    using store_list(3) [OF st l, of es "hd es"] empty v1 by (cases es) auto
  then have run: "r = Panic \<or> s3_delete_single c ?k w2 = (r, w')"
    using assms(5) m l m_cases ne
    by (cases l) (auto simp: s3_rm_rf_def s3_below_def Let_def and_then_def list_prefix_def)
  note taken = s3_rm_rf_message_taken [OF _ s3_namesD(5,6) [OF assms(1)]]
  have result: "v w' = (if r = Ok () then (v w)(?k := None) else v w)" if "r \<noteq> Panic"
  proof (cases "so_delete ?op ?k w2")
    case (Pair x u)
    then show ?thesis
    proof (cases x)
      case (Err e)
      then have d: "so_delete ?op ?k w2 = (Err e, u)" using Pair by simp
      have "\<not> str_contains ''OBJECT_NOT_FOUND'' (s3_rm_rf_message c ?k e)"
        using taken store_delete_failed(2) [OF st d] v2 there by metis
      then have "w' = u" "r \<noteq> Ok ()" using run that d by (auto simp: s3_delete_single_def Let_def)
      then show ?thesis using store_delete_failed(1) [OF st d] v2 by simp
    qed (use run that Pair store_delete [OF st, of ?k w2 u] v2 in \<open>auto simp: s3_delete_single_def\<close>)
  qed
  show "s3_clean c v w' \<and> s3_view c v w' = (s3_view c v w)(p := None)" if "r = Ok ()"
    by (rule s3_view_update [OF assms(1) _ assms(2)]) (use result that in simp)
  show "s3_clean c v w' \<and> s3_view c v w' = s3_view c v w" if "r = Err e"
    using result that s3_view_cong [of v w' w c] assms(2) by simp
qed

lemma s3_copy_view:
  assumes "p \<in> s3_names c" and "q \<in> s3_names c" and "s3_clean c v w" and "s3_view c v w p = Some d"
    and "s3_copy fuel c p q opts w = (Ok (), w')"
  shows "s3_clean c v w' \<and> s3_view c v w' = (s3_view c v w)(q \<mapsto> d)"
    and "\<not> co_overwrite opts \<Longrightarrow> s3_view c v w q = None"
proof -
  let ?op = "sg_operator c" and ?k = "to_key p" and ?l = "to_key q"
  note st = s3_clean_store [OF assms(3)] and kp = s3_namesD(3) [OF assms(1)] and kq = s3_namesD(3) [OF assms(2)]
  have there: "v w ?k = Some d" using assms(4) by (simp add: s3_view_Some)
  from assms(5) obtain n dir w1 where n: "fuel = Suc n" and chk: "s3_copy_check c ?k ?l opts w = (Ok dir, w1)"
    and rest: "(if dir then
           and_then (so_list ?op (?k @ [slash]))
             (\<lambda>es. and_then (s3_copy_entries n c p q opts es) (\<lambda>_. s3_copy_marker c ?k ?l))
         else s3_copy_object c ?k ?l) w1 = (Ok (), w')"
    by (cases fuel) (auto simp: and_then_Ok_iff)
  have "?k \<noteq> []" "?l \<noteq> []" using kp kq by (simp_all add: object_key_def)
  with chk obtain t wa wb x len where steps:
    "(if co_overwrite opts then (Ok False, w) else so_exists ?op ?l w) = (Ok False, wa)"
    "so_exists ?op ?k wa = (Ok True, wb)" "so_stat ?op ?k wb = (Ok (x, len), w1)" "dir = (x \<and> co_recursive opts)"
    by (auto simp: s3_copy_check_def Let_def and_then_Ok_iff split: if_splits)
  have va: "v wa = v w" using steps(1) store_exists(1) [OF st] by (auto split: if_splits)
  have vb: "v wb = v w" using store_exists(1) [OF st steps(2)] va by simp
  have v1: "v w1 = v w" using store_stat(1) [OF st steps(3)] vb by simp
  have "x = (v wb ?k = None)" using store_stat(2) [OF st steps(3) kp refl] .
  then have "\<not> dir" using steps(4) vb there by simp
  with rest obtain b w2 where r: "so_read ?op ?k w1 = (Ok b, w2)" "so_write ?op ?l b w2 = (Ok (), w')"
    by (auto simp: s3_copy_object_def and_then_Ok_iff)
  have "b = d" "v w2 = v w" using store_read [OF st r(1)] v1 there by auto
  then have "v w' = (v w)(?l \<mapsto> d)" using store_write [OF st kq r(2)] by simp
  then show "s3_clean c v w' \<and> s3_view c v w' = (s3_view c v w)(q \<mapsto> d)" by (rule s3_view_update [OF assms(2) _ assms(3)])
  show "s3_view c v w q = None" if "\<not> co_overwrite opts"
    using that steps(1) store_exists(2) [OF st _ kq, of w "Ok False" wa False] by (auto simp: s3_view_def)
qed

text \<open>A copy that fails leaves the other objects alone.\<close>

definition keeps :: "('w \<Rightarrow> string \<Rightarrow> bytes option) \<Rightarrow> ('w, 'a) io_act \<Rightarrow> bool" where
  "keeps v m \<longleftrightarrow> (\<forall>w. v (snd (m w)) = v w)"

lemma keeps_and_then: "keeps v m \<Longrightarrow> (\<And>a. keeps v (f a)) \<Longrightarrow> keeps v (and_then m f)"
  unfolding keeps_def and_then_def by (auto split: prod.split outcome.split) (metis snd_conv)+

lemma keeps_asking:
  assumes "object_store op v"
  shows "keeps v (so_exists op k)" "keeps v (so_stat op k)" "keeps v (so_read op k)" "keeps v (\<lambda>w. (r, w))"
  unfolding keeps_def
  by (auto intro: store_exists(1) [OF assms prod.collapse [symmetric]] store_stat(1) [OF assms prod.collapse [symmetric]]
      store_read(1) [OF assms prod.collapse [symmetric]])

lemma keeps_if: "keeps v m \<Longrightarrow> keeps v n \<Longrightarrow> keeps v (if b then m else n)"
  by simp

lemma s3_copy_check_keeps:
  assumes "object_store (sg_operator c) v"
  shows "keeps v (s3_copy_check c k l opts)"
proof -
  have "keeps v (\<lambda>w. if co_overwrite opts then (Ok False, w) else so_exists (sg_operator c) l w)"
    by (cases "co_overwrite opts") (simp_all add: keeps_asking [OF assms])
  then show ?thesis unfolding s3_copy_check_def Let_def
    by (intro keeps_if keeps_and_then keeps_asking [OF assms]) (simp_all add: keeps_asking [OF assms] split: prod.split)
qed

lemma s3_copy_failed:
  assumes "p \<in> s3_names c" and "q \<in> s3_names c" and "s3_clean c v w" and "s3_view c v w p = Some d"
    and "s3_copy fuel c p q opts w = (Err e, w')"
  shows "s3_clean c v w' \<and> (\<forall>r. r \<noteq> q \<longrightarrow> s3_view c v w' r = s3_view c v w r)"
proof -
  let ?op = "sg_operator c" and ?k = "to_key p" and ?l = "to_key q"
  note st = s3_clean_store [OF assms(3)] and kp = s3_namesD(3) [OF assms(1)]
  have others: "v w' k = v w k" if "k \<noteq> ?l" for k
  proof (cases fuel)
    case (Suc n)
    obtain r w1 where chk: "s3_copy_check c ?k ?l opts w = (r, w1)" by force
    then have v1: "v w1 = v w" using s3_copy_check_keeps [OF st, of ?k ?l opts] unfolding keeps_def by (metis snd_conv)
    show ?thesis
    proof (cases r)
      case (Ok dir)
      have "\<not> dir"
      proof
        assume dir
        then obtain wb x len where "so_stat ?op ?k wb = (Ok (x, len), w1)" x
          using chk Ok by (auto simp: s3_copy_check_def Let_def and_then_Ok_iff split: if_splits)
        then have "v wb ?k = None" "v w1 = v wb" using store_stat [OF st] kp by blast+
        then show False using v1 assms(4) by (simp add: s3_view_Some)
      qed
      then have run: "s3_copy_object c ?k ?l w1 = (Err e, w')" using assms(5) Suc chk Ok by simp
      obtain x w2 where x: "so_read ?op ?k w1 = (x, w2)" by force
      show ?thesis
      proof (cases x)
        case (Ok b)
        obtain y u where y: "so_write ?op ?l b w2 = (y, u)" by force
        then have "w' = u" "y = Err f \<or> True" "\<exists>f. y = Err f"
          using run x Ok by (cases y; simp add: s3_copy_object_def map_err_def)+
        then show ?thesis using store_write_failed [OF st] y that store_read(1) [OF st x] v1 by metis
      qed (use run x store_read(1) [OF st x] v1 in \<open>simp_all add: s3_copy_object_def and_then_def map_err_def\<close>)
    qed (use assms(5) Suc chk v1 in \<open>simp_all add: and_then_def\<close>)
  qed (use assms(5) in simp)
  have "slash # k \<in> s3_names c" if "v w' k \<noteq> None" for k
  proof (cases "k = ?l")
    case True
    then show ?thesis using s3_namesD(4) [OF assms(2)] assms(2) by simp
  next
    case False
    then show ?thesis using that others [OF False] assms(3) by (simp add: s3_clean_def)
  qed
  then have "s3_clean c v w'" using st by (simp add: s3_clean_def)
  moreover have "s3_view c v w' r = s3_view c v w r" if "r \<noteq> q" for r
    using others [of "to_key r"] s3_names_inj [OF _ assms(2), of r] that by (simp add: s3_view_def)
  ultimately show ?thesis by blast
qed

interpretation s3: file_store "s3_file_ops fuel bkt" "s3_clean bkt v" "s3_names bkt" "s3_view bkt v"
  for fuel and bkt :: "'w s3_storage" and v
proof
  fix w w' :: 'w and p q d opts e
  note ops = s3_file_ops_def s3_stat_def s3_exists_def s3_read_file_def s3_write_file_def
  show "p \<in> s3_names bkt" if "s3_view bkt v w p \<noteq> None" using that by (auto simp: s3_view_def split: if_splits)
  show "s3_clean bkt v w' \<and> s3_view bkt v w' = s3_view bkt v w \<and>
      (\<forall>st. p \<in> s3_names bkt \<longrightarrow> rs = Ok st \<longrightarrow> fs_is_dir st = (s3_view bkt v w p = None))"
    if "s3_clean bkt v w" "fo_stat (s3_file_ops fuel bkt) p w = (rs, w')" for rs
  proof -
    obtain r w1 where r: "so_stat (sg_operator bkt) (to_key p) w = (r, w1)" by force
    have "w' = w1" "\<And>st. rs = Ok st \<Longrightarrow> \<exists>len. r = Ok (fs_is_dir st, len)"
      using that(2) r by (cases r; auto simp: ops and_then_def split: prod.splits)+
    then show ?thesis
      using store_stat [OF s3_clean_store [OF that(1)] r] s3_view_cong [of v w1 w bkt] that(1) s3_namesD(3) [of p bkt]
      by (auto simp: s3_view_def)
  qed
  show "s3_clean bkt v w' \<and> s3_view bkt v w' = s3_view bkt v w \<and>
      (p \<in> s3_names bkt \<longrightarrow> re = Ok False \<longrightarrow> s3_view bkt v w p = None)"
    if "s3_clean bkt v w" "fo_exists (s3_file_ops fuel bkt) p w = (re, w')" for re
  proof -
    have r: "so_exists (sg_operator bkt) (to_key p) w = (re, w')" using that(2) by (simp add: ops)
    show ?thesis
      using store_exists [OF s3_clean_store [OF that(1)] r] s3_view_cong [of v w' w bkt] that(1) s3_namesD(3) [of p bkt]
      by (auto simp: s3_view_def)
  qed
  show "s3_clean bkt v w' \<and> s3_view bkt v w' = s3_view bkt v w"
    if "s3_clean bkt v w" "fo_list (s3_file_ops fuel bkt) p w = (rl, w')" for rl
  proof -
    obtain r w1 where r: "so_list (sg_operator bkt) (list_prefix (to_key p)) w = (r, w1)" by force
    then have "w' = w1" using that(2) by (cases r) (auto simp: ops s3_list_def Let_def and_then_def)
    then show ?thesis using store_list(1) [OF s3_clean_store [OF that(1)] r] s3_view_cong [of v w1 w bkt] that(1) by simp
  qed
  show "s3_clean bkt v w' \<and> s3_view bkt v w' = s3_view bkt v w \<and>
      (\<forall>d. p \<in> s3_names bkt \<longrightarrow> rr = Ok d \<longrightarrow> s3_view bkt v w p = Some d)"
    if "s3_clean bkt v w" "fo_read (s3_file_ops fuel bkt) p w = (rr, w')" for rr
  proof -
    have r: "so_read (sg_operator bkt) (to_key p) w = (rr, w')" using that(2) by (simp add: ops)
    show ?thesis
      using store_read [OF s3_clean_store [OF that(1)] r] s3_view_cong [of v w' w bkt] that(1)
      by (auto simp: s3_view_def)
  qed
  show "s3_clean bkt v w' \<and> s3_view bkt v w' = (s3_view bkt v w)(p \<mapsto> d)"
    if "s3_clean bkt v w" "p \<in> s3_names bkt" "fo_write (s3_file_ops fuel bkt) p d w = (Ok (), w')"
    using s3_view_update [OF that(2) store_write [OF s3_clean_store [OF that(1)] s3_namesD(3) [OF that(2)]] that(1)] that(3)
    by (simp add: ops)
  show "s3_clean bkt v w' \<and> s3_view bkt v w' = (s3_view bkt v w)(p := None)"
    if "s3_clean bkt v w" "s3_view bkt v w p = Some d" "fo_rm (s3_file_ops fuel bkt) p w = (Ok (), w')"
    using s3_rm_view [OF _ that(1,2)] that by (simp add: ops s3_view_Some)
  show "s3_clean bkt v w' \<and> s3_view bkt v w' = (s3_view bkt v w)(p := None)"
    if "s3_clean bkt v w" "s3_view bkt v w p = Some d" "leaf (s3_view bkt v w) p" "fo_rm_rf (s3_file_ops fuel bkt) p w = (Ok (), w')"
    using s3_rm_rf_view(1) [OF _ that(1-3)] that by (simp add: ops s3_view_Some)
  show "s3_clean bkt v w' \<and> s3_view bkt v w' = s3_view bkt v w"
    if "s3_clean bkt v w" "s3_view bkt v w p = Some d" "leaf (s3_view bkt v w) p" "fo_rm_rf (s3_file_ops fuel bkt) p w = (Err e, w')"
    using s3_rm_rf_view(2) [OF _ that(1-3)] that by (simp add: ops s3_view_Some)
  show "s3_clean bkt v w' \<and> s3_view bkt v w' = (s3_view bkt v w)(q \<mapsto> d)"
    if "s3_clean bkt v w" "s3_view bkt v w p = Some d" "q \<in> s3_names bkt" "fo_copy (s3_file_ops fuel bkt) p q opts w = (Ok (), w')"
    using s3_copy_view(1) [OF _ that(3,1,2)] that by (simp add: ops s3_view_Some)
  show "s3_clean bkt v w' \<and> (\<forall>r. r \<noteq> q \<longrightarrow> s3_view bkt v w' r = s3_view bkt v w r)"
    if "s3_clean bkt v w" "s3_view bkt v w p = Some d" "q \<in> s3_names bkt" "fo_copy (s3_file_ops fuel bkt) p q opts w = (Err e, w')"
    using s3_copy_failed [OF _ that(3,1,2)] that by (simp add: ops s3_view_Some)
  show "s3_clean bkt v w' \<and> s3_view bkt v w' = (s3_view bkt v w)(q \<mapsto> d, p := None)"
    if "s3_clean bkt v w" "s3_view bkt v w p = Some d" "leaf (s3_view bkt v w) p" "q \<in> s3_names bkt" "q \<noteq> p"
      "\<not> prefix (p @ [slash]) q" "fo_mv (s3_file_ops fuel bkt) p q True w = (Ok (), w')"
  proof -
    have p: "p \<in> s3_names bkt" using that(2) by (simp add: s3_view_Some)
    from that(7) obtain o' w1 where s: "s3_copy fuel bkt p q o' w = (Ok (), w1)" "s3_rm_rf bkt p w1 = (Ok (), w')"
      by (auto simp: ops s3_mv_def and_then_Ok_iff)
    have w1: "s3_clean bkt v w1" "s3_view bkt v w1 = (s3_view bkt v w)(q \<mapsto> d)" using s3_copy_view(1) [OF p that(4,1,2) s(1)] by auto
    then have "leaf (s3_view bkt v w1) p" using that(3,6) by (auto simp: leaf_def)
    with s3_rm_rf_view(1) [OF p w1(1) _ _ s(2)] w1(2) that(2,5) show ?thesis by auto
  qed
qed

section \<open>A bucket in memory\<close>

text \<open>An operator that keeps its promises, over a map from keys to objects.\<close>

definition segment :: "string \<Rightarrow> string" where
  "segment r = (let w = takeWhile (\<lambda>c. c \<noteq> slash) r in if w = r then r else w @ [slash])"

definition bucket_list :: "(string, bytes) hash_map \<Rightarrow> string \<Rightarrow> s3_entry list" where
  "bucket_list m pre =
     map (\<lambda>n. \<lparr>se_name = n, se_is_dir = (last n = slash), se_len = 0\<rparr>)
       (remdups (map (segment \<circ> drop (length pre)) (filter (strict_prefix pre) (hm_keys m))))"

definition bucket_operator :: "(string, bytes) hash_map s3_operator" where
  "bucket_operator =
     \<lparr>so_list = (\<lambda>k m. (Ok (bucket_list m k), m)),
      so_stat = (\<lambda>k m. (case hm_get m k of
          Some b \<Rightarrow> Ok (\<not> object_key k, of_nat (length b))
        | None \<Rightarrow> if \<not> object_key k \<and> list_ex (prefix k) (hm_keys m) then Ok (True, 0) else Err ''object not found'', m)),
      so_read = (\<lambda>k m. (case hm_get m k of Some b \<Rightarrow> Ok b | None \<Rightarrow> Err ''object not found'', m)),
      so_read_range = (\<lambda>k a b m. (case hm_get m k of
          Some x \<Rightarrow> Ok (drop (unat a) (take (unat b) x)) | None \<Rightarrow> Err ''object not found'', m)),
      so_write = (\<lambda>k d m. if object_key k then (Ok (), hm_insert k d m)
         else (Err ''IsADirectory: write path is a directory'', m)),
      so_delete = (\<lambda>k m. (Ok (), hm_remove k m)),
      so_exists = (\<lambda>k m. (Ok (hm_get m k \<noteq> None \<or> \<not> object_key k \<and> list_ex (prefix k) (hm_keys m)), m)),
      so_presign = (\<lambda>k n m. (Err ''presigning is not supported'', m)),
      so_debug = (\<lambda>e. e)\<rparr>"

lemma segment_butlast: "slash \<notin> set (butlast (segment r))"
proof -
  have no_slash: "slash \<notin> set (takeWhile (\<lambda>c. c \<noteq> slash) r)" by (auto dest: set_takeWhileD)
  show ?thesis
  proof (cases "takeWhile (\<lambda>c. c \<noteq> slash) r = r")
    case True
    then have "slash \<notin> set (butlast r)" using no_slash in_set_butlastD by metis
    then show ?thesis by (simp only: segment_def Let_def True simp_thms if_True)
  next
    case False
    then show ?thesis using no_slash by (simp only: segment_def Let_def if_False butlast_snoc simp_thms)
  qed
qed

lemma bucket_names:
  assumes "e \<in> set (bucket_list m k)"
  shows "slash \<notin> set (butlast (se_name e))" and "\<exists>q. prefix k q \<and> hm_get m q \<noteq> None"
proof -
  show "slash \<notin> set (butlast (se_name e))" using assms segment_butlast by (auto simp: bucket_list_def)
  from assms obtain q where "q \<in> set (hm_keys m)" "strict_prefix k q" by (auto simp: bucket_list_def)
  then show "\<exists>q. prefix k q \<and> hm_get m q \<noteq> None" unfolding hm_keys_iff by (auto simp: strict_prefix_def)
qed

lemma object_store_bucket: "object_store bucket_operator hm_get"
proof -
  have "\<exists>q. prefix k q \<and> hm_get m q \<noteq> None" if "list_ex (prefix k) (hm_keys m)" for k and m :: "(string, bytes) hash_map"
    using that unfolding list_ex_keys by auto
  moreover note bucket_names
  ultimately show ?thesis
    unfolding object_store_def
    by (intro conjI allI impI; simp add: bucket_operator_def split: option.splits if_splits) (auto simp del: not_None_eq)
qed

definition media_bucket :: "(string, bytes) hash_map s3_storage" where
  "media_bucket = \<lparr>sg_operator = bucket_operator, sg_bucket = ''media'', sg_name = ''Media'', sg_region = ''eu-west-1'',
     sg_endpoint = None\<rparr>"

lemma media_bucket_names: "s3_named p \<Longrightarrow> \<not> str_contains ''OBJECT_NOT_FOUND'' (to_key p) \<Longrightarrow> p \<in> s3_names media_bucket"
  by (simp add: s3_names_def media_bucket_def)

section \<open>Moving an object\<close>



end
