(* ===== verification/S3_Listing.thy ===== *)
theory S3_Listing
  imports S3_Storage
begin

text \<open>
  What the adapter for a bucket lists, page by page; what deleting a directory does to what is in it; and the
  operations that read an object, change its bytes and write it back.
\<close>

section \<open>Paths of a listing\<close>

lemma hd_split_no_sep: "c \<notin> set (hd (split_on (\<lambda>x. x = c) s))"
  using split_on_no_sep [of "hd (split_on (\<lambda>x. x = c) s)" "\<lambda>x. x = c" s c] hd_in_set [OF split_on_not_Nil] by blast

lemma trim_end_no_slash: "slash \<notin> set s \<Longrightarrow> trim_end_slash s = s"
proof -
  assume "slash \<notin> set s"
  then have "slash \<notin> set (rev s)" by simp
  then have "dropWhile (\<lambda>c. c = slash) (rev s) = rev s" by (cases "rev s") auto
  then show ?thesis by (simp add: trim_end_slash_def)
qed

lemma s3_kept_name:
  assumes "s3_kept pre seen n = Some child"
  shows "child \<noteq> []" and "slash \<notin> set child" and "child \<notin> set seen" and "\<not> s3_temporary child n"
  using assms hd_split_no_sep [of slash] trim_end_no_slash [OF hd_split_no_sep]
  by (auto simp: s3_kept_def s3_child_def split: if_splits option.splits)

lemma path_join_inj:
  "slash \<notin> set a \<Longrightarrow> slash \<notin> set b \<Longrightarrow> path_join p a = path_join p b \<longleftrightarrow> a = b"
  by (cases a; cases b) (auto simp: path_join_def)

lemma s3_virtual_file_fields [simp]:
  "vf_name (s3_virtual_file ids n p sz dir) = n" "vf_path (s3_virtual_file ids n p sz dir) = p"
  "vf_is_directory (s3_virtual_file ids n p sz dir) = dir" "vf_size (s3_virtual_file ids n p sz dir) = sz"
  by (simp_all add: s3_virtual_file_def virtual_file_new_def Let_def)

lemma s3_children_paths:
  "f \<in> set (s3_children ids p pre seen es) \<Longrightarrow>
     \<exists>child. vf_name f = child \<and> child \<notin> set seen \<and> slash \<notin> set child \<and> child \<noteq> [] \<and>
       vf_path f = (if p = [] \<or> same_path p ''/'' then path_join ''/'' child else path_join p child)"
  by (induction es arbitrary: seen) (fastforce split: option.splits dest: s3_kept_name)+

lemma s3_list_files_Ok:
  "so_list (sg_operator c) (list_prefix (to_key p)) w = (Ok es, w') \<Longrightarrow>
     s3_list_files ids c p w = (Ok (sort_key s3_order (s3_children ids p (list_prefix (to_key p)) [] es)), w')"
  unfolding s3_list_files_def Let_def by (subst and_then_Ok) auto

lemma s3_children_distinct: "distinct (map vf_path (s3_children ids p pre seen es))"
proof (induction es arbitrary: seen)
  case (Cons e es)
  show ?case
  proof (cases "s3_kept pre seen (se_name e)")
    case (Some child)
    let ?path = "\<lambda>n. if p = [] \<or> same_path p ''/'' then path_join ''/'' n else path_join p n"
    have "vf_path f \<noteq> ?path child" if "f \<in> set (s3_children ids p pre (child # seen) es)" for f
      using s3_children_paths [OF that] path_join_inj [OF _ s3_kept_name(2) [OF Some]] by auto
    then have "?path child \<notin> vf_path ` set (s3_children ids p pre (child # seen) es)" by (metis imageE)
    then show ?thesis using Some Cons.IH by simp
  qed (use Cons.IH in simp)
qed simp

lemma length_s3_children: "length (s3_children ids p pre seen es) \<le> length es"
  by (induction es arbitrary: seen) (auto split: option.splits simp: le_SucI)

section \<open>Pages\<close>

text \<open>Asking for page after page with the token that the last one gave, until there is none.\<close>

fun s3_all_pages ::
    "nat \<Rightarrow> (string \<Rightarrow> string) \<Rightarrow> 'w s3_storage \<Rightarrow> string \<Rightarrow> usize \<Rightarrow> string option \<Rightarrow> ('w, virtual_file list) io_act" where
  "s3_all_pages 0 ids c p n token w = (Err ''out of fuel'', w)"
| "s3_all_pages (Suc fuel) ids c p n token w =
     and_then (s3_list_files_paginated ids c p (Some n) token)
       (\<lambda>(page, next). case next of
          None \<Rightarrow> (\<lambda>w. (Ok page, w))
        | Some t \<Rightarrow> and_then (s3_all_pages fuel ids c p n (Some t)) (\<lambda>rest w. (Ok (page @ rest), w))) w"

lemma sort_key_again [simp]: "sort_key f (sort_key f xs) = sort_key f xs" for f :: "'a \<Rightarrow> 'b::linorder"
  by (simp add: sort_key_id_if_sorted)

text \<open>The page after the first \<open>i\<close> files.\<close>

lemma takeWhile_path:
  assumes "distinct (map vf_path all)" and "i < length all"
  shows "length (takeWhile (\<lambda>f. vf_path f \<noteq> vf_path (all ! i)) all) = i"
proof -
  have "takeWhile (\<lambda>f. vf_path f \<noteq> vf_path (all ! i)) all = take i all"
  proof (rule takeWhile_eq_take_P_nth)
    show "vf_path (all ! j) \<noteq> vf_path (all ! i)" if "j < i" "j < length all" for j
      using assms that nth_eq_iff_index_eq [OF assms(1), of j i] by auto
  qed simp
  then show ?thesis using assms(2) by simp
qed

lemma s3_page_at:
  assumes "distinct (map vf_path all)" and "sort_key s3_order all = all" and "i \<le> length all"
    and "token = (if i = 0 then None else Some (vf_path (all ! (i - 1))))" and "i = length all \<longrightarrow> all = []"
    and "n \<noteq> 0" and "unat n + length all < 2 ^ 64"
  shows "s3_page (Some n) token all =
    (take (unat n) (drop i all),
     if i + unat n < length all then Some (vf_path (all ! (i + unat n - 1))) else None)"
proof -
  have start: "(case token of
        Some t \<Rightarrow> (let j = length (takeWhile (\<lambda>f. vf_path f \<noteq> t) all) in if j < length all then Suc j else 0)
      | None \<Rightarrow> 0) = i"
    using assms(3,4) takeWhile_path [OF assms(1), of "i - 1"] by (cases i) auto
  have "0 < unat n" using assms(6) by (simp add: unat_gt_0)
  have len: "unat (of_nat (length all) :: usize) = length all" "unat (of_nat i :: usize) = i"
    using assms(3,7) by (simp_all add: unat_of_nat_le)
  then have "unat (of_nat i + n) = i + unat n" using assms(3,7) by (subst unat_add_nowrap) auto
  then have "of_nat i + n < (of_nat (length all) :: usize) \<longleftrightarrow> i + unat n < length all" using len by (simp add: word_less_nat_alt)
  moreover have "last (take (unat n) (drop i all)) = all ! (i + unat n - 1)" if "i + unat n < length all"
    using that \<open>0 < unat n\<close> by (subst last_conv_nth) (auto simp: add_ac)
  moreover have "take (unat n) (drop i all) \<noteq> []" if "i + unat n < length all" using that \<open>0 < unat n\<close> by auto
  ultimately show ?thesis unfolding s3_page_def Let_def assms(2) option.case start [unfolded Let_def] by auto
qed

lemma s3_all_pages_from:
  assumes "so_list (sg_operator c) (list_prefix (to_key p)) w = (Ok es, w)" and "n \<noteq> 0"
    and "all = sort_key s3_order (s3_children ids p (list_prefix (to_key p)) [] es)" and "unat n + length all < 2 ^ 64"
    and "i < length all \<or> i = 0" and "token = (if i = 0 then None else Some (vf_path (all ! (i - 1))))"
    and "length all - i < fuel"
  shows "s3_all_pages fuel ids c p n token w = (Ok (drop i all), w)"
  using assms(5-7)
proof (induction fuel arbitrary: i token)
  case (Suc fuel)
  have "distinct (map vf_path all)" using s3_children_distinct assms(3) by (simp add: distinct_map)
  moreover have "sort_key s3_order all = all" using assms(3) by simp
  ultimately have page: "s3_page (Some n) token all = (take (unat n) (drop i all),
      if i + unat n < length all then Some (vf_path (all ! (i + unat n - 1))) else None)"
    using Suc.prems assms(2,4) by (intro s3_page_at) auto
  have files: "s3_list_files ids c p w = (Ok all, w)" using s3_list_files_Ok [OF assms(1)] assms(3) by simp
  have pos: "0 < unat n" using assms(2) by (simp add: unat_gt_0)
  show ?case
  proof (cases "i + unat n < length all")
    case True
    then have "s3_all_pages fuel ids c p n (Some (vf_path (all ! (i + unat n - 1)))) w = (Ok (drop (i + unat n) all), w)"
      using Suc.prems(3) pos by (intro Suc.IH) auto
    moreover have "take (unat n) (drop i all) @ drop (i + unat n) all = drop i all"
      by (metis append_take_drop_id drop_drop add.commute)
    ultimately show ?thesis using True files page by (simp add: s3_list_files_paginated_def)
  next
    case False
    then show ?thesis using files page by (simp add: s3_list_files_paginated_def)
  qed
qed simp

text \<open>
  (C16) Walking the pages of a listing of a bucket, of whatever size but zero, gives the files of the listing, each once and
  in the same order, as long as the bucket lists the same objects. One request for every file, and one more, are enough.
\<close>

theorem s3_pages_complete:
  assumes "so_list (sg_operator c) (list_prefix (to_key p)) w = (Ok es, w)" and "n \<noteq> 0" and "unat n + length es < 2 ^ 64"
    and "length es < fuel"
  shows "s3_all_pages fuel ids c p n None w = s3_list_files ids c p w \<and>
    (\<exists>fs. s3_list_files ids c p w = (Ok fs, w) \<and> distinct (map vf_path fs))"
proof -
  let ?all = "sort_key s3_order (s3_children ids p (list_prefix (to_key p)) [] es)"
  have len: "length ?all \<le> length es" by (simp add: length_s3_children)
  have files: "s3_list_files ids c p w = (Ok ?all, w)" by (rule s3_list_files_Ok [OF assms(1)])
  have "s3_all_pages fuel ids c p n None w = (Ok (drop 0 ?all), w)"
    by (rule s3_all_pages_from [OF assms(1,2) refl]) (use assms len in auto)
  then show ?thesis using files s3_children_distinct by (simp add: distinct_map)
qed

theorem s3_pages_complete_witness:
  "s3_all_pages 5 id media_bucket ''/'' 2 None [(''c'', [1]), (''a'', [2]), (''d/e'', [3])] =
     s3_list_files id media_bucket ''/'' [(''c'', [1]), (''a'', [2]), (''d/e'', [3])]"
proof -
  let ?w = "[(''c'', [1 :: u8]), (''a'', [2]), (''d/e'', [3])]"
  have "snd (so_list (sg_operator media_bucket) (list_prefix (to_key ''/'')) ?w) = ?w \<and>
      (case fst (so_list (sg_operator media_bucket) (list_prefix (to_key ''/'')) ?w) of Ok es \<Rightarrow> length es = 3 | _ \<Rightarrow> False)"
    by code_simp
  then obtain es where es: "so_list (sg_operator media_bucket) (list_prefix (to_key ''/'')) ?w = (Ok es, ?w)" "length es = 3"
    by (cases "so_list (sg_operator media_bucket) (list_prefix (to_key ''/'')) ?w") (auto split: outcome.splits)
  have "unat (2 :: usize) + length es < 2 ^ 64" by (simp add: es(2))
  with s3_pages_complete [OF es(1), of 2 5 id] es(2) show ?thesis by simp
qed

section \<open>Deleting a directory\<close>

lemma s3_delete_all_others:
  assumes st: "object_store op v"
  shows "s3_delete_all op ks w = (r, w') \<Longrightarrow> r \<noteq> Panic \<Longrightarrow> k \<notin> set ks \<Longrightarrow> v w' k = v w k"
proof (induction ks arbitrary: w r)
  case (Cons x ks)
  obtain q w1 where q: "so_delete op x w = (q, w1)" by force
  obtain r' u where u: "s3_delete_all op ks w1 = (r', u)" by force
  have "q \<noteq> Panic \<and> r' \<noteq> Panic \<and> u = w'"
  proof (cases q)
    case (Ok a)
    then show ?thesis using Cons.prems(1,2) q u by simp
  next
    case (Err e)
    then show ?thesis using Cons.prems(1,2) q u by (cases r') (simp_all add: and_then_def)
  next
    case Panic
    then show ?thesis using Cons.prems(1,2) q by simp
  qed
  then have rest: "s3_delete_all op ks w1 = (r', w')" "r' \<noteq> Panic" using u by simp_all
  have "v w1 k = v w k"
  proof (cases q)
    case (Ok u)
    then show ?thesis using store_delete [OF st, of x w w1] q Cons.prems(3) by simp
  next
    case (Err e)
    then show ?thesis using store_delete_failed(1) [OF st] q by simp
  next
    case Panic
    then show ?thesis using q Cons.prems(1,2) by simp
  qed
  then show ?case using Cons.IH [OF rest] Cons.prems(3) by simp
qed simp

text \<open>The name of an entry is the last segment of its path, so it begins with the path of the directory only by accident.\<close>

lemma last_segment:
  assumes "slash \<notin> set (butlast n)" and "prefix (k @ [slash]) n \<or> n = k @ [slash]"
  shows "n = k @ [slash]"
proof (rule ccontr)
  assume "n \<noteq> k @ [slash]"
  then obtain t where "n = k @ [slash] @ t" "t \<noteq> []" using assms(2) by (auto simp: prefix_def)
  then show False using assms(1) by (simp add: butlast_append)
qed



text \<open>
  The operations that a bucket does not have, on an object that is there: after an append that succeeds the object
  has the old bytes and the new ones, or, when reading it failed, the new ones alone; a write at an offset
  overlays the bytes, filling a gap with zeros, as on a local source, but even when there are no bytes to write; truncating cuts and never
  extends. Nothing else changes.
\<close>

theorem s3_edits:
  assumes "s3_clean c v w" and "s3_view c v w p = Some b"
  shows "(s3_append c p d w = (Ok (), w') \<longrightarrow>
      s3_view c v w' = (s3_view c v w)(p \<mapsto> (case fst (so_read (sg_operator c) (to_key p) w) of Ok _ \<Rightarrow> b @ d | _ \<Rightarrow> d))) \<and>
    (s3_write_at c p off d w = (Ok (), w') \<longrightarrow>
      s3_view c v w' = (s3_view c v w)(p \<mapsto>
        (if d = [] then b @ replicate (unat off - length b) 0 else overlay (unat off) d b)) \<and> unat off + length d < 2 ^ 63) \<and>
    (s3_truncate c p len w = (Ok (), w') \<longrightarrow> s3_view c v w' = (s3_view c v w)(p \<mapsto> take (unat len) b))"
proof -
  have p: "p \<in> s3_names c" using assms(2) by (simp add: s3_view_Some)
  note st = s3_clean_store [OF assms(1)] and key = s3_namesD(3) [OF p]
  have put: "s3_view c v u' = (s3_view c v w)(p \<mapsto> x)" if "so_write (sg_operator c) (to_key p) x u = (Ok (), u')" "v u = v w" for x u u'
  proof -
    have "v u' = (v w)(to_key p \<mapsto> x)" using store_write [OF st key that(1)] that(2) by simp
    then show ?thesis by (rule s3_view_update [OF p _ assms(1), THEN conjunct2])
  qed
  have rd: "v u = v w" "x = Ok y \<Longrightarrow> y = b" if "so_read (sg_operator c) (to_key p) w = (x, u)" for x y u
    using store_read(1) [OF st that] store_read(2) [OF st that, of y] assms(2) by (auto simp: s3_view_Some)
  obtain x u where x: "so_read (sg_operator c) (to_key p) w = (x, u)" by force
  have "splice off d b = (if d = [] then b @ replicate (off - length b) 0 else overlay off d b)" for off
  proof (cases "length b < off")
    case True
    then show ?thesis by (auto simp: splice_def overlay_def Let_def)
  next
    case False
    then show ?thesis by (auto simp: splice_def overlay_def Let_def)
  qed
  then show ?thesis
    using put [of _ u w'] rd [OF x] x
    by (cases x) (auto simp: s3_append_def s3_write_at_def s3_truncate_def Let_def and_then_Ok_iff split: if_splits)
qed

theorem s3_edits_witness:
  "\<exists>w'. s3_append media_bucket ''/a'' [6] [(''a'', [5])] = (Ok (), w') \<and> s3_view media_bucket hm_get w' ''/a'' = Some [5, 6]"
proof -
  let ?run = "s3_append media_bucket ''/a'' [6] [(''a'', [5 :: u8])]"
  have "fst ?run = Ok () \<and> to_key ''/a'' = ''a'' \<and> s3_named ''/a'' \<and> \<not> str_contains ''OBJECT_NOT_FOUND'' ''a''" by code_simp
  then have run: "?run = (Ok (), snd ?run)" "to_key ''/a'' = ''a''"
    and "''/a'' \<in> s3_names media_bucket" using media_bucket_names [of "''/a''"] by (metis prod.collapse)+
  then have "s3_clean media_bucket hm_get [(''a'', [5])]" "s3_view media_bucket hm_get [(''a'', [5])] ''/a'' = Some [5]"
    using object_store_bucket by (auto simp: s3_clean_def s3_view_Some media_bucket_def split: if_splits)
  from s3_edits [OF this] run(1) have "s3_view media_bucket hm_get (snd ?run) = (s3_view media_bucket hm_get [(''a'', [5])])(''/a'' \<mapsto>
      (case fst (so_read (sg_operator media_bucket) (to_key ''/a'') [(''a'', [5])]) of Ok _ \<Rightarrow> [5] @ [6] | _ \<Rightarrow> [6]))"
    by blast
  then show ?thesis using run by (intro exI conjI) (auto simp: media_bucket_def bucket_operator_def)
qed

section \<open>Directories and credentials\<close>

text \<open>An operator that refuses to write to a path that ends in a slash makes no markers: making a directory succeeds, and
  changes nothing.\<close>

lemma s3_mkdir_makes_nothing:
  assumes "object_store (sg_operator c) v"
    and "\<And>u. so_write (sg_operator c) (to_key p @ [slash]) [] u = (Err ''IsADirectory: write path is a directory'', u)"
    and "to_key p \<noteq> []" and "fst (s3_exists_or_not (sg_operator c) (to_key p @ [slash]) w) \<noteq> Panic"
  shows "\<exists>w'. s3_mkdir c p w = (Ok (), w') \<and> v w' = v w"
proof -
  obtain m u where m: "s3_exists_or_not (sg_operator c) (to_key p @ [slash]) w = (m, u)" by force
  have "m \<noteq> Err e" for e using m by (auto simp: s3_exists_or_not_def split: prod.splits outcome.splits)
  then obtain b where b: "m = Ok b" using assms(4) m by (cases m) auto
  have "str_contains ''isadirectory'' (to_lowercase ''IsADirectory: write path is a directory'')" by code_simp
  then have "s3_mkdir c p w = (Ok (), u)" using m b assms(2,3) by (simp add: s3_mkdir_def Let_def)
  then show ?thesis using s3_exists_or_not_view [OF assms(1) m] by blast
qed

text \<open>New credentials reach the bucket without the endpoint it was opened with.\<close>

lemma s3_refresh_forgets_endpoint:
  "s3_refresh_credentials env build ak sk tok c =
     s3_refresh_credentials env (\<lambda>p. build (p\<lparr>s3_endpoint := None\<rparr>)) ak sk tok c"
  by (simp add: s3_refresh_credentials_def s3_with_credentials_def)

end
