(* ===== verification/Operation_Tracking.thy ===== *)
theory Operation_Tracking
  imports Audit_Log Vfs_Service
begin

text \<open>
  Tracking of operations with their metadata (\<open>apps/vfs-desktop/src-tauri/src/vfs/operation_tracking.rs\<close>): the tracker
  and the audit log as one state, and the operations run between a start and an end that are recorded there.

  How the writes of the two end, and the metrics of the machine, are given per call (\<open>tk_io\<close>, \<open>tk_audit_io\<close>,
  \<open>tk_metrics\<close>, indexed by the number of calls so far); the name of the user is fixed. Errors of the tracker and the log
  are logged only.
\<close>

section \<open>State\<close>

record tracking =
  tk_tracker :: tracker
  tk_audit :: audit_log
  tk_io :: "nat \<Rightarrow> io"
  tk_audit_io :: "nat \<Rightarrow> audit_io"
  tk_metrics :: "nat \<Rightarrow> metrics"
  tk_calls :: nat
  tk_user :: "string option"

type_synonym ('s, 'a) tracked = "('s \<times> tracking, string, 'a) act"

definition on_tracker :: "(io \<Rightarrow> tracker \<Rightarrow> 'a \<times> tracker) \<Rightarrow> tracking \<Rightarrow> 'a \<times> tracking" where
  "on_tracker f t =
     (case f (tk_io t (tk_calls t)) (tk_tracker t) of
        (r, s) \<Rightarrow> (r, t\<lparr>tk_tracker := s, tk_calls := Suc (tk_calls t)\<rparr>))"

text \<open>The record of an operation that is still tracked goes to the audit log.\<close>

definition log_tracked :: "string \<Rightarrow> tracking \<Rightarrow> (audit_error, unit) outcome \<times> tracking" where
  "log_tracked k t =
     (case get_operation k (tk_tracker t) of
        Returned v \<Rightarrow>
          (case log_operation (tk_audit_io t (tk_calls t)) v (tk_audit t) of
             (r, l) \<Rightarrow> (r, t\<lparr>tk_audit := l, tk_calls := Suc (tk_calls t)\<rparr>))
      | _ \<Rightarrow> (Ok (), t))"

section \<open>Starting\<close>

definition track_operation_start ::
    "operation_type \<Rightarrow> string \<Rightarrow> string \<Rightarrow> string option \<Rightarrow> u64 option \<Rightarrow> tracking \<Rightarrow> string \<times> tracking" where
  "track_operation_start ty source_id source_path dest file_size t =
     on_tracker (\<lambda>i. create_multi_file_operation_with_context i ty source_id source_path dest file_size None (tk_user t) None) t"

definition tracked_files :: "string option \<Rightarrow> (string \<times> u64) list \<Rightarrow> operation_file list" where
  "tracked_files dest files =
     map (\<lambda>(p, n). \<lparr>of_local_path = p, of_remote_path = (case dest of Some d \<Rightarrow> d | None \<Rightarrow> []), of_file_size = n,
                    of_bytes_processed = 0, of_status = Some Pending, of_error = None\<rparr>) files"

text \<open>The sum of the sizes wraps.\<close>

definition track_multi_file_operation_start ::
    "operation_type \<Rightarrow> string \<Rightarrow> string \<Rightarrow> string option \<Rightarrow> (string \<times> u64) list \<Rightarrow> tracking \<Rightarrow> string \<times> tracking" where
  "track_multi_file_operation_start ty source_id source_path dest files t =
     on_tracker (\<lambda>i. create_multi_file_operation_with_context i ty source_id source_path dest
       (Some (sum_list (map snd files))) (Some (tracked_files dest files)) (tk_user t) None) t"

definition track_paste_operation_start ::
    "string \<Rightarrow> string \<Rightarrow> string \<Rightarrow> string \<Rightarrow> (string \<times> u64) list \<Rightarrow> tracking \<Rightarrow> string \<times> tracking" where
  "track_paste_operation_start source_id dest_source_id source_path dest_path files =
     track_multi_file_operation_start Paste dest_source_id dest_path (Some source_path) files"

section \<open>Ending\<close>

definition tracked_progress :: "string \<Rightarrow> u64 \<Rightarrow> tracking \<Rightarrow> unit call \<times> tracking" where
  "tracked_progress k n = on_tracker (\<lambda>i. update_progress i k n)"

definition tracked_metrics :: "string \<Rightarrow> tracking \<Rightarrow> tracking" where
  "tracked_metrics k t = snd (on_tracker (\<lambda>i s. ((), update_with_metrics (tk_metrics t (tk_calls t)) k s)) t)"

definition tracked_complete :: "string \<Rightarrow> tracking \<Rightarrow> unit call \<times> tracking" where
  "tracked_complete k t = on_tracker (\<lambda>i. complete_operation i (tk_metrics t (tk_calls t)) k) t"

definition tracked_fail :: "string \<Rightarrow> string \<Rightarrow> tracking \<Rightarrow> unit call \<times> tracking" where
  "tracked_fail k e = on_tracker (\<lambda>i. fail_operation i k e)"

text \<open>Ending an operation by hand: the log is written when the tracker could save its state.\<close>

definition end_operation :: "(tracking \<Rightarrow> unit call \<times> tracking) \<Rightarrow> string \<Rightarrow> tracking \<Rightarrow> unit call \<times> tracking" where
  "end_operation f k t =
     (case f t of
        (Returned u, t) \<Rightarrow>
          (case log_tracked k t of (Ok u, t) \<Rightarrow> (Returned (), t) | (_, t) \<Rightarrow> (IoFailed ''Failed to write audit log'', t))
      | r \<Rightarrow> r)"

definition helper_complete_operation :: "string \<Rightarrow> tracking \<Rightarrow> unit call \<times> tracking" where
  "helper_complete_operation k = end_operation (tracked_complete k) k"

definition helper_fail_operation :: "string \<Rightarrow> string \<Rightarrow> tracking \<Rightarrow> unit call \<times> tracking" where
  "helper_fail_operation k e = end_operation (tracked_fail k e) k"

section \<open>Tracking an operation\<close>

text \<open>The size of a file, if the source can tell (\<open>ok()\<close>).\<close>

definition size_if_known :: "(string \<Rightarrow> ('s, u64) io_act) option \<Rightarrow> string \<Rightarrow> ('s, u64 option) io_act" where
  "size_if_known sizes p s =
     (case sizes of
        None \<Rightarrow> (Ok None, s)
      | Some f \<Rightarrow> (case f p s of (Ok n, s) \<Rightarrow> (Ok (Some n), s) | (Err e, s) \<Rightarrow> (Ok None, s) | (Panic, s) \<Rightarrow> (Panic, s)))"

definition on_files :: "('s, 'a) io_act \<Rightarrow> ('s, 'a) tracked" where
  "on_files m = (\<lambda>(s, t). case m s of (r, s) \<Rightarrow> (r, (s, t)))"

definition on_tracking :: "(tracking \<Rightarrow> 'a \<times> tracking) \<Rightarrow> ('s, 'a) tracked" where
  "on_tracking f = (\<lambda>(s, t). case f t of (r, t) \<Rightarrow> (Ok r, (s, t)))"

definition track_operation_with_metadata ::
    "operation_type \<Rightarrow> string \<Rightarrow> string \<Rightarrow> string option \<Rightarrow> (string \<Rightarrow> ('s, u64) io_act) option \<Rightarrow> ('s, 'a) io_act \<Rightarrow>
     ('s, string \<times> 'a) tracked" where
  "track_operation_with_metadata ty source_id source_path dest sizes operation =
     and_then (on_files (size_if_known sizes source_path))
       (\<lambda>file_size. and_then (on_tracking (track_operation_start ty source_id source_path dest file_size))
       (\<lambda>k (s, t).
          case operation s of
            (Panic, s) \<Rightarrow> (Panic, (s, t))
          | (Err e, s) \<Rightarrow> (Err e, (s, snd (log_tracked k (snd (tracked_fail k e t)))))
          | (Ok output, s) \<Rightarrow>
              and_then
                (on_files (case (sizes, dest) of
                   (Some f, Some d) \<Rightarrow> size_if_known sizes d | _ \<Rightarrow> (\<lambda>s. (Ok file_size, s))))
                (\<lambda>final (s, t).
                   let t = (case final of
                       Some n \<Rightarrow> snd (on_tracker (\<lambda>i. update_operation_progress i k n (Some n)) t) | None \<Rightarrow> t);
                     t = snd (log_tracked k (snd (tracked_complete k t)))
                   in (Ok (k, output), (s, t))) (s, t)))"

definition track_directory_operation ::
    "operation_type \<Rightarrow> string \<Rightarrow> string \<Rightarrow> (string \<Rightarrow> ('s, u64) io_act) option \<Rightarrow> ('s, 'a) io_act \<Rightarrow> ('s, string \<times> 'a) tracked" where
  "track_directory_operation ty source_id path sizes operation =
     track_operation_with_metadata ty source_id path None sizes operation"

definition track_rename_operation ::
    "string \<Rightarrow> string \<Rightarrow> string \<Rightarrow> (string \<Rightarrow> ('s, u64) io_act) option \<Rightarrow> ('s, 'a) io_act \<Rightarrow> ('s, string \<times> 'a) tracked" where
  "track_rename_operation source_id old new sizes operation =
     track_operation_with_metadata Rename source_id old (Some new) sizes operation"

definition track_copy_operation ::
    "string \<Rightarrow> string \<Rightarrow> string \<Rightarrow> (string \<Rightarrow> ('s, u64) io_act) option \<Rightarrow> ('s, 'a) io_act \<Rightarrow> ('s, string \<times> 'a) tracked" where
  "track_copy_operation source_id from to sizes operation =
     track_operation_with_metadata Copy source_id from (Some to) sizes operation"

definition track_move_operation ::
    "string \<Rightarrow> string \<Rightarrow> string \<Rightarrow> (string \<Rightarrow> ('s, u64) io_act) option \<Rightarrow> ('s, 'a) io_act \<Rightarrow> ('s, string \<times> 'a) tracked" where
  "track_move_operation source_id from to sizes operation =
     track_operation_with_metadata Move source_id from (Some to) sizes operation"

definition track_delete_operation ::
    "string \<Rightarrow> string \<Rightarrow> (string \<Rightarrow> ('s, u64) io_act) option \<Rightarrow> ('s, 'a) io_act \<Rightarrow> ('s, string \<times> 'a) tracked" where
  "track_delete_operation source_id path sizes operation =
     track_operation_with_metadata Delete source_id path None sizes operation"

section \<open>What is recorded\<close>

lemma on_tracker_fields [simp]:
  "tk_audit (snd (on_tracker f t)) = tk_audit t"
  "tk_tracker (snd (on_tracker f t)) = snd (f (tk_io t (tk_calls t)) (tk_tracker t))"
  "fst (on_tracker f t) = fst (f (tk_io t (tk_calls t)) (tk_tracker t))"
  by (simp_all add: on_tracker_def split: prod.split)

lemma finish_get:
  "hm_get (ot_ops (snd (finish i k v s))) k = Some w \<Longrightarrow> w = v"
  by (auto simp: finish_def save_state_def cleanup_old_operations_def append_to_audit_log_def hm_get_fold_remove
      split: if_splits)

lemma complete_get:
  assumes "hm_get (ot_ops s) k = Some v" and "op_files v = None"
    and "hm_get (ot_ops (snd (complete_operation i m k s))) k = Some w"
  shows "op_status w = Completed"
proof -
  have upd: "hm_get (ot_ops (update_with_metrics m k s)) k = Some (apply_metrics m (now_at s 0) v)"
    using assms(1) by (simp add: update_with_metrics_def modify_op_def ticked_def)
  then obtain v' where v': "completion (now_at (update_with_metrics m k s) 0) (now_at (update_with_metrics m k s) 1)
      (apply_metrics m (now_at s 0) v) = Some v'"
    using assms(2) by (auto simp: completion_def apply_metrics_def Let_def)
  then have "w = v'" using assms(3) upd finish_get by (fastforce simp: complete_operation_def Let_def)
  then show ?thesis using completion_status [OF v'] by simp
qed

lemma fail_get:
  assumes "hm_get (ot_ops s) k = Some v" and "hm_get (ot_ops (snd (fail_operation i k e s))) k = Some w"
  shows "op_status w = Failed \<and> op_error w = Some e"
  using assms finish_get by (fastforce simp: fail_operation_def)

lemma log_tracked_fields [simp]:
  "tk_tracker (snd (log_tracked k t)) = tk_tracker t"
  "al_entries (tk_audit (snd (log_tracked k t))) = al_entries (tk_audit t) @
     (case hm_get (ot_ops (tk_tracker t)) k of Some v \<Rightarrow> [audit_entry_from v] | None \<Rightarrow> [])"
  by (auto simp: log_tracked_def get_operation_def log_operation_def al_save_def split: option.split prod.split write_result.split)

lemma create_get:
  "fst (track_operation_start ty i p d n t) = ot_uuids (tk_tracker t) (ot_next (tk_tracker t))"
  "\<exists>v. hm_get (ot_ops (tk_tracker (snd (track_operation_start ty i p d n t))))
     (ot_uuids (tk_tracker t) (ot_next (tk_tracker t))) = Some v \<and> op_files v = None"
  "tk_audit (snd (track_operation_start ty i p d n t)) = tk_audit t"
  by (simp_all add: track_operation_start_def create_multi_file_operation_with_context_def Let_def
      append_to_audit_log_def ticked_def)

lemma size_if_known_Err: "fst (size_if_known sizes p s) \<noteq> Err e"
  by (auto simp: size_if_known_def split: option.split prod.split outcome.split)

text \<open>
  (C27) Tracking does not change what an operation does or returns: the result is that of the operation, with the identifier
  of its record. The record ends as completed, or as failed with the error of the operation, and exactly one entry,
  made of that final record, is added to the audit log -- unless the tracker has already trimmed the record from its
  history, in which case the log gets nothing.
\<close>

theorem tracked_operation:
  assumes "track_operation_with_metadata ty i p dest sizes operation (s, t) = (res, (s', t'))" and "res \<noteq> Panic"
    and "k = ot_uuids (tk_tracker t) (ot_next (tk_tracker t))"
  shows "\<exists>r. fst (operation (snd (size_if_known sizes p s))) = r \<and>
    (case r of
       Ok a \<Rightarrow> res = Ok (k, a)
     | Err e \<Rightarrow> res = Err e \<and> s' = snd (operation (snd (size_if_known sizes p s)))
     | Panic \<Rightarrow> False) \<and>
    (case hm_get (ot_ops (tk_tracker t')) k of
       None \<Rightarrow> al_entries (tk_audit t') = al_entries (tk_audit t)
     | Some v \<Rightarrow> al_entries (tk_audit t') = al_entries (tk_audit t) @ [audit_entry_from v] \<and>
         (case r of Err e \<Rightarrow> op_status v = Failed \<and> op_error v = Some e | _ \<Rightarrow> op_status v = Completed))"
proof -
  obtain n s1 where n: "size_if_known sizes p s = (Ok n, s1)"
    using assms(1,2) size_if_known_Err [of sizes p s]
    by (cases "size_if_known sizes p s"; cases "fst (size_if_known sizes p s)")
      (auto simp: track_operation_with_metadata_def on_files_def and_then_def)
  define t1 where "t1 = snd (track_operation_start ty i p dest n t)"
  note created = create_get [of ty i p dest n t, folded assms(3) t1_def]
  obtain v where v: "hm_get (ot_ops (tk_tracker t1)) k = Some v" "op_files v = None" using created(2) by blast
  have start: "track_operation_start ty i p dest n t = (k, t1)" using created(1) by (simp add: t1_def prod_eq_iff)
  obtain r s2 where r: "operation s1 = (r, s2)" by force
  show ?thesis
  proof (cases r)
    case (Err e)
    then have "res = Err e" "s' = s2" "t' = snd (log_tracked k (snd (tracked_fail k e t1)))"
      using assms(1) n start r by (auto simp: track_operation_with_metadata_def on_files_def on_tracking_def and_then_def)
    moreover have "op_status w = Failed \<and> op_error w = Some e"
      if "hm_get (ot_ops (tk_tracker (snd (tracked_fail k e t1)))) k = Some w" for w
      using fail_get [OF v(1)] that by (simp add: tracked_fail_def)
    ultimately show ?thesis using Err n r created(3) by (auto simp: tracked_fail_def split: option.split)
  next
    case (Ok a)
    have "fst ((case (sizes, dest) of (Some f, Some d) \<Rightarrow> size_if_known sizes d | _ \<Rightarrow> (\<lambda>s. (Ok n, s))) s2) \<noteq> Err e" for e
      by (simp add: size_if_known_Err split: option.split)
    with Ok obtain final s3 where f: "(case (sizes, dest) of (Some f, Some d) \<Rightarrow> size_if_known sizes d | _ \<Rightarrow> (\<lambda>s. (Ok n, s))) s2 = (Ok final, s3)"
      and end': "res = Ok (k, a)" "t' = snd (log_tracked k (snd (tracked_complete k
        (case final of Some n \<Rightarrow> snd (on_tracker (\<lambda>i. update_operation_progress i k n (Some n)) t1) | None \<Rightarrow> t1))))"
      using assms(1,2) n start r
      by (auto simp: track_operation_with_metadata_def on_files_def on_tracking_def and_then_def Let_def
          split: prod.splits outcome.splits)
    define t2 where "t2 = (case final of Some n \<Rightarrow> snd (on_tracker (\<lambda>i. update_operation_progress i k n (Some n)) t1) | None \<Rightarrow> t1)"
    have t2: "tk_audit t2 = tk_audit t" using created(3) by (simp add: t2_def split: option.split)
    have "\<exists>v. hm_get (ot_ops (tk_tracker t2)) k = Some v \<and> op_files v = None"
      using v by (auto simp: t2_def update_operation_progress_def save_state_def modify_op_def ticked_def apply_progress_def Let_def
          split: option.split)
    then have "op_status w = Completed" if "hm_get (ot_ops (tk_tracker (snd (tracked_complete k t2)))) k = Some w" for w
      using complete_get that by (auto simp: tracked_complete_def)
    then show ?thesis using Ok n r end' t2 by (auto simp: tracked_complete_def simp flip: t2_def split: option.split)
  next
    case Panic
    then show ?thesis using assms(1,2) n start r
      by (auto simp: track_operation_with_metadata_def on_files_def on_tracking_def and_then_def)
  qed
qed

definition demo_tracking :: tracking where
  "demo_tracking =
     \<lparr>tk_tracker = tracker_new None [] 10 (\<lambda>n. int n) dec,
      tk_audit = \<lparr>al_entries = [], al_file = NoAuditFile, al_jsonl = None, al_max_entries = 0\<rparr>,
      tk_io = (\<lambda>_. \<lparr>io_write = True, io_append = True\<rparr>),
      tk_audit_io = (\<lambda>_. \<lparr>ai_mkdir = True, ai_read = True, ai_write = Written\<rparr>),
      tk_metrics = (\<lambda>_. \<lparr>mt_cpu = 0, mt_memory = 0, mt_tx = 0, mt_rx = 0\<rparr>), tk_calls = 0, tk_user = Some ''ada''\<rparr>"

theorem tracked_operation_witness:
  "\<exists>t v. track_operation_with_metadata Delete ''a'' ''/f'' None None (\<lambda>s. (Err ''denied'', s)) ((), demo_tracking) =
       (Err ''denied'' :: (string, string \<times> unit) outcome, ((), t)) \<and>
     al_entries (tk_audit t) = [audit_entry_from v] \<and> op_status v = Failed"
proof -
  let ?run = "track_operation_with_metadata Delete ''a'' ''/f'' None None (\<lambda>s. (Err ''denied'' :: (string, unit) outcome, s))
    ((), demo_tracking)"
  have k: "ot_uuids (tk_tracker demo_tracking) (ot_next (tk_tracker demo_tracking)) = dec 0"
    by (simp add: demo_tracking_def tracker_new_def load_state_def)
  have "fst ?run = Err ''denied''" by code_simp
  then obtain t where t: "?run = (Err ''denied'', ((), t))" by (cases ?run) auto
  have "hm_get (ot_ops (tk_tracker (snd (snd ?run)))) (dec 0) \<noteq> None" by code_simp
  then obtain v where "hm_get (ot_ops (tk_tracker t)) (dec 0) = Some v" using t by auto
  with tracked_operation [OF t _ k [symmetric]] have "al_entries (tk_audit t) = [audit_entry_from v]" "op_status v = Failed"
    by (auto simp: demo_tracking_def)
  then show ?thesis using t by blast
qed

end
