(* ===== verification/Move_Ops.thy ===== *)
theory Move_Ops
  imports Local_Copy S3_Storage
begin

text \<open>
  The use cases that move files within a source, between sources, and between a source and the host
  (\<open>apps/vfs-desktop/src-tauri/src/vfs/use_cases/move_ops.rs\<close>), over a provider of file operations. The state holds the
  host as well: how it is read and replaced is the record \<open>native\<close>. An error with a context is the text of the context.
\<close>

section \<open>The host in the state\<close>

record 's native =
  nt_get :: "'s \<Rightarrow> host_files"
  nt_put :: "host_files \<Rightarrow> 's \<Rightarrow> 's"

definition on_native :: "'s native \<Rightarrow> 'a host_act \<Rightarrow> ('s, string, 'a) act" where
  "on_native nt m s = (case m (nt_get nt s) of (r, h) \<Rightarrow> (r, nt_put nt h s))"

definition contextual :: "string \<Rightarrow> ('s, string, 'a) act \<Rightarrow> ('s, string, 'a) act" where
  "contextual msg = map_err (\<lambda>_. msg)"

text \<open>The world of a service is the host itself.\<close>

definition host_native :: "('c, host_files) vfs_service native" where
  "host_native = \<lparr>nt_get = vs_world, nt_put = (\<lambda>h s. s\<lparr>vs_world := h\<rparr>)\<rparr>"

section \<open>Moving\<close>

definition move_within_vfs :: "'s provider \<Rightarrow> string \<Rightarrow> string \<Rightarrow> string \<Rightarrow> ('s, string, string) act" where
  "move_within_vfs pv i from to s =
     (if i = [] then (Err ''Source ID cannot be empty'', s)
      else if same_path from to then (Err ''Source and destination paths are the same'', s)
      else
        and_then (contextual ''Failed to check if source exists'' (pv_exists pv i from))
          (\<lambda>there. if \<not> there then (\<lambda>s. (Err (''Source path does not exist: '' @ from), s)) else
           and_then (contextual ''Failed to get file operations'' (pv_file_ops pv i))
          (\<lambda>ops. and_then (contextual (''Failed to move '' @ from @ '' to '' @ to) (fo_mv ops from to True))
          (\<lambda>_ s. (Ok to, s)))) s)"

definition move_between_vfs :: "'s provider \<Rightarrow> string \<Rightarrow> string \<Rightarrow> string \<Rightarrow> string \<Rightarrow> ('s, string, string) act" where
  "move_between_vfs pv i from j to s =
     (if i = [] \<or> j = [] then (Err ''Source IDs cannot be empty'', s)
      else if i = j then (Err ''Use MoveWithinVfsUseCase for same-source moves'', s)
      else
        and_then (contextual ''Failed to check if source exists'' (pv_exists pv i from))
          (\<lambda>there. if \<not> there then (\<lambda>s. (Err (''Source path does not exist: '' @ from), s)) else
           and_then (contextual (''Failed to copy '' @ from @ '' to destination'') (pv_copy_to_source pv i from j to))
          (\<lambda>_. and_then (contextual ''Failed to stat source'' (pv_stat pv i from))
          (\<lambda>st. and_then
             (if fs_is_dir st then contextual (''Failed to delete source directory '' @ from) (pv_rm_rf pv i from)
              else contextual (''Failed to delete source file '' @ from) (pv_rm pv i from))
          (\<lambda>_ s. (Ok to, s))))) s)"

definition move_vfs_to_native :: "'s provider \<Rightarrow> 's native \<Rightarrow> string \<Rightarrow> string \<Rightarrow> string \<Rightarrow> ('s, string, string) act" where
  "move_vfs_to_native pv nt i p native s =
     (if i = [] then (Err ''Source ID cannot be empty'', s)
      else if \<not> absolute native then (Err ''Native destination path must be absolute'', s)
      else
        and_then (contextual ''Failed to check if source exists'' (pv_exists pv i p))
          (\<lambda>there. if \<not> there then (\<lambda>s. (Err (''Source path does not exist: '' @ p), s)) else
           and_then (contextual ''Failed to read from VFS'' (pv_read pv i p))
          (\<lambda>d. and_then (contextual ''Failed to create parent directory'' (on_native nt (ensure_parent native)))
          (\<lambda>_. and_then (contextual (''Failed to write to native path '' @ native) (on_native nt (host_write native d)))
          (\<lambda>_. and_then (contextual (''Failed to delete source from VFS '' @ p) (pv_rm pv i p))
          (\<lambda>_ s. (Ok native, s)))))) s)"

definition move_native_to_vfs :: "'s provider \<Rightarrow> 's native \<Rightarrow> string \<Rightarrow> string \<Rightarrow> string \<Rightarrow> ('s, string, string) act" where
  "move_native_to_vfs pv nt native i p s =
     (if i = [] then (Err ''Destination source ID cannot be empty'', s)
      else if \<not> absolute native then (Err ''Native source path must be absolute'', s)
      else if \<not> host_exists native (nt_get nt s) then (Err (''Source path does not exist: '' @ native), s)
      else
        and_then (contextual (''Failed to read from native path '' @ native) (on_native nt (host_read native)))
          (\<lambda>d. and_then (contextual (''Failed to write to VFS '' @ p) (pv_write pv i p d))
          (\<lambda>_. and_then (contextual (''Failed to delete source from native '' @ native) (on_native nt (host_remove_file native)))
          (\<lambda>_ s. (Ok p, s)))) s)"

lemma contextual_Ok [simp]: "contextual msg m s = (Ok a, s') \<longleftrightarrow> m s = (Ok a, s')"
  by (simp add: contextual_def)

lemma on_native_Ok [simp]:
  "on_native nt m s = (Ok a, s') \<longleftrightarrow> (\<exists>h. m (nt_get nt s) = (Ok a, h) \<and> s' = nt_put nt h s)"
  by (auto simp: on_native_def split: prod.split)

section \<open>Within a source\<close>

context file_provider
begin

lemma move_within:
  assumes "ok s" and "view s p = Some d" and "leaf (view s) p" and "q \<in> names" and "\<not> prefix (p @ [slash]) q"
    and "move_within_vfs pv i p q s = (Ok r, s')"
  shows "r = q \<and> ok s' \<and> view s' = (view s)(q \<mapsto> d, p := None)"
proof -
  from assms(6) obtain ops sa sb where steps: "pv_exists pv i p s = (Ok True, sa)" "pv_file_ops pv i sa = (Ok ops, sb)"
    "fo_mv ops p q True sb = (Ok (), s')" "r = q" "\<not> same_path p q"
    by (auto simp: move_within_vfs_def and_then_Ok_iff split: if_splits)
  have a: "ok sa" "view sa = view s" using exists [OF assms(1) steps(1)] by blast+
  have "q \<noteq> p" using steps(5) by (auto simp: same_path_def)
  then show ?thesis using mv [OF a(1) _ _ assms(4) _ assms(5) steps(2,3)] a(2) assms(2,3) steps(4) by auto
qed

end

text \<open>
  Moving a file within a bucket with the service: when it succeeds, the destination has the bytes of the file, whatever
  was there before, the file is gone from its old path, and no other object changes.
\<close>

theorem move_within_bucket:
  assumes "source_has i (s3_file_ops n c) s" and "s3_clean c v (vs_world s)" and "s3_view c v (vs_world s) p = Some d"
    and "leaf (s3_view c v (vs_world s)) p" and "q \<in> s3_names c" and "\<not> prefix (p @ [slash]) q"
    and "move_within_vfs (service_provider fuel) i p q s = (Ok r, s')"
  shows "r = q \<and> s3_clean c v (vs_world s') \<and>
    s3_view c v (vs_world s') = (s3_view c v (vs_world s))(q \<mapsto> d, p := None)"
  using s3.provided.move_within [of i n c s v p d q fuel] assms by blast

lemma move_within_local:
  assumes "source_has i (local_file_ops walk base) s" and "host_ok (vs_world s)" and "local_view base (vs_world s) p = Some d"
    and "leaf (local_view base (vs_world s)) p" and "local_name base q" and "\<not> prefix (p @ [slash]) q"
    and "move_within_vfs (service_provider fuel) i p q s = (Ok r, s')"
  shows "r = q \<and> host_ok (vs_world s') \<and>
    local_view base (vs_world s') = (local_view base (vs_world s))(q \<mapsto> d, p := None)"
  using local.provided.move_within [of i walk base s p d q fuel] assms by blast

definition bucket_service :: "(nvme_cache, (string, bytes) hash_map) vfs_service" where
  "bucket_service =
     add_source demo_source (s3_adapter id media_bucket) (Some (s3_file_ops 1 media_bucket))
       (with_cache_and_factory (vs_cache_port demo_service) (vs_cache demo_service) [(''a'', [5])])"

lemma bucket_service_fields:
  "source_has ''a'' (s3_file_ops 1 media_bucket) bucket_service" "vs_world bucket_service = [(''a'', [5])]"
  by (simp_all add: bucket_service_def add_source_def source_has_def with_cache_and_factory_def demo_source_def)

theorem move_within_bucket_witness:
  "\<exists>s'. move_within_vfs (service_provider 1) ''a'' ''/a'' ''/b'' bucket_service = (Ok ''/b'', s') \<and>
     s3_view media_bucket hm_get (vs_world s') ''/b'' = Some [5] \<and> s3_view media_bucket hm_get (vs_world s') ''/a'' = None"
proof -
  let ?run = "move_within_vfs (service_provider 1) ''a'' ''/a'' ''/b'' bucket_service"
  have "fst ?run = Ok ''/b''" by code_simp
  then have run: "?run = (Ok ''/b'', snd ?run)" by (metis prod.collapse)
  have "s3_named ''/a'' \<and> \<not> str_contains ''OBJECT_NOT_FOUND'' (to_key ''/a'')"
    "s3_named ''/b'' \<and> \<not> str_contains ''OBJECT_NOT_FOUND'' (to_key ''/b'')" "to_key ''/a'' = ''a''" by code_simp+
  then have names: "''/a'' \<in> s3_names media_bucket" "''/b'' \<in> s3_names media_bucket" and key: "to_key ''/a'' = ''a''"
    using media_bucket_names by blast+
  then have clean: "s3_clean media_bucket hm_get (vs_world bucket_service)"
    "s3_view media_bucket hm_get (vs_world bucket_service) ''/a'' = Some [5]"
    using object_store_bucket
    by (auto simp: s3_clean_def s3_view_Some media_bucket_def bucket_service_fields split: if_splits)
  have "leaf (s3_view media_bucket hm_get (vs_world bucket_service)) ''/a''"
  proof -
    have "s3_view media_bucket hm_get (vs_world bucket_service) q = None" if "prefix (''/a'' @ [slash]) q" for q
    proof (cases "q \<in> s3_names media_bucket")
      case True
      then have "to_key q \<noteq> ''a''" using s3_names_inj [OF True names(1)] key that by auto
      then show ?thesis by (simp add: s3_view_def bucket_service_fields)
    qed (simp add: s3_view_def)
    then show ?thesis by (simp add: leaf_def)
  qed
  from move_within_bucket [OF bucket_service_fields(1) clean this names(2) _ run] run show ?thesis by auto
qed

section \<open>From a source to the host\<close>

text \<open>A local directory as a source of the service.\<close>

definition local_source ::
    "(host_files \<Rightarrow> location \<Rightarrow> location list) \<Rightarrow> (string \<Rightarrow> string) \<Rightarrow> string \<Rightarrow> string \<Rightarrow> ('c, host_files) vfs_service \<Rightarrow> bool" where
  "local_source walk ids base i s \<longleftrightarrow>
     (case hm_get (vs_sources s) i of
        None \<Rightarrow> False
      | Some st \<Rightarrow> st_file_ops st = Some (local_file_ops walk base) \<and> st_adapter st = local_adapter walk ids base)"

lemma local_source_has: "local_source walk ids base i s \<Longrightarrow> source_has i (local_file_ops walk base) s"
  by (auto simp: local_source_def source_has_def split: option.splits)

lemma read_file_local:
  assumes "local_source walk ids base i s" and "read_file i p s = (Ok d, s')"
  shows "vs_world s' = vs_world s \<and> vs_sources s' = vs_sources s \<and>
    (cp_is_cached (vs_cache_port s) p (vs_cache s) \<or> ls_read_file base p (vs_world s) = (Ok d, vs_world s))"
proof (cases "cp_is_cached (vs_cache_port s) p (vs_cache s)")
  case True
  then show ?thesis using assms(2) by (auto simp: read_file_def on_cache_def split: prod.splits)
next
  case False
  obtain st where st: "hm_get (vs_sources s) i = Some st" "st_adapter st = local_adapter walk ids base"
    using assms(1) by (auto simp: local_source_def split: option.splits)
  have same: "snd (ls_read_file base p w) = w" for w by (simp add: ls_read_file_def Let_def)
  obtain r where r: "ls_read_file base p (vs_world s) = (r, vs_world s)" using same by (metis prod.collapse)
  have "r = Ok d \<and> vs_world s' = vs_world s \<and> vs_sources s' = vs_sources s"
    using assms(2) False st r
    by (cases r) (auto simp: read_file_def adapter_of_def on_world_def on_cache_def local_adapter_def and_then_def
        split: prod.splits outcome.splits)
  then show ?thesis using r by simp
qed

text \<open>
  Moving a file from a local source to another place on the host: when it succeeds, the file is gone from the source,
  and what is at the new place is what a read through the cache returned: the bytes of the file when its path was not cached.
  When it was -- for this source or any other -- the new file holds the cached bytes, and those of the source are lost.
\<close>

theorem move_to_native:
  assumes "local_source walk ids base i s" and "host_ok (vs_world s)" and "local_view base (vs_world s) p = Some b"
    and "locate (vs_world s) native \<noteq> locate (vs_world s) (resolve_path base p)"
    and "move_vfs_to_native (service_provider fuel) host_native i p native s = (Ok r, s')"
  shows "\<exists>d. node_at (vs_world s') (locate (vs_world s') native) = Some (FileNode d) \<and>
    local_view base (vs_world s') p = None \<and>
    (if cp_is_cached (vs_cache_port s) p (vs_cache s)
     then d = b \<or> fst (cp_read_from_cache (vs_cache_port s) p (vs_cache s)) = Ok d else d = b)"
proof -
  note has = local_source_has [OF assms(1)]
  have name: "local_name base p" using assms(3) by (simp add: local_view_Some)
  from assms(5) obtain sa d sb h1 h2 where steps: "pv_exists (service_provider fuel) i p s = (Ok True, sa)"
    "read_file i p sa = (Ok d, sb)" "ensure_parent native (vs_world sb) = (Ok (), h1)" "host_write native d h1 = (Ok (), h2)"
    "pv_rm (service_provider fuel) i p (sb\<lparr>vs_world := h2\<rparr>) = (Ok (), s')" "absolute native"
    by (auto simp: move_vfs_to_native_def and_then_Ok_iff host_native_def service_provider_def split: if_splits)
  obtain w0 where w0: "fo_exists (local_file_ops walk base) p (vs_world s) = (Ok True, w0)" "sa = s\<lparr>vs_world := w0\<rparr>"
    using steps(1) by (auto simp: service_provider_def with_ops_source [OF has])
  then have sa: "sa = s" by (simp add: local_file_ops_def ls_exists_def)
  have sb: "vs_world sb = vs_world s" "vs_sources sb = vs_sources s"
    "cp_is_cached (vs_cache_port s) p (vs_cache s) \<or> ls_read_file base p (vs_world s) = (Ok d, vs_world s)"
    using read_file_local [OF assms(1)] steps(2) sa by auto
  have g: "grew (vs_world s) h1" using ensure_parent_grew [OF steps(6)] steps(3) sb(1) by metis
  note c1 = grew_const [OF g]
  have h1: "host_ok h1" using g assms(2) by (simp add: grew_def)
  have put: "host_put (locate h1 native) d h1 = (Ok (), h2)" using steps(4) by (simp add: host_write_def)
  have h2: "host_ok h2" using host_ok_host_put [OF h1, of "locate h1 native" d] put by simp
  have c2: "locate h2 = locate (vs_world s)" "hf_denied h2 = hf_denied (vs_world s)"
    using host_constD [OF host_const_put_file [of "locate h1 native" d h1], unfolded put snd_conv] c1 by simp_all
  have b2: "local_view base h2 p = Some b"
  proof -
    have "node_at h2 (locate h1 (resolve_path base p)) = node_at h1 (locate h1 (resolve_path base p))"
      using node_at_host_put [of "locate h1 (resolve_path base p)" "locate h1 native" d h1] put assms(4) c1 by simp
    then show ?thesis using local_view_grew [OF g, of base] assms(3) c1 c2 by (simp add: local_view_Some) (metis local_view_Some)
  qed
  have has': "source_has i (local_file_ops walk base) (sb\<lparr>vs_world := h2\<rparr>)" using has sb(2) by (simp add: source_has_def)
  obtain w where w: "fo_rm (local_file_ops walk base) p h2 = (Ok (), w)" "vs_world s' = w"
    using steps(5) by (auto simp: service_provider_def svc_rm_def with_ops_source [OF has'])
  have "local_view base w p = None" using local.rm [OF h2 b2 w(1)] by simp
  moreover have "node_at w (locate w native) = Some (FileNode d)"
  proof -
    have "w = drop_nodes (\<lambda>k. k = locate h2 (resolve_path base p)) h2"
      using w(1) b2 by (auto simp: local_view_Some local_file_ops_def ls_delete_def and_then_Ok_iff Let_def host_remove_file_Ok)
    moreover have "node_at h2 (locate h2 native) = Some (FileNode d)" using put c1 c2 by auto
    ultimately show ?thesis using node_at_drop [OF host_ok_wf [OF h2]] assms(4) c2 by simp
  qed
  moreover have "if cp_is_cached (vs_cache_port s) p (vs_cache s)
      then d = b \<or> fst (cp_read_from_cache (vs_cache_port s) p (vs_cache s)) = Ok d else d = b"
  proof (cases "cp_is_cached (vs_cache_port s) p (vs_cache s)")
    case True
    then show ?thesis using steps(2) sa by (auto simp: read_file_def on_cache_def split: prod.splits)
  next
    case False
    then show ?thesis using sb(3) assms(3) by (auto simp: ls_read_file_def Let_def local_view_Some)
  qed
  ultimately show ?thesis using w(2) by blast
qed

text \<open>A service over the demonstration host, with one local directory.\<close>

definition local_service :: "(nvme_cache, host_files) vfs_service" where
  "local_service =
     add_source demo_source (local_adapter walk_nodes id ''/b'') (Some (local_file_ops walk_nodes ''/b''))
       (with_cache_and_factory (vs_cache_port demo_service) (vs_cache demo_service) demo_host)"

lemma local_service_fields:
  "local_source walk_nodes id ''/b'' ''a'' local_service" "vs_world local_service = demo_host"
  by (simp_all add: local_service_def add_source_def local_source_def with_cache_and_factory_def demo_source_def)

theorem move_to_native_witness:
  "\<exists>s'. move_vfs_to_native (service_provider 1) host_native ''a'' ''/src/d/f'' ''/b/out/g'' local_service =
       (Ok ''/b/out/g'', s') \<and>
     node_at (vs_world s') (locate (vs_world s') ''/b/out/g'') = Some (FileNode [7]) \<and>
     local_view ''/b'' (vs_world s') ''/src/d/f'' = None"
proof -
  let ?run = "move_vfs_to_native (service_provider 1) host_native ''a'' ''/src/d/f'' ''/b/out/g'' local_service"
  have "fst ?run = Ok ''/b/out/g''" by code_simp
  then have run: "?run = (Ok ''/b/out/g'', snd ?run)" by (metis prod.collapse)
  have "local_view ''/b'' (vs_world local_service) ''/src/d/f'' = Some [7]"
    "locate (vs_world local_service) ''/b/out/g'' \<noteq> locate (vs_world local_service) (resolve_path ''/b'' ''/src/d/f'')"
    "\<not> cp_is_cached (vs_cache_port local_service) ''/src/d/f'' (vs_cache local_service)" by code_simp+
  with move_to_native [OF local_service_fields(1) _ _ _ run] run show ?thesis
    using demo_host_ok by (auto simp: local_service_fields)
qed

end
