(* ===== verification/Clipboard_Copies.thy ===== *)
theory Clipboard_Copies
  imports Move_Ops
begin

text \<open>
  What a paste does with one file or directory (\<open>apps/vfs-desktop/src-tauri/src/vfs/adapters/clipboard.rs\<close>): the copies
  between the host and a source, between two sources, and within the host.

  The recursions follow listings, which need not end, and carry fuel. The entries of a directory are those it has when it
  is opened. On a host without symbolic links the canonical form of a path that exists is the path of its location.
\<close>

section \<open>Names\<close>

definition keep :: "'a \<Rightarrow> ('s, string, 'a) act" where
  "keep a s = (Ok a, s)"

definition refuse :: "string \<Rightarrow> ('s, string, 'a) act" where
  "refuse e s = (Err e, s)"

text \<open>A question whose error counts as an answer.\<close>

definition otherwise :: "'a \<Rightarrow> ('s, string, 'a) act \<Rightarrow> ('s, string, 'a) act" where
  "otherwise dflt m s = (case m s of (Err e, s) \<Rightarrow> (Ok dflt, s) | r \<Rightarrow> r)"

definition clip_file_name :: "string \<Rightarrow> string" where
  "clip_file_name p = name_or ''unnamed'' p"

text \<open>The name itself, ``name copy'', ``name copy 2'' and so on, up to the thousandth.\<close>

fun next_free_name :: "'s provider \<Rightarrow> string \<Rightarrow> string \<Rightarrow> string \<Rightarrow> nat \<Rightarrow> nat \<Rightarrow> ('s, string, string) act" where
  "next_free_name pv i dir base left k =
     (let candidate = path_join dir (if k = 0 then base else copy_name base k) in
      and_then (otherwise False (pv_exists pv i candidate))
        (\<lambda>taken. if \<not> taken then keep candidate
                 else (case left of
                         0 \<Rightarrow> refuse ''Too many duplicate names, cannot generate unique name''
                       | Suc l \<Rightarrow> next_free_name pv i dir base l (Suc k))))"

declare next_free_name.simps [simp del]

definition generate_unique_name :: "'s provider \<Rightarrow> string \<Rightarrow> string \<Rightarrow> string \<Rightarrow> ('s, string, string) act" where
  "generate_unique_name pv i dir base = next_free_name pv i dir base 1000 0"

definition canonical_or :: "string \<Rightarrow> host_files \<Rightarrow> string" where
  "canonical_or p h = (if host_exists p h then path_string (locate h p) else p)"

section \<open>From the host to a source\<close>

text \<open>Where the copy goes: a source that is its own destination gets another name.\<close>

definition native_destination :: "'s provider \<Rightarrow> 's native \<Rightarrow> string \<Rightarrow> string \<Rightarrow> string \<Rightarrow> ('s, string, string) act" where
  "native_destination pv nt src i dest s =
     (let name = clip_file_name src; first = path_join dest name; h = nt_get nt s; source = canonical_or src h in
      case path_parent src of
        None \<Rightarrow> (Ok first, s)
      | Some parent \<Rightarrow>
          let dest_canonical = (if absolute dest then canonical_or dest h else dest) in
          and_then
            (if same_path (canonical_or parent h) dest_canonical
             then and_then (otherwise False (pv_exists pv i first))
                    (\<lambda>there. if there then generate_unique_name pv i dest name else keep first)
             else keep first)
            (\<lambda>d s.
               if absolute dest \<and> host_exists d (nt_get nt s) \<and> same_path source (path_string (locate (nt_get nt s) d))
               then generate_unique_name pv i dest name s else (Ok d, s)) s)"

definition inside_source :: "string \<Rightarrow> string \<Rightarrow> bool" where
  "inside_source source d \<longleftrightarrow>
     (let a = trim_matches slash source; b = trim_matches slash d
      in a \<noteq> [] \<and> (prefix (a @ [slash]) b \<or> b = a))"

text \<open>What the copy of a directory returns for the errors of its entries.\<close>

fun joined_errors :: "string list \<Rightarrow> string" where
  "joined_errors [] = []"
| "joined_errors [e] = e"
| "joined_errors (e # es) = e @ ''; '' @ joined_errors es"

definition directory_result :: "string \<Rightarrow> string list \<Rightarrow> (string, string) outcome" where
  "directory_result d errors =
     (if errors = [] then Ok d
      else if length errors = 1 then Err (hd errors)
      else Err (''Failed to copy '' @ dec (length errors) @ '' files in directory: '' @ joined_errors errors))"

fun copy_native_to_vfs :: "nat \<Rightarrow> 's provider \<Rightarrow> 's native \<Rightarrow> string \<Rightarrow> string \<Rightarrow> string \<Rightarrow> ('s, string, string) act"
  and copy_native_entries :: "nat \<Rightarrow> 's provider \<Rightarrow> 's native \<Rightarrow> string \<Rightarrow> string \<Rightarrow> string \<Rightarrow> string list \<Rightarrow>
    ('s, string, string list) act" where
  "copy_native_to_vfs 0 pv nt src i dest s = (Err ''out of fuel'', s)"
| "copy_native_to_vfs (Suc fuel) pv nt src i dest s =
     (let source = canonical_or src (nt_get nt s) in
      and_then (native_destination pv nt src i dest)
        (\<lambda>first. and_then (contextual (''Failed to get metadata for '' @ debug_string src) (on_native nt (host_node_of src)))
        (\<lambda>node. case node of
           DirNode \<Rightarrow>
             and_then (if inside_source source first then generate_unique_name pv i dest (clip_file_name src) else keep first)
               (\<lambda>d. and_then (contextual (''Failed to create directory in VFS: '' @ debug_string d) (pv_mkdir_p pv i d))
               (\<lambda>_. and_then (contextual (''Failed to read directory: '' @ debug_string src) (on_native nt (host_read_dir src)))
               (\<lambda>names. and_then (copy_native_entries fuel pv nt src i d names)
               (\<lambda>errors s. (directory_result d errors, s)))))
         | FileNode _ \<Rightarrow>
             and_then (contextual (''Failed to read native file: '' @ debug_string src) (on_native nt (host_read src)))
               (\<lambda>data. and_then (contextual (''Failed to write to VFS: '' @ debug_string first) (pv_write pv i first data))
               (\<lambda>_. keep first)))) s)"
| "copy_native_entries fuel pv nt src i dest [] s = (Ok [], s)"
| "copy_native_entries fuel pv nt src i dest (x # xs) s =
     (let entry = path_join src x in
      case copy_native_to_vfs fuel pv nt entry i dest s of
        (Panic, s) \<Rightarrow> (Panic, s)
      | (Ok _, s) \<Rightarrow> copy_native_entries fuel pv nt src i dest xs s
      | (Err e, s) \<Rightarrow>
          and_then (copy_native_entries fuel pv nt src i dest xs)
            (\<lambda>errors. keep ((''Failed to copy '' @ debug_string entry @ '': '' @ e) # errors)) s)"

section \<open>From a source to the host\<close>

text \<open>When the source cannot say what a path is, one that can be listed is a directory.\<close>

definition is_directory :: "'s provider \<Rightarrow> string \<Rightarrow> string \<Rightarrow> ('s, string, bool) act" where
  "is_directory pv i p s =
     (case pv_stat pv i p s of
        (Ok st, s) \<Rightarrow> (Ok (fs_is_dir st), s)
      | (Panic, s) \<Rightarrow> (Panic, s)
      | (Err e, s) \<Rightarrow> otherwise False (and_then (pv_list_files pv i p) (\<lambda>_. keep True)) s)"

fun copy_vfs_to_native :: "nat \<Rightarrow> 's provider \<Rightarrow> 's native \<Rightarrow> string \<Rightarrow> string \<Rightarrow> string \<Rightarrow> ('s, string, string) act"
  and copy_vfs_entries :: "nat \<Rightarrow> 's provider \<Rightarrow> 's native \<Rightarrow> string \<Rightarrow> string \<Rightarrow> file_entry list \<Rightarrow> ('s, string, unit) act" where
  "copy_vfs_to_native 0 pv nt i src dest s = (Err ''out of fuel'', s)"
| "copy_vfs_to_native (Suc fuel) pv nt i src dest s =
     (let d = path_join dest (clip_file_name src) in
      and_then (is_directory pv i src)
        (\<lambda>dir. if dir then
             and_then (contextual (''Failed to create directory: '' @ debug_string d) (on_native nt (host_create_dir_all d)))
               (\<lambda>_ s. case pv_list_files pv i src s of
                  (Panic, s) \<Rightarrow> (Panic, s)
                | (Err e, s) \<Rightarrow> (Ok d, s)
                | (Ok entries, s) \<Rightarrow> and_then (copy_vfs_entries fuel pv nt i d entries) (\<lambda>_. keep d) s)
           else
             and_then (contextual (''Failed to read from VFS: '' @ debug_string src) (pv_read pv i src))
               (\<lambda>data. and_then (on_native nt (ensure_parent d))
               (\<lambda>_. and_then (contextual (''Failed to write to native: '' @ debug_string d) (on_native nt (host_write d data)))
               (\<lambda>_. keep d)))) s)"
| "copy_vfs_entries fuel pv nt i dest [] s = (Ok (), s)"
| "copy_vfs_entries fuel pv nt i dest (e # es) s =
     and_then (copy_vfs_to_native fuel pv nt i (fe_path e) dest) (\<lambda>_. copy_vfs_entries fuel pv nt i dest es) s"

section \<open>Between sources\<close>

definition paste_options :: "bool \<Rightarrow> copy_options" where
  "paste_options rec =
     \<lparr>co_overwrite = True, co_preserve_attributes = False, co_recursive = rec, co_follow_symlinks = False\<rparr>"

text \<open>Within a source the destination may be the file itself, inside it, or a directory of that name.\<close>

definition vfs_destination :: "'s provider \<Rightarrow> string \<Rightarrow> string \<Rightarrow> string \<Rightarrow> string \<Rightarrow> ('s, string, string) act" where
  "vfs_destination pv i src dest first =
     (let name = clip_file_name src; a = trim_matches slash src; b = trim_matches slash first in
      if a = b then generate_unique_name pv i dest name
      else
        and_then (otherwise False (and_then (pv_stat pv i src) (\<lambda>st. keep (fs_is_dir st))))
          (\<lambda>dir.
             if dir \<and> (prefix (a @ [slash]) b \<or> b = a)
             then refuse (''Cannot copy folder '' @ [CHR 0x22] @ name @ [CHR 0x22] @ '' into itself. The destination ''
               @ [CHR 0x22] @ first @ [CHR 0x22] @ '' is inside the source folder '' @ [CHR 0x22] @ src @ [CHR 0x22] @ ''.'')
             else if \<not> dir \<and> a = trim_matches slash dest
             then and_then (otherwise False (pv_exists pv i first))
                    (\<lambda>there. if there then generate_unique_name pv i dest name else keep first)
             else keep first))"

definition copy_vfs_to_vfs :: "'s provider \<Rightarrow> string \<Rightarrow> string \<Rightarrow> string \<Rightarrow> string \<Rightarrow> ('s, string, string) act" where
  "copy_vfs_to_vfs pv i src j dest =
     (let name = clip_file_name src;
          joined = path_join dest name;
          first = (if prefix [slash] joined then joined else path_join [slash] joined)
      in if name = [] then refuse ''Cannot copy: source path has no file name''
         else if trim_white first = [slash] \<or> trim_white first = []
         then refuse (''Cannot copy to root path - destination path would be invalid. File name: '' @ [CHR 0x27] @ name @ [CHR 0x27])
         else
           and_then (if i = j then vfs_destination pv i src dest first else keep first)
             (\<lambda>d. and_then (is_directory pv i src)
             (\<lambda>dir. and_then
                (if i = j then pv_copy pv i src d (paste_options dir) else pv_copy_to_source pv i src j d)
                (\<lambda>_. keep d))))"

section \<open>Within the host\<close>

text \<open>A file or folder is not copied onto itself, nor a folder into itself. The paths are compared before the copy.\<close>

definition native_refusal :: "string \<Rightarrow> string \<Rightarrow> host_files \<Rightarrow> host_node \<Rightarrow> string option" where
  "native_refusal src dest h node =
     (let name = clip_file_name src; d = path_join dest name;
          source = canonical_or src h; there = host_exists d h; d_canonical = path_string (locate h d);
          named = [CHR 0x22] @ name @ [CHR 0x22]
      in case node of
           DirNode \<Rightarrow>
             if there \<and> (prefix (source @ [slash]) d_canonical \<or> d_canonical = source)
             then Some (''Cannot copy folder '' @ named @ '' into itself. The destination ''
               @ [CHR 0x22] @ d @ [CHR 0x22] @ '' is inside the source folder.'')
             else if same_path source (canonical_or dest h)
             then Some (''Cannot copy folder '' @ named @ '' to the same location. Please choose a different destination.'')
             else None
         | FileNode _ \<Rightarrow>
             if there \<and> same_path source d_canonical
             then Some (''Cannot copy file '' @ named @ '' to itself. The source and destination are the same.'')
             else None)"

definition copy_native_file :: "'s native \<Rightarrow> string \<Rightarrow> string \<Rightarrow> ('s, string, unit) act" where
  "copy_native_file nt src d =
     and_then
       (case path_parent d of
          None \<Rightarrow> keep ()
        | Some parent \<Rightarrow> contextual (''Failed to create parent directory: '' @ debug_string parent)
            (on_native nt (host_create_dir_all parent)))
       (\<lambda>_. contextual (''Failed to copy '' @ debug_string src @ '' to '' @ debug_string d) (on_native nt (host_copy src d)))"

definition open_native_directory :: "'s native \<Rightarrow> string \<Rightarrow> string \<Rightarrow> ('s, string, string list) act" where
  "open_native_directory nt src d =
     and_then (contextual (''Failed to create destination directory: '' @ debug_string d) (on_native nt (host_create_dir_all d)))
       (\<lambda>_. contextual (''Failed to read source directory: '' @ debug_string src) (on_native nt (host_read_dir src)))"

fun copy_native_to_native :: "nat \<Rightarrow> 's native \<Rightarrow> string \<Rightarrow> string \<Rightarrow> ('s, string, string) act"
  and copy_host_entries :: "nat \<Rightarrow> 's native \<Rightarrow> string \<Rightarrow> string \<Rightarrow> string list \<Rightarrow> ('s, string, unit) act" where
  "copy_native_to_native 0 nt src dest s = (Err ''out of fuel'', s)"
| "copy_native_to_native (Suc fuel) nt src dest s =
     and_then (contextual (''Failed to get metadata for '' @ debug_string src) (on_native nt (host_node_of src)))
       (\<lambda>node.
          case native_refusal src dest (nt_get nt s) node of
            Some e \<Rightarrow> refuse e
          | None \<Rightarrow>
              and_then
                (if node = DirNode
                 then and_then (open_native_directory nt src (path_join dest (clip_file_name src)))
                        (copy_host_entries fuel nt src (path_join dest (clip_file_name src)))
                 else copy_native_file nt src (path_join dest (clip_file_name src)))
                (\<lambda>_. keep (path_join dest (clip_file_name src)))) s"
| "copy_host_entries fuel nt src dest [] s = (Ok (), s)"
| "copy_host_entries fuel nt src dest (x # xs) s =
     and_then (copy_native_to_native fuel nt (path_join src x) dest) (\<lambda>_. copy_host_entries fuel nt src dest xs) s"

section \<open>Exporting for the desktop\<close>

text \<open>Copies of the files of a source in a directory of the host (\<open>diaspor-clipboard\<close> in the temporary directory); what
  fails is left out, except a directory that cannot be made.\<close>

definition export_one :: "nat \<Rightarrow> 's provider \<Rightarrow> 's native \<Rightarrow> string \<Rightarrow> string \<Rightarrow> string \<Rightarrow> ('s, string, string list) act" where
  "export_one fuel pv nt dir i p s =
     (let d = path_join dir (clip_file_name p) in
      and_then (is_directory pv i p)
        (\<lambda>folder.
           if folder then otherwise [] (and_then (copy_vfs_to_native fuel pv nt i p dir) (\<lambda>d. keep [d]))
           else (\<lambda>s. case pv_read pv i p s of
                 (Panic, s) \<Rightarrow> (Panic, s)
               | (Err e, s) \<Rightarrow> (Ok [], s)
               | (Ok data, s) \<Rightarrow>
                   and_then (on_native nt (ensure_parent d))
                     (\<lambda>_. otherwise [] (and_then (on_native nt (host_write d data)) (\<lambda>_. keep [d]))) s)) s)"

fun export_each :: "nat \<Rightarrow> 's provider \<Rightarrow> 's native \<Rightarrow> string \<Rightarrow> string \<Rightarrow> string list \<Rightarrow> ('s, string, string list) act" where
  "export_each fuel pv nt dir i [] s = (Ok [], s)"
| "export_each fuel pv nt dir i (p # ps) s =
     and_then (export_one fuel pv nt dir i p) (\<lambda>a. and_then (export_each fuel pv nt dir i ps) (\<lambda>b. keep (a @ b))) s"

definition export_vfs_to_temp ::
    "nat \<Rightarrow> 's provider option \<Rightarrow> 's native \<Rightarrow> string \<Rightarrow> string \<Rightarrow> string list \<Rightarrow> ('s, string, string list) act" where
  "export_vfs_to_temp fuel provider nt temp i ps =
     (case provider of
        None \<Rightarrow> keep []
      | Some pv \<Rightarrow>
          let dir = path_join temp ''diaspor-clipboard'' in
          and_then (on_native nt (host_create_dir_all dir)) (\<lambda>_. export_each fuel pv nt dir i ps))"

end
