(* ===== verification/Clipboard.thy ===== *)
theory Clipboard
  imports Clipboard_Copies Operation_Tracking
begin

text \<open>
  The clipboard of the desktop application, on Linux (\<open>adapters/clipboard.rs\<close>, \<open>ports/clipboard.rs\<close> and
  \<open>use_cases/clipboard.rs\<close> under \<open>apps/vfs-desktop/src-tauri/src/vfs\<close>).

  The state holds what the provider and the host have, the tracker, the content kept by the adapter, the selection of
  the desktop (a text of type \<open>text/uri-list\<close>) and the jobs that were spawned and have not run. The encoding of URLs
  (the crate \<open>urlencoding\<close>) and how the tools \<open>xclip\<close> and \<open>xsel\<close> end are given in \<open>clipboard_env\<close>. A paste copies its files
  in an order that the scheduler chooses; each copy is one step.
\<close>

section \<open>State\<close>

datatype clipboard_operation = CopyFiles | CutFiles

datatype clipboard_source = NativeFiles | VfsFiles string

record clipboard_content =
  cc_operation :: clipboard_operation
  cc_source :: clipboard_source
  cc_paths :: "string list"
  cc_timestamp :: u64

record paste_result =
  pr_files_pasted :: nat
  pr_files_failed :: nat
  pr_pasted_paths :: "string list"
  pr_errors :: "string list"
  pr_operation_id :: "string option"

record 's clipboard =
  cl_files :: 's
  cl_tracking :: tracking
  cl_internal :: "clipboard_content option"
  cl_selection :: string
  cl_jobs :: "(clipboard_source \<times> string list) list"

record 's clipboard_env =
  cb_provider :: "'s provider option"
  cb_native :: "'s native"
  cb_encode :: "string \<Rightarrow> string"
  cb_decode :: "string \<Rightarrow> string option"
  cb_reads :: bool
  cb_error :: "string option"
  cb_takes :: bool
  cb_temp :: string
  cb_fuel :: nat

type_synonym ('s, 'a) clip_act = "('s clipboard, string, 'a) act"

definition is_cut :: "clipboard_content \<Rightarrow> bool" where
  "is_cut c \<longleftrightarrow> cc_operation c = CutFiles"

definition paste_success :: "string list \<Rightarrow> paste_result" where
  "paste_success ps =
     \<lparr>pr_files_pasted = length ps, pr_files_failed = 0, pr_pasted_paths = ps, pr_errors = [], pr_operation_id = None\<rparr>"

definition paste_partial :: "string list \<Rightarrow> string list \<Rightarrow> paste_result" where
  "paste_partial ps es =
     \<lparr>pr_files_pasted = length ps, pr_files_failed = length es, pr_pasted_paths = ps, pr_errors = es, pr_operation_id = None\<rparr>"

definition with_files :: "('s, string, 'a) act \<Rightarrow> ('s, 'a) clip_act" where
  "with_files m c = (case m (cl_files c) of (r, s) \<Rightarrow> (r, c\<lparr>cl_files := s\<rparr>))"

text \<open>A call of the tracker; its own errors are logged only.\<close>

definition with_tracking :: "(tracking \<Rightarrow> 'a \<times> tracking) \<Rightarrow> ('s, 'a) clip_act" where
  "with_tracking f c = (case f (cl_tracking c) of (r, t) \<Rightarrow> (Ok r, c\<lparr>cl_tracking := t\<rparr>))"

definition host_of :: "'s clipboard_env \<Rightarrow> 's clipboard \<Rightarrow> host_files" where
  "host_of env c = nt_get (cb_native env) (cl_files c)"

section \<open>The selection of the desktop\<close>

text \<open>The tool that reads may fail (\<open>cb_reads\<close>); the one that writes may not start or not take the text (\<open>cb_error\<close>), and how
  it exits in the end is not looked at (\<open>cb_takes\<close>).\<close>

text \<open>\<open>str::lines\<close>: a last empty line does not count, and a carriage return at the end of a line is dropped.\<close>

definition text_lines :: "string \<Rightarrow> string list" where
  "text_lines t =
     (let ls = split_on (\<lambda>c. c = CHR 0x0A) t;
          ls = (if last ls = [] then butlast ls else ls)
      in map (\<lambda>l. if l \<noteq> [] \<and> last l = CHR 0x0D then butlast l else l) ls)"

fun joined_lines :: "string list \<Rightarrow> string" where
  "joined_lines [] = []"
| "joined_lines [l] = l"
| "joined_lines (l # ls) = l @ CHR 0x0A # joined_lines ls"

definition uri_paths :: "(string \<Rightarrow> string option) \<Rightarrow> string \<Rightarrow> string list" where
  "uri_paths decode t =
     concat (map (\<lambda>l. case strip_prefix ''file://'' l of
                        None \<Rightarrow> []
                      | Some p \<Rightarrow> [case decode p of Some d \<Rightarrow> d | None \<Rightarrow> p]) (text_lines t))"

definition read_linux_clipboard :: "'s clipboard_env \<Rightarrow> 's clipboard \<Rightarrow> string list option" where
  "read_linux_clipboard env c =
     (let ps = filter (\<lambda>p. host_exists p (host_of env c)) (uri_paths (cb_decode env) (cl_selection c))
      in if \<not> cb_reads env \<or> ps = [] then None else Some ps)"

definition uri_list :: "(string \<Rightarrow> string) \<Rightarrow> string list \<Rightarrow> string" where
  "uri_list encode ps = joined_lines (map (\<lambda>p. ''file://'' @ encode p) ps)"

definition write_linux_clipboard :: "'s clipboard_env \<Rightarrow> string list \<Rightarrow> ('s, unit) clip_act" where
  "write_linux_clipboard env ps c =
     (case cb_error env of
        Some e \<Rightarrow> (Err e, c)
      | None \<Rightarrow> (Ok (), if cb_takes env then c\<lparr>cl_selection := uri_list (cb_encode env) ps\<rparr> else c))"

definition write_native_clipboard :: "'s clipboard_env \<Rightarrow> string list \<Rightarrow> ('s, unit) clip_act" where
  "write_native_clipboard env ps = (if ps = [] then keep () else write_linux_clipboard env ps)"

section \<open>Filling and asking\<close>

text \<open>The lock is given up after two seconds (\<open>locked\<close>). The desktop is told by a job in the background.\<close>

definition set_clipboard ::
    "clipboard_operation \<Rightarrow> u64 \<Rightarrow> bool \<Rightarrow> clipboard_source \<Rightarrow> string list \<Rightarrow> ('s, unit) clip_act" where
  "set_clipboard kind now locked source ps c =
     (if locked then (Err ''Failed to acquire clipboard lock - operation may be in progress'', c)
      else (Ok (), c\<lparr>cl_internal := Some \<lparr>cc_operation = kind, cc_source = source, cc_paths = ps, cc_timestamp = now\<rparr>,
                     cl_jobs := cl_jobs c @ [(source, ps)]\<rparr>))"

definition copy_files :: "u64 \<Rightarrow> bool \<Rightarrow> clipboard_source \<Rightarrow> string list \<Rightarrow> ('s, unit) clip_act" where
  "copy_files = set_clipboard CopyFiles"

definition cut_files :: "u64 \<Rightarrow> bool \<Rightarrow> clipboard_source \<Rightarrow> string list \<Rightarrow> ('s, unit) clip_act" where
  "cut_files = set_clipboard CutFiles"

text \<open>The job of one call, when the export ends in time.\<close>

definition run_clipboard_job :: "'s clipboard_env \<Rightarrow> ('s, unit) clip_act" where
  "run_clipboard_job env c =
     (case cl_jobs c of
        [] \<Rightarrow> (Ok (), c)
      | (source, ps) # jobs \<Rightarrow>
          otherwise ()
            (case source of
               NativeFiles \<Rightarrow> write_native_clipboard env ps
             | VfsFiles i \<Rightarrow>
                 and_then (with_files (export_vfs_to_temp (cb_fuel env) (cb_provider env) (cb_native env) (cb_temp env) i ps))
                   (write_native_clipboard env)) (c\<lparr>cl_jobs := jobs\<rparr>))"

text \<open>What the desktop has is kept as the content of a copy, so that it is read once.\<close>

definition get_clipboard :: "'s clipboard_env \<Rightarrow> u64 \<Rightarrow> ('s, clipboard_content option) clip_act" where
  "get_clipboard env now c =
     (case cl_internal c of
        Some content \<Rightarrow> (Ok (Some content), c)
      | None \<Rightarrow>
          (case read_linux_clipboard env c of
             None \<Rightarrow> (Ok None, c)
           | Some ps \<Rightarrow>
               (let there = filter (\<lambda>p. host_exists p (host_of env c)) ps in
                if there = [] then (Ok None, c)
                else
                  let content = \<lparr>cc_operation = CopyFiles, cc_source = NativeFiles, cc_paths = there, cc_timestamp = now\<rparr>
                  in (Ok (Some content), c\<lparr>cl_internal := Some content\<rparr>))))"

definition clear_clipboard :: "('s, unit) clip_act" where
  "clear_clipboard c = (Ok (), c\<lparr>cl_internal := None\<rparr>)"

definition has_files :: "'s clipboard_env \<Rightarrow> 's clipboard \<Rightarrow> bool" where
  "has_files env c \<longleftrightarrow>
     (case cl_internal c of Some content \<Rightarrow> cc_paths content \<noteq> [] | None \<Rightarrow> False) \<or>
     (case read_linux_clipboard env c of
        None \<Rightarrow> False
      | Some ps \<Rightarrow> list_ex (\<lambda>p. host_exists p (host_of env c)) ps)"

section \<open>Pasting into a source\<close>

text \<open>The size of a file, asked of the operations of its source or of the host; none on an error.\<close>

definition size_of :: "'s clipboard_env \<Rightarrow> clipboard_source \<Rightarrow> string \<Rightarrow> ('s, string, u64 option) act" where
  "size_of env source p =
     (case source of
        NativeFiles \<Rightarrow>
          otherwise None (and_then (on_native (cb_native env) (host_node_of p))
            (\<lambda>n s. (Ok (Some (node_len (nt_get (cb_native env) s) n)), s)))
      | VfsFiles i \<Rightarrow>
          (case cb_provider env of
             None \<Rightarrow> keep None
           | Some pv \<Rightarrow>
               otherwise None (and_then (pv_file_ops pv i) (\<lambda>ops. and_then (fo_stat ops p) (\<lambda>st. keep (Some (fs_size st)))))))"

fun sizes_of :: "'s clipboard_env \<Rightarrow> clipboard_source \<Rightarrow> string list \<Rightarrow> ('s, string, (string \<times> u64) list) act" where
  "sizes_of env source [] s = (Ok [], s)"
| "sizes_of env source (p # ps) s =
     and_then (size_of env source p)
       (\<lambda>n. and_then (sizes_of env source ps) (\<lambda>rest. keep ((case n of Some m \<Rightarrow> [(p, m)] | None \<Rightarrow> []) @ rest))) s"

text \<open>The destination must exist, and not be known to be a file; names that are taken there are counted only.\<close>

fun ask_conflicts :: "'s provider \<Rightarrow> string \<Rightarrow> string \<Rightarrow> string list \<Rightarrow> ('s, string, unit) act" where
  "ask_conflicts pv j dest [] s = (Ok (), s)"
| "ask_conflicts pv j dest (p # ps) s =
     and_then (otherwise False (pv_exists pv j (path_join dest (clip_file_name p)))) (\<lambda>_. ask_conflicts pv j dest ps) s"

definition check_destination :: "'s provider \<Rightarrow> string \<Rightarrow> string \<Rightarrow> string list \<Rightarrow> ('s, string, string option) act" where
  "check_destination pv j dest ps =
     and_then (otherwise False (pv_exists pv j dest))
       (\<lambda>there. if \<not> there then keep (Some (''Destination path does not exist: '' @ dest)) else
         and_then (otherwise True (and_then (pv_stat pv j dest) (\<lambda>st. keep (fs_is_dir st))))
           (\<lambda>dir. if \<not> dir then keep (Some (''Destination path is not a directory: '' @ dest))
                    else and_then (ask_conflicts pv j dest ps) (\<lambda>_. keep None)))"

text \<open>One copy, with its progress: a file of no bytes reports none.\<close>

definition paste_copy ::
    "'s clipboard_env \<Rightarrow> clipboard_source \<Rightarrow> string \<Rightarrow> string \<Rightarrow> string \<Rightarrow> ('s, string, string) act" where
  "paste_copy env source j dest p =
     (case cb_provider env of
        None \<Rightarrow> refuse ''File operations provider not initialized''
      | Some pv \<Rightarrow>
          (case source of
             NativeFiles \<Rightarrow> copy_native_to_vfs (cb_fuel env) pv (cb_native env) p j dest
           | VfsFiles i \<Rightarrow> copy_vfs_to_vfs pv i p j dest))"

definition paste_one ::
    "'s clipboard_env \<Rightarrow> string \<Rightarrow> clipboard_source \<Rightarrow> string \<Rightarrow> string \<Rightarrow> string \<Rightarrow> ('s, (string, string) outcome) clip_act" where
  "paste_one env k source j dest p c =
     (case with_files (paste_copy env source j dest p) c of
        (Panic, c) \<Rightarrow> (Panic, c)
      | (Err e, c) \<Rightarrow> (Ok (Err e), c)
      | (Ok d, c) \<Rightarrow>
          and_then (with_files (size_of env source p))
            (\<lambda>n. case n of
               None \<Rightarrow> keep (Ok d)
             | Some m \<Rightarrow>
                 if m > 0
                 then and_then (with_tracking (on_tracker (\<lambda>i. update_file_progress i k p m (Some Completed)))) (\<lambda>_. keep (Ok d))
                 else keep (Ok d)) c)"

text \<open>The copies in the order of the scheduler, which lists positions; the results are put back in the order of the files.\<close>

fun paste_each ::
    "'s clipboard_env \<Rightarrow> string \<Rightarrow> clipboard_source \<Rightarrow> string \<Rightarrow> string \<Rightarrow> string list \<Rightarrow> nat list \<Rightarrow>
     ('s, (nat \<times> (string, string) outcome) list) clip_act" where
  "paste_each env k source j dest ps [] c = (Ok [], c)"
| "paste_each env k source j dest ps (n # ns) c =
     and_then (paste_one env k source j dest (ps ! n))
       (\<lambda>r. and_then (paste_each env k source j dest ps ns) (\<lambda>rs. keep ((n, r) # rs))) c"

definition error_text :: "string \<Rightarrow> string \<Rightarrow> string \<Rightarrow> string" where
  "error_text dest p e =
     (let name = name_or p p; named = [CHR 0x22] @ name @ [CHR 0x22]; has = (\<lambda>t. str_contains t e) in
      if has ''Cannot copy'' \<or> has ''into itself'' then named @ '': '' @ e
      else if has ''Permission denied'' \<or> has ''403'' \<or> has ''AccessDenied''
      then named @ '': Permission denied. Check IAM permissions: s3:GetObject (read), s3:PutObject (write), s3:DeleteObject (delete). Error: '' @ e
      else if has ''cannot be empty'' \<or> has ''invalid'' \<or> has ''Destination path cannot be empty''
      then named @ '': Invalid destination path. Error: '' @ e
      else named @ '': Failed to copy '' @ [CHR 0x22] @ p @ [CHR 0x22] @ '' to '' @ [CHR 0x22] @ path_join dest name
        @ [CHR 0x22] @ ''. Error: '' @ e)"

definition pasted :: "(nat \<times> (string, string) outcome) list \<Rightarrow> string list" where
  "pasted rs = concat (map (\<lambda>(_, r). case r of Ok d \<Rightarrow> [d] | _ \<Rightarrow> []) (sort_key fst rs))"

definition paste_errors :: "string \<Rightarrow> string list \<Rightarrow> (nat \<times> (string, string) outcome) list \<Rightarrow> string list" where
  "paste_errors dest ps rs = concat (map (\<lambda>(n, r). case r of Err e \<Rightarrow> [error_text dest (ps ! n) e] | _ \<Rightarrow> []) (sort_key fst rs))"

text \<open>The sources of a cut, deleted in an order of the scheduler; an error is logged only.\<close>

definition delete_cut :: "'s clipboard_env \<Rightarrow> clipboard_source \<Rightarrow> string \<Rightarrow> ('s, string, unit) act" where
  "delete_cut env source p =
     otherwise ()
       (case source of
          NativeFiles \<Rightarrow>
            (\<lambda>s. on_native (cb_native env)
               (if host_is_dir p (nt_get (cb_native env) s) then host_remove_dir_all p else host_remove_file p) s)
        | VfsFiles i \<Rightarrow> (case cb_provider env of None \<Rightarrow> keep () | Some pv \<Rightarrow> pv_rm_rf pv i p))"

fun delete_each :: "'s clipboard_env \<Rightarrow> clipboard_source \<Rightarrow> string list \<Rightarrow> nat list \<Rightarrow> ('s, string, unit) act" where
  "delete_each env source ps [] s = (Ok (), s)"
| "delete_each env source ps (n # ns) s =
     and_then (delete_cut env source (ps ! n)) (\<lambda>_. delete_each env source ps ns) s"

definition source_text :: "clipboard_source \<Rightarrow> string" where
  "source_text source = (case source of NativeFiles \<Rightarrow> ''native'' | VfsFiles i \<Rightarrow> i)"

definition start_paste :: "clipboard_content \<Rightarrow> string \<Rightarrow> (string \<times> u64) list \<Rightarrow> ('s, string) clip_act" where
  "start_paste content dest sizes =
     and_then
       (with_tracking (track_multi_file_operation_start (if is_cut content then Move else Copy) (source_text (cc_source content))
          (case cc_paths content of [] \<Rightarrow> [] | p # _ \<Rightarrow> p) (Some dest) sizes))
       (\<lambda>k. and_then (with_tracking (tracked_progress k 0)) (\<lambda>_. keep k))"

definition finish_paste ::
    "'s clipboard_env \<Rightarrow> clipboard_content \<Rightarrow> string \<Rightarrow> string \<Rightarrow> nat list \<Rightarrow> (nat \<times> (string, string) outcome) list \<Rightarrow>
     ('s, paste_result) clip_act" where
  "finish_paste env content k dest deletions rs =
     (let ps = cc_paths content; es = paste_errors dest ps rs; done_ps = pasted rs in
      and_then
        (with_tracking (if es = [] then helper_complete_operation k
                        else helper_fail_operation k (dec (length es) @ '' files failed'')))
        (\<lambda>_. and_then
          (if is_cut content \<and> es = []
           then and_then (with_files (delete_each env (cc_source content) ps deletions)) (\<lambda>_. clear_clipboard)
           else keep ())
          (\<lambda>_. keep \<lparr>pr_files_pasted = length done_ps, pr_files_failed = length es, pr_pasted_paths = done_ps, pr_errors = es,
                      pr_operation_id = Some k\<rparr>)))"

definition paste_to_vfs ::
    "'s clipboard_env \<Rightarrow> u64 \<Rightarrow> nat list \<Rightarrow> nat list \<Rightarrow> string \<Rightarrow> string \<Rightarrow> ('s, paste_result) clip_act" where
  "paste_to_vfs env now order deletions j dest =
     (if trim_white j = [] then refuse ''Destination source ID cannot be empty''
      else
        and_then (get_clipboard env now)
          (\<lambda>found. case found of
             None \<Rightarrow> refuse ''Clipboard is empty''
           | Some content \<Rightarrow>
               if cc_paths content = [] then refuse ''Clipboard contains no files''
               else
                 and_then (with_files (sizes_of env (cc_source content) (cc_paths content)))
                   (\<lambda>sizes. and_then (start_paste content dest sizes)
                   (\<lambda>k. and_then
                      (with_files (case cb_provider env of
                         None \<Rightarrow> keep None | Some pv \<Rightarrow> check_destination pv j dest (cc_paths content)))
                   (\<lambda>problem. case problem of
                      Some e \<Rightarrow>
                        and_then (with_tracking (helper_fail_operation k e)) (\<lambda>_. refuse (e @ ''|OPERATION_ID:'' @ k))
                    | None \<Rightarrow>
                        and_then (paste_each env k (cc_source content) j dest (cc_paths content) order)
                          (finish_paste env content k dest deletions))))))"

section \<open>Pasting onto the host\<close>

fun paste_natively ::
    "'s clipboard_env \<Rightarrow> clipboard_source \<Rightarrow> string \<Rightarrow> string list \<Rightarrow> ('s, string, string list \<times> string list) act" where
  "paste_natively env source dest [] s = (Ok ([], []), s)"
| "paste_natively env source dest (p # ps) s =
     (case (case source of
              NativeFiles \<Rightarrow> copy_native_to_native (cb_fuel env) (cb_native env) p dest s
            | VfsFiles i \<Rightarrow>
                (case cb_provider env of
                   None \<Rightarrow> (Err ''File operations provider not initialized'', s)
                 | Some pv \<Rightarrow> copy_vfs_to_native (cb_fuel env) pv (cb_native env) i p dest s)) of
        (Panic, s) \<Rightarrow> (Panic, s)
      | (Ok d, s) \<Rightarrow> and_then (paste_natively env source dest ps) (\<lambda>(ds, es). keep (d # ds, es)) s
      | (Err e, s) \<Rightarrow>
          and_then (paste_natively env source dest ps) (\<lambda>(ds, es). keep (ds, (debug_string p @ '': '' @ e) # es)) s)"

text \<open>On this way a directory of the host is not removed: it is handed to \<open>remove_file\<close>, whose error is logged only.\<close>

definition delete_native_cut :: "'s clipboard_env \<Rightarrow> clipboard_source \<Rightarrow> string \<Rightarrow> ('s, string, unit) act" where
  "delete_native_cut env source p =
     otherwise ()
       (case source of
          NativeFiles \<Rightarrow> on_native (cb_native env) (host_remove_file p)
        | VfsFiles i \<Rightarrow>
            (case cb_provider env of
               None \<Rightarrow> keep ()
             | Some pv \<Rightarrow>
                 and_then (otherwise False (and_then (pv_stat pv i p) (\<lambda>st. keep (fs_is_dir st))))
                   (\<lambda>dir. if dir then pv_rm_rf pv i p else pv_rm pv i p)))"

fun delete_native_cuts :: "'s clipboard_env \<Rightarrow> clipboard_source \<Rightarrow> string list \<Rightarrow> ('s, string, unit) act" where
  "delete_native_cuts env source [] s = (Ok (), s)"
| "delete_native_cuts env source (p # ps) s =
     and_then (delete_native_cut env source p) (\<lambda>_. delete_native_cuts env source ps) s"

definition paste_to_native :: "'s clipboard_env \<Rightarrow> u64 \<Rightarrow> string \<Rightarrow> ('s, paste_result) clip_act" where
  "paste_to_native env now dest =
     and_then (get_clipboard env now)
       (\<lambda>found. case found of
          None \<Rightarrow> refuse ''Clipboard is empty''
        | Some content \<Rightarrow>
            and_then (with_files (paste_natively env (cc_source content) dest (cc_paths content)))
              (\<lambda>(ds, es). and_then
                 (if is_cut content \<and> es = []
                  then and_then (with_files (delete_native_cuts env (cc_source content) (cc_paths content))) (\<lambda>_. clear_clipboard)
                  else keep ())
                 (\<lambda>_. and_then (write_native_clipboard env ds)
                 (\<lambda>_. keep (if es = [] then paste_success ds else paste_partial ds es)))))"

section \<open>Use cases\<close>

definition copy_files_use_case :: "u64 \<Rightarrow> bool \<Rightarrow> clipboard_source \<Rightarrow> string list \<Rightarrow> ('s, nat) clip_act" where
  "copy_files_use_case now locked source ps =
     (if ps = [] then refuse ''No files to copy''
      else and_then (contextual (''Failed to copy '' @ dec (length ps) @ '' files to clipboard'') (copy_files now locked source ps))
        (\<lambda>_. keep (length ps)))"

definition cut_files_use_case :: "u64 \<Rightarrow> bool \<Rightarrow> clipboard_source \<Rightarrow> string list \<Rightarrow> ('s, nat) clip_act" where
  "cut_files_use_case now locked source ps =
     (if ps = [] then refuse ''No files to cut''
      else and_then (contextual (''Failed to cut '' @ dec (length ps) @ '' files to clipboard'') (cut_files now locked source ps))
        (\<lambda>_. keep (length ps)))"

definition paste_to_vfs_use_case ::
    "'s clipboard_env \<Rightarrow> u64 \<Rightarrow> nat list \<Rightarrow> nat list \<Rightarrow> string \<Rightarrow> string \<Rightarrow> ('s, paste_result) clip_act" where
  "paste_to_vfs_use_case env now order deletions j dest c =
     (if j = [] then (Err ''Destination source ID cannot be empty'', c)
      else if \<not> has_files env c then (Err ''Clipboard is empty'', c)
      else contextual (''Failed to paste files to VFS source '' @ j @ '' at '' @ debug_string dest)
        (paste_to_vfs env now order deletions j dest) c)"

definition paste_to_native_use_case :: "'s clipboard_env \<Rightarrow> u64 \<Rightarrow> string \<Rightarrow> ('s, paste_result) clip_act" where
  "paste_to_native_use_case env now dest c =
     (if \<not> absolute dest then (Err ''Destination path must be absolute'', c)
      else if \<not> has_files env c then (Err ''Clipboard is empty'', c)
      else contextual (''Failed to paste files to native FS at '' @ debug_string dest) (paste_to_native env now dest) c)"

end
