(* ===== verification/Clipboard_Paste.thy ===== *)
theory Clipboard_Paste
  imports Clipboard
begin

text \<open>
  What a paste does to the files of a source: the files of a copy stay, and the files of a cut are either at their new
  place or still at the old one. The proofs use the contract \<open>file_provider\<close> only; a local directory and a bucket are
  instances. Also: what the selection of the desktop brings back of the paths it was given.
\<close>

section \<open>Calls that change no file\<close>

definition quiet :: "('s \<Rightarrow> bool) \<Rightarrow> ('s \<Rightarrow> 'v) \<Rightarrow> ('s, string, 'a) act \<Rightarrow> bool" where
  "quiet ok view m \<longleftrightarrow> (\<forall>s r s'. ok s \<longrightarrow> m s = (r, s') \<longrightarrow> ok s' \<and> view s' = view s)"

named_theorems quiet_intros "calls that change no file"

lemma quietI: "(\<And>s r s'. ok s \<Longrightarrow> m s = (r, s') \<Longrightarrow> ok s' \<and> view s' = view s) \<Longrightarrow> quiet ok view m"
  by (simp add: quiet_def)

lemma quietD: "quiet ok view m \<Longrightarrow> ok s \<Longrightarrow> m s = (r, s') \<Longrightarrow> ok s' \<and> view s' = view s"
  by (simp add: quiet_def)

lemma quiet_keep [quiet_intros]: "quiet ok view (keep a)" and quiet_refuse [quiet_intros]: "quiet ok view (refuse e)"
  by (simp_all add: quiet_def keep_def refuse_def)

lemma quiet_then [quiet_intros]:
  assumes "quiet ok view m" and "\<And>a. quiet ok view (f a)"
  shows "quiet ok view (and_then m f)"
proof (rule quietI)
  fix s r s'
  assume s: "ok s" and run: "and_then m f s = (r, s')"
  obtain a t where t: "m s = (a, t)" by force
  have "ok t \<and> view t = view s" by (rule quietD [OF assms(1) s t])
  then show "ok s' \<and> view s' = view s"
    using run t quietD [OF assms(2), of t] by (cases a) (auto simp: and_then_def)
qed

lemma quiet_otherwise [quiet_intros]: "quiet ok view m \<Longrightarrow> quiet ok view (otherwise a m)"
  by (auto simp: quiet_def otherwise_def split: prod.splits outcome.splits)

lemma quiet_if [quiet_intros]: "(P \<Longrightarrow> quiet ok view m) \<Longrightarrow> (\<not> P \<Longrightarrow> quiet ok view n) \<Longrightarrow> quiet ok view (if P then m else n)"
  by simp

lemma keep_Ok [simp]: "keep a s = (Ok b, s') \<longleftrightarrow> b = a \<and> s' = s" "keep a s = (Err e, s') \<longleftrightarrow> False" "keep a s = (Panic, s') \<longleftrightarrow> False"
  by (auto simp: keep_def)

lemma refuse_Ok [simp]:
  "refuse e s = (Ok b, s') \<longleftrightarrow> False" "refuse e s = (Err e', s') \<longleftrightarrow> e' = e \<and> s' = s" "refuse e s = (Panic, s') \<longleftrightarrow> False"
  by (auto simp: refuse_def)

lemma otherwise_Ok:
  "otherwise d m s = (Ok a, s') \<longleftrightarrow> m s = (Ok a, s') \<or> (\<exists>e. m s = (Err e, s') \<and> a = d)"
  by (auto simp: otherwise_def split: prod.splits outcome.splits)

lemma otherwise_never_Err [simp]: "otherwise d m s = (Err e, s') \<longleftrightarrow> False"
  by (auto simp: otherwise_def split: prod.splits outcome.splits)

lemma refuse_or:
  "(\<exists>e. (if P then refuse a else if Q then refuse b else m) = refuse e) \<or> (if P then refuse a else if Q then refuse b else m) = m"
  by auto

section \<open>One copy\<close>

definition pasted_at :: "string \<Rightarrow> string \<Rightarrow> string" where
  "pasted_at dest p = path_join dest (clip_file_name p)"

text \<open>A file that can be pasted at its own name: the destination is a name, and is not the file or inside it.\<close>

definition placeable :: "string set \<Rightarrow> string \<Rightarrow> string \<Rightarrow> bool" where
  "placeable names dest p \<longleftrightarrow>
     pasted_at dest p \<in> names \<and> prefix [slash] (pasted_at dest p) \<and>
     trim_matches slash p \<noteq> trim_matches slash (pasted_at dest p) \<and> trim_matches slash p \<noteq> trim_matches slash dest"

context file_provider
begin

lemma quiet_calls [quiet_intros]:
  "quiet ok view (pv_stat pv i p)" "quiet ok view (pv_exists pv i p)" "quiet ok view (pv_list_files pv i p)"
  "quiet ok view (pv_file_ops pv i)"
  by (rule quietI, use stat in blast) (rule quietI, use exists list file_ops in blast)+

lemma quiet_is_directory [quiet_intros]: "quiet ok view (is_directory pv i p)"
proof (rule quietI)
  fix s r s'
  assume s: "ok s" and run: "is_directory pv i p s = (r, s')"
  obtain a t where t: "pv_stat pv i p s = (a, t)" by force
  have q: "quiet ok view (otherwise False (and_then (pv_list_files pv i p) (\<lambda>_. keep True)))" by (intro quiet_intros)
  have "ok t \<and> view t = view s" using quietD [OF quiet_calls(1) s t] .
  then show "ok s' \<and> view s' = view s"
    using run t quietD [OF q, of t] by (cases a) (auto simp: is_directory_def)
qed

lemma quiet_ask_conflicts [quiet_intros]: "quiet ok view (ask_conflicts pv i dest ps)"
proof (induction ps)
  case (Cons p ps)
  have "quiet ok view (and_then (otherwise False (pv_exists pv i (path_join dest (clip_file_name p)))) (\<lambda>_. ask_conflicts pv i dest ps))"
    using Cons by (intro quiet_intros)
  then show ?case by (simp add: quiet_def)
qed (simp add: quiet_def)

lemma quiet_check_destination [quiet_intros]: "quiet ok view (check_destination pv i dest ps)"
  unfolding check_destination_def by (intro quiet_intros)

lemma own_destination:
  assumes "ok s" and "p \<in> names" and "view s p \<noteq> None" and "placeable names dest p"
    and "vfs_destination pv i p dest (pasted_at dest p) s = (r, s')"
  shows "ok s' \<and> view s' = view s \<and> (\<forall>d. r = Ok d \<longrightarrow> d = pasted_at dest p)"
proof -
  let ?dir = "otherwise False (and_then (pv_stat pv i p) (\<lambda>st. keep (fs_is_dir st)))"
  obtain a t where t: "?dir s = (a, t)" by force
  have q: "quiet ok view ?dir" by (intro quiet_intros)
  have "ok t \<and> view t = view s" using quietD [OF q assms(1) t] .
  moreover have "\<not> dir" if "a = Ok dir" for dir
    using t stat [OF assms(1)] assms(2,3) unfolding that otherwise_Ok and_then_Ok_iff by auto
  ultimately show ?thesis
    using assms(4,5) t by (cases a) (auto simp: vfs_destination_def Let_def placeable_def and_then_def keep_def)
qed

lemma paste_file:
  assumes "ok s" and "view s p = Some b" and "leaf (view s) p" and "placeable names dest p"
    and "copy_vfs_to_vfs pv i p i dest s = (r, s')" and "r \<noteq> Panic"
  shows "ok s' \<and> (\<forall>x. x \<noteq> pasted_at dest p \<longrightarrow> view s' x = view s x) \<and> (\<forall>d. r = Ok d \<longrightarrow> view s' (pasted_at dest p) = Some b)"
proof -
  let ?q = "pasted_at dest p"
  have p: "p \<in> names" using view_names [of s p] assms(2) by simp
  have q: "?q \<in> names" "?q \<noteq> p" "prefix [slash] ?q" using assms(4) by (auto simp: placeable_def)
  let ?rest = "\<lambda>d. and_then (is_directory pv i p)
     (\<lambda>dir. and_then (pv_copy pv i p d (paste_options dir)) (\<lambda>_. keep d))"
  have form: "(\<exists>e. copy_vfs_to_vfs pv i p i dest = refuse e) \<or>
      copy_vfs_to_vfs pv i p i dest = and_then (vfs_destination pv i p dest ?q) ?rest"
    unfolding copy_vfs_to_vfs_def Let_def pasted_at_def
    by (simp only: q(3) [unfolded pasted_at_def] if_True refl refuse_or)
  show ?thesis
  proof (cases "\<exists>e. copy_vfs_to_vfs pv i p i dest = refuse e")
    case True
    then show ?thesis using assms(1,5) by (auto simp: refuse_def)
  next
    case False
    then have run: "and_then (vfs_destination pv i p dest ?q) ?rest s = (r, s')" using form assms(5) by simp
    obtain a t where t: "vfs_destination pv i p dest ?q s = (a, t)" by force
    note d = own_destination [OF assms(1) p _ assms(4) t]
    show ?thesis
    proof (cases a)
      case (Ok x)
      then have x: "x = ?q" "ok t" "view t = view s" using d assms(2) by auto
      obtain e u where u: "is_directory pv i p t = (e, u)" by force
      have ok_u: "ok u" "view u = view s" using quietD [OF quiet_is_directory x(2) u] x(3) by auto
      show ?thesis
      proof (cases e)
        case (Ok dir)
        obtain g v where v: "pv_copy pv i p ?q (paste_options dir) u = (g, v)" by force
        have end_state: "s' = v \<and> (r = Panic \<longleftrightarrow> g = Panic) \<and> (\<forall>d. r = Ok d \<longrightarrow> g = Ok ())"
          using run t u v \<open>a = Ok x\<close> Ok x(1) by (cases g) (auto simp: and_then_def keep_def)
        show ?thesis
        proof (cases g)
          case (Ok w)
          then show ?thesis using copy [OF ok_u(1) _ _ q(1,2), of b] v end_state assms(2,3) ok_u(2) by simp
        next
          case (Err w)
          then show ?thesis using failed_copy [OF ok_u(1) _ _ q(1,2), of b] v end_state assms(2,3) ok_u(2) by auto
        next
          case Panic
          then show ?thesis using end_state assms(6) by simp
        qed
      qed (use run t u \<open>a = Ok x\<close> x ok_u in \<open>auto simp: and_then_def\<close>)
    qed (use run t d assms(2) in \<open>auto simp: and_then_def\<close>)
  qed
qed

end

section \<open>All copies\<close>

text \<open>None of the places of a paste is one of its files, or inside one.\<close>

definition apart :: "string \<Rightarrow> string list \<Rightarrow> bool" where
  "apart dest ps \<longleftrightarrow>
     (\<forall>p\<in>set ps. \<forall>q\<in>set ps. pasted_at dest q \<noteq> p \<and> \<not> prefix (p @ [slash]) (pasted_at dest q)) \<and>
     distinct (map (pasted_at dest) ps)"

definition holds_files :: "(string \<Rightarrow> bytes option) \<Rightarrow> (string \<Rightarrow> bytes) \<Rightarrow> string list \<Rightarrow> bool" where
  "holds_files v b ps \<longleftrightarrow> (\<forall>p\<in>set ps. v p = Some (b p) \<and> leaf v p)"

lemma with_files_eq: "with_files m c = (r, c') \<longleftrightarrow> (\<exists>s. m (cl_files c) = (r, s) \<and> c' = c\<lparr>cl_files := s\<rparr>)"
  by (auto simp: with_files_def split: prod.splits)

lemma with_tracking_Ok: "with_tracking f c = (r, c') \<longleftrightarrow> r = Ok (fst (f (cl_tracking c))) \<and> c' = c\<lparr>cl_tracking := snd (f (cl_tracking c))\<rparr>"
  by (auto simp: with_tracking_def split: prod.splits)

lemma leaf_other: "leaf v p \<Longrightarrow> (\<And>x. v' x \<noteq> v x \<Longrightarrow> \<not> prefix (p @ [slash]) x) \<Longrightarrow> leaf v' p"
  unfolding leaf_def by metis

lemma holds_files_other:
  assumes "holds_files v b ps" and "\<And>x. v' x \<noteq> v x \<Longrightarrow> x = pasted_at dest q" and "q \<in> set ps" and "apart dest ps"
  shows "holds_files v' b ps"
  unfolding holds_files_def
proof
  fix p assume p: "p \<in> set ps"
  then have n: "pasted_at dest q \<noteq> p" "\<not> prefix (p @ [slash]) (pasted_at dest q)"
    using assms(3,4) by (auto simp: apart_def)
  have "v p = Some (b p)" "leaf v p" using assms(1) p by (auto simp: holds_files_def)
  then show "v' p = Some (b p) \<and> leaf v' p"
    using n assms(2) leaf_other [of v p v'] by metis
qed

context file_provider
begin

lemma quiet_size_of:
  assumes "cb_provider env = Some pv"
  shows "quiet ok view (size_of env (VfsFiles i) p)"
proof -
  have "quiet ok view (and_then (pv_file_ops pv i) (\<lambda>ops. and_then (fo_stat ops p) (\<lambda>st. keep (Some (fs_size st)))))"
  proof (rule quietI)
    fix s r s'
    assume s: "ok s"
      and run: "and_then (pv_file_ops pv i) (\<lambda>ops. and_then (fo_stat ops p) (\<lambda>st. keep (Some (fs_size st)))) s = (r, s')"
    obtain a t where t: "pv_file_ops pv i s = (a, t)" by force
    show "ok s' \<and> view s' = view s"
    proof (cases a)
      case (Ok ops)
      obtain g u where u: "fo_stat ops p t = (g, u)" by force
      have "ok u \<and> view u = view s" using ops_stat [OF s _ u] t Ok by simp
      then show ?thesis using run t u Ok by (cases g) (auto simp: and_then_def keep_def)
    qed (use run t file_ops [OF s t] in \<open>auto simp: and_then_def\<close>)
  qed
  then show ?thesis using assms by (auto simp: size_of_def intro!: quiet_otherwise)
qed

lemma quiet_sizes_of:
  assumes "cb_provider env = Some pv"
  shows "quiet ok view (sizes_of env (VfsFiles i) ps)"
proof (induction ps)
  case (Cons p ps)
  have "quiet ok view (and_then (size_of env (VfsFiles i) p)
      (\<lambda>n. and_then (sizes_of env (VfsFiles i) ps) (\<lambda>rest. keep ((case n of Some m \<Rightarrow> [(p, m)] | None \<Rightarrow> []) @ rest))))"
    using Cons quiet_size_of [OF assms] by (intro quiet_intros)
  then show ?case by (simp add: quiet_def)
qed (simp add: quiet_def)

lemma paste_one_file:
  assumes "cb_provider env = Some pv" and "ok (cl_files c)" and "view (cl_files c) p = Some b" and "leaf (view (cl_files c)) p"
    and "placeable names dest p" and "paste_one env k (VfsFiles i) i dest p c = (Ok r, c')"
  shows "ok (cl_files c') \<and> cl_internal c' = cl_internal c \<and> r \<noteq> Panic \<and>
    (\<forall>x. x \<noteq> pasted_at dest p \<longrightarrow> view (cl_files c') x = view (cl_files c) x) \<and>
    (\<forall>d. r = Ok d \<longrightarrow> view (cl_files c') (pasted_at dest p) = Some b)"
proof -
  obtain a c1 where a: "with_files (paste_copy env (VfsFiles i) i dest p) c = (a, c1)" by force
  then obtain s1 where s1: "copy_vfs_to_vfs pv i p i dest (cl_files c) = (a, s1)" "c1 = c\<lparr>cl_files := s1\<rparr>"
    using assms(1) by (auto simp: with_files_eq paste_copy_def)
  have np: "a \<noteq> Panic" using assms(6) a by (auto simp: paste_one_def)
  note copied1 = paste_file [OF assms(2-5) s1(1) np]
  show ?thesis
  proof (cases a)
    case (Ok d)
    let ?size = "size_of env (VfsFiles i) p"
    obtain n s2 where n: "?size s1 = (n, s2)" by force
    have q: "ok s2 \<and> view s2 = view s1" using quietD [OF quiet_size_of [OF assms(1)] _ n] copied1 by blast
    have "r = Ok d \<and> cl_files c' = s2 \<and> cl_internal c' = cl_internal c"
      using assms(6) a Ok n s1(2)
      by (cases n) (auto simp: paste_one_def and_then_def with_files_def with_tracking_def keep_def
          split: option.splits if_splits prod.splits)
    then show ?thesis using copied1 q Ok by auto
  qed (use assms(6) a copied1 s1(2) np in \<open>auto simp: paste_one_def\<close>)
qed

text \<open>The copies, in any order of different positions.\<close>

lemma paste_each_files:
  assumes "cb_provider env = Some pv" and "apart dest ps" and "\<forall>p\<in>set ps. placeable names dest p"
  shows "ok (cl_files c) \<Longrightarrow> holds_files (view (cl_files c)) b ps \<Longrightarrow> distinct ns \<Longrightarrow> set ns \<subseteq> {..<length ps} \<Longrightarrow>
    paste_each env k (VfsFiles i) i dest ps ns c = (Ok rs, c') \<Longrightarrow>
    ok (cl_files c') \<and> cl_internal c' = cl_internal c \<and> holds_files (view (cl_files c')) b ps \<and> map fst rs = ns \<and>
    (\<forall>n r. (n, r) \<in> set rs \<longrightarrow> r \<noteq> Panic \<and>
       (\<forall>d. r = Ok d \<longrightarrow> view (cl_files c') (pasted_at dest (ps ! n)) = Some (b (ps ! n)))) \<and>
    (\<forall>x. (\<forall>n\<in>set ns. x \<noteq> pasted_at dest (ps ! n)) \<longrightarrow> view (cl_files c') x = view (cl_files c) x)"
proof (induction ns arbitrary: c rs)
  case (Cons n ns)
  let ?p = "ps ! n"
  have p: "?p \<in> set ps" using Cons.prems(4) by simp
  from Cons.prems(5) obtain r c1 rs1 where
    one: "paste_one env k (VfsFiles i) i dest ?p c = (Ok r, c1)" and
    rest: "paste_each env k (VfsFiles i) i dest ps ns c1 = (Ok rs1, c')" and rs: "rs = (n, r) # rs1"
    by (auto simp: and_then_Ok_iff)
  have fp: "view (cl_files c) ?p = Some (b ?p)" "leaf (view (cl_files c)) ?p"
    using Cons.prems(2) p by (auto simp: holds_files_def)
  have pl: "placeable names dest ?p" using assms(3) p by blast
  note o = paste_one_file [OF assms(1) Cons.prems(1) fp pl one]
  have h1: "holds_files (view (cl_files c1)) b ps"
    using holds_files_other [OF Cons.prems(2) _ p assms(2)] o by blast
  note IH = Cons.IH [OF _ h1 _ _ rest]
  have others: "pasted_at dest ?p \<noteq> pasted_at dest (ps ! m)" if "m \<in> set ns" for m
  proof -
    have "m \<noteq> n" "m < length ps" "n < length ps" using that Cons.prems(3,4) by auto
    then show ?thesis using assms(2) by (auto simp: apart_def distinct_conv_nth)
  qed
  have ih: "ok (cl_files c') \<and> cl_internal c' = cl_internal c1 \<and> holds_files (view (cl_files c')) b ps \<and> map fst rs1 = ns \<and>
    (\<forall>n r. (n, r) \<in> set rs1 \<longrightarrow> r \<noteq> Panic \<and>
       (\<forall>d. r = Ok d \<longrightarrow> view (cl_files c') (pasted_at dest (ps ! n)) = Some (b (ps ! n)))) \<and>
    (\<forall>x. (\<forall>n\<in>set ns. x \<noteq> pasted_at dest (ps ! n)) \<longrightarrow> view (cl_files c') x = view (cl_files c1) x)"
    using IH o Cons.prems(3,4) by simp
  have "view (cl_files c') (pasted_at dest ?p) = view (cl_files c1) (pasted_at dest ?p)"
    using ih others by blast
  then show ?case using ih o rs by auto
qed (simp add: holds_files_def)

lemma delete_each_files:
  assumes "cb_provider env = Some pv" and "distinct ps"
  shows "ok s \<Longrightarrow> \<forall>n\<in>set ns. view s (ps ! n) = Some (b (ps ! n)) \<and> leaf (view s) (ps ! n) \<Longrightarrow>
    distinct ns \<Longrightarrow> set ns \<subseteq> {..<length ps} \<Longrightarrow> delete_each env (VfsFiles i) ps ns s = (Ok u, s') \<Longrightarrow>
    ok s' \<and> (\<forall>x. x \<notin> set ps \<longrightarrow> view s' x = view s x)"
proof (induction ns arbitrary: s)
  case (Cons n ns)
  let ?p = "ps ! n"
  from Cons.prems(5) obtain v t where one: "delete_cut env (VfsFiles i) ?p s = (Ok v, t)"
    and rest: "delete_each env (VfsFiles i) ps ns t = (Ok u, s')"
    by (auto simp: and_then_Ok_iff)
  have fp: "view s ?p = Some (b ?p)" "leaf (view s) ?p" using Cons.prems(2) by auto
  have t: "ok t \<and> (view t = (view s)(?p := None) \<or> view t = view s)"
    using one rm_rf [OF Cons.prems(1) fp, of t] failed_rm_rf [OF Cons.prems(1) fp, of _ t] assms(1)
    by (auto simp: delete_cut_def otherwise_Ok)
  have "view t (ps ! m) = Some (b (ps ! m)) \<and> leaf (view t) (ps ! m)" if "m \<in> set ns" for m
  proof -
    have "m \<noteq> n" "m < length ps" "n < length ps" using that Cons.prems(3,4) by auto
    then have "ps ! m \<noteq> ?p" using assms(2) by (simp add: nth_eq_iff_index_eq)
    moreover have "view s (ps ! m) = Some (b (ps ! m))" "leaf (view s) (ps ! m)" using Cons.prems(2) that by auto
    ultimately show ?thesis using t by (auto simp: leaf_def)
  qed
  then have "ok s' \<and> (\<forall>x. x \<notin> set ps \<longrightarrow> view s' x = view t x)"
    using Cons.IH [OF _ _ _ _ rest] t Cons.prems(3,4) by simp
  moreover have "?p \<in> set ps" using Cons.prems(4) by simp
  ultimately show ?case using t by auto
qed simp

end

section \<open>Pasting\<close>

lemma result_counts:
  assumes "\<forall>n r. (n, r) \<in> set rs \<longrightarrow> r \<noteq> Panic"
  shows "length (pasted rs) + length (paste_errors dest ps rs) = length rs"
    and "paste_errors dest ps rs = [] \<longleftrightarrow> (\<forall>n r. (n, r) \<in> set rs \<longrightarrow> (\<exists>d. r = Ok d))"
proof -
  let ?oks = "\<lambda>xs. concat (map (\<lambda>(_, r). case r of Ok d \<Rightarrow> [d] | _ \<Rightarrow> []) xs)"
  let ?errs = "\<lambda>xs. concat (map (\<lambda>(n, r). case r of Err e \<Rightarrow> [error_text dest (ps ! n) e] | _ \<Rightarrow> []) xs)"
  have "length (?oks xs) + length (?errs xs) = length xs" if "\<forall>n r. (n, r) \<in> set xs \<longrightarrow> r \<noteq> Panic"
    for xs :: "(nat \<times> (string, string) outcome) list"
    using that
  proof (induction xs)
    case (Cons x xs)
    then show ?case by (cases x; cases "snd x") auto
  qed simp
  from this [of "sort_key fst rs"] assms show "length (pasted rs) + length (paste_errors dest ps rs) = length rs"
    by (simp add: pasted_def paste_errors_def)
  show "paste_errors dest ps rs = [] \<longleftrightarrow> (\<forall>n r. (n, r) \<in> set rs \<longrightarrow> (\<exists>d. r = Ok d))"
    using assms by (force simp: paste_errors_def split: outcome.splits)
qed

lemma start_paste_files: "start_paste content dest sizes c = (r, c') \<Longrightarrow> cl_files c' = cl_files c \<and> cl_internal c' = cl_internal c"
  by (auto simp: start_paste_def and_then_def with_tracking_def keep_def split: prod.splits)

context file_provider
begin

lemma finish_paste_files:
  assumes "cb_provider env = Some pv" and "cc_source content = VfsFiles i" and "cl_internal c = Some content"
    and "ok (cl_files c)" and "holds_files (view (cl_files c)) b (cc_paths content)" and "distinct (cc_paths content)"
    and "distinct deletions" and "set deletions \<subseteq> {..<length (cc_paths content)}"
    and "finish_paste env content k dest deletions rs c = (Ok r, c')"
  shows "ok (cl_files c') \<and> pr_errors r = paste_errors dest (cc_paths content) rs \<and>
    pr_files_failed r = length (pr_errors r) \<and> pr_files_pasted r = length (pasted rs) \<and>
    (if is_cut content \<and> pr_errors r = []
     then cl_internal c' = None \<and> (\<forall>x. x \<notin> set (cc_paths content) \<longrightarrow> view (cl_files c') x = view (cl_files c) x)
     else cl_internal c' = Some content \<and> view (cl_files c') = view (cl_files c))"
proof -
  let ?es = "paste_errors dest (cc_paths content) rs"
  let ?done = "if ?es = [] then helper_complete_operation k
      else helper_fail_operation k (dec (length ?es) @ '' files failed'')"
  from assms(9) obtain c1 u where t: "with_tracking ?done c = (Ok u, c1)" and
    rest: "(if is_cut content \<and> ?es = []
        then and_then (with_files (delete_each env (cc_source content) (cc_paths content) deletions)) (\<lambda>_. clear_clipboard)
        else keep ()) c1 = (Ok (), c')" and
    r: "r = \<lparr>pr_files_pasted = length (pasted rs), pr_files_failed = length ?es, pr_pasted_paths = pasted rs, pr_errors = ?es,
      pr_operation_id = Some k\<rparr>"
    unfolding finish_paste_def Let_def and_then_Ok_iff keep_Ok by auto
  have c1: "cl_files c1 = cl_files c" "cl_internal c1 = Some content" using t assms(3) by (auto simp: with_tracking_Ok)
  show ?thesis
  proof (cases "is_cut content \<and> ?es = []")
    case True
    then obtain s2 where d: "delete_each env (VfsFiles i) (cc_paths content) deletions (cl_files c) = (Ok (), s2)"
      "cl_files c' = s2" "cl_internal c' = None"
      using rest assms(2) c1 by (auto simp: and_then_Ok_iff with_files_eq clear_clipboard_def)
    have "\<forall>n\<in>set deletions. view (cl_files c) (cc_paths content ! n) = Some (b (cc_paths content ! n)) \<and>
        leaf (view (cl_files c)) (cc_paths content ! n)"
      using assms(5,8) by (auto simp: holds_files_def)
    from delete_each_files [OF assms(1,6,4) this assms(7,8) d(1)] show ?thesis using d r True by simp
  next
    case False
    have "c' = c1" using rest [unfolded if_not_P [OF False]] by simp
    then show ?thesis using False c1 assms(4) r by simp
  qed
qed

lemma paste_keeps_files:
  assumes "cb_provider env = Some pv" and "cl_internal c = Some content" and "cc_source content = VfsFiles i"
    and "cc_paths content = ps" and "ok (cl_files c)" and "holds_files (view (cl_files c)) b ps" and "apart dest ps"
    and "\<forall>p\<in>set ps. placeable names dest p" and "distinct order" and "set order = {..<length ps}"
    and "distinct deletions" and "set deletions \<subseteq> {..<length ps}"
    and "paste_to_vfs env now order deletions i dest c = (Ok r, c')"
  shows "pr_files_pasted r + length (pr_errors r) = length ps \<and>
    (pr_errors r = [] \<longrightarrow> (\<forall>p\<in>set ps. view (cl_files c') (pasted_at dest p) = Some (b p))) \<and>
    (is_cut content \<and> pr_errors r = [] \<longrightarrow> cl_internal c' = None) \<and>
    (\<not> (is_cut content \<and> pr_errors r = []) \<longrightarrow>
       cl_internal c' = Some content \<and> (\<forall>p\<in>set ps. view (cl_files c') p = Some (b p))) \<and>
    (\<forall>x. x \<notin> set ps \<union> pasted_at dest ` set ps \<longrightarrow> view (cl_files c') x = view (cl_files c) x)"
proof -
  have g: "get_clipboard env now c = (Ok (Some content), c)" using assms(2) by (simp add: get_clipboard_def)
  from assms(13) obtain sizes c1 k c2 c3 rs c4 where
    sizes: "with_files (sizes_of env (VfsFiles i) ps) c = (Ok sizes, c1)" and
    start: "start_paste content dest sizes c1 = (Ok k, c2)" and
    chk: "with_files (check_destination pv i dest ps) c2 = (Ok None, c3)" and
    each: "paste_each env k (VfsFiles i) i dest ps order c3 = (Ok rs, c4)" and
    fin: "finish_paste env content k dest deletions rs c4 = (Ok r, c')"
    using assms(1,3,4)
    by (auto simp: paste_to_vfs_def and_then_Ok_iff g split: if_splits option.splits)
  have q1: "ok (cl_files c1) \<and> view (cl_files c1) = view (cl_files c)" and i1: "cl_internal c1 = Some content"
    using sizes quietD [OF quiet_sizes_of [OF assms(1)] assms(5)] assms(2) by (auto simp: with_files_eq)
  have q2: "cl_files c2 = cl_files c1" "cl_internal c2 = Some content" using start_paste_files [OF start] i1 by auto
  have q3: "ok (cl_files c3)" "view (cl_files c3) = view (cl_files c)" "cl_internal c3 = Some content"
    using chk quietD [OF quiet_check_destination, of "cl_files c2"] q1 q2 by (auto simp: with_files_eq)
  have h3: "holds_files (view (cl_files c3)) b ps" using assms(6) q3(2) by simp
  note e = paste_each_files [OF assms(1,7,8) q3(1) h3 assms(9) _ each]
  have e: "ok (cl_files c4)" "cl_internal c4 = Some content" "holds_files (view (cl_files c4)) b ps" "map fst rs = order"
    "\<forall>n r. (n, r) \<in> set rs \<longrightarrow> r \<noteq> Panic"
    "\<forall>n d. (n, Ok d) \<in> set rs \<longrightarrow> view (cl_files c4) (pasted_at dest (ps ! n)) = Some (b (ps ! n))"
    "\<forall>x. (\<forall>n\<in>set order. x \<noteq> pasted_at dest (ps ! n)) \<longrightarrow> view (cl_files c4) x = view (cl_files c) x"
    using e assms(10) q3 by auto
  have dist: "distinct ps" using assms(7) by (auto simp: apart_def distinct_map)
  note f = finish_paste_files [OF assms(1,3) e(2,1), of b deletions k dest rs r c', unfolded assms(4),
      OF e(3) dist assms(11,12) fin]
  note count = result_counts [OF e(5), of dest ps]
  have len: "length rs = length ps"
    using e(4) assms(9,10) by (metis card_lessThan distinct_card length_map)
  have places: "view (cl_files c4) (pasted_at dest p) = Some (b p)" if "pr_errors r = []" "p \<in> set ps" for p
  proof -
    obtain n where n: "n < length ps" "p = ps ! n" using \<open>p \<in> set ps\<close> by (metis in_set_conv_nth)
    then have "n \<in> set (map fst rs)" using e(4) assms(10) by simp
    then obtain o' where "(n, o') \<in> set rs" by auto
    then show ?thesis using count(2) f that(1) e(6) n by metis
  qed
  have away: "pasted_at dest p \<notin> set ps" if "p \<in> set ps" for p using assms(7) that by (auto simp: apart_def)
  have outside: "view (cl_files c4) x = view (cl_files c) x" if "x \<notin> pasted_at dest ` set ps" for x
    using e(7) that assms(10) by fastforce
  show ?thesis
  proof (cases "is_cut content \<and> pr_errors r = []")
    case True
    then show ?thesis using f count(1) len places away outside by auto
  next
    case False
    have "\<forall>p\<in>set ps. view (cl_files c4) p = Some (b p)" using e(3) by (auto simp: holds_files_def)
    then show ?thesis using False f count(1) len places outside by auto
  qed
qed

end

section \<open>Pasting in a local directory\<close>

lemma local_leaf:
  assumes "host_ok s" and "local_view base s p = Some d"
  shows "leaf (local_view base s) p"
proof -
  have p: "local_name base p" "node_at s (locate s (resolve_path base p)) = Some (FileNode d)"
    using assms(2) by (simp_all add: local_view_Some)
  have "local_view base s q = None" if below: "prefix (p @ [slash]) q" for q
  proof (cases "local_name base q")
    case True
    obtain r where r: "q = p @ slash # r" using below by (auto simp: prefix_def)
    then have pq: "pieces q = pieces p @ pieces r" by (simp only: pieces_append_slash)
    have "pieces q \<noteq> pieces p"
    proof
      assume "pieces q = pieces p"
      then have "q = p" using p(1) True unfolding local_name_def Let_def by metis
      then show False using r by simp
    qed
    then have "below (locate s (resolve_path base p)) (locate s (resolve_path base q))"
      using resolve_name(2) [OF p(1), of s] resolve_name(2) [OF True, of s] pq by (auto simp: below_def strict_prefix_def)
    moreover have "locate s (resolve_path base p) \<noteq> []"
      using resolve_name(2) [OF p(1), of s] p(1) by (auto simp: local_name_def Let_def)
    ultimately have "node_at s (locate s (resolve_path base q)) = None" 
      using leaf_below [OF assms(1), of "locate s (resolve_path base p)" "locate s (resolve_path base q)"] p(2) by simp
    then show ?thesis by (simp add: local_view_def Let_def)
  qed (simp add: local_view_def)
  then show ?thesis by (simp add: leaf_def)
qed


definition demo_env :: "(nvme_cache, host_files) vfs_service clipboard_env" where
  "demo_env =
     \<lparr>cb_provider = Some (service_provider 5), cb_native = host_native, cb_encode = id, cb_decode = Some, cb_reads = True,
      cb_error = None, cb_takes = True, cb_temp = ''/b/tmp'', cb_fuel = 9\<rparr>"

definition demo_content :: clipboard_content where
  "demo_content =
     \<lparr>cc_operation = CutFiles, cc_source = VfsFiles ''a'', cc_paths = [''/src/d/f'', ''/out/keep''], cc_timestamp = 0\<rparr>"

definition demo_clipboard :: "(nvme_cache, host_files) vfs_service clipboard" where
  "demo_clipboard =
     \<lparr>cl_files = local_service, cl_tracking = demo_tracking, cl_internal = Some demo_content, cl_selection = [], cl_jobs = []\<rparr>"


section \<open>The selection of the desktop\<close>

lemma split_on_joined:
  assumes "ls \<noteq> []" and "\<forall>l\<in>set ls. CHR 0x0A \<notin> set l"
  shows "split_on (\<lambda>c. c = CHR 0x0A) (joined_lines ls) = ls"
  using assms
proof (induction ls rule: joined_lines.induct)
  case (2 l)
  then show ?case using split_on_single [of l "\<lambda>c. c = CHR 0x0A"] by auto
next
  case (3 l m ms)
  then show ?case using split_on_append [of l "\<lambda>c. c = CHR 0x0A" "CHR 0x0A" "joined_lines (m # ms)"] by auto
qed simp

lemma text_lines_joined:
  assumes "ls \<noteq> []" and "\<forall>l\<in>set ls. l \<noteq> [] \<and> CHR 0x0A \<notin> set l \<and> CHR 0x0D \<notin> set l"
  shows "text_lines (joined_lines ls) = ls"
proof -
  have "last ls \<noteq> []" using assms by simp
  moreover have "map (\<lambda>l. if l \<noteq> [] \<and> last l = CHR 0x0D then butlast l else l) ls = ls"
    using assms(2) last_in_set by (intro map_idI) fastforce
  ultimately show ?thesis using split_on_joined [OF assms(1)] assms(2) by (simp add: text_lines_def Let_def)
qed

text \<open>
  (C26) What one paste writes to the selection of the desktop, the next copy from it reads: exactly the paths that exist, in the
  same order, whatever characters they contain, as long as the encoding of URLs is inverted by its decoding and makes
  no line breaks.
\<close>

theorem selection_round_trip:
  assumes "\<forall>p. cb_decode env (cb_encode env p) = Some p" and "\<forall>p. CHR 0x0A \<notin> set (cb_encode env p) \<and> CHR 0x0D \<notin> set (cb_encode env p)"
    and "cb_takes env" and "cb_reads env" and "ps \<noteq> []" and "write_native_clipboard env ps c = (Ok (), c')"
  shows "read_linux_clipboard env c' =
      (let there = filter (\<lambda>p. host_exists p (host_of env c)) ps in if there = [] then None else Some there) \<and>
    cl_files c' = cl_files c"
proof -
  have c': "c' = c\<lparr>cl_selection := uri_list (cb_encode env) ps\<rparr>"
    using assms(3,5,6) by (auto simp: write_native_clipboard_def write_linux_clipboard_def split: if_splits option.splits)
  let ?ls = "map (\<lambda>p. ''file://'' @ cb_encode env p) ps"
  have "text_lines (uri_list (cb_encode env) ps) = ?ls"
    unfolding uri_list_def using assms(2,5) by (intro text_lines_joined) auto
  then have "uri_paths (cb_decode env) (uri_list (cb_encode env) ps) = ps"
    using assms(1) by (simp add: uri_paths_def comp_def)
  then show ?thesis using c' assms(4) by (simp add: read_linux_clipboard_def host_of_def)
qed

text \<open>The percent encoding, for the demonstration: every byte but letters, digits and \<open>-_.~\<close>.\<close>

definition hex_upper :: "nat \<Rightarrow> char" where
  "hex_upper n = (if n < 10 then digit n else char_of (55 + n))"

definition unreserved :: "char \<Rightarrow> bool" where
  "unreserved c \<longleftrightarrow>
     (let n = of_char c :: nat in
      48 \<le> n \<and> n \<le> 57 \<or> 65 \<le> n \<and> n \<le> 90 \<or> 97 \<le> n \<and> n \<le> 122 \<or> c \<in> set ''-_.~'')"

definition percent_char :: "char \<Rightarrow> string" where
  "percent_char c =
     (let n = of_char c in if unreserved c then [c] else [CHR ''%'', hex_upper (n div 16), hex_upper (n mod 16)])"

definition unhex :: "char \<Rightarrow> nat" where
  "unhex c = (let n = of_char c in if n < 58 then n - 48 else n - 55)"

fun percent_decode :: "string \<Rightarrow> string" where
  "percent_decode (a # b # c # cs) =
     (if a = CHR ''%'' then char_of (16 * unhex b + unhex c) # percent_decode cs else a # percent_decode (b # c # cs))"
| "percent_decode cs = cs"

definition percent_encode :: "string \<Rightarrow> string" where
  "percent_encode s = concat (map percent_char s)"

lemma percent_decode_other: "a \<noteq> CHR ''%'' \<Longrightarrow> percent_decode (a # cs) = a # percent_decode cs"
  by (cases cs; cases "tl cs") auto

lemma unhex_hex_upper: "n < 16 \<Longrightarrow> unhex (hex_upper n) = n"
  by (auto simp: unhex_def hex_upper_def of_char_digit Let_def)

lemma high_nibble: "(of_char c :: nat) div 16 < 16"
  by (rule less_mult_imp_div_less) (use nat_of_char_less_256 [of c] in simp)

lemma percent_round_trip: "percent_decode (percent_encode s) = s"
proof (induction s)
  case (Cons c s)
  show ?case
  proof (cases "unreserved c")
    case True
    then have "c \<noteq> CHR ''%''" by (auto simp: unreserved_def)
    then show ?thesis using Cons True by (simp add: percent_encode_def percent_char_def percent_decode_other Let_def)
  next
    case False
    have "16 * (of_char c div 16) + of_char c mod 16 = (of_char c :: nat)" by simp
    then show ?thesis
      using Cons False by (simp add: percent_encode_def percent_char_def unhex_hex_upper high_nibble Let_def)
  qed
qed (simp add: percent_encode_def)

lemma percent_no_break: "CHR 0x0A \<notin> set (percent_encode s) \<and> CHR 0x0D \<notin> set (percent_encode s)"
proof -
  have h: "hex_upper n \<noteq> CHR 0x0A \<and> hex_upper n \<noteq> CHR 0x0D" if "n < 16" for n
  proof -
    have "(of_char (hex_upper n) :: nat) \<ge> 48" using that by (auto simp: hex_upper_def of_char_digit)
    then show ?thesis by auto
  qed
  have "CHR 0x0A \<notin> set (percent_char c) \<and> CHR 0x0D \<notin> set (percent_char c)" for c
    using h [of "of_char c div 16"] h [of "of_char c mod 16"] high_nibble [of c]
    by (auto simp: percent_char_def unreserved_def Let_def)
  then show ?thesis by (auto simp: percent_encode_def)
qed

definition percent_env :: "(nvme_cache, host_files) vfs_service clipboard_env" where
  "percent_env = demo_env\<lparr>cb_encode := percent_encode, cb_decode := Some \<circ> percent_decode\<rparr>"

theorem selection_round_trip_witness:
  "\<exists>c'. write_native_clipboard percent_env [''/b/src/d/f'', ''/gone'', ''/b/out''] demo_clipboard = (Ok (), c') \<and>
     cl_selection c' \<noteq> [] \<and> read_linux_clipboard percent_env c' = Some [''/b/src/d/f'', ''/b/out'']"
proof -
  let ?ps = "[''/b/src/d/f'', ''/gone'', ''/b/out'']"
  let ?run = "write_native_clipboard percent_env ?ps demo_clipboard"
  have env: "\<forall>p. cb_decode percent_env (cb_encode percent_env p) = Some p"
    "\<forall>p. CHR 0x0A \<notin> set (cb_encode percent_env p) \<and> CHR 0x0D \<notin> set (cb_encode percent_env p)"
    "cb_takes percent_env" "cb_reads percent_env"
    using percent_round_trip percent_no_break by (simp_all add: percent_env_def demo_env_def)
  have "fst ?run = Ok ()" by code_simp
  then have run: "?run = (Ok (), snd ?run)" by (metis prod.collapse)
  have "cl_selection (snd ?run) \<noteq> []" by code_simp
  moreover have "filter (\<lambda>p. host_exists p (host_of percent_env demo_clipboard)) ?ps = [''/b/src/d/f'', ''/b/out'']" by code_simp
  ultimately show ?thesis using selection_round_trip [OF env _ run] run by auto
qed

text \<open>The encoding hides the slashes, too: no other application finds a path in what is written.\<close>

lemma selection_hides_slashes: "uri_list percent_encode [''/b/out''] = ''file://%2Fb%2Fout''"
  by code_simp

end
