(* ===== verification/Conformance.thy ===== *)
theory Conformance
  imports Memory_Backend "HOL-Library.List_Lexorder" "HOL-Library.Char_ord"
begin

text \<open>
  The conformance suite every backend has to pass, \<open>crates/diaspor-conformance/src/lib.rs\<close>.

  \<open>run\<close> is one script of eighteen numbered assertions over the methods of a backend. A failed assertion, an
  \<open>expect\<close> on an error and an \<open>expect_err\<close> on a success panic; the suite passes when it returns. The stages of the
  script are definitions of their own, because the facts about each stage are.

  The locale \<open>observed_backend\<close> extends the contract of a backend by what \<open>metadata\<close> and \<open>list\<close> show. Inside
  it the script is run symbolically over the abstract tree (\<open>moves\<close>): a backend that keeps the contract passes, whatever its
  representation. The interpretation on the in-memory backend gives the test of that crate, for every clock.
\<close>

section \<open>Assertions\<close>

definition expect :: "('s, 'e, 'a) act \<Rightarrow> ('s, 'e, 'a) act" where
  "expect m s = (case m s of (Ok a, s') \<Rightarrow> (Ok a, s') | (_, s') \<Rightarrow> (Panic, s'))"

definition expect_err :: "('s, 'e, 'a) act \<Rightarrow> ('s, 'e, 'e) act" where
  "expect_err m s = (case m s of (Err e, s') \<Rightarrow> (Ok e, s') | (_, s') \<Rightarrow> (Panic, s'))"

definition assert_that :: "bool \<Rightarrow> ('s, 'e, unit) act" where
  "assert_that b s = (if b then Ok () else Panic, s)"

text \<open>The helper \<open>p\<close>: a literal path, with a panic on an invalid one.\<close>

definition test_path :: "string \<Rightarrow> ('s, 'e, vfs_path) act" where
  "test_path text s = (case vfs_path_new text of Some q \<Rightarrow> Ok q | None \<Rightarrow> Panic, s)"

fun is_not_found :: "vfs_error \<Rightarrow> bool" where
  "is_not_found (NotFound _) = True"
| "is_not_found _ = False"

fun is_already_exists :: "vfs_error \<Rightarrow> bool" where
  "is_already_exists (AlreadyExists _) = True"
| "is_already_exists _ = False"

fun is_kind_mismatch :: "vfs_error \<Rightarrow> bool" where
  "is_kind_mismatch (KindMismatch _ _ _) = True"
| "is_kind_mismatch _ = False"

section \<open>The script\<close>

definition payload :: bytes where
  "payload = map of_char ''the quick brown fox''"

text \<open>Assertions 1 to 3.\<close>

definition check_fresh_root :: "('s, 'h) vfs_backend \<Rightarrow> ('s, vfs_error, unit) act" where
  "check_fresh_root B =
     and_then (expect (be_metadata B root)) (\<lambda>root_meta.
     and_then (assert_that (md_kind root_meta = Directory)) (\<lambda>_.
     and_then (assert_that (md_size root_meta = 0)) (\<lambda>_.
     and_then (expect (be_list B root)) (\<lambda>found.
     assert_that (found = [])))))"

text \<open>Assertions 4 and 5.\<close>

definition check_create_file :: "('s, 'h) vfs_backend \<Rightarrow> vfs_path \<Rightarrow> ('s, vfs_error, unit) act" where
  "check_create_file B file_path =
     and_then (expect (be_open B file_path (or CREATE WRITE))) (\<lambda>_.
     and_then (expect (be_metadata B file_path)) (\<lambda>meta.
     and_then (assert_that (md_kind meta = File)) (\<lambda>_.
     assert_that (md_size meta = 0))))"

text \<open>Assertions 6 to 9.\<close>

definition check_write_read :: "('s, 'h) vfs_backend \<Rightarrow> vfs_path \<Rightarrow> ('s, vfs_error, unit) act" where
  "check_write_read B file_path =
     and_then (expect (be_open B file_path WRITE)) (\<lambda>h.
     and_then (expect (h_write B h 0 payload)) (\<lambda>n.
     and_then (assert_that (n = of_nat (length payload))) (\<lambda>_.
     and_then (expect (h_flush B h)) (\<lambda>_.
     and_then (expect (be_metadata B file_path)) (\<lambda>after.
     and_then (assert_that (md_size after = of_nat (length payload))) (\<lambda>_.
     and_then (expect (be_open B file_path READ)) (\<lambda>h.
     and_then (expect (h_read B h 0 1024)) (\<lambda>got.
     and_then (assert_that (got = payload)) (\<lambda>_.
     and_then (expect (h_read B h 10000 16)) (\<lambda>past.
     assert_that (past = [])))))))))))"

text \<open>Assertions 10 and 11.\<close>

definition check_directories ::
    "('s, 'h) vfs_backend \<Rightarrow> vfs_path \<Rightarrow> vfs_path \<Rightarrow> vfs_path \<Rightarrow> vfs_path \<Rightarrow> ('s, vfs_error, unit) act" where
  "check_directories B dir inner_file inner_dir deep_file =
     and_then (expect (be_create_dir B dir)) (\<lambda>_.
     and_then (expect (be_metadata B dir)) (\<lambda>dmeta.
     and_then (assert_that (md_kind dmeta = Directory)) (\<lambda>_.
     and_then (expect (be_open B inner_file (or CREATE WRITE))) (\<lambda>_.
     and_then (expect (be_create_dir B inner_dir)) (\<lambda>_.
     and_then (expect (be_open B deep_file (or CREATE WRITE))) (\<lambda>_.
     and_then (expect (be_list B dir)) (\<lambda>listing.
     assert_that (sort (map as_str listing) = [''/dir/a.txt'', ''/dir/sub'']))))))))"

text \<open>Assertions 12 to 14.\<close>

definition check_removal ::
    "('s, 'h) vfs_backend \<Rightarrow> vfs_path \<Rightarrow> vfs_path \<Rightarrow> vfs_path \<Rightarrow> vfs_path \<Rightarrow> ('s, vfs_error, unit) act" where
  "check_removal B dir inner_file inner_dir deep_file =
     and_then (expect (be_remove B inner_file)) (\<lambda>_.
     and_then (expect_err (be_metadata B inner_file)) (\<lambda>err.
     and_then (assert_that (is_not_found err)) (\<lambda>_.
     and_then (expect (be_remove B deep_file)) (\<lambda>_.
     and_then (expect (be_remove B inner_dir)) (\<lambda>_.
     and_then (test_path ''/dir/keep.txt'') (\<lambda>keep.
     and_then (expect (be_open B keep (or CREATE WRITE))) (\<lambda>_.
     and_then (expect_err (be_remove B dir)) (\<lambda>err.
     assert_that (\<not> is_not_found err)))))))))"

text \<open>Assertions 15 to 18.\<close>

definition check_errors :: "('s, 'h) vfs_backend \<Rightarrow> ('s, vfs_error, unit) act" where
  "check_errors B =
     and_then (test_path ''/does-not-exist'') (\<lambda>missing.
     and_then (expect_err (be_open B missing READ)) (\<lambda>err.
     and_then (assert_that (is_not_found err)) (\<lambda>_.
     and_then (test_path ''/also-missing'') (\<lambda>missing.
     and_then (expect_err (be_open B missing WRITE)) (\<lambda>err.
     and_then (assert_that (is_not_found err)) (\<lambda>_.
     and_then (test_path ''/dir/keep.txt'') (\<lambda>keep.
     and_then (expect_err (be_open B keep (or (or CREATE EXCL) WRITE))) (\<lambda>err.
     and_then (assert_that (is_already_exists err)) (\<lambda>_.
     and_then (test_path ''/dir/keep.txt'') (\<lambda>keep.
     and_then (expect_err (be_list B keep)) (\<lambda>err.
     assert_that (is_kind_mismatch err))))))))))))"

definition run_suite :: "('s, 'h) vfs_backend \<Rightarrow> ('s, vfs_error, unit) act" where
  "run_suite B =
     and_then (check_fresh_root B) (\<lambda>_.
     and_then (test_path ''/conformance.txt'') (\<lambda>file_path.
     and_then (check_create_file B file_path) (\<lambda>_.
     and_then (check_write_read B file_path) (\<lambda>_.
     and_then (test_path ''/dir'') (\<lambda>dir.
     and_then (test_path ''/dir/a.txt'') (\<lambda>inner_file.
     and_then (test_path ''/dir/sub'') (\<lambda>inner_dir.
     and_then (test_path ''/dir/sub/deep.txt'') (\<lambda>deep_file.
     and_then (check_directories B dir inner_file inner_dir deep_file) (\<lambda>_.
     and_then (check_removal B dir inner_file inner_dir deep_file) (\<lambda>_.
     check_errors B))))))))))"

section \<open>Running the script over the abstract tree\<close>

text \<open>From every state that satisfies \<open>I\<close> and stands for the tree \<open>t\<close>, the action returns a value with \<open>R\<close> and
  leaves the tree \<open>t'\<close>.\<close>

definition moves ::
    "('s \<Rightarrow> bool) \<Rightarrow> ('s \<Rightarrow> tree) \<Rightarrow> tree \<Rightarrow> ('s, 'e, 'a) act \<Rightarrow> ('a \<Rightarrow> bool) \<Rightarrow> tree \<Rightarrow> bool" where
  "moves I A t m R t' \<longleftrightarrow>
     (\<forall>s. I s \<and> A s = t \<longrightarrow> (\<exists>a s'. m s = (Ok a, s') \<and> R a \<and> I s' \<and> A s' = t'))"

lemma movesI:
  assumes "\<And>s. I s \<Longrightarrow> A s = t \<Longrightarrow> \<exists>a s'. m s = (Ok a, s') \<and> R a \<and> I s' \<and> A s' = t'"
  shows "moves I A t m R t'"
  using assms by (simp add: moves_def)

lemma moves_then:
  assumes "moves I A t m R u" "\<And>a. R a \<Longrightarrow> moves I A u (f a) Q t'"
  shows "moves I A t (and_then m f) Q t'"
proof (rule movesI)
  fix s assume "I s" "A s = t"
  with assms(1) obtain a s1 where "m s = (Ok a, s1)" "R a" "I s1" "A s1 = u" by (auto simp: moves_def)
  moreover from this assms(2) obtain b s2 where "f a s1 = (Ok b, s2)" "Q b" "I s2" "A s2 = t'"
    unfolding moves_def by blast
  ultimately show "\<exists>b s'. and_then m f s = (Ok b, s') \<and> Q b \<and> I s' \<and> A s' = t'" by auto
qed

lemma moves_assert: "b \<Longrightarrow> moves I A t (assert_that b) (\<lambda>_. True) t"
  by (simp add: moves_def assert_that_def)

lemma moves_path:
  "vfs_path_new text = Some q \<Longrightarrow> moves I A t (f q) R t' \<Longrightarrow> moves I A t (and_then (test_path text) f) R t'"
  by (simp add: moves_def test_path_def and_then_def)

definition tree_size :: "tnode \<Rightarrow> nat" where
  "tree_size n = (case n of TDir \<Rightarrow> 0 | TFile d \<Rightarrow> length d)"

locale observed_backend = tree_backend B inv abs hpath
  for B :: "('s, 'h) vfs_backend" and inv :: "'s \<Rightarrow> bool" and abs :: "'s \<Rightarrow> tree" and hpath :: "'h \<Rightarrow> vfs_path" +
  assumes metadata_spec:
      "inv s \<Longrightarrow> wf_path p \<Longrightarrow> be_metadata B p s = (rm, s') \<Longrightarrow>
         s' = s \<and>
         (case abs s (components p) of
            None \<Rightarrow> rm = Err (NotFound (as_str p))
          | Some n \<Rightarrow> \<exists>m. rm = Ok m \<and> md_kind m = tkind n \<and> md_size m = of_nat (tree_size n))"
    and list_spec:
      "inv s \<Longrightarrow> wf_path p \<Longrightarrow> be_list B p s = (rl, s') \<Longrightarrow>
         s' = s \<and>
         (case abs s (components p) of
            None \<Rightarrow> rl = Err (NotFound (as_str p))
          | Some (TFile d) \<Rightarrow> rl = Err (KindMismatch (as_str p) ''directory'' ''file'')
          | Some TDir \<Rightarrow> \<exists>ks. rl = Ok ks \<and> distinct ks \<and> set ks = path_of ` children (abs s) (components p))"
begin

abbreviation does :: "tree \<Rightarrow> ('s, 'e, 'a) act \<Rightarrow> ('a \<Rightarrow> bool) \<Rightarrow> tree \<Rightarrow> bool" where
  "does \<equiv> moves inv abs"

lemma does_metadata:
  assumes "wf_path p" "t (components p) = Some n"
  shows "does t (expect (be_metadata B p)) (\<lambda>m. md_kind m = tkind n \<and> md_size m = of_nat (tree_size n)) t"
proof (rule movesI)
  fix s assume s: "inv s" "abs s = t"
  obtain r s' where r: "be_metadata B p s = (r, s')" by force
  from metadata_spec [OF s(1) assms(1) r] s assms(2) r
  show "\<exists>m s'. expect (be_metadata B p) s = (Ok m, s') \<and>
      (md_kind m = tkind n \<and> md_size m = of_nat (tree_size n)) \<and> inv s' \<and> abs s' = t"
    by (auto simp: expect_def)
qed

lemma does_metadata_gone:
  assumes "wf_path p" "t (components p) = None"
  shows "does t (expect_err (be_metadata B p)) is_not_found t"
proof (rule movesI)
  fix s assume s: "inv s" "abs s = t"
  obtain r s' where r: "be_metadata B p s = (r, s')" by force
  from metadata_spec [OF s(1) assms(1) r] s assms(2) r
  show "\<exists>e s'. expect_err (be_metadata B p) s = (Ok e, s') \<and> is_not_found e \<and> inv s' \<and> abs s' = t"
    by (auto simp: expect_err_def)
qed

lemma does_list:
  assumes "wf_path p" "t (components p) = Some TDir"
  shows "does t (expect (be_list B p)) (\<lambda>ks. distinct ks \<and> set ks = path_of ` children t (components p)) t"
proof (rule movesI)
  fix s assume s: "inv s" "abs s = t"
  obtain r s' where r: "be_list B p s = (r, s')" by force
  from list_spec [OF s(1) assms(1) r] s assms(2) r
  show "\<exists>ks s'. expect (be_list B p) s = (Ok ks, s') \<and>
      (distinct ks \<and> set ks = path_of ` children t (components p)) \<and> inv s' \<and> abs s' = t"
    by (auto simp: expect_def)
qed

lemma does_list_file:
  assumes "wf_path p" "t (components p) = Some (TFile d)"
  shows "does t (expect_err (be_list B p)) is_kind_mismatch t"
proof (rule movesI)
  fix s assume s: "inv s" "abs s = t"
  obtain r s' where r: "be_list B p s = (r, s')" by force
  from list_spec [OF s(1) assms(1) r] s assms(2) r
  show "\<exists>e s'. expect_err (be_list B p) s = (Ok e, s') \<and> is_kind_mismatch e \<and> inv s' \<and> abs s' = t"
    by (auto simp: expect_err_def)
qed

lemma does_create_dir:
  assumes "wf_path p" "spec_create_dir (components p) t = (Ok (), t')"
  shows "does t (expect (be_create_dir B p)) (\<lambda>_. True) t'"
proof (rule movesI)
  fix s assume s: "inv s" "abs s = t"
  obtain r s' where r: "be_create_dir B p s = (r, s')" by force
  from create_dir_spec [OF s(1) assms(1) r] s assms(2) r
  show "\<exists>a s'. expect (be_create_dir B p) s = (Ok a, s') \<and> True \<and> inv s' \<and> abs s' = t'"
    by (auto simp: expect_def)
qed

lemma does_remove:
  assumes "wf_path p" "spec_remove (components p) t = (Ok (), t')"
  shows "does t (expect (be_remove B p)) (\<lambda>_. True) t'"
proof (rule movesI)
  fix s assume s: "inv s" "abs s = t"
  obtain r s' where r: "be_remove B p s = (r, s')" by force
  from remove_spec [OF s(1) assms(1) r] s assms(2) r
  show "\<exists>a s'. expect (be_remove B p) s = (Ok a, s') \<and> True \<and> inv s' \<and> abs s' = t'"
    by (auto simp: expect_def)
qed

lemma does_remove_refused:
  assumes "wf_path p" "spec_remove (components p) t = (Err e, t')"
  shows "does t (expect_err (be_remove B p)) (\<lambda>x. x = e) t'"
proof (rule movesI)
  fix s assume s: "inv s" "abs s = t"
  obtain r s' where r: "be_remove B p s = (r, s')" by force
  from remove_spec [OF s(1) assms(1) r] s assms(2) r
  show "\<exists>a s'. expect_err (be_remove B p) s = (Ok a, s') \<and> a = e \<and> inv s' \<and> abs s' = t'"
    by (auto simp: expect_err_def)
qed

lemma does_open:
  assumes "wf_path p" "spec_open (components p) flags t = (Ok cs, t')"
  shows "does t (expect (be_open B p flags)) (\<lambda>h. hpath h = p) t'"
proof (rule movesI)
  fix s assume s: "inv s" "abs s = t"
  obtain r s' where r: "be_open B p flags s = (r, s')" by force
  from open_spec [OF s(1) assms(1) r] s assms(2) r
  show "\<exists>a s'. expect (be_open B p flags) s = (Ok a, s') \<and> hpath a = p \<and> inv s' \<and> abs s' = t'"
    by (auto simp: expect_def split: outcome.splits)
qed

lemma does_open_refused:
  assumes "wf_path p" "spec_open (components p) flags t = (Err e, t')"
  shows "does t (expect_err (be_open B p flags)) (\<lambda>x. x = e) t'"
proof (rule movesI)
  fix s assume s: "inv s" "abs s = t"
  obtain r s' where r: "be_open B p flags s = (r, s')" by force
  from open_spec [OF s(1) assms(1) r] s assms(2) r
  show "\<exists>a s'. expect_err (be_open B p flags) s = (Ok a, s') \<and> a = e \<and> inv s' \<and> abs s' = t'"
    by (auto simp: expect_err_def split: outcome.splits)
qed

lemma does_read:
  assumes "hpath h = p" "wf_path p" "spec_read (components p) (unat off) (unat len) t = (Ok d, t)"
  shows "does t (expect (h_read B h off len)) (\<lambda>x. x = d) t"
  using assms read_spec [of _ h off len] by (auto simp: moves_def expect_def)

lemma does_write:
  assumes "hpath h = p" "wf_path p" "length new \<le> isize_max"
    and "spec_write (components p) (unat off) new t = (Ok n, t')"
  shows "does t (expect (h_write B h off new)) (\<lambda>x. unat x = n) t'"
proof (rule movesI)
  fix s assume s: "inv s" "abs s = t"
  obtain r s' where r: "h_write B h off new s = (r, s')" by force
  have "wf_path (hpath h)" using assms(1,2) by simp
  from write_spec [OF s(1) this assms(3) r] s assms r
  show "\<exists>x s'. expect (h_write B h off new) s = (Ok x, s') \<and> unat x = n \<and> inv s' \<and> abs s' = t'"
    by (auto simp: expect_def split: outcome.splits)
qed

lemma does_flush: "does t (expect (h_flush B h)) (\<lambda>_. True) t"
  by (simp add: moves_def expect_def flush_spec)

end

section \<open>Children after an update\<close>

lemma children_update [simp]:
  "children (t(ds \<mapsto> n)) cs = (if ds \<noteq> [] \<and> butlast ds = cs then insert ds (children t cs) else children t cs)"
  "children (t(ds := None)) cs = children t cs - {ds}"
  by (auto simp: children_def)

definition fresh_tree :: tree where
  "fresh_tree = [[] \<mapsto> TDir]"

lemma fresh_tree_simps [simp]: "fresh_tree [] = Some TDir" "w \<noteq> [] \<Longrightarrow> fresh_tree w = None" "children fresh_tree cs = {}"
  by (auto simp: fresh_tree_def children_def)

text \<open>The paths of the script.\<close>

abbreviation file_cs :: "string list" where "file_cs \<equiv> [''conformance.txt'']"
abbreviation dir_cs :: "string list" where "dir_cs \<equiv> [''dir'']"
abbreviation inner_cs :: "string list" where "inner_cs \<equiv> [''dir'', ''a.txt'']"
abbreviation sub_cs :: "string list" where "sub_cs \<equiv> [''dir'', ''sub'']"
abbreviation deep_cs :: "string list" where "deep_cs \<equiv> [''dir'', ''sub'', ''deep.txt'']"
abbreviation keep_cs :: "string list" where "keep_cs \<equiv> [''dir'', ''keep.txt'']"

lemma wf_script:
  "wf_path (path_of file_cs)" "wf_path (path_of dir_cs)" "wf_path (path_of inner_cs)" "wf_path (path_of sub_cs)"
  "wf_path (path_of deep_cs)" "wf_path (path_of keep_cs)" "wf_path (path_of [''does-not-exist''])"
  "wf_path (path_of [''also-missing''])"
  by (intro wf_path_of; simp add: wf_comp_def sep_def)+

lemma script_components:
  "components (path_of file_cs) = file_cs" "components (path_of dir_cs) = dir_cs" "components (path_of inner_cs) = inner_cs"
  "components (path_of sub_cs) = sub_cs" "components (path_of deep_cs) = deep_cs" "components (path_of keep_cs) = keep_cs"
  "components (path_of [''does-not-exist'']) = [''does-not-exist'']" "components (path_of [''also-missing'']) = [''also-missing'']"
  by (intro components_path_of; simp add: wf_comp_def sep_def)+

lemma script_paths:
  "vfs_path_new ''/conformance.txt'' = Some (path_of file_cs)" "vfs_path_new ''/dir'' = Some (path_of dir_cs)"
  "vfs_path_new ''/dir/a.txt'' = Some (path_of inner_cs)" "vfs_path_new ''/dir/sub'' = Some (path_of sub_cs)"
  "vfs_path_new ''/dir/sub/deep.txt'' = Some (path_of deep_cs)" "vfs_path_new ''/dir/keep.txt'' = Some (path_of keep_cs)"
  "vfs_path_new ''/does-not-exist'' = Some (path_of [''does-not-exist''])"
  "vfs_path_new ''/also-missing'' = Some (path_of [''also-missing''])"
  by code_simp+

text \<open>The flags of the script.\<close>

lemma script_flags:
  "contains (or CREATE WRITE) CREATE" "\<not> contains (or CREATE WRITE) EXCL" "\<not> contains (or CREATE WRITE) TRUNC"
  "\<not> contains WRITE CREATE" "\<not> contains WRITE TRUNC" "\<not> contains READ CREATE" "\<not> contains READ TRUNC"
  "contains (or (or CREATE EXCL) WRITE) CREATE" "contains (or (or CREATE EXCL) WRITE) EXCL"
  by (simp_all add: contains_def flag_defs)

lemmas on_tree = script_components script_flags spec_create_dir_def spec_remove_def spec_open_def spec_read_def
  spec_write_def spec_file_def spec_parent_def

definition written_tree :: tree where
  "written_tree = fresh_tree(file_cs \<mapsto> TFile payload)"

definition full_tree :: tree where
  "full_tree = written_tree(dir_cs \<mapsto> TDir, inner_cs \<mapsto> TFile [], sub_cs \<mapsto> TDir, deep_cs \<mapsto> TFile [])"

definition final_tree :: tree where
  "final_tree = full_tree(inner_cs := None, deep_cs := None, sub_cs := None, keep_cs \<mapsto> TFile [])"

lemma payload_length [simp]: "length payload = 19"
  by (simp add: payload_def)

lemma sorted_listing:
  assumes "distinct ks" and "set ks = path_of ` {inner_cs, sub_cs}"
  shows "sort (map as_str ks) = [''/dir/a.txt'', ''/dir/sub'']"
proof -
  have str: "as_str (path_of inner_cs) = ''/dir/a.txt''" "as_str (path_of sub_cs) = ''/dir/sub''" by code_simp+
  have "path_of inner_cs \<noteq> path_of sub_cs" using str by auto
  then have "length ks = 2" using assms by (simp flip: distinct_card)
  then obtain a b where "ks = [a, b]" by (auto simp: length_Suc_conv numeral_2_eq_2)
  then have "ks = [path_of inner_cs, path_of sub_cs] \<or> ks = [path_of sub_cs, path_of inner_cs]"
    using assms by (auto simp: doubleton_eq_iff)
  moreover have "sort [''/dir/a.txt'', ''/dir/sub''] = [''/dir/a.txt'', ''/dir/sub'']"
    "sort [''/dir/sub'', ''/dir/a.txt''] = [''/dir/a.txt'', ''/dir/sub'']" by code_simp+
  ultimately show ?thesis by (auto simp: str)
qed

context observed_backend
begin

text \<open>One step after the other.\<close>

lemmas next_step = moves_then [OF moves_assert] moves_assert

lemma does_fresh_root: "does fresh_tree (check_fresh_root B) (\<lambda>_. True) fresh_tree"
  unfolding check_fresh_root_def
  by (rule moves_then [OF does_metadata [where n = TDir]] moves_then [OF moves_assert] moves_then [OF does_list] moves_assert;
      simp add: tree_size_def)+

lemma does_create_file:
  "does fresh_tree (check_create_file B (path_of file_cs)) (\<lambda>_. True) (fresh_tree(file_cs \<mapsto> TFile []))"
proof -
  have o: "does fresh_tree (expect (be_open B (path_of file_cs) (or CREATE WRITE))) (\<lambda>h. hpath h = path_of file_cs)
      (fresh_tree(file_cs \<mapsto> TFile []))"
    by (rule does_open [where cs = file_cs]) (simp_all add: wf_script on_tree)
  have m: "does (fresh_tree(file_cs \<mapsto> TFile [])) (expect (be_metadata B (path_of file_cs))) (\<lambda>m. md_kind m = File \<and> md_size m = 0)
      (fresh_tree(file_cs \<mapsto> TFile []))"
    using does_metadata [OF wf_script(1), of "fresh_tree(file_cs \<mapsto> TFile [])" "TFile []"]
    by (simp add: script_components tree_size_def)
  show ?thesis unfolding check_create_file_def
    by (intro moves_then [OF o] moves_then [OF m] next_step) simp_all
qed

lemma does_write_read:
  "does (fresh_tree(file_cs \<mapsto> TFile [])) (check_write_read B (path_of file_cs)) (\<lambda>_. True) written_tree"
proof -
  let ?t = "fresh_tree(file_cs \<mapsto> TFile [])"
  have written: "written_tree file_cs = Some (TFile payload)" by (simp add: written_tree_def)
  have o: "does ?t (expect (be_open B (path_of file_cs) WRITE)) (\<lambda>h. hpath h = path_of file_cs) ?t"
    by (rule does_open [where cs = file_cs]) (simp_all add: wf_script on_tree)
  have w: "does ?t (expect (h_write B h 0 payload)) (\<lambda>n. unat n = 19) written_tree" if "hpath h = path_of file_cs" for h
    by (rule does_write [OF that wf_script(1)])
      (simp_all add: on_tree isize_max_def overwrite_def written_tree_def)
  have m: "does written_tree (expect (be_metadata B (path_of file_cs))) (\<lambda>m. md_size m = 19) written_tree"
    using does_metadata [OF wf_script(1), of written_tree "TFile payload"]
    by (simp add: script_components tree_size_def written moves_def) blast
  have r: "does written_tree (expect (be_open B (path_of file_cs) READ)) (\<lambda>h. hpath h = path_of file_cs) written_tree"
    by (rule does_open [where cs = file_cs]) (simp_all add: wf_script on_tree written)
  have got: "does written_tree (expect (h_read B h 0 1024)) (\<lambda>d. d = payload) written_tree"
    and past: "does written_tree (expect (h_read B h 10000 16)) (\<lambda>d. d = []) written_tree"
    if "hpath h = path_of file_cs" for h
    by (rule does_read [OF that wf_script(1)]; simp add: on_tree written)+
  have n: "n = of_nat (length payload)" if "unat n = 19" for n :: usize
    by (simp add: word_unat_eq_iff that)
  show ?thesis unfolding check_write_read_def
    by (intro moves_then [OF o] moves_then [OF w] moves_then [OF does_flush] moves_then [OF m] moves_then [OF r]
        moves_then [OF got] moves_then [OF past] next_step n) simp_all
qed

lemma does_directories:
  "does written_tree (check_directories B (path_of dir_cs) (path_of inner_cs) (path_of sub_cs) (path_of deep_cs)) (\<lambda>_. True)
     full_tree"
proof -
  let ?t1 = "written_tree(dir_cs \<mapsto> TDir)"
  let ?t2 = "?t1(inner_cs \<mapsto> TFile [])"
  let ?t3 = "?t2(sub_cs \<mapsto> TDir)"
  have d: "does written_tree (expect (be_create_dir B (path_of dir_cs))) (\<lambda>_. True) ?t1"
    by (rule does_create_dir) (simp_all add: wf_script on_tree written_tree_def)
  have m: "does ?t1 (expect (be_metadata B (path_of dir_cs))) (\<lambda>m. md_kind m = Directory) ?t1"
    using does_metadata [OF wf_script(2), of ?t1 TDir] by (simp add: script_components moves_def) blast
  have a: "does ?t1 (expect (be_open B (path_of inner_cs) (or CREATE WRITE))) (\<lambda>h. hpath h = path_of inner_cs) ?t2"
    by (rule does_open [where cs = inner_cs]) (simp_all add: wf_script on_tree written_tree_def)
  have s: "does ?t2 (expect (be_create_dir B (path_of sub_cs))) (\<lambda>_. True) ?t3"
    by (rule does_create_dir) (simp_all add: wf_script on_tree written_tree_def)
  have f: "does ?t3 (expect (be_open B (path_of deep_cs) (or CREATE WRITE))) (\<lambda>h. hpath h = path_of deep_cs) full_tree"
    by (rule does_open [where cs = deep_cs]) (simp_all add: wf_script on_tree written_tree_def full_tree_def)
  have "children full_tree dir_cs = {inner_cs, sub_cs}"
    by (auto simp: full_tree_def written_tree_def)
  then have l: "does full_tree (expect (be_list B (path_of dir_cs)))
      (\<lambda>ks. distinct ks \<and> set ks = path_of ` {inner_cs, sub_cs}) full_tree"
    using does_list [OF wf_script(2), of full_tree] by (simp add: script_components full_tree_def)
  show ?thesis unfolding check_directories_def
    by (intro moves_then [OF d] moves_then [OF m] moves_then [OF a] moves_then [OF s] moves_then [OF f] moves_then [OF l]
        next_step sorted_listing) simp_all
qed

lemma does_removal:
  "does full_tree (check_removal B (path_of dir_cs) (path_of inner_cs) (path_of sub_cs) (path_of deep_cs)) (\<lambda>_. True) final_tree"
proof -
  let ?t1 = "full_tree(inner_cs := None)"
  let ?t2 = "?t1(deep_cs := None)"
  let ?t3 = "?t2(sub_cs := None)"
  have a: "does full_tree (expect (be_remove B (path_of inner_cs))) (\<lambda>_. True) ?t1"
    by (rule does_remove) (simp_all add: wf_script on_tree full_tree_def)
  have g: "does ?t1 (expect_err (be_metadata B (path_of inner_cs))) is_not_found ?t1"
    by (rule does_metadata_gone) (simp_all add: wf_script script_components)
  have f: "does ?t1 (expect (be_remove B (path_of deep_cs))) (\<lambda>_. True) ?t2"
    by (rule does_remove) (simp_all add: wf_script on_tree full_tree_def)
  have s: "does ?t2 (expect (be_remove B (path_of sub_cs))) (\<lambda>_. True) ?t3"
    by (rule does_remove) (simp_all add: wf_script on_tree full_tree_def written_tree_def)
  have k: "does ?t3 (expect (be_open B (path_of keep_cs) (or CREATE WRITE))) (\<lambda>h. hpath h = path_of keep_cs) final_tree"
    by (rule does_open [where cs = keep_cs]) (simp_all add: wf_script on_tree full_tree_def written_tree_def final_tree_def)
  have r: "does final_tree (expect_err (be_remove B (path_of dir_cs))) (\<lambda>e. e = Backend ''directory not empty'') final_tree"
    by (rule does_remove_refused) (simp_all add: wf_script on_tree full_tree_def written_tree_def final_tree_def)
  show ?thesis unfolding check_removal_def
    by (intro moves_then [OF a] moves_then [OF g] moves_then [OF f] moves_then [OF s] moves_path [OF script_paths(6)]
        moves_then [OF k] moves_then [OF r] next_step) simp_all
qed

lemma does_errors: "does final_tree (check_errors B) (\<lambda>_. True) final_tree"
proof -
  have tree: "final_tree keep_cs = Some (TFile [])" "final_tree [''does-not-exist''] = None"
    "final_tree [''also-missing''] = None"
    by (simp_all add: final_tree_def full_tree_def written_tree_def)
  have r: "does final_tree (expect_err (be_open B (path_of [''does-not-exist'']) READ))
      (\<lambda>e. e = NotFound (path_str [''does-not-exist''])) final_tree"
    by (rule does_open_refused) (simp_all add: wf_script on_tree tree)
  have w: "does final_tree (expect_err (be_open B (path_of [''also-missing'']) WRITE))
      (\<lambda>e. e = NotFound (path_str [''also-missing''])) final_tree"
    by (rule does_open_refused) (simp_all add: wf_script on_tree tree)
  have x: "does final_tree (expect_err (be_open B (path_of keep_cs) (or (or CREATE EXCL) WRITE)))
      (\<lambda>e. e = AlreadyExists (path_str keep_cs)) final_tree"
    by (rule does_open_refused) (simp_all add: wf_script on_tree tree)
  have l: "does final_tree (expect_err (be_list B (path_of keep_cs))) is_kind_mismatch final_tree"
    by (rule does_list_file) (simp_all add: wf_script script_components tree)
  show ?thesis unfolding check_errors_def
    by (intro moves_path [OF script_paths(7)] moves_path [OF script_paths(8)] moves_path [OF script_paths(6)]
        moves_then [OF r] moves_then [OF w] moves_then [OF x] moves_then [OF l] next_step) simp_all
qed

text \<open>A backend that keeps the contract passes the suite.\<close>

lemma passes:
  assumes "inv s" and "abs s = fresh_tree"
  shows "\<exists>s'. run_suite B s = (Ok (), s') \<and> inv s' \<and> abs s' = final_tree"
proof -
  have "does fresh_tree (run_suite B) (\<lambda>_. True) final_tree" unfolding run_suite_def
    by (intro moves_then [OF does_fresh_root] moves_path [OF script_paths(1)] moves_then [OF does_create_file]
        moves_then [OF does_write_read] moves_path [OF script_paths(2)] moves_path [OF script_paths(3)]
        moves_path [OF script_paths(4)] moves_path [OF script_paths(5)] moves_then [OF does_directories]
        moves_then [OF does_removal] does_errors)
  with assms show ?thesis by (simp add: moves_def)
qed

end

section \<open>The in-memory backend passes\<close>

lemma mem_metadata_shows:
  assumes "mem_inv s" and "wf_path p" and "mem_metadata p s = (r, s')"
  shows "s' = s \<and> (case mem_abs s (components p) of
      None \<Rightarrow> r = Err (NotFound (as_str p))
    | Some n \<Rightarrow> \<exists>m. r = Ok m \<and> md_kind m = tkind n \<and> md_size m = of_nat (tree_size n))"
proof (cases "hm_get (nodes s) p")
  case (Some n)
  then have "node_ok n" using mem_invD(4) [OF assms(1)] by blast
  with Some assms(2,3) show ?thesis
    by (cases "n_kind n") (auto simp: mem_metadata_def node_metadata_def tnode_of_def node_ok_def tree_size_def)
qed (use assms in \<open>auto simp: mem_metadata_def\<close>)

lemma children_paths:
  assumes "mem_inv s" and "wf_path p"
  shows "{k. hm_get (nodes s) k \<noteq> None \<and> parent k = Some p} = path_of ` children (mem_abs s) (components p)"
proof (intro equalityI subsetI)
  fix k assume "k \<in> {k. hm_get (nodes s) k \<noteq> None \<and> parent k = Some p}"
  then obtain n where k: "hm_get (nodes s) k = Some n" "parent k = Some p" by blast
  then have w: "wf_path k" using mem_invD(3) [OF assms(1)] by blast
  then have "components k \<in> children (mem_abs s) (components p)"
    using k parent_Some_iff [OF w assms(2)] by (simp add: children_def domIff)
  then show "k \<in> path_of ` children (mem_abs s) (components p)" using w by (metis image_eqI wf_path_def)
next
  fix k assume "k \<in> path_of ` children (mem_abs s) (components p)"
  then obtain ds where ds: "k = path_of ds" "ds \<in> dom (mem_abs s)" "ds \<noteq> []" "butlast ds = components p"
    by (auto simp: children_def)
  then obtain n where n: "hm_get (nodes s) (path_of ds) = Some n" "\<forall>w\<in>set ds. wf_comp w" using mem_abs_Some by blast
  then show "k \<in> {k. hm_get (nodes s) k \<noteq> None \<and> parent k = Some p}"
    using ds parent_Some_iff [OF wf_path_of [OF n(2)] assms(2)] by simp
qed

lemma mem_list_shows:
  assumes "mem_inv s" and "wf_path p" and "mem_list p s = (r, s')"
  shows "s' = s \<and> (case mem_abs s (components p) of
      None \<Rightarrow> r = Err (NotFound (as_str p))
    | Some (TFile d) \<Rightarrow> r = Err (KindMismatch (as_str p) ''directory'' ''file'')
    | Some TDir \<Rightarrow> \<exists>ks. r = Ok ks \<and> distinct ks \<and> set ks = path_of ` children (mem_abs s) (components p))"
proof (cases "mem_abs s (components p)")
  case None
  with assms show ?thesis by (auto simp: mem_list_def)
next
  case (Some t)
  show ?thesis
  proof (cases t)
    case TDir
    with Some have "mem_abs s (components p) = Some TDir" by simp
    then obtain ks where "mem_list p s = (Ok ks, s)" "distinct ks"
      "set ks = {k. hm_get (nodes s) k \<noteq> None \<and> parent k = Some p}" by (rule mem_list_children [OF assms(1,2)])
    with assms(3) have "r = Ok ks" "s' = s" by simp_all
    with Some TDir \<open>distinct ks\<close> \<open>set ks = _\<close> children_paths [OF assms(1,2)] show ?thesis by auto
  next
    case (TFile d)
    with Some assms(2) obtain n where "hm_get (nodes s) p = Some n" "tnode_of n = TFile d" by auto
    then have "n_kind n = File" by (auto simp: tnode_of_def split: if_splits)
    with \<open>hm_get (nodes s) p = Some n\<close> Some TFile assms(3) show ?thesis by (simp add: mem_list_def)
  qed
qed

interpretation observed: observed_backend memory_vtable mem_inv mem_abs mh_path
  by unfold_locales (unfold memory_vtable_simps, fact mem_metadata_shows, fact mem_list_shows)

text \<open>
  (C9) The in-memory backend passes the conformance suite, whatever the clock reads: every one of the eighteen assertions
  holds on a new backend, and the script ends in a well-formed state with the tree the script builds.
\<close>

theorem memory_conforms:
  "\<exists>s. run_suite memory_vtable (memory_new clk) = (Ok (), s) \<and> mem_inv s \<and> mem_abs s = final_tree"
proof -
  have "mem_abs (memory_new clk) = fresh_tree" by (simp add: init_tree_def fresh_tree_def fun_eq_iff)
  from observed.passes [OF mem_inv_new this] show ?thesis .
qed

end
