(* ===== verification/Gcs_Storage.thy ===== *)
theory Gcs_Storage
  imports S3_Storage
begin

text \<open>
  The adapter for Google Cloud Storage (\<open>apps/vfs-desktop/src-tauri/src/vfs/adapters/gcs_storage.rs\<close>).

  It works on the operator of \<open>opendal\<close> like the adapter for S3 (\<open>S3_Storage\<close>), whose functions on paths, keys and names of entries it repeats
  word for word: those are shared. What differs are the checks before an operation, the treatment of errors, and deleting a directory, which
  follows the listings of the bucket and therefore carries fuel. \<open>working_bucket\<close> adds to the promises of the operator that deletions work and
  that listings are complete; under it, deleting a directory deletes exactly what is in it.
\<close>

section \<open>State\<close>

record 'w gcs_storage =
  gc_operator :: "'w s3_operator"
  gc_bucket :: string
  gc_name :: string

definition gcs_new ::
    "(string \<Rightarrow> string option \<Rightarrow> (string, 'w s3_operator) outcome) \<Rightarrow> string \<Rightarrow> string option \<Rightarrow> string \<Rightarrow>
     (string, 'w gcs_storage) outcome" where
  "gcs_new build bucket credentials_path name =
     (case build bucket credentials_path of
        Ok op \<Rightarrow> Ok \<lparr>gc_operator = op, gc_bucket = bucket, gc_name = name\<rparr>
      | Err e \<Rightarrow> Err e
      | Panic \<Rightarrow> Panic)"

section \<open>The storage port\<close>

definition gcs_storage_type :: storage_source_type where
  "gcs_storage_type = S3"

definition gcs_test_connection :: "'w gcs_storage \<Rightarrow> ('w, bool) io_act" where
  "gcs_test_connection c w =
     (case so_list (gc_operator c) ''/'' w of (Ok es, w) \<Rightarrow> (Ok True, w) | (Err e, w) \<Rightarrow> (Ok False, w) | (Panic, w) \<Rightarrow> (Panic, w))"

definition gcs_virtual_file :: "string \<Rightarrow> string \<Rightarrow> string \<Rightarrow> u64 \<Rightarrow> bool \<Rightarrow> virtual_file" where
  "gcs_virtual_file i n p sz dir =
     (virtual_file_new i n p sz dir)
       \<lparr>vf_tier_status := \<lparr>ts_current_tier = Cold, ts_is_cached = False, ts_can_warm = True, ts_retrieval_time_estimate = Some 5\<rparr>\<rparr>"

text \<open>Which entries are kept is decided as by the adapter for S3 (\<open>s3_kept\<close>).\<close>

fun gcs_children :: "(string \<Rightarrow> string) \<Rightarrow> string \<Rightarrow> string \<Rightarrow> string list \<Rightarrow> s3_entry list \<Rightarrow> virtual_file list" where
  "gcs_children ids p pre seen [] = []"
| "gcs_children ids p pre seen (e # es) =
     (case s3_kept pre seen (se_name e) of
        None \<Rightarrow> gcs_children ids p pre seen es
      | Some child \<Rightarrow>
          (let f = gcs_virtual_file (ids child) child
                (if p = [] \<or> same_path p ''/'' then path_join ''/'' child else path_join p child) (se_len e) (se_is_dir e)
           in f\<lparr>vf_transcodable := can_transcode f\<rparr>) # gcs_children ids p pre (child # seen) es)"

definition gcs_list_files :: "(string \<Rightarrow> string) \<Rightarrow> 'w gcs_storage \<Rightarrow> string \<Rightarrow> ('w, virtual_file list) io_act" where
  "gcs_list_files ids c p =
     (let pre = list_prefix (to_key p) in
      and_then (map_err (\<lambda>_. ''Failed to list GCS objects with prefix: '' @ pre) (so_list (gc_operator c) pre))
        (\<lambda>es w. (Ok (sort_key s3_order (gcs_children ids p pre [] es)), w)))"

definition gcs_read_file :: "'w gcs_storage \<Rightarrow> string \<Rightarrow> ('w, bytes) io_act" where
  "gcs_read_file c p = so_read (gc_operator c) (to_key p)"

definition gcs_read_file_range :: "'w gcs_storage \<Rightarrow> string \<Rightarrow> u64 \<Rightarrow> u64 \<Rightarrow> ('w, bytes) io_act" where
  "gcs_read_file_range c p off len = so_read_range (gc_operator c) (to_key p) off (off + len)"

definition gcs_write_file :: "'w gcs_storage \<Rightarrow> string \<Rightarrow> bytes \<Rightarrow> ('w, unit) io_act" where
  "gcs_write_file c p d = so_write (gc_operator c) (to_key p) d"

definition gcs_get_metadata :: "(string \<Rightarrow> string) \<Rightarrow> 'w gcs_storage \<Rightarrow> string \<Rightarrow> ('w, virtual_file) io_act" where
  "gcs_get_metadata ids c p =
     (let key = to_key p in
      and_then (so_stat (gc_operator c) key)
        (\<lambda>(dir, len) w. (Ok (gcs_virtual_file (ids (name_or key p)) (name_or key p) p len dir), w)))"

definition gcs_exists :: "'w gcs_storage \<Rightarrow> string \<Rightarrow> ('w, bool) io_act" where
  "gcs_exists c p = so_exists (gc_operator c) (to_key p)"

definition gcs_delete :: "'w gcs_storage \<Rightarrow> string \<Rightarrow> ('w, unit) io_act" where
  "gcs_delete c p = so_delete (gc_operator c) (to_key p)"

definition gcs_create_dir :: "'w gcs_storage \<Rightarrow> string \<Rightarrow> ('w, unit) io_act" where
  "gcs_create_dir c p = so_write (gc_operator c) (to_key p @ [slash]) []"

definition gcs_file_size :: "'w gcs_storage \<Rightarrow> string \<Rightarrow> ('w, u64) io_act" where
  "gcs_file_size c p = and_then (so_stat (gc_operator c) (to_key p)) (\<lambda>(dir, len) w. (Ok len, w))"

text \<open>Pages are cut by the default method of the port.\<close>

definition gcs_adapter :: "(string \<Rightarrow> string) \<Rightarrow> 'w gcs_storage \<Rightarrow> 'w storage_adapter" where
  "gcs_adapter ids c =
     \<lparr>sa_list_files = gcs_list_files ids c,
      sa_list_files_paginated = default_list_files_paginated (gcs_list_files ids c),
      sa_read_file = gcs_read_file c, sa_file_size = gcs_file_size c, sa_get_metadata = gcs_get_metadata ids c\<rparr>"

section \<open>The file operations\<close>

definition gcs_list :: "'w gcs_storage \<Rightarrow> string \<Rightarrow> ('w, file_entry list) io_act" where
  "gcs_list c p =
     (let pre = list_prefix (to_key p) in
      and_then (so_list (gc_operator c) pre)
        (\<lambda>es w.
           (Ok (sort_key (\<lambda>e. (\<not> fe_is_dir e, to_lowercase (fe_name e)))
              (map (\<lambda>e. \<lparr>fe_name = trim_end_slash (se_name e), fe_path = path_join (path_join ''/'' pre) (se_name e),
                          fe_size = se_len e, fe_is_dir = se_is_dir e\<rparr>)
                 (filter (\<lambda>e. se_name e \<noteq> [] \<and> se_name e \<noteq> ''/'') es))), w)))"

definition gcs_stat :: "'w gcs_storage \<Rightarrow> string \<Rightarrow> ('w, file_stat) io_act" where
  "gcs_stat c p =
     and_then (so_stat (gc_operator c) (to_key p)) (\<lambda>(dir, len) w. (Ok \<lparr>fs_size = len, fs_is_dir = dir\<rparr>, w))"

text \<open>An object that cannot be read is appended to as if it were empty.\<close>

definition gcs_append :: "'w gcs_storage \<Rightarrow> string \<Rightarrow> bytes \<Rightarrow> ('w, unit) io_act" where
  "gcs_append c p d w =
     (let key = to_key p in
      case so_read (gc_operator c) key w of
        (Ok b, w) \<Rightarrow> so_write (gc_operator c) key (b @ d) w
      | (Err e, w) \<Rightarrow> so_write (gc_operator c) key d w
      | (Panic, w) \<Rightarrow> (Panic, w))"

text \<open>A buffer of more than \<open>2^63 - 1\<close> bytes is a panic, and so is a range whose end wraps.\<close>

definition gcs_write_at :: "'w gcs_storage \<Rightarrow> string \<Rightarrow> u64 \<Rightarrow> bytes \<Rightarrow> ('w, unit) io_act" where
  "gcs_write_at c p off d =
     (let key = to_key p in
      and_then (so_read (gc_operator c) key)
        (\<lambda>b w. if 2 ^ 63 \<le> unat off + length d then (Panic, w)
               else so_write (gc_operator c) key (splice (unat off) d b) w))"

definition gcs_truncate :: "'w gcs_storage \<Rightarrow> string \<Rightarrow> u64 \<Rightarrow> ('w, unit) io_act" where
  "gcs_truncate c p len =
     (let key = to_key p in
      and_then (so_read (gc_operator c) key) (\<lambda>b. so_write (gc_operator c) key (take (unat len) b)))"

definition gcs_mkdir :: "'w gcs_storage \<Rightarrow> string \<Rightarrow> ('w, unit) io_act" where
  "gcs_mkdir c p = so_write (gc_operator c) (to_key p @ [slash]) []"

definition gcs_rmdir :: "'w gcs_storage \<Rightarrow> string \<Rightarrow> ('w, unit) io_act" where
  "gcs_rmdir c p = so_delete (gc_operator c) (to_key p @ [slash])"

definition gcs_copy :: "'w gcs_storage \<Rightarrow> string \<Rightarrow> string \<Rightarrow> copy_options \<Rightarrow> ('w, unit) io_act" where
  "gcs_copy c from to opts =
     (let op = gc_operator c; from_key = to_key from; dest_key = to_key to in
      and_then (\<lambda>w. if co_overwrite opts then (Ok False, w) else so_exists op dest_key w)
        (\<lambda>taken. if taken then (\<lambda>w. (Err ''Destination already exists'', w)) else
         and_then (so_read op from_key) (\<lambda>d. so_write op dest_key d)))"

definition gcs_rm :: "'w gcs_storage \<Rightarrow> string \<Rightarrow> ('w, unit) io_act" where
  "gcs_rm c p = so_delete (gc_operator c) (to_key p)"

text \<open>\<open>CopyOptions::default()\<close>.\<close>

definition default_copy_options :: copy_options where
  "default_copy_options =
     \<lparr>co_overwrite = False, co_preserve_attributes = False, co_recursive = False, co_follow_symlinks = False\<rparr>"

definition gcs_rename :: "'w gcs_storage \<Rightarrow> string \<Rightarrow> string \<Rightarrow> ('w, unit) io_act" where
  "gcs_rename c from to = and_then (gcs_copy c from to default_copy_options) (\<lambda>_. gcs_rm c from)"

text \<open>\<open>.ok()\<close> on a deletion, and \<open>unwrap_or_default()\<close> on a listing.\<close>

definition delete_ok :: "'w s3_operator \<Rightarrow> string \<Rightarrow> ('w, unit) io_act" where
  "delete_ok op key w = (case so_delete op key w of (Panic, w) \<Rightarrow> (Panic, w) | (_, w) \<Rightarrow> (Ok (), w))"

definition list_or_none :: "'w s3_operator \<Rightarrow> string \<Rightarrow> ('w, s3_entry list) io_act" where
  "list_or_none op key w = (case so_list op key w of (Err e, w) \<Rightarrow> (Ok [], w) | r \<Rightarrow> r)"

text \<open>Deleting all there is follows the listings.\<close>

fun gcs_rm_rf :: "nat \<Rightarrow> 'w gcs_storage \<Rightarrow> string \<Rightarrow> ('w, unit) io_act"
  and gcs_rm_entries :: "nat \<Rightarrow> 'w gcs_storage \<Rightarrow> string \<Rightarrow> s3_entry list \<Rightarrow> ('w, unit) io_act" where
  "gcs_rm_rf 0 c p w = (Err ''out of fuel'', w)"
| "gcs_rm_rf (Suc fuel) c p w =
     and_then (list_or_none (gc_operator c) (to_key p @ [slash]))
       (\<lambda>es. and_then (gcs_rm_entries fuel c p es)
       (\<lambda>_. and_then (delete_ok (gc_operator c) (to_key p))
       (\<lambda>_. delete_ok (gc_operator c) (to_key p @ [slash])))) w"
| "gcs_rm_entries fuel c p [] w = (Ok (), w)"
| "gcs_rm_entries fuel c p (e # es) w =
     and_then (gcs_rm_rf fuel c (path_join p (se_name e))) (\<lambda>_. gcs_rm_entries fuel c p es) w"

definition gcs_mv :: "nat \<Rightarrow> 'w gcs_storage \<Rightarrow> string \<Rightarrow> string \<Rightarrow> bool \<Rightarrow> ('w, unit) io_act" where
  "gcs_mv fuel c from to overwrite =
     and_then
       (gcs_copy c from to
          \<lparr>co_overwrite = overwrite, co_preserve_attributes = False, co_recursive = True, co_follow_symlinks = False\<rparr>)
       (\<lambda>_. gcs_rm_rf fuel c from)"

definition gcs_symlink :: "string \<Rightarrow> string \<Rightarrow> ('w, unit) io_act" where
  "gcs_symlink target link w = (Err ''GCS does not support symbolic links'', w)"

definition gcs_readlink :: "string \<Rightarrow> ('w, string) io_act" where
  "gcs_readlink p w = (Err ''GCS does not support symbolic links'', w)"

definition gcs_is_dir :: "'w gcs_storage \<Rightarrow> string \<Rightarrow> ('w, bool) io_act" where
  "gcs_is_dir c p w =
     (case so_stat (gc_operator c) (to_key p) w of
        (Ok (dir, len), w) \<Rightarrow> (Ok dir, w) | (Err e, w) \<Rightarrow> (Ok False, w) | (Panic, w) \<Rightarrow> (Panic, w))"

definition gcs_is_file :: "'w gcs_storage \<Rightarrow> string \<Rightarrow> ('w, bool) io_act" where
  "gcs_is_file c p w =
     (case so_stat (gc_operator c) (to_key p) w of
        (Ok (dir, len), w) \<Rightarrow> (Ok (\<not> dir), w) | (Err e, w) \<Rightarrow> (Ok False, w) | (Panic, w) \<Rightarrow> (Panic, w))"

definition gcs_chmod :: "string \<Rightarrow> u32 \<Rightarrow> ('w, unit) io_act" where
  "gcs_chmod p mode w = (Ok (), w)"

definition gcs_touch :: "'w gcs_storage \<Rightarrow> string \<Rightarrow> ('w, unit) io_act" where
  "gcs_touch c p =
     (let key = to_key p in
      and_then (so_exists (gc_operator c) key)
        (\<lambda>there. if there then (\<lambda>w. (Ok (), w)) else so_write (gc_operator c) key []))"

definition gcs_file_ops :: "nat \<Rightarrow> 'w gcs_storage \<Rightarrow> 'w file_operations" where
  "gcs_file_ops fuel c =
     \<lparr>fo_stat = gcs_stat c, fo_read = gcs_read_file c, fo_write = gcs_write_file c, fo_mkdir_p = gcs_mkdir c,
      fo_list = gcs_list c, fo_rm_rf = gcs_rm_rf fuel c, fo_append = gcs_append c, fo_mkdir = gcs_mkdir c,
      fo_rmdir = gcs_rmdir c, fo_rename = gcs_rename c, fo_copy = gcs_copy c, fo_mv = gcs_mv fuel c,
      fo_rm = gcs_rm c, fo_chmod = gcs_chmod, fo_touch = gcs_touch c, fo_exists = gcs_exists c\<rparr>"

section \<open>Paths and keys\<close>

text \<open>A path of plain segments, with or without a slash at its end, and its key.\<close>

definition path_of_segs :: "string list \<Rightarrow> string" where
  "path_of_segs cs = concat (map ((#) slash) cs)"

definition denotes :: "string \<Rightarrow> string list \<Rightarrow> bool" where
  "denotes p cs \<longleftrightarrow> cs \<noteq> [] \<and> list_all plain cs \<and> (p = path_of_segs cs \<or> p = path_of_segs cs @ [slash])"

lemma path_of_segs_snoc: "path_of_segs (cs @ [s]) = path_of_segs cs @ slash # s"
  by (simp add: path_of_segs_def)

lemma split_path_of_segs:
  assumes "list_all plain cs" shows "split_on (\<lambda>c. c = slash) (path_of_segs cs) = [] # cs"
proof (cases cs)
  case (Cons w ws)
  then show ?thesis using split_joined [of w ws] assms by (simp add: path_of_segs_def)
qed (simp add: path_of_segs_def)

lemma to_key_denotes:
  assumes "denotes p cs" shows "to_key p = joined cs"
proof -
  let ?skip = "dropWhile (\<lambda>w. w = [] \<or> w = ''.'')"
  have cs: "cs \<noteq> []" "list_all plain cs" using assms by (auto simp: denotes_def)
  then have abs: "absolute p" using assms by (cases cs) (auto simp: denotes_def path_of_segs_def absolute_def)
  have skip: "?skip xs = xs" if "list_all plain xs" for xs using that by (cases xs) (auto simp: plain_def)
  have "split_on (\<lambda>c. c = slash) p = [] # cs \<or> split_on (\<lambda>c. c = slash) p = [] # cs @ [[]]"
    using assms split_path_of_segs [OF cs(2)] split_on_append_sep [of "\<lambda>c. c = slash" slash "path_of_segs cs" "[]"]
    by (auto simp: denotes_def)
  then have "rev (?skip (rev (?skip (split_on (\<lambda>c. c = slash) p)))) = cs"
    using skip [OF cs(2)] skip [of "rev cs"] cs by (cases cs) (auto simp: plain_def)
  then show ?thesis using abs by (simp add: to_key_def Let_def)
qed

lemma last_path_of_segs:
  assumes "cs \<noteq> []" and "list_all plain cs" shows "path_of_segs cs \<noteq> []" and "last (path_of_segs cs) \<noteq> slash"
proof -
  obtain us u where u: "cs = us @ [u]" "plain u" using assms by (cases cs rule: rev_cases) auto
  then show "path_of_segs cs \<noteq> []" by (simp add: path_of_segs_snoc)
  show "last (path_of_segs cs) \<noteq> slash"
    using u last_in_set [of u] unfolding plain_def by (metis last_ConsR last_appendR list.distinct(1) path_of_segs_snoc)
qed

lemma denotes_join:
  assumes "denotes p cs" and "plain s" and "n = s \<or> n = s @ [slash]"
  shows "denotes (path_join p n) (cs @ [s])"
proof -
  have cs: "cs \<noteq> []" "list_all plain cs" using assms(1) by (auto simp: denotes_def)
  have "n \<noteq> [] \<and> hd n \<noteq> slash" using assms(2,3) by (cases s) (auto simp: plain_def)
  then have "path_join p n = path_of_segs cs @ slash # n"
    using assms(1) last_path_of_segs [OF cs] by (auto simp: denotes_def path_join_def)
  then show ?thesis using cs assms(2,3) by (auto simp: denotes_def path_of_segs_snoc)
qed

lemma joined_snoc: "cs \<noteq> [] \<Longrightarrow> joined (cs @ [s]) = joined cs @ slash # s"
  by (cases cs) (simp_all add: joined_def)

lemma split_on_joined_segs: "cs \<noteq> [] \<Longrightarrow> list_all plain cs \<Longrightarrow> split_on (\<lambda>c. c = slash) (joined cs) = cs"
  using split_joined by (cases cs) (simp_all add: joined_def)

section \<open>What is below a directory\<close>

definition in_dir :: "string list \<Rightarrow> string \<Rightarrow> bool" where
  "in_dir cs q \<longleftrightarrow> q = joined cs \<or> prefix (joined cs @ [slash]) q"

text \<open>A tidy bucket holds objects whose keys are plain segments.\<close>

definition tidy_keys :: "(string \<Rightarrow> bytes option) \<Rightarrow> bool" where
  "tidy_keys m \<longleftrightarrow> (\<forall>k. m k \<noteq> None \<longrightarrow> (\<exists>ws. ws \<noteq> [] \<and> list_all plain ws \<and> k = joined ws))"

text \<open>What is promised besides \<open>object_store\<close>: deletions work, and a listing names every child once or more.\<close>

definition working_bucket :: "'w s3_operator \<Rightarrow> ('w \<Rightarrow> string \<Rightarrow> bytes option) \<Rightarrow> bool" where
  "working_bucket op v \<longleftrightarrow>
     object_store op v \<and> (\<forall>k w. fst (so_delete op k w) = Ok ()) \<and>
     (\<forall>k w. \<exists>es w'. so_list op (k @ [slash]) w = (Ok es, w') \<and>
        se_name ` set es = {segment r | r. r \<noteq> [] \<and> v w (k @ slash # r) \<noteq> None})"

lemma tidy_without: "tidy_keys m \<Longrightarrow> tidy_keys (\<lambda>q. if P q then None else m q)"
  by (simp add: tidy_keys_def)

lemma hd_split: "hd (split_on (\<lambda>c. c = slash) r) = takeWhile (\<lambda>c. c \<noteq> slash) r"
  by (induction r) (auto split: list.split)

text \<open>The child of a directory through which an object below it is reached.\<close>

lemma below_child:
  assumes "tidy_keys m" and "cs \<noteq> []" and "list_all plain cs" and "m (joined cs @ slash # r) \<noteq> None"
  defines "s \<equiv> takeWhile (\<lambda>c. c \<noteq> slash) r"
  shows "plain s" and "segment r = s \<or> segment r = s @ [slash]" and "in_dir (cs @ [s]) (joined cs @ slash # r)"
proof -
  from assms(1,4) obtain ws where ws: "ws \<noteq> []" "list_all plain ws" "joined cs @ slash # r = joined ws"
    unfolding tidy_keys_def by blast
  have "cs @ split_on (\<lambda>c. c = slash) r = ws"
    using split_on_joined_segs [OF ws(1,2)] split_on_joined_segs [OF assms(2,3)]
      split_on_append_sep [of "\<lambda>c. c = slash" slash "joined cs" r] ws(3) by simp
  then have "list_all plain (split_on (\<lambda>c. c = slash) r)" using ws(2) by auto
  then show "plain s" using hd_split [of r] hd_in_set [OF split_on_not_Nil] unfolding s_def list_all_iff by metis
  show "segment r = s \<or> segment r = s @ [slash]" unfolding segment_def s_def Let_def by metis
  show "in_dir (cs @ [s]) (joined cs @ slash # r)"
  proof (cases "dropWhile (\<lambda>c. c \<noteq> slash) r")
    case Nil
    then have "r = s" unfolding s_def by (simp add: takeWhile_eq_all_conv [THEN iffD2])
    then show ?thesis using joined_snoc [OF assms(2)] by (simp add: in_dir_def)
  next
    case (Cons c rest)
    then have "c = slash" using hd_dropWhile [of "\<lambda>c. c \<noteq> slash" r] by simp
    then have "r = s @ slash # rest" using Cons takeWhile_dropWhile_id [of "\<lambda>c. c \<noteq> slash" r] unfolding s_def by simp
    then show ?thesis using joined_snoc [OF assms(2)] by (simp add: in_dir_def)
  qed
qed

lemma in_dir_snoc: "cs \<noteq> [] \<Longrightarrow> in_dir (cs @ [s]) q \<Longrightarrow> in_dir cs q"
  by (auto simp: in_dir_def joined_snoc prefix_def)

section \<open>Deleting a directory\<close>

lemma delete_ok_works:
  assumes "working_bucket op v" obtains w' where "delete_ok op k w = (Ok (), w')" "v w' = (v w)(k := None)"
proof -
  have st: "object_store op v" and ok: "fst (so_delete op k w) = Ok ()" using assms by (simp_all add: working_bucket_def)
  obtain w' where d: "so_delete op k w = (Ok (), w')" using ok by (metis prod.collapse)
  show thesis by (rule that [of w']) (use d store_delete [OF st d] in \<open>simp_all add: delete_ok_def\<close>)
qed

lemma list_works:
  assumes "working_bucket op v"
  obtains es w' where "list_or_none op (k @ [slash]) w = (Ok es, w')" "v w' = v w"
    "se_name ` set es = {segment r | r. r \<noteq> [] \<and> v w (k @ slash # r) \<noteq> None}"
proof -
  have st: "object_store op v" using assms by (simp add: working_bucket_def)
  obtain es w' where l: "so_list op (k @ [slash]) w = (Ok es, w')"
    "se_name ` set es = {segment r | r. r \<noteq> [] \<and> v w (k @ slash # r) \<noteq> None}"
    using assms unfolding working_bucket_def by blast
  show thesis by (rule that [of es w']) (use l store_list(1) [OF st l(1)] in \<open>simp_all add: list_or_none_def\<close>)
qed

text \<open>Enough fuel: every object below the directory has a key that is shorter.\<close>

definition shallow :: "nat \<Rightarrow> (string \<Rightarrow> bytes option) \<Rightarrow> string list \<Rightarrow> bool" where
  "shallow fuel m cs \<longleftrightarrow> (\<forall>q. in_dir cs q \<and> m q \<noteq> None \<longrightarrow> length q < fuel + length (joined cs))"

definition deletes_all :: "nat \<Rightarrow> 'w gcs_storage \<Rightarrow> ('w \<Rightarrow> string \<Rightarrow> bytes option) \<Rightarrow> bool" where
  "deletes_all fuel c v \<longleftrightarrow>
     (\<forall>p cs w. denotes p cs \<and> tidy_keys (v w) \<and> shallow fuel (v w) cs \<longrightarrow>
        (\<exists>w'. gcs_rm_rf fuel c p w = (Ok (), w') \<and> v w' = (\<lambda>q. if in_dir cs q then None else v w q)))"

text \<open>The entries of a directory: \<open>f\<close> gives the child an entry stands for.\<close>

lemma rm_entries:
  assumes all: "deletes_all fuel c v" and p: "denotes p cs"
  shows "tidy_keys (v w) \<Longrightarrow> shallow (Suc fuel) (v w) cs \<Longrightarrow>
    \<forall>e\<in>set es. plain (f e) \<and> (se_name e = f e \<or> se_name e = f e @ [slash]) \<Longrightarrow>
    \<exists>w'. gcs_rm_entries fuel c p es w = (Ok (), w') \<and>
      v w' = (\<lambda>q. if \<exists>e\<in>set es. in_dir (cs @ [f e]) q then None else v w q)"
proof (induction es arbitrary: w)
  case (Cons e es)
  have cs: "cs \<noteq> []" using p by (simp add: denotes_def)
  have d: "denotes (path_join p (se_name e)) (cs @ [f e])" using denotes_join [OF p] Cons.prems(3) by simp
  have sh: "shallow fuel (v w) (cs @ [f e])"
    using Cons.prems(2) in_dir_snoc [OF cs] by (fastforce simp: shallow_def joined_snoc [OF cs])
  obtain w1 where w1: "gcs_rm_rf fuel c (path_join p (se_name e)) w = (Ok (), w1)"
    "v w1 = (\<lambda>q. if in_dir (cs @ [f e]) q then None else v w q)"
    using all d Cons.prems(1) sh unfolding deletes_all_def by blast
  have "tidy_keys (v w1)" unfolding w1(2) by (rule tidy_without [OF Cons.prems(1)])
  moreover have "shallow (Suc fuel) (v w1) cs" using Cons.prems(2) by (simp add: w1(2) shallow_def)
  ultimately obtain w' where "gcs_rm_entries fuel c p es w1 = (Ok (), w')"
    "v w' = (\<lambda>q. if \<exists>e\<in>set es. in_dir (cs @ [f e]) q then None else v w1 q)"
    using Cons.IH [of w1] Cons.prems(3) by auto
  with w1 show ?case by (auto simp: fun_eq_iff)
qed simp

lemma rm_rf_deletes:
  assumes wb: "working_bucket (gc_operator c) v"
  shows "0 < fuel \<Longrightarrow> deletes_all fuel c v"
proof (induction fuel)
  case (Suc fuel)
  let ?op = "gc_operator c"
  show ?case unfolding deletes_all_def
  proof (intro allI impI, elim conjE)
    fix p cs w
    assume p: "denotes p cs" and tidy: "tidy_keys (v w)" and sh: "shallow (Suc fuel) (v w) cs"
    then have cs: "cs \<noteq> []" "list_all plain cs" by (simp_all add: denotes_def)
    note key = to_key_denotes [OF p]
    obtain es w1 where l: "list_or_none ?op (joined cs @ [slash]) w = (Ok es, w1)" "v w1 = v w"
      "se_name ` set es = {segment r | r. r \<noteq> [] \<and> v w (joined cs @ slash # r) \<noteq> None}" by (rule list_works [OF wb])
    define f :: "s3_entry \<Rightarrow> string" where "f e = takeWhile (\<lambda>c. c \<noteq> slash) (se_name e)" for e
    have child: "plain (f e) \<and> (se_name e = f e \<or> se_name e = f e @ [slash])" if "e \<in> set es" for e
    proof -
      from that l(3) obtain r where r: "v w (joined cs @ slash # r) \<noteq> None" "se_name e = segment r" by blast
      note b = below_child(1,2) [OF tidy cs r(1)]
      have "f e = takeWhile (\<lambda>c. c \<noteq> slash) r"
        using b(2) by (auto simp: f_def r(2) takeWhile_append takeWhile_idem dest: set_takeWhileD)
      then show ?thesis using b r(2) by simp
    qed
    have "es \<noteq> [] \<Longrightarrow> 0 < fuel"
    proof -
      assume "es \<noteq> []"
      then obtain r where "r \<noteq> []" "v w (joined cs @ slash # r) \<noteq> None" using l(3) by (cases es) auto
      moreover have "in_dir cs (joined cs @ slash # r)" by (simp add: in_dir_def)
      ultimately have "length (joined cs @ slash # r) < Suc fuel + length (joined cs)" using sh unfolding shallow_def by blast
      with \<open>r \<noteq> []\<close> show "0 < fuel" by (cases r) simp_all
    qed
    then have "\<exists>w2. gcs_rm_entries fuel c p es w1 = (Ok (), w2) \<and>
        v w2 = (\<lambda>q. if \<exists>e\<in>set es. in_dir (cs @ [f e]) q then None else v w1 q)"
      using rm_entries [of fuel c v p cs w1 es f] Suc.IH p tidy sh child l(2) by (cases es) simp_all
    then obtain w2 where w2: "gcs_rm_entries fuel c p es w1 = (Ok (), w2)"
      "v w2 = (\<lambda>q. if \<exists>e\<in>set es. in_dir (cs @ [f e]) q then None else v w q)" unfolding l(2) by blast
    obtain w3 where w3: "delete_ok ?op (joined cs) w2 = (Ok (), w3)" "v w3 = (v w2)(joined cs := None)"
      by (rule delete_ok_works [OF wb])
    obtain w4 where w4: "delete_ok ?op (joined cs @ [slash]) w3 = (Ok (), w4)" "v w4 = (v w3)(joined cs @ [slash] := None)"
      by (rule delete_ok_works [OF wb])
    have run: "gcs_rm_rf (Suc fuel) c p w = (Ok (), w4)" using l(1) w2(1) w3(1) w4(1) by (simp add: key)
    have "v w4 q = (if in_dir cs q then None else v w q)" for q
    proof (cases "in_dir cs q \<and> v w q \<noteq> None \<and> q \<noteq> joined cs \<and> q \<noteq> joined cs @ [slash]")
      case True
      then obtain r where r: "q = joined cs @ slash # r" "r \<noteq> []" by (auto simp: in_dir_def prefix_def)
      then have "segment r \<in> se_name ` set es" unfolding l(3) using True by blast
      then obtain e where e: "e \<in> set es" "se_name e = segment r" by auto
      have nn: "v w (joined cs @ slash # r) \<noteq> None" using True r(1) by simp
      note b = below_child [OF tidy cs nn]
      have "f e = takeWhile (\<lambda>c. c \<noteq> slash) r"
        using b(2) by (auto simp: f_def e(2) takeWhile_append takeWhile_idem dest: set_takeWhileD)
      then have "in_dir (cs @ [f e]) q" using b(3) r(1) by simp
      then show ?thesis using True e(1) by (auto simp: w2(2) w3(2) w4(2))
    next
      case False
      then show ?thesis using in_dir_snoc [OF cs(1)] by (auto simp: w2(2) w3(2) w4(2) in_dir_def)
    qed
    with run show "\<exists>w'. gcs_rm_rf (Suc fuel) c p w = (Ok (), w') \<and> v w' = (\<lambda>q. if in_dir cs q then None else v w q)"
      by blast
  qed
qed simp

text \<open>
  (C18) Deleting a directory of a bucket on Google Cloud Storage with all it contains: when deletions work and listings
  are complete, exactly the objects at and below the path are gone, whatever its depth. Fuel beyond the length of the
  longest key is enough.
\<close>

theorem gcs_rm_rf_exact:
  assumes "working_bucket (gc_operator c) v" and "tidy_keys (v w)" and "denotes p cs" and "0 < fuel"
    and "\<forall>q. v w q \<noteq> None \<longrightarrow> length q < fuel"
  shows "\<exists>w'. gcs_rm_rf fuel c p w = (Ok (), w') \<and> (\<forall>q. v w' q = (if in_dir cs q then None else v w q))"
proof -
  have "shallow fuel (v w) cs" using assms(5) by (fastforce simp: shallow_def)
  then obtain w' where "gcs_rm_rf fuel c p w = (Ok (), w')" "v w' = (\<lambda>q. if in_dir cs q then None else v w q)"
    using rm_rf_deletes [OF assms(1,4)] assms(2,3) unfolding deletes_all_def by blast
  then show ?thesis by auto
qed

lemma bucket_listing:
  "se_name ` set (bucket_list m (k @ [slash])) = {segment r | r. r \<noteq> [] \<and> hm_get m (k @ slash # r) \<noteq> None}"
proof -
  let ?pre = "k @ [slash]"
  have "se_name ` set (bucket_list m ?pre) = segment ` drop (length ?pre) ` {q \<in> set (hm_keys m). strict_prefix ?pre q}"
    unfolding bucket_list_def by (simp add: image_image)
  also have "{q \<in> set (hm_keys m). strict_prefix ?pre q} = {q. hm_get m q \<noteq> None \<and> strict_prefix ?pre q}"
    by (simp only: hm_keys_iff)
  also have "\<dots> = (\<lambda>r. k @ slash # r) ` {r. r \<noteq> [] \<and> hm_get m (k @ slash # r) \<noteq> None}"
    by (auto simp: strict_prefix_def prefix_def image_iff simp del: not_None_eq)
  finally show ?thesis by (auto simp: image_image)
qed

lemma working_bucket_operator: "working_bucket bucket_operator hm_get"
  unfolding working_bucket_def
proof (intro conjI allI)
  show "object_store bucket_operator hm_get" by (rule object_store_bucket)
  show "fst (so_delete bucket_operator k m) = Ok ()" for k m by (simp add: bucket_operator_def)
  show "\<exists>es w'. so_list bucket_operator (k @ [slash]) m = (Ok es, w') \<and>
      se_name ` set es = {segment r | r. r \<noteq> [] \<and> hm_get m (k @ slash # r) \<noteq> None}" for k m
    using bucket_listing [of m k] by (simp add: bucket_operator_def)
qed

definition gcs_media :: "(string, bytes) hash_map gcs_storage" where
  "gcs_media = \<lparr>gc_operator = bucket_operator, gc_bucket = ''media'', gc_name = ''Media''\<rparr>"

definition deep_objects :: "(string, bytes) hash_map" where
  "deep_objects = [(''a'', [1]), (''d/a'', [2]), (''d/e/f'', [3]), (''dd'', [4])]"

lemma deep_objects_tidy: "tidy_keys (hm_get deep_objects)"
proof -
  have "joined [''a''] = ''a'' \<and> joined [''d'', ''a''] = ''d/a'' \<and> joined [''d'', ''e'', ''f''] = ''d/e/f'' \<and> joined [''dd''] = ''dd''"
    "list_all plain [''a''] \<and> list_all plain [''d'', ''a''] \<and> list_all plain [''d'', ''e'', ''f''] \<and> list_all plain [''dd'']"
    by code_simp+
  then have "\<exists>ws. ws \<noteq> [] \<and> list_all plain ws \<and> k = joined ws" if "k \<in> {''a'', ''d/a'', ''d/e/f'', ''dd''}" for k
    using that by (metis empty_iff insert_iff list.distinct(1))
  then show ?thesis by (auto simp: tidy_keys_def deep_objects_def split: if_splits)
qed

theorem gcs_rm_rf_exact_witness:
  "\<exists>w. gcs_rm_rf 7 gcs_media ''/d'' deep_objects = (Ok (), w) \<and> hm_get w ''d/e/f'' = None \<and> hm_get w ''d/a'' = None \<and>
     hm_get w ''a'' = Some [1] \<and> hm_get w ''dd'' = Some [4]"
proof -
  have d: "denotes ''/d'' [''d'']" by code_simp
  have "\<forall>q. hm_get deep_objects q \<noteq> None \<longrightarrow> length q < 7" by (auto simp: deep_objects_def split: if_splits)
  from gcs_rm_rf_exact [where v = hm_get and w = deep_objects and c = gcs_media, OF _ deep_objects_tidy d _ this]
    working_bucket_operator
  obtain w where w: "gcs_rm_rf 7 gcs_media ''/d'' deep_objects = (Ok (), w)"
    "\<And>q. hm_get w q = (if in_dir [''d''] q then None else hm_get deep_objects q)" by (auto simp: gcs_media_def)
  have "in_dir [''d''] ''d/e/f''" "in_dir [''d''] ''d/a''" "\<not> in_dir [''d''] ''a''" "\<not> in_dir [''d''] ''dd''" by code_simp+
  then show ?thesis using w by (simp add: deep_objects_def)
qed

text \<open>An operator that refuses to write a key with a slash at its end makes no directory.\<close>

lemma gcs_mkdir_refused:
  assumes "\<And>k d w. fst (so_write (gc_operator c) (k @ [slash]) d w) = Err e"
  shows "fst (gcs_mkdir c p w) = Err e" and "fst (gcs_create_dir c p w) = Err e"
  using assms by (simp_all add: gcs_mkdir_def gcs_create_dir_def)

end
