(* ===== verification/Blob_Storage.thy ===== *)
theory Blob_Storage
  imports Gcs_Storage
begin

text \<open>
  The adapters for Azure Blob Storage and for Oracle Object Storage (\<open>adapters/azure_blob_storage.rs\<close> and
  \<open>adapters/oracle_object_storage.rs\<close> under \<open>apps/vfs-desktop/src-tauri/src/vfs\<close>).

  The two files have the same methods but for the words in their messages, how they are opened, and two methods of
  \<open>Oracle\<close>. The methods are the definitions \<open>blob_\<dots>\<close> over a record that holds the operator and the words; the
  adapters are \<open>azure_new\<close>, \<open>oracle_new\<close> and the tables \<open>azure_file_ops\<close>, \<open>oracle_file_ops\<close>. Objects that are deleted concurrently are
  deleted one after the other.
\<close>

section \<open>State\<close>

text \<open>\<open>bl_not_found\<close> tells which errors of the operator are of the kind \<open>NotFound\<close>.\<close>

record 'w blob_storage =
  bl_operator :: "'w s3_operator"
  bl_not_found :: "string \<Rightarrow> bool"
  bl_container :: string
  bl_name :: string
  bl_object :: string
  bl_marker :: string

record azure_params =
  az_container :: string
  az_account_name :: string
  az_account_key :: "string option"
  az_endpoint :: "string option"

definition azure_new ::
    "(string \<Rightarrow> string option) \<Rightarrow> (azure_params \<Rightarrow> (string, 'w s3_operator) outcome) \<Rightarrow> (string \<Rightarrow> bool) \<Rightarrow> azure_params \<Rightarrow>
     string \<Rightarrow> (string, 'w blob_storage) outcome" where
  "azure_new env build not_found p name =
     (let container = trim_white (az_container p) in
      if container = [] then Err ''Container name cannot be empty''
      else
        (case build (p\<lparr>az_container := container,
             az_account_key := s3_credential env (az_account_key p) ''AZURE_STORAGE_ACCOUNT_KEY'' ''AZURE_STORAGE_KEY''\<rparr>) of
           Ok op \<Rightarrow>
             Ok \<lparr>bl_operator = op, bl_not_found = not_found, bl_container = container, bl_name = name,
                 bl_object = ''Azure blob'', bl_marker = ''Azure blob''\<rparr>
         | Err e \<Rightarrow> Err e
         | Panic \<Rightarrow> Panic))"

definition oracle_new ::
    "(string \<Rightarrow> string option) \<Rightarrow> (s3_params \<Rightarrow> (string, 'w s3_operator) outcome) \<Rightarrow> (string \<Rightarrow> bool) \<Rightarrow> string \<Rightarrow> s3_params \<Rightarrow>
     (string, 'w blob_storage) outcome" where
  "oracle_new env build not_found namespace p =
     (let bucket = trim_white (s3_bucket p); region = to_lowercase (s3_region p);
          endpoint = (case s3_endpoint p of
              Some e \<Rightarrow> e
            | None \<Rightarrow> ''https://'' @ namespace @ ''.compat.objectstorage.'' @ region @ ''.oraclecloud.com'')
      in
      if bucket = [] then Err ''Bucket name cannot be empty''
      else
        (case build (p\<lparr>s3_bucket := bucket, s3_region := region, s3_endpoint := Some endpoint,
             s3_access_key := s3_credential env (s3_access_key p) ''OCI_ACCESS_KEY_ID'' ''OCI_ACCESS_KEY'',
             s3_secret_key := s3_credential env (s3_secret_key p) ''OCI_SECRET_ACCESS_KEY'' ''OCI_SECRET_KEY''\<rparr>) of
           Ok op \<Rightarrow>
             Ok \<lparr>bl_operator = op, bl_not_found = not_found, bl_container = bucket, bl_name = s3_name p,
                 bl_object = ''Oracle object'', bl_marker = ''Oracle''\<rparr>
         | Err e \<Rightarrow> Err e
         | Panic \<Rightarrow> Panic))"

section \<open>The storage port\<close>

definition azure_storage_type :: storage_source_type where
  "azure_storage_type = AzureBlob"

definition oracle_storage_type :: storage_source_type where
  "oracle_storage_type = S3Compatible"

definition blob_test_connection :: "'w blob_storage \<Rightarrow> ('w, bool) io_act" where
  "blob_test_connection c w =
     (case so_list (bl_operator c) ''/'' w of (Ok es, w) \<Rightarrow> (Ok True, w) | (Err e, w) \<Rightarrow> (Ok False, w) | (Panic, w) \<Rightarrow> (Panic, w))"

text \<open>The context of an error replaces its text: ``Failed to read Azure blob: key''.\<close>

definition blob_failed :: "'w blob_storage \<Rightarrow> string \<Rightarrow> string \<Rightarrow> string \<Rightarrow> string" where
  "blob_failed c verb what key = ''Failed to '' @ verb @ '' '' @ bl_object c @ what @ '': '' @ key"

definition blob_file :: "string \<Rightarrow> string \<Rightarrow> string \<Rightarrow> u64 \<Rightarrow> bool \<Rightarrow> bool \<Rightarrow> virtual_file" where
  "blob_file i n p sz dir warm =
     (virtual_file_new i n p sz dir)
       \<lparr>vf_tier_status := \<lparr>ts_current_tier = Hot, ts_is_cached = False, ts_can_warm = warm, ts_retrieval_time_estimate = None\<rparr>\<rparr>"

text \<open>The prefix is stripped where it is there. What contains a slash is a directory, listed once; the rest are files.\<close>

fun blob_children :: "(string \<Rightarrow> string) \<Rightarrow> string \<Rightarrow> string \<Rightarrow> string list \<Rightarrow> s3_entry list \<Rightarrow> virtual_file list" where
  "blob_children ids key pre seen [] = []"
| "blob_children ids key pre seen (e # es) =
     (let n = se_name e;
          relative = (if pre = [] then n else (case strip_prefix pre n of Some r \<Rightarrow> r | None \<Rightarrow> n))
      in
      if relative = [] then blob_children ids key pre seen es
      else if s3_temporary relative n then blob_children ids key pre seen es
      else if slash \<in> set relative then
        (let dir_name = hd (split_on (\<lambda>c. c = slash) relative);
             dir_path = (if key = [] then slash # dir_name else slash # key @ slash # dir_name)
         in if dir_path \<in> set seen then blob_children ids key pre seen es
            else blob_file (ids dir_name) dir_name dir_path 0 True False # blob_children ids key pre (dir_path # seen) es)
      else
        blob_file (ids relative) relative
          (if key = [] then path_join ''/'' relative else path_join (path_join ''/'' key) relative) (se_len e) False True
        # blob_children ids key pre seen es)"

definition blob_list_files :: "(string \<Rightarrow> string) \<Rightarrow> 'w blob_storage \<Rightarrow> string \<Rightarrow> ('w, virtual_file list) io_act" where
  "blob_list_files ids c p =
     (let key = to_key p; pre = list_prefix key in
      and_then (map_err (\<lambda>_. blob_failed c ''list'' ''s with prefix'' pre) (so_list (bl_operator c) pre))
        (\<lambda>es w. (Ok (blob_children ids key pre [] es), w)))"

definition blob_read_file :: "'w blob_storage \<Rightarrow> string \<Rightarrow> ('w, bytes) io_act" where
  "blob_read_file c p =
     (let key = to_key p in map_err (\<lambda>_. blob_failed c ''read'' [] key) (so_read (bl_operator c) key))"

text \<open>The end of the range wraps.\<close>

definition blob_read_file_range :: "'w blob_storage \<Rightarrow> string \<Rightarrow> u64 \<Rightarrow> u64 \<Rightarrow> ('w, bytes) io_act" where
  "blob_read_file_range c p off len =
     (let key = to_key p in
      map_err (\<lambda>_. blob_failed c ''read'' '' range'' key) (so_read_range (bl_operator c) key off (off + len)))"

definition blob_write_file :: "'w blob_storage \<Rightarrow> string \<Rightarrow> bytes \<Rightarrow> ('w, unit) io_act" where
  "blob_write_file c p d =
     (let key = to_key p in map_err (\<lambda>_. blob_failed c ''write'' [] key) (so_write (bl_operator c) key d))"

definition blob_get_metadata :: "(string \<Rightarrow> string) \<Rightarrow> 'w blob_storage \<Rightarrow> string \<Rightarrow> ('w, virtual_file) io_act" where
  "blob_get_metadata ids c p =
     (let key = to_key p in
      and_then (map_err (\<lambda>_. blob_failed c ''get'' '' metadata'' key) (so_stat (bl_operator c) key))
        (\<lambda>(dir, len) w. (Ok (blob_file (ids (name_or [] p)) (name_or [] p) p len dir True), w)))"

text \<open>Two ways to ask whether an object exists: the storage port by its metadata, the file operations by the operator.\<close>

definition blob_port_exists :: "'w blob_storage \<Rightarrow> string \<Rightarrow> ('w, bool) io_act" where
  "blob_port_exists c p w =
     (case so_stat (bl_operator c) (to_key p) w of
        (Ok m, w) \<Rightarrow> (Ok True, w)
      | (Err e, w) \<Rightarrow> (if bl_not_found c e then Ok False else Err e, w)
      | (Panic, w) \<Rightarrow> (Panic, w))"

definition blob_delete :: "'w blob_storage \<Rightarrow> string \<Rightarrow> ('w, unit) io_act" where
  "blob_delete c p =
     (let key = to_key p in map_err (\<lambda>_. blob_failed c ''delete'' [] key) (so_delete (bl_operator c) key))"

definition blob_create_dir :: "'w blob_storage \<Rightarrow> string \<Rightarrow> ('w, unit) io_act" where
  "blob_create_dir c p =
     (let marker = to_key p @ [slash] in
      map_err (\<lambda>_. ''Failed to create '' @ bl_marker c @ '' directory marker: '' @ marker) (so_write (bl_operator c) marker []))"

definition blob_file_size :: "'w blob_storage \<Rightarrow> string \<Rightarrow> ('w, u64) io_act" where
  "blob_file_size c p =
     (let key = to_key p in
      and_then (map_err (\<lambda>_. blob_failed c ''get'' '' size'' key) (so_stat (bl_operator c) key)) (\<lambda>(dir, len) w. (Ok len, w)))"

definition azure_adapter :: "(string \<Rightarrow> string) \<Rightarrow> 'w blob_storage \<Rightarrow> 'w storage_adapter" where
  "azure_adapter ids c =
     \<lparr>sa_list_files = blob_list_files ids c,
      sa_list_files_paginated = default_list_files_paginated (blob_list_files ids c),
      sa_read_file = blob_read_file c, sa_file_size = blob_file_size c, sa_get_metadata = blob_get_metadata ids c\<rparr>"

definition oracle_adapter :: "(string \<Rightarrow> string) \<Rightarrow> 'w blob_storage \<Rightarrow> 'w storage_adapter" where
  "oracle_adapter ids c =
     \<lparr>sa_list_files = blob_list_files ids c,
      sa_list_files_paginated = default_list_files_paginated (blob_list_files ids c),
      sa_read_file = blob_read_file c, sa_file_size = blob_file_size c, sa_get_metadata = blob_get_metadata ids c\<rparr>"

section \<open>The file operations\<close>

definition blob_list :: "'w blob_storage \<Rightarrow> string \<Rightarrow> ('w, file_entry list) io_act" where
  "blob_list c p =
     (let pre = list_prefix (to_key p) in
      and_then (so_list (bl_operator c) pre)
        (\<lambda>es w.
           (Ok (sort_key (\<lambda>e. (\<not> fe_is_dir e, to_lowercase (fe_name e)))
              (map (\<lambda>e. \<lparr>fe_name = trim_end_slash (se_name e), fe_path = path_join (path_join ''/'' pre) (se_name e),
                          fe_size = se_len e, fe_is_dir = se_is_dir e\<rparr>)
                 (filter (\<lambda>e. se_name e \<noteq> [] \<and> se_name e \<noteq> ''/'') es))), w)))"

definition blob_stat :: "'w blob_storage \<Rightarrow> string \<Rightarrow> ('w, file_stat) io_act" where
  "blob_stat c p =
     and_then (so_stat (bl_operator c) (to_key p)) (\<lambda>(dir, len) w. (Ok \<lparr>fs_size = len, fs_is_dir = dir\<rparr>, w))"

definition blob_exists :: "'w blob_storage \<Rightarrow> string \<Rightarrow> ('w, bool) io_act" where
  "blob_exists c p = so_exists (bl_operator c) (to_key p)"

text \<open>Of an object that exists and cannot be read, appending keeps nothing.\<close>

definition blob_append :: "'w blob_storage \<Rightarrow> string \<Rightarrow> bytes \<Rightarrow> ('w, unit) io_act" where
  "blob_append c p d =
     and_then
       (and_then (blob_exists c p)
          (\<lambda>there w. if there then (case blob_read_file c p w of (Err e, w) \<Rightarrow> (Ok [], w) | r \<Rightarrow> r) else (Ok [], w)))
       (\<lambda>b. blob_write_file c p (b @ d))"

text \<open>The end of the range is cut to the length of the object before the object could grow; copying panics when the range
  does not have the length of the data, or begins behind its end.\<close>

definition blob_write_at :: "'w blob_storage \<Rightarrow> string \<Rightarrow> u64 \<Rightarrow> bytes \<Rightarrow> ('w, unit) io_act" where
  "blob_write_at c p off d =
     and_then (blob_read_file c p)
       (\<lambda>b w.
          let stop = min (unat (off + of_nat (length d))) (length b);
              b = (if stop > length b then b @ replicate (stop - length b) 0 else b)
          in if stop < unat off \<or> stop - unat off \<noteq> length d then (Panic, w)
             else blob_write_file c p (take (unat off) b @ d @ drop stop b) w)"

definition blob_truncate :: "'w blob_storage \<Rightarrow> string \<Rightarrow> u64 \<Rightarrow> ('w, unit) io_act" where
  "blob_truncate c p len = and_then (blob_read_file c p) (\<lambda>b. blob_write_file c p (take (unat len) b))"

definition blob_copy :: "'w blob_storage \<Rightarrow> string \<Rightarrow> string \<Rightarrow> copy_options \<Rightarrow> ('w, unit) io_act" where
  "blob_copy c from to opts =
     and_then (\<lambda>w. if co_overwrite opts then (Ok False, w) else blob_exists c to w)
       (\<lambda>taken. if taken then (\<lambda>w. (Err ''Destination already exists'', w)) else
        and_then (blob_read_file c from) (\<lambda>d. blob_write_file c to d))"

definition blob_rm :: "'w blob_storage \<Rightarrow> string \<Rightarrow> ('w, unit) io_act" where
  "blob_rm c p = blob_delete c p"

definition blob_rename :: "'w blob_storage \<Rightarrow> string \<Rightarrow> string \<Rightarrow> ('w, unit) io_act" where
  "blob_rename c from to = and_then (blob_copy c from to default_copy_options) (\<lambda>_. blob_rm c from)"

fun delete_names :: "'w s3_operator \<Rightarrow> string list \<Rightarrow> ('w, unit) io_act" where
  "delete_names op [] w = (Ok (), w)"
| "delete_names op (n # ns) w = and_then (delete_ok op n) (\<lambda>_. delete_names op ns) w"

definition blob_rm_rf :: "'w blob_storage \<Rightarrow> string \<Rightarrow> ('w, unit) io_act" where
  "blob_rm_rf c p =
     (let key = to_key p; pre = key @ [slash] in
      and_then (list_or_none (bl_operator c) pre)
        (\<lambda>es. and_then (delete_names (bl_operator c) (map se_name es))
        (\<lambda>_. and_then (delete_ok (bl_operator c) key)
        (\<lambda>_. delete_ok (bl_operator c) pre))))"

definition blob_mv :: "'w blob_storage \<Rightarrow> string \<Rightarrow> string \<Rightarrow> bool \<Rightarrow> ('w, unit) io_act" where
  "blob_mv c from to overwrite =
     and_then
       (blob_copy c from to
          \<lparr>co_overwrite = overwrite, co_preserve_attributes = False, co_recursive = True, co_follow_symlinks = False\<rparr>)
       (\<lambda>_. blob_rm_rf c from)"

definition blob_mkdir :: "'w blob_storage \<Rightarrow> string \<Rightarrow> ('w, unit) io_act" where
  "blob_mkdir c p = blob_create_dir c p"

definition blob_rmdir :: "'w blob_storage \<Rightarrow> string \<Rightarrow> ('w, unit) io_act" where
  "blob_rmdir c p = so_delete (bl_operator c) (to_key p @ [slash])"

definition blob_is_dir :: "'w blob_storage \<Rightarrow> string \<Rightarrow> ('w, bool) io_act" where
  "blob_is_dir c p w =
     (case so_stat (bl_operator c) (to_key p) w of
        (Ok (dir, len), w) \<Rightarrow> (Ok dir, w) | (Err e, w) \<Rightarrow> (Ok False, w) | (Panic, w) \<Rightarrow> (Panic, w))"

definition blob_is_file :: "'w blob_storage \<Rightarrow> string \<Rightarrow> ('w, bool) io_act" where
  "blob_is_file c p w =
     (case so_stat (bl_operator c) (to_key p) w of
        (Ok (dir, len), w) \<Rightarrow> (Ok (\<not> dir), w) | (Err e, w) \<Rightarrow> (Ok False, w) | (Panic, w) \<Rightarrow> (Panic, w))"

definition blob_chmod :: "string \<Rightarrow> u32 \<Rightarrow> ('w, unit) io_act" where
  "blob_chmod p mode w = (Ok (), w)"

definition azure_touch :: "'w blob_storage \<Rightarrow> string \<Rightarrow> ('w, unit) io_act" where
  "azure_touch c p =
     and_then (blob_exists c p) (\<lambda>there. if there then (\<lambda>w. (Ok (), w)) else blob_write_file c p [])"

definition oracle_touch :: "'w blob_storage \<Rightarrow> string \<Rightarrow> ('w, unit) io_act" where
  "oracle_touch c p =
     and_then (blob_exists c p) (\<lambda>there. if there then (\<lambda>w. (Ok (), w)) else so_write (bl_operator c) (to_key p) [])"

definition azure_file_ops :: "'w blob_storage \<Rightarrow> 'w file_operations" where
  "azure_file_ops c =
     \<lparr>fo_stat = blob_stat c, fo_read = blob_read_file c, fo_write = blob_write_file c, fo_mkdir_p = blob_mkdir c,
      fo_list = blob_list c, fo_rm_rf = blob_rm_rf c, fo_append = blob_append c, fo_mkdir = blob_mkdir c,
      fo_rmdir = blob_rmdir c, fo_rename = blob_rename c, fo_copy = blob_copy c, fo_mv = blob_mv c,
      fo_rm = blob_rm c, fo_chmod = blob_chmod, fo_touch = azure_touch c, fo_exists = blob_exists c\<rparr>"

definition oracle_file_ops :: "'w blob_storage \<Rightarrow> 'w file_operations" where
  "oracle_file_ops c = (azure_file_ops c)\<lparr>fo_touch := oracle_touch c\<rparr>"

section \<open>Deleting a directory\<close>

lemma delete_names_works:
  assumes "working_bucket op v"
  shows "\<exists>w'. delete_names op ns w = (Ok (), w') \<and> v w' = (\<lambda>q. if q \<in> set ns then None else v w q)"
proof (induction ns arbitrary: w)
  case (Cons n ns)
  obtain w1 where w1: "delete_ok op n w = (Ok (), w1)" "v w1 = (v w)(n := None)" by (rule delete_ok_works [OF assms])
  obtain w' where "delete_names op ns w1 = (Ok (), w')" "v w' = (\<lambda>q. if q \<in> set ns then None else v w1 q)"
    using Cons.IH by blast
  with w1 show ?case by (auto simp: fun_eq_iff)
qed simp


definition azure_media :: "(string, bytes) hash_map blob_storage" where
  "azure_media = \<lparr>bl_operator = bucket_operator, bl_not_found = (\<lambda>e. e = ''object not found''), bl_container = ''media'',
     bl_name = ''Media'', bl_object = ''Azure blob'', bl_marker = ''Azure blob''\<rparr>"


section \<open>Writing at an offset\<close>

text \<open>
  Writing into an object on Azure or Oracle: a range within the object replaces the bytes of the range; one that ends behind
  the object, which should make it longer, panics, and nothing is written.
\<close>

theorem blob_write_at_within:
  assumes "blob_read_file c p w = (Ok b, w1)" and "unat off + length d < 2 ^ 64"
  shows "blob_write_at c p off d w =
    (if unat off + length d \<le> length b then blob_write_file c p (take (unat off) b @ d @ drop (unat off + length d) b) w1
     else (Panic, w1))"
proof -
  have "unat (of_nat (length d) :: u64) = length d" by (rule unat_of_nat_le) (use assms(2) in simp)
  then have "unat (off + of_nat (length d)) = unat off + length d" using assms(2) by (simp add: unat_add_nowrap)
  then show ?thesis using assms(1) by (auto simp: blob_write_at_def Let_def min_def)
qed

theorem blob_write_at_within_witness:
  "blob_write_at azure_media ''/a'' 1 [9] [(''a'', [1, 2, 3])] = (Ok (), [(''a'', [1, 9, 3])]) \<and>
   blob_write_at azure_media ''/a'' 2 [9, 9] [(''a'', [1, 2, 3])] = (Panic, [(''a'', [1, 2, 3])])"
proof -
  let ?w = "[(''a'', [1, 2, 3 :: u8])]"
  have r: "blob_read_file azure_media ''/a'' ?w = (Ok [1, 2, 3], ?w)"
    and w: "blob_write_file azure_media ''/a'' [1, 9, 3] ?w = (Ok (), [(''a'', [1, 9, 3])])" by code_simp+
  show ?thesis
    using blob_write_at_within [OF r, of 1 "[9]"] blob_write_at_within [OF r, of 2 "[9, 9]"] w by simp
qed

end
