(* ===== verification/Mounted_Storage.thy ===== *)
theory Mounted_Storage
  imports S3_Storage Local_Copy
begin

text \<open>
  The adapters for volumes that the host has mounted: FSx for NetApp ONTAP (\<open>adapters/fsxn_storage.rs\<close>) and network
  shares (\<open>adapters/nas_storage.rs\<close>), under \<open>apps/vfs-desktop/src-tauri/src/vfs\<close>, on the host of \<open>Host_Files\<close>.

  The two files have the same methods but for how they estimate the tier of a file and test the connection. The methods are the
  definitions \<open>mnt_\<dots>\<close> over the mount point; \<open>fsx_adapter\<close>, \<open>nas_adapter\<close> and the tables of file operations are the adapters. How long ago a file was
  accessed, and whether a share answers in time, are arguments. The recursive copy follows the listings of the host and carries fuel.
  Mounted volumes are an interpretation of \<open>file_store\<close>, on the view of local directories.
\<close>

section \<open>Paths\<close>

record fsx_storage =
  fx_mount_point :: string
  fx_name :: string
  fx_s3_access_point :: "string option"
  fx_api_endpoint :: "string option"

definition fsx_new :: "string \<Rightarrow> string \<Rightarrow> string option \<Rightarrow> string option \<Rightarrow> fsx_storage" where
  "fsx_new mount name access_point endpoint =
     \<lparr>fx_mount_point = mount, fx_name = name, fx_s3_access_point = access_point, fx_api_endpoint = endpoint\<rparr>"

datatype nas_protocol = NFS | SMB | AFP | UnknownProtocol

record nas_storage =
  ns_mount_point :: string
  ns_name :: string
  ns_protocol :: nas_protocol
  ns_server :: "string option"
  ns_endpoint :: string

fun nas_scheme :: "nas_protocol \<Rightarrow> string" where
  "nas_scheme NFS = ''nfs''"
| "nas_scheme SMB = ''smb''"
| "nas_scheme AFP = ''afp''"
| "nas_scheme UnknownProtocol = ''unknown''"

definition nas_new :: "string \<Rightarrow> string \<Rightarrow> nas_protocol \<Rightarrow> string option \<Rightarrow> nas_storage" where
  "nas_new mount name protocol server =
     \<lparr>ns_mount_point = mount, ns_name = name, ns_protocol = protocol, ns_server = server,
      ns_endpoint = nas_scheme protocol @ ''://'' @ (case server of Some h \<Rightarrow> h | None \<Rightarrow> ''localhost'') @ mount\<rparr>"

definition nas_from_nfs :: "string \<Rightarrow> string \<Rightarrow> string option \<Rightarrow> nas_storage" where
  "nas_from_nfs mount name server = nas_new mount name NFS server"

definition nas_from_smb :: "string \<Rightarrow> string \<Rightarrow> string option \<Rightarrow> nas_storage" where
  "nas_from_smb mount name server = nas_new mount name SMB server"

text \<open>The root is stripped as in \<open>to_key\<close>.\<close>

definition mnt_resolve :: "string \<Rightarrow> string \<Rightarrow> string" where
  "mnt_resolve base p = (if absolute p \<and> path_starts_with p base then p else path_join base (to_key p))"

section \<open>Tiers\<close>

definition hot_tier :: tier_status where
  "hot_tier = \<lparr>ts_current_tier = Hot, ts_is_cached = True, ts_can_warm = False, ts_retrieval_time_estimate = Some 0\<rparr>"

text \<open>By the seconds since a file was last accessed, where they are known.\<close>

definition fsx_detect_tier :: "u64 option \<Rightarrow> tier_status" where
  "fsx_detect_tier idle =
     (case idle of
        None \<Rightarrow> hot_tier
      | Some secs \<Rightarrow>
          (let days = secs div 86400 in
           if days > 90 then
             \<lparr>ts_current_tier = Cold, ts_is_cached = False, ts_can_warm = True, ts_retrieval_time_estimate = Some 3600\<rparr>
           else if days > 30 then
             \<lparr>ts_current_tier = Cold, ts_is_cached = False, ts_can_warm = True, ts_retrieval_time_estimate = Some 60\<rparr>
           else hot_tier))"

definition nas_tier :: tier_status where
  "nas_tier = \<lparr>ts_current_tier = Warm, ts_is_cached = False, ts_can_warm = True, ts_retrieval_time_estimate = Some 1\<rparr>"

section \<open>The storage port\<close>

definition fsx_test_connection :: "string \<Rightarrow> host_files \<Rightarrow> bool" where
  "fsx_test_connection base s \<longleftrightarrow> host_exists base s \<and> host_is_dir base s"

text \<open>The entries of a directory, each with what \<open>mk\<close> makes of its name and node; the first whose metadata cannot be read ends the
  listing.\<close>

fun mnt_entries :: "(string \<Rightarrow> host_node \<Rightarrow> host_files \<Rightarrow> 'a) \<Rightarrow> string \<Rightarrow> string list \<Rightarrow> 'a list host_act" where
  "mnt_entries mk full [] s = (Ok [], s)"
| "mnt_entries mk full (n # ns) s =
     and_then (host_node_of (path_join full n))
       (\<lambda>nd. and_then (mnt_entries mk full ns) (\<lambda>es s. (Ok (mk n nd s # es), s))) s"

definition mnt_virtual_file :: "(string \<Rightarrow> string) \<Rightarrow> string \<Rightarrow> tier_status \<Rightarrow> string \<Rightarrow> host_node \<Rightarrow> host_files \<Rightarrow> virtual_file" where
  "mnt_virtual_file ids p tier n nd s =
     (let f = (virtual_file_new (ids n) n (path_join p n) (node_len s nd) (nd = DirNode))\<lparr>vf_tier_status := tier\<rparr>
      in f\<lparr>vf_transcodable := can_transcode f\<rparr>)"

definition virtual_order :: "virtual_file \<Rightarrow> bool \<times> string" where
  "virtual_order f = (\<not> vf_is_directory f, to_lowercase (vf_name f))"

definition fsx_list_files ::
    "(string \<Rightarrow> u64 option) \<Rightarrow> (string \<Rightarrow> string) \<Rightarrow> string \<Rightarrow> string \<Rightarrow> virtual_file list host_act" where
  "fsx_list_files idle ids base p =
     (let full = mnt_resolve base p in
      and_then (failing (''Failed to read directory: '' @ full) (host_read_dir full))
        (\<lambda>ns. and_then
           (mnt_entries
              (\<lambda>n nd. mnt_virtual_file ids p
                 (if nd = DirNode then hot_tier else fsx_detect_tier (idle (mnt_resolve base (path_join p n)))) n nd) full ns)
           (\<lambda>fs s. (Ok (sort_key virtual_order fs), s))))"

definition nas_list_files :: "(string \<Rightarrow> string) \<Rightarrow> string \<Rightarrow> string \<Rightarrow> virtual_file list host_act" where
  "nas_list_files ids base p =
     (let full = mnt_resolve base p in
      and_then (failing (''Failed to read directory: '' @ full) (host_read_dir full))
        (\<lambda>ns. and_then (mnt_entries (mnt_virtual_file ids p nas_tier) full ns)
           (\<lambda>fs s. (Ok (sort_key virtual_order fs), s))))"

definition fsx_read_file :: "string \<Rightarrow> string \<Rightarrow> bytes host_act" where
  "fsx_read_file base p =
     (let full = mnt_resolve base p in failing (''Failed to read file: '' @ full) (host_read full))"

text \<open>The file is opened, the position set, the buffer allocated, and one call of \<open>read\<close> fills what it can.\<close>

definition mnt_read_file_range :: "string \<Rightarrow> string \<Rightarrow> u64 \<Rightarrow> u64 \<Rightarrow> bytes host_act" where
  "mnt_read_file_range base p off len =
     (let full = mnt_resolve base p in
      and_then (host_read full)
        (\<lambda>b s.
           if 2 ^ 63 \<le> unat off then (Err ''invalid argument'', s)
           else if 2 ^ 63 \<le> unat len then (Panic, s)
           else host_read_at full (unat off) (unat len) s))"

definition mnt_write_file :: "string \<Rightarrow> string \<Rightarrow> bytes \<Rightarrow> unit host_act" where
  "mnt_write_file base p d =
     (let full = mnt_resolve base p in and_then (ensure_parent full) (\<lambda>_. host_write full d))"

definition mnt_get_metadata ::
    "(host_files \<Rightarrow> location \<Rightarrow> location list) \<Rightarrow> (string \<Rightarrow> string) \<Rightarrow> tier_status \<Rightarrow> string \<Rightarrow> string \<Rightarrow> virtual_file host_act" where
  "mnt_get_metadata walk ids tier base p =
     (let full = mnt_resolve base p; n = name_or [] full in
      and_then (host_node_of full)
        (\<lambda>nd s. (Ok ((virtual_file_new (ids n) n p
           (case nd of DirNode \<Rightarrow> calculate_dir_size walk full s | FileNode b \<Rightarrow> of_nat (length b)) (nd = DirNode))
             \<lparr>vf_tier_status := tier\<rparr>), s)))"

definition fsx_get_metadata ::
    "(host_files \<Rightarrow> location \<Rightarrow> location list) \<Rightarrow> (string \<Rightarrow> u64 option) \<Rightarrow> (string \<Rightarrow> string) \<Rightarrow> string \<Rightarrow> string \<Rightarrow>
     virtual_file host_act" where
  "fsx_get_metadata walk idle ids base p = mnt_get_metadata walk ids (fsx_detect_tier (idle (mnt_resolve base p))) base p"

definition mnt_exists :: "string \<Rightarrow> string \<Rightarrow> bool host_act" where
  "mnt_exists base p s = (Ok (host_exists (mnt_resolve base p) s), s)"

definition mnt_delete :: "string \<Rightarrow> string \<Rightarrow> unit host_act" where
  "mnt_delete base p s =
     (let full = mnt_resolve base p in
      if host_is_dir full s then host_remove_dir_all full s else host_remove_file full s)"

definition mnt_create_dir :: "string \<Rightarrow> string \<Rightarrow> unit host_act" where
  "mnt_create_dir base p = host_create_dir_all (mnt_resolve base p)"

definition mnt_file_size :: "string \<Rightarrow> string \<Rightarrow> u64 host_act" where
  "mnt_file_size base p = and_then (host_node_of (mnt_resolve base p)) (\<lambda>nd s. (Ok (node_len s nd), s))"

definition fsx_adapter ::
    "(host_files \<Rightarrow> location \<Rightarrow> location list) \<Rightarrow> (string \<Rightarrow> u64 option) \<Rightarrow> (string \<Rightarrow> string) \<Rightarrow> string \<Rightarrow>
     host_files storage_adapter" where
  "fsx_adapter walk idle ids base =
     \<lparr>sa_list_files = fsx_list_files idle ids base,
      sa_list_files_paginated = default_list_files_paginated (fsx_list_files idle ids base),
      sa_read_file = fsx_read_file base, sa_file_size = mnt_file_size base,
      sa_get_metadata = fsx_get_metadata walk idle ids base\<rparr>"

section \<open>The file operations\<close>

definition mnt_list :: "string \<Rightarrow> string \<Rightarrow> file_entry list host_act" where
  "mnt_list base p =
     (let full = mnt_resolve base p in
      and_then (host_read_dir full)
        (\<lambda>ns. and_then
           (mnt_entries (\<lambda>n nd s. \<lparr>fe_name = n, fe_path = path_join p n, fe_size = node_len s nd, fe_is_dir = (nd = DirNode)\<rparr>)
              full ns)
           (\<lambda>es s. (Ok (sort_key (\<lambda>e. (\<not> fe_is_dir e, to_lowercase (fe_name e))) es), s))))"

definition mnt_stat :: "string \<Rightarrow> string \<Rightarrow> file_stat host_act" where
  "mnt_stat base p =
     and_then (host_node_of (mnt_resolve base p)) (\<lambda>nd s. (Ok \<lparr>fs_size = node_len s nd, fs_is_dir = (nd = DirNode)\<rparr>, s))"

definition mnt_read :: "string \<Rightarrow> string \<Rightarrow> bytes host_act" where
  "mnt_read base p =
     (let full = mnt_resolve base p in failing (''Failed to read: '' @ full) (host_read full))"

definition mnt_append :: "string \<Rightarrow> string \<Rightarrow> bytes \<Rightarrow> unit host_act" where
  "mnt_append base p d =
     (let full = mnt_resolve base p in and_then (ensure_parent full) (\<lambda>_. host_append full d))"

text \<open>An existing file is opened for writing; the host takes signed offsets.\<close>

definition mnt_write_at :: "string \<Rightarrow> string \<Rightarrow> u64 \<Rightarrow> bytes \<Rightarrow> unit host_act" where
  "mnt_write_at base p off d =
     (let full = mnt_resolve base p in
      if 2 ^ 63 \<le> unat off then and_then (host_read full) (\<lambda>_ s. (Err ''invalid argument'', s))
      else host_edit full (overlay (unat off) d))"

text \<open>The file is opened for reading only; the host refuses to set the length of such a file.\<close>

definition mnt_truncate :: "string \<Rightarrow> string \<Rightarrow> u64 \<Rightarrow> unit host_act" where
  "mnt_truncate base p len = and_then (host_node_of (mnt_resolve base p)) (\<lambda>_ s. (Err ''invalid argument'', s))"

definition mnt_mkdir :: "string \<Rightarrow> string \<Rightarrow> unit host_act" where
  "mnt_mkdir base p = host_create_dir (mnt_resolve base p)"

definition mnt_mkdir_p :: "string \<Rightarrow> string \<Rightarrow> unit host_act" where
  "mnt_mkdir_p base p = host_create_dir_all (mnt_resolve base p)"

definition mnt_rmdir :: "string \<Rightarrow> string \<Rightarrow> unit host_act" where
  "mnt_rmdir base p = host_remove_dir (mnt_resolve base p)"

definition mnt_rename :: "string \<Rightarrow> string \<Rightarrow> string \<Rightarrow> unit host_act" where
  "mnt_rename base from to =
     (let from_path = mnt_resolve base from; to_path = mnt_resolve base to in
      and_then (ensure_parent to_path) (\<lambda>_. host_rename from_path to_path))"

fun mnt_copy_dir :: "nat \<Rightarrow> string \<Rightarrow> string \<Rightarrow> unit host_act"
  and mnt_copy_entries :: "nat \<Rightarrow> string \<Rightarrow> string \<Rightarrow> string list \<Rightarrow> unit host_act" where
  "mnt_copy_dir 0 from to s = (Err ''out of fuel'', s)"
| "mnt_copy_dir (Suc fuel) from to s =
     and_then (host_create_dir_all to)
       (\<lambda>_. and_then (host_read_dir from) (mnt_copy_entries fuel from to)) s"
| "mnt_copy_entries fuel from to [] s = (Ok (), s)"
| "mnt_copy_entries fuel from to (n # ns) s =
     and_then (host_node_of (path_join from n))
       (\<lambda>nd. and_then
          (if nd = DirNode then mnt_copy_dir fuel (path_join from n) (path_join to n)
           else host_copy (path_join from n) (path_join to n))
          (\<lambda>_. mnt_copy_entries fuel from to ns)) s"

definition mnt_copy :: "nat \<Rightarrow> string \<Rightarrow> string \<Rightarrow> string \<Rightarrow> copy_options \<Rightarrow> unit host_act" where
  "mnt_copy fuel base from to opts s =
     (let from_path = mnt_resolve base from; to_path = mnt_resolve base to in
      if host_exists to_path s \<and> \<not> co_overwrite opts then (Err ''Destination already exists'', s)
      else
        and_then (ensure_parent to_path)
          (\<lambda>_. and_then (host_node_of from_path)
          (\<lambda>nd s.
             if nd = DirNode then
               (if \<not> co_recursive opts then (Err ''Cannot copy directory without recursive option'', s)
                else mnt_copy_dir fuel from_path to_path s)
             else host_copy from_path to_path s)) s)"

definition mnt_mv :: "string \<Rightarrow> string \<Rightarrow> string \<Rightarrow> bool \<Rightarrow> unit host_act" where
  "mnt_mv base from to overwrite s =
     (let from_path = mnt_resolve base from; to_path = mnt_resolve base to in
      if host_exists to_path s \<and> \<not> overwrite then (Err ''Destination already exists'', s)
      else and_then (ensure_parent to_path) (\<lambda>_. host_rename from_path to_path) s)"

definition mnt_rm :: "string \<Rightarrow> string \<Rightarrow> unit host_act" where
  "mnt_rm base p = host_remove_file (mnt_resolve base p)"

definition mnt_rm_rf :: "string \<Rightarrow> string \<Rightarrow> unit host_act" where
  "mnt_rm_rf base p s =
     (let full = mnt_resolve base p in
      if \<not> host_exists full s then (Ok (), s)
      else and_then (host_node_of full) (\<lambda>nd. if nd = DirNode then host_remove_dir_all full else host_remove_file full) s)"

definition mnt_is_dir :: "string \<Rightarrow> string \<Rightarrow> bool host_act" where
  "mnt_is_dir base p s = (Ok (host_is_dir (mnt_resolve base p) s), s)"

definition mnt_is_file :: "string \<Rightarrow> string \<Rightarrow> bool host_act" where
  "mnt_is_file base p s =
     (let full = mnt_resolve base p in (Ok (host_exists full s \<and> \<not> host_is_dir full s), s))"

text \<open>Permissions and times are not part of the host; changing them needs the file.\<close>

definition mnt_chmod :: "string \<Rightarrow> string \<Rightarrow> u32 \<Rightarrow> unit host_act" where
  "mnt_chmod base p mode = and_then (host_node_of (mnt_resolve base p)) (\<lambda>_ s. (Ok (), s))"

definition mnt_touch :: "string \<Rightarrow> string \<Rightarrow> unit host_act" where
  "mnt_touch base p s =
     (let full = mnt_resolve base p in
      if host_exists full s then (Ok (), s) else and_then (ensure_parent full) (\<lambda>_. host_write full []) s)"

definition fsx_file_ops :: "nat \<Rightarrow> string \<Rightarrow> host_files file_operations" where
  "fsx_file_ops fuel base =
     \<lparr>fo_stat = mnt_stat base, fo_read = mnt_read base, fo_write = mnt_write_file base, fo_mkdir_p = mnt_mkdir_p base,
      fo_list = mnt_list base, fo_rm_rf = mnt_rm_rf base, fo_append = mnt_append base, fo_mkdir = mnt_mkdir base,
      fo_rmdir = mnt_rmdir base, fo_rename = mnt_rename base, fo_copy = mnt_copy fuel base, fo_mv = mnt_mv base,
      fo_rm = mnt_rm base, fo_chmod = mnt_chmod base, fo_touch = mnt_touch base, fo_exists = mnt_exists base\<rparr>"

definition nas_file_ops :: "nat \<Rightarrow> string \<Rightarrow> host_files file_operations" where
  "nas_file_ops fuel base = fsx_file_ops fuel base"

definition nas_adapter ::
    "(host_files \<Rightarrow> location \<Rightarrow> location list) \<Rightarrow> (string \<Rightarrow> string) \<Rightarrow> string \<Rightarrow> host_files storage_adapter" where
  "nas_adapter walk ids base =
     \<lparr>sa_list_files = nas_list_files ids base,
      sa_list_files_paginated = default_list_files_paginated (nas_list_files ids base),
      sa_read_file = mnt_read base, sa_file_size = mnt_file_size base,
      sa_get_metadata = mnt_get_metadata walk ids nas_tier base\<rparr>"

section \<open>Where a path leads\<close>

lemma split_concat_segments:
  "slash \<notin> set w \<Longrightarrow> list_all (\<lambda>v. slash \<notin> set v) ws \<Longrightarrow>
     split_on (\<lambda>c. c = slash) (w @ concat (map ((#) slash) ws)) = w # ws"
proof (induction ws arbitrary: w)
  case (Cons v ws)
  then have "split_on (\<lambda>c. c = slash) (w @ concat (map ((#) slash) (v # ws))) =
      split_on (\<lambda>c. c = slash) w @ split_on (\<lambda>c. c = slash) (v @ concat (map ((#) slash) ws))"
    by (simp add: split_on_append_sep)
  also have "split_on (\<lambda>c. c = slash) w = [w]" using Cons.prems by (intro split_on_single) auto
  finally show ?case using Cons by simp
qed (auto intro!: split_on_single)

text \<open>A key has the components of its path, and is relative.\<close>

lemma pieces_to_key: "pieces (to_key p) = pieces p" and to_key_relative: "\<not> absolute (to_key p)"
proof -
  define Q :: "string \<Rightarrow> bool" where "Q = (\<lambda>w. w = [] \<or> w = ''.'')"
  define ws where "ws = rev (dropWhile Q (rev (dropWhile Q (split_on (\<lambda>c. c = slash) p))))"
  have keep: "filter (\<lambda>w. \<not> Q w) (dropWhile Q xs) = filter (\<lambda>w. \<not> Q w) xs" for xs by (induction xs) auto
  have pieces: "filter (\<lambda>w. \<not> Q w) ws = pieces p"
    by (simp add: ws_def keep flip: rev_filter) (simp add: Q_def)
  have "set ws \<subseteq> set (split_on (\<lambda>c. c = slash) p)"
    by (auto simp: ws_def dest!: set_dropWhileD)
  then have free: "list_all (\<lambda>v. slash \<notin> set v) ws" using split_on_no_sep by (fastforce simp: list_all_iff)
  have first: "v \<noteq> []" if "ws = v # vs" for v vs
  proof -
    define xs where "xs = dropWhile Q (split_on (\<lambda>c. c = slash) p)"
    have "hd xs = v" if "xs \<noteq> []"
    proof -
      have "\<not> Q (hd xs)" using that unfolding xs_def by (rule hd_dropWhile)
      then have "rev (dropWhile Q (rev (hd xs # tl xs))) \<noteq> [] \<and> hd (rev (dropWhile Q (rev (hd xs # tl xs)))) = hd xs"
        by (simp add: dropWhile_append)
      then show ?thesis using \<open>ws = v # vs\<close> that by (simp add: ws_def flip: xs_def)
    qed
    moreover have "xs \<noteq> []" using \<open>ws = v # vs\<close> by (auto simp: ws_def simp flip: xs_def)
    moreover from this have "\<not> Q (hd xs)" unfolding xs_def by (rule hd_dropWhile)
    ultimately show ?thesis by (auto simp: Q_def)
  qed
  have "pieces (to_key p) = pieces p \<and> \<not> absolute (to_key p)"
  proof (cases "absolute p")
    case True
    then have key: "to_key p = joined ws" by (simp add: to_key_def ws_def Q_def Let_def)
    show ?thesis
    proof (cases ws)
      case Nil
      then show ?thesis using pieces by (simp add: key joined_def absolute_def)
    next
      case (Cons v vs)
      have "split_on (\<lambda>c. c = slash) (joined ws) = ws"
        using split_concat_segments [of v vs] free by (simp add: joined_def Cons)
      moreover have "hd (joined ws) \<noteq> slash" using first [OF Cons] free by (cases v) (auto simp: joined_def Cons)
      ultimately show ?thesis using pieces by (simp add: key Q_def absolute_def)
    qed
  qed (simp add: to_key_def)
  then show "pieces (to_key p) = pieces p" "\<not> absolute (to_key p)" by simp_all
qed

text \<open>(C19) Every path without \<open>..\<close> leads below the mount point, leading backslashes included; what the path of the host
  is depends on its components only.\<close>

theorem mount_confined:
  assumes "absolute base" and "''..'' \<notin> set (pieces p)"
  shows "prefix (locate s base) (locate s (mnt_resolve base p)) \<and>
    (path_starts_with p base \<or> locate s (mnt_resolve base p) = locate s base @ pieces p)"
proof
  have "list_all plain (pieces p)" using assms(2) pieces_plain [of _ p] by (fastforce simp: list_all_iff)
  then have j: "locate s (path_join base (to_key p)) = locate s base @ pieces p"
    by (simp add: locate_join [OF assms(1) to_key_relative] pieces_to_key foldl_go_plain)
  then show "prefix (locate s base) (locate s (mnt_resolve base p))"
    using locate_starts_with [OF assms(1) _ assms(2)] by (simp add: mnt_resolve_def)
  show "path_starts_with p base \<or> locate s (mnt_resolve base p) = locate s base @ pieces p"
    using j by (simp add: mnt_resolve_def)
qed

theorem mount_confined_witness:
  "\<forall>s. locate s (mnt_resolve ''/mnt/fsx'' (backslash # ''/etc//passwd'')) = locate s ''/mnt/fsx'' @ [[backslash], ''etc'', ''passwd'']"
proof -
  have "absolute ''/mnt/fsx''" and "''..'' \<notin> set (pieces (backslash # ''/etc//passwd''))"
    and "\<not> path_starts_with (backslash # ''/etc//passwd'') ''/mnt/fsx''"
    and "pieces (backslash # ''/etc//passwd'') = [[backslash], ''etc'', ''passwd'']"
    by code_simp+
  then show ?thesis using mount_confined [of "''/mnt/fsx''" "backslash # ''/etc//passwd''"] by simp
qed

section \<open>Mounted volumes store files\<close>

text \<open>A name of a local directory leads to the same path through both kinds of adapters.\<close>

lemma resolve_same:
  assumes "local_name base p" shows "mnt_resolve base p = resolve_path base p"
proof -
  have ws: "pieces p \<noteq> []" "list_all plain (pieces p)" "p = path_string (''/'' # pieces p)" "hd (hd (pieces p)) \<noteq> backslash"
    using assms by (auto simp: local_name_def Let_def)
  then have "s3_named p" using path_string_concat [OF ws(1,2)] by (simp add: s3_named_def)
  note key = s3_named_key [OF this]
  obtain v vs where v: "pieces p = v # vs" "plain v" using ws(1,2) by (cases "pieces p") auto
  then obtain c cs where c: "v = c # cs" "c \<noteq> slash" "c \<noteq> backslash" using ws(4) by (cases v) (auto simp: plain_def)
  have "slash # to_key p = concat (map ((#) slash) (pieces p))" using path_string_concat [OF ws(1,2)] ws(3) key(1) by argo
  then obtain k where k: "to_key p = c # k" using v(1) c(1) by (cases "to_key p") auto
  have "trim_start_matches backslash (trim_start_matches slash (slash # c # k)) = c # k"
    using c by (simp add: trim_start_matches_def)
  then have "trim_start_matches backslash (trim_start_matches slash p) = to_key p" "to_key p \<noteq> []"
    using key(1) k by simp_all
  then show ?thesis using key(3) by (simp add: mnt_resolve_def resolve_path_def Let_def)
qed

text \<open>On files at such names the operations do what those of the local directory do, but for the messages.\<close>

lemma mnt_as_local:
  assumes "local_name base p"
  shows "mnt_write_file base p d s = (Ok (), t) \<Longrightarrow> fo_write (local_file_ops walk base) p d s = (Ok (), t)"
    and "mnt_read base p s = (Ok d, t) \<Longrightarrow> fo_read (local_file_ops walk base) p s = (Ok d, t)"
    and "mnt_stat base p s = (Ok st, t) \<Longrightarrow> fo_stat (local_file_ops walk base) p s = (Ok st, t)"
    and "mnt_exists base p s = (re, t) \<Longrightarrow> fo_exists (local_file_ops walk base) p s = (re, t)"
    and "local_view base s p = Some d \<Longrightarrow> mnt_rm base p s = (Ok (), t) \<Longrightarrow> fo_rm (local_file_ops walk base) p s = (Ok (), t)"
    and "local_view base s p = Some d \<Longrightarrow> mnt_rm_rf base p s = (Ok (), t) \<Longrightarrow> fo_rm_rf (local_file_ops walk base) p s = (Ok (), t)"
    and "local_view base s p = Some d \<Longrightarrow> mnt_rm_rf base p s = (Err e, t) \<Longrightarrow> t = s"
proof -
  note same = resolve_same [OF assms]
  show "fo_write (local_file_ops walk base) p d s = (Ok (), t)" if "mnt_write_file base p d s = (Ok (), t)"
    using that by (auto simp: mnt_write_file_def local_file_ops_def ls_write_file_def and_then_Ok_iff Let_def same)
  show "fo_read (local_file_ops walk base) p s = (Ok d, t)" if "mnt_read base p s = (Ok d, t)"
    using that by (auto simp: mnt_read_def local_file_ops_def ls_read_file_def Let_def same)
  show "fo_stat (local_file_ops walk base) p s = (Ok st, t)" if "mnt_stat base p s = (Ok st, t)"
    using that by (auto simp: mnt_stat_def local_file_ops_def ls_stat_def and_then_Ok_iff Let_def same)
  show "fo_exists (local_file_ops walk base) p s = (re, t)" if "mnt_exists base p s = (re, t)"
    using that by (auto simp: mnt_exists_def local_file_ops_def ls_exists_def same)
  assume d: "local_view base s p = Some d"
  let ?q = "resolve_path base p"
  have n: "host_node_of ?q s = (Ok (FileNode d), s)" "host_exists ?q s" "\<not> host_is_dir ?q s"
    using d by (simp_all add: local_view_Some host_node_of_def host_exists_def host_is_dir_def)
  show "fo_rm (local_file_ops walk base) p s = (Ok (), t)" if "mnt_rm base p s = (Ok (), t)"
    using that by (simp add: mnt_rm_def local_file_ops_def ls_delete_def and_then_def failing_def map_err_def Let_def same n)
  have rm: "mnt_rm_rf base p s = host_remove_file ?q s"
    by (simp add: mnt_rm_rf_def and_then_def same Let_def n)
  show "fo_rm_rf (local_file_ops walk base) p s = (Ok (), t)" if "mnt_rm_rf base p s = (Ok (), t)"
    using that by (simp add: local_file_ops_def ls_rm_rf_def Let_def n rm)
  show "t = s" if "mnt_rm_rf base p s = (Err e, t)"
    using that by (simp add: rm host_remove_file_def and_then_def n)
qed

lemma mnt_entries_state [simp]: "snd (mnt_entries mk full ns s) = s"
proof (induction ns)
  case (Cons n ns)
  then show ?case
    by (cases "host_node_of (path_join full n) s"; cases "mnt_entries mk full ns s")
      (auto simp: and_then_def host_node_of_def Let_def split: outcome.splits option.splits if_splits)
qed simp

lemma mnt_list_state: "snd (mnt_list base p s) = s"
proof -
  have "snd (host_read_dir q s) = s" for q
    unfolding host_read_dir_def by (rule and_then_state) (auto simp: Let_def split: host_node.split)
  then show ?thesis unfolding mnt_list_def Let_def by (intro and_then_state) simp_all
qed

lemma mnt_copy_as_local:
  assumes "local_name base p" and "local_name base q" and "q \<noteq> p" and "local_view base s p = Some d"
    and "mnt_copy fuel base p q opts s = (r, t)"
  shows "(\<exists>e. r = Err e \<and> t = s) \<or> (\<exists>r'. fo_copy (local_file_ops walk base) p q (opts\<lparr>co_overwrite := True\<rparr>) s = (r', t) \<and>
    (r = Ok () \<longleftrightarrow> r' = Ok ()) \<and> (r = Panic \<longleftrightarrow> r' = Panic))"
proof -
  let ?p = "resolve_path base p" and ?q = "resolve_path base q"
  note same = resolve_same [OF assms(1)] resolve_same [OF assms(2)]
  have p: "\<not> hf_denied s (locate s ?p)" "node_at s (locate s ?p) = Some (FileNode d)" using assms(4) by (simp_all add: local_view_Some)
  have diff: "\<not> same_path ?p ?q" using local_name_inj [OF assms(1,2)] assms(3) locate_same by metis
  obtain x u where u: "ensure_parent ?q s = (x, u)" by force
  have g: "grew s u" by (rule ensure_parent_grew [OF resolve_name(1) [OF assms(2)] u])
  have n: "host_node_of ?p u = (Ok (FileNode d), u)" "\<not> host_is_dir ?p u"
    using grew_some [OF g p(2)] grew_const [OF g] p(1) by (simp_all add: host_node_of_def host_is_dir_def)
  have "\<not> host_is_dir ?p s" using p by (simp add: host_is_dir_def)
  then have ls: "fo_copy (local_file_ops walk base) p q (opts\<lparr>co_overwrite := True\<rparr>) s =
      (case x of Ok _ \<Rightarrow> failing (''Failed to copy '' @ ?p) (host_copy ?p ?q) u | Err e \<Rightarrow> (Err e, u) | Panic \<Rightarrow> (Panic, u))"
    using diff by (simp add: local_file_ops_def ls_copy_def and_then_def Let_def u n split: outcome.split)
  show ?thesis
  proof (cases "host_exists ?q s \<and> \<not> co_overwrite opts")
    case True
    then show ?thesis using assms(5) by (auto simp: mnt_copy_def same Let_def)
  next
    case False
    then have "mnt_copy fuel base p q opts s =
        (case x of Ok _ \<Rightarrow> host_copy ?p ?q u | Err e \<Rightarrow> (Err e, u) | Panic \<Rightarrow> (Panic, u))"
      by (auto simp: mnt_copy_def same and_then_def Let_def u n split: outcome.split)
    then show ?thesis using ls assms(5)
      by (cases x; cases "host_copy ?p ?q u") (auto simp: failing_def map_err_def split: outcome.splits)
  qed
qed

interpretation mounted: file_store "fsx_file_ops fuel base" host_ok "{p. local_name base p}" "local_view base" for fuel base
proof
  fix s t :: host_files and p q d opts e
  let ?l = "local_file_ops (\<lambda>_ _. []) base"
  note ops = fsx_file_ops_def
  show "p \<in> {p. local_name base p}" if "local_view base s p \<noteq> None" using that by (auto simp: local_view_Some)
  have same: "snd (mnt_stat base p s) = s" "snd (mnt_exists base p s) = s" "snd (mnt_read base p s) = s"
    by (simp_all add: mnt_stat_def mnt_exists_def mnt_read_def Let_def and_then_state)
  show "host_ok t \<and> local_view base t = local_view base s \<and>
      (\<forall>st. p \<in> {p. local_name base p} \<longrightarrow> rs = Ok st \<longrightarrow> fs_is_dir st = (local_view base s p = None))"
    if "host_ok s" "fo_stat (fsx_file_ops fuel base) p s = (rs, t)" for rs
  proof -
    have "t = s" using same(1) that(2) by (simp add: ops)
    moreover have "fs_is_dir st = (local_view base s p = None)" if st: "rs = Ok st" "local_name base p" for st
    proof -
      have "fo_stat ?l p s = (Ok st, t)"
        using \<open>fo_stat (fsx_file_ops fuel base) p s = (rs, t)\<close> st by (intro mnt_as_local(3)) (simp_all add: ops)
      from local.stat [OF \<open>host_ok s\<close> this] show ?thesis using st(2) by simp
    qed
    ultimately show ?thesis using that(1) by simp
  qed
  show "host_ok t \<and> local_view base t = local_view base s \<and>
      (p \<in> {p. local_name base p} \<longrightarrow> re = Ok False \<longrightarrow> local_view base s p = None)"
    if "host_ok s" "fo_exists (fsx_file_ops fuel base) p s = (re, t)" for re
    using that by (auto simp: ops mnt_exists_def host_exists_def local_view_def resolve_same Let_def split: option.splits)
  show "host_ok t \<and> local_view base t = local_view base s"
    if "host_ok s" "fo_list (fsx_file_ops fuel base) p s = (rl, t)" for rl
    using that mnt_list_state [of base p s] by (simp add: ops)
  show "host_ok t \<and> local_view base t = local_view base s \<and>
      (\<forall>d. p \<in> {p. local_name base p} \<longrightarrow> rr = Ok d \<longrightarrow> local_view base s p = Some d)"
    if "host_ok s" "fo_read (fsx_file_ops fuel base) p s = (rr, t)" for rr
  proof -
    have "t = s" using same(3) that(2) by (simp add: ops)
    moreover have "local_view base s p = Some d" if d: "rr = Ok d" "local_name base p" for d
    proof -
      have "fo_read ?l p s = (Ok d, t)"
        using \<open>fo_read (fsx_file_ops fuel base) p s = (rr, t)\<close> d by (intro mnt_as_local(2)) (simp_all add: ops)
      from local.read [OF \<open>host_ok s\<close> this] show ?thesis using d(2) by simp
    qed
    ultimately show ?thesis using that(1) by simp
  qed
  show "host_ok t \<and> local_view base t = (local_view base s)(p \<mapsto> d)"
    if "host_ok s" "p \<in> {p. local_name base p}" "fo_write (fsx_file_ops fuel base) p d s = (Ok (), t)"
  proof -
    have "fo_write ?l p d s = (Ok (), t)" using that(2,3) by (intro mnt_as_local(1)) (simp_all add: ops)
    then show ?thesis by (rule local.put [OF that(1,2)])
  qed
  show "host_ok t \<and> local_view base t = (local_view base s)(p := None)"
    if "host_ok s" "local_view base s p = Some d" "fo_rm (fsx_file_ops fuel base) p s = (Ok (), t)"
  proof -
    have "fo_rm ?l p s = (Ok (), t)" using that(2,3) by (intro mnt_as_local(5)) (auto simp: ops local_view_Some)
    then show ?thesis by (rule local.rm [OF that(1,2)])
  qed
  show "host_ok t \<and> local_view base t = (local_view base s)(p := None)"
    if "host_ok s" "local_view base s p = Some d" "leaf (local_view base s) p"
      "fo_rm_rf (fsx_file_ops fuel base) p s = (Ok (), t)"
  proof -
    have "fo_rm_rf ?l p s = (Ok (), t)" using that(2,4) by (intro mnt_as_local(6)) (auto simp: ops local_view_Some)
    then show ?thesis by (rule local.rm_rf [OF that(1-3)])
  qed
  show "host_ok t \<and> local_view base t = local_view base s"
    if "host_ok s" "local_view base s p = Some d" "fo_rm_rf (fsx_file_ops fuel base) p s = (Err e, t)"
  proof -
    have "t = s" using that(2,3) by (intro mnt_as_local(7)) (auto simp: ops local_view_Some)
    then show ?thesis using that(1) by simp
  qed
  note copied = mnt_copy_as_local [where walk = "\<lambda>_ _. []"]
  show "host_ok t \<and> local_view base t = (local_view base s)(q \<mapsto> d)"
    if "host_ok s" "local_view base s p = Some d" "leaf (local_view base s) p" "q \<in> {p. local_name base p}" "q \<noteq> p"
      "fo_copy (fsx_file_ops fuel base) p q opts s = (Ok (), t)"
  proof -
    have "fo_copy ?l p q (opts\<lparr>co_overwrite := True\<rparr>) s = (Ok (), t)"
      using copied [of base p q s d fuel opts "Ok ()" t] that(2,4,5,6) by (simp add: ops local_view_Some)
    then show ?thesis by (rule local.copy [OF that(1-5)])
  qed
  show "host_ok t \<and> (\<forall>r. r \<noteq> q \<longrightarrow> local_view base t r = local_view base s r)"
    if hyp: "host_ok s" "local_view base s p = Some d" "leaf (local_view base s) p" "q \<in> {p. local_name base p}" "q \<noteq> p"
      "fo_copy (fsx_file_ops fuel base) p q opts s = (Err e, t)"
  proof -
    have "t = s \<or> (\<exists>r. fo_copy ?l p q (opts\<lparr>co_overwrite := True\<rparr>) s = (r, t) \<and> r \<noteq> Ok () \<and> r \<noteq> Panic)"
      using copied [of base p q s d fuel opts "Err e" t] hyp(2,4,5,6) by (simp add: ops local_view_Some)
    moreover have "\<exists>e. r = Err e" if "r \<noteq> Ok ()" "r \<noteq> Panic" for r :: "(string, unit) outcome" using that by (cases r) simp_all
    ultimately have "t = s \<or> (\<exists>e. fo_copy ?l p q (opts\<lparr>co_overwrite := True\<rparr>) s = (Err e, t))" by blast
    then show ?thesis using local.failed_copy [OF hyp(1-5)] hyp(1) by metis
  qed
  show "host_ok t \<and> local_view base t = (local_view base s)(q \<mapsto> d, p := None)"
    if "host_ok s" "local_view base s p = Some d" "leaf (local_view base s) p" "q \<in> {p. local_name base p}" "q \<noteq> p"
      "\<not> prefix (p @ [slash]) q" "fo_mv (fsx_file_ops fuel base) p q True s = (Ok (), t)"
  proof -
    have names: "local_name base p" "local_name base q" using that(2,4) by (auto simp: local_view_Some)
    have "fo_mv ?l p q True s = (Ok (), t)"
      using that(7) by (auto simp: ops mnt_mv_def resolve_same [OF names(1)] resolve_same [OF names(2)] Let_def
          local_file_ops_def ls_mv_def ls_rename_def and_then_Ok_iff)
    then show ?thesis by (rule local.mv [OF that(1-6)])
  qed
qed

text \<open>Setting the length of a file fails.\<close>

lemma mnt_truncate_fails: "fst (mnt_truncate base p len s) \<noteq> Ok ()"
  by (simp add: mnt_truncate_def and_then_def split: prod.split outcome.split)

text \<open>
  (C37) Copying a file of a mounted volume onto itself, with overwriting allowed, leaves an empty file and reports success: the host
  opens the destination, and so empties it, before it reads the source. Nothing else changes.
\<close>

theorem mnt_copy_onto_itself:
  assumes "host_ok s" and "local_view base s p = Some d" and "mnt_copy fuel base p p opts s = (Ok (), t)"
  shows "co_overwrite opts \<and> local_view base t = (local_view base s)(p \<mapsto> [])"
proof -
  let ?p = "resolve_path base p"
  have name: "local_name base p" and p: "\<not> hf_denied s (locate s ?p)" "node_at s (locate s ?p) = Some (FileNode d)"
    using assms(2) by (simp_all add: local_view_Some)
  then have "host_exists ?p s" by (simp add: host_exists_def)
  then have ow: "co_overwrite opts" using assms(3) by (auto simp: mnt_copy_def resolve_same [OF name] Let_def split: if_splits)
  then obtain u where u: "ensure_parent ?p s = (Ok (), u)"
    "and_then (host_node_of ?p) (\<lambda>nd s. if nd = DirNode
       then (if \<not> co_recursive opts then (Err ''Cannot copy directory without recursive option'', s) else mnt_copy_dir fuel ?p ?p s)
       else host_copy ?p ?p s) u = (Ok (), t)"
    using assms(3) by (auto simp: mnt_copy_def resolve_same [OF name] Let_def and_then_Ok_iff)
  have g: "grew s u" by (rule ensure_parent_grew [OF resolve_name(1) [OF name] u(1)])
  have n: "host_node_of ?p u = (Ok (FileNode d), u)"
    using grew_some [OF g p(2)] grew_const [OF g] p(1) by (simp add: host_node_of_def)
  have "host_copy ?p ?p u = (Ok (), t)" using u(2) unfolding and_then_def n by simp
  then have "host_put (locate u ?p) [] u = (Ok (), t)" by (auto simp: host_copy_def and_then_Ok_iff)
  moreover have "host_ok u" using g by (simp add: grew_def assms(1))
  ultimately show ?thesis using host_put_view [OF name, of u "[]" t] local_view_grew [OF g] ow by simp
qed

theorem mnt_copy_onto_itself_witness:
  "\<exists>t. mnt_copy 0 ''/b'' ''/src/d/f'' ''/src/d/f'' demo_options demo_host = (Ok (), t) \<and>
     local_view ''/b'' t ''/src/d/f'' = Some [] \<and> local_view ''/b'' t ''/out/keep'' = Some [1]"
proof -
  let ?run = "mnt_copy 0 ''/b'' ''/src/d/f'' ''/src/d/f'' demo_options demo_host"
  have "fst ?run = Ok ()" and v: "local_view ''/b'' demo_host ''/src/d/f'' = Some [7]"
    "local_view ''/b'' demo_host ''/out/keep'' = Some [1]" by code_simp+
  then obtain t where t: "?run = (Ok (), t)" by (metis prod.collapse)
  from mnt_copy_onto_itself [OF demo_host_ok v(1) t] show ?thesis using t v(2) by simp
qed

section \<open>A directory copied into itself\<close>

definition dirs_kept :: "host_files \<Rightarrow> host_files \<Rightarrow> bool" where
  "dirs_kept s t \<longleftrightarrow> host_const t = host_const s \<and> (\<forall>k. node_at s k = Some DirNode \<longrightarrow> node_at t k = Some DirNode)"

lemma dirs_kept_refl [simp]: "dirs_kept s s"
  by (simp add: dirs_kept_def)

lemma dirs_kept_trans [trans]: "dirs_kept s t \<Longrightarrow> dirs_kept t u \<Longrightarrow> dirs_kept s u"
  by (simp add: dirs_kept_def)

lemma dirs_kept_then:
  assumes "dirs_kept s (snd (m s))" and "\<And>a t. m s = (Ok a, t) \<Longrightarrow> dirs_kept t (snd (f a t))"
  shows "dirs_kept s (snd (and_then m f s))"
  using assms(1) dirs_kept_trans [OF assms(1)] assms(2) by (auto simp: and_then_def split: prod.splits outcome.splits)

lemma create_dir_all_kept: "dirs_kept s (snd (host_create_dir_all p s))"
  using host_create_dir_all_effect(1,2) [of p s "fst (host_create_dir_all p s)" "snd (host_create_dir_all p s)"]
  by (simp add: dirs_kept_def) (metis option.distinct(1))

lemma host_copy_kept: "dirs_kept s (snd (host_copy p q s))"
  unfolding host_copy_def
proof (rule dirs_kept_then)
  show "dirs_kept t (snd (host_put l b t))" for l b t
    using host_put_cases [of l b t] by (auto simp: dirs_kept_def)
qed simp

lemma copy_dir_kept:
  "dirs_kept s (snd (mnt_copy_dir fuel f g s))" "dirs_kept s (snd (mnt_copy_entries fuel f g ns s))"
proof (induction fuel f g s and fuel f g ns s rule: mnt_copy_dir_mnt_copy_entries.induct)
  case (2 fuel f g s)
  have "snd (host_read_dir q s) = s" for q s
    unfolding host_read_dir_def by (rule and_then_state) (auto simp: Let_def split: host_node.split)
  then show ?case using 2 create_dir_all_kept by (auto intro!: dirs_kept_then)
next
  case (4 fuel f g n ns s)
  have "snd (host_node_of q s) = s" for q by simp
  then show ?case using 4 host_copy_kept by (auto intro!: dirs_kept_then)
qed auto

lemma entries_reach:
  assumes "x \<in> set ns" and "node_at s (locate s (path_join f x)) = Some DirNode" and "\<And>t. fst (mnt_copy_dir fuel (path_join f x) (path_join g x) t) \<noteq> Ok ()"
  shows "fst (mnt_copy_entries fuel f g ns s) \<noteq> Ok ()"
  using assms(1,2)
proof (induction ns arbitrary: s)
  case (Cons n ns)
  let ?m = "\<lambda>nd. if nd = DirNode then mnt_copy_dir fuel (path_join f n) (path_join g n) else host_copy (path_join f n) (path_join g n)"
  show ?case
  proof
    assume "fst (mnt_copy_entries fuel f g (n # ns) s) = Ok ()"
    then obtain t where "mnt_copy_entries fuel f g (n # ns) s = (Ok (), t)" by (metis prod.collapse)
    then obtain nd u where u: "host_node_of (path_join f n) s = (Ok nd, s)" "?m nd s = (Ok (), u)"
      "mnt_copy_entries fuel f g ns u = (Ok (), t)"
      by (auto simp: and_then_Ok_iff simp del: host_node_of_Ok) (metis host_node_of_Ok)+
    have kept: "dirs_kept s u"
      using u(2) copy_dir_kept(1) [of s fuel "path_join f n" "path_join g n"] host_copy_kept [of s "path_join f n" "path_join g n"]
      by (auto split: if_splits)
    show False
    proof (cases "n = x")
      case True
      then have "nd = DirNode" using u(1) Cons.prems(2) by auto
      then show False using assms(3) [of s] u(2) True by simp
    next
      case False
      moreover have "node_at u (locate u (path_join f x)) = Some DirNode"
        using Cons.prems(2) kept host_constD [of u s] by (simp add: dirs_kept_def)
      ultimately show False using Cons.IH [of u] Cons.prems(1) u(3) by simp
    qed
  qed
qed simp

text \<open>Copying a directory to a place in itself never comes to an end: every level finds the directory it has just made.\<close>

lemma copy_into_itself:
  assumes "absolute f" and "plain x"
  shows "fst (mnt_copy_dir fuel f (path_join f x) s) \<noteq> Ok ()"
  using assms(1)
proof (induction fuel arbitrary: f s)
  case (Suc fuel)
  show ?case
  proof
    assume "fst (mnt_copy_dir (Suc fuel) f (path_join f x) s) = Ok ()"
    then obtain t where "mnt_copy_dir (Suc fuel) f (path_join f x) s = (Ok (), t)" by (metis prod.collapse)
    then obtain u ns v where u: "host_create_dir_all (path_join f x) s = (Ok (), u)" "host_read_dir f u = (Ok ns, v)"
      "mnt_copy_entries fuel f (path_join f x) ns v = (Ok (), t)"
      by (auto simp: and_then_Ok_iff)
    let ?l = "locate u f @ [x]"
    have at: "locate w (path_join f x) = locate w f @ [x]" for w by (rule locate_join_plain [OF Suc.prems assms(2)])
    have "locate u = locate s" using host_constD host_create_dir_all_effect(1) [OF u(1)] by blast
    then have dir: "node_at u ?l = Some DirNode"
      using host_create_dir_all_effect(3) [OF u(1) refl, of ?l] by (simp add: at)
    obtain nd where nd: "host_node_of f u = (Ok nd, u)" "nd = DirNode"
      using u(2) by (auto simp: host_read_dir_def and_then_Ok_iff split: host_node.splits) (metis host_node.exhaust)
    have v: "v = u" and ns: "ns = map last (filter (\<lambda>k. k \<noteq> [] \<and> butlast k = locate u f \<and> length k = Suc (length (locate u f))) (hm_keys (hf_nodes u)))"
      using u(2) nd by (auto simp: host_read_dir_def and_then_Ok_iff Let_def)
    have "?l \<in> set (hm_keys (hf_nodes u))" using dir hm_keys_iff [of ?l "hf_nodes u"] by (simp add: node_at_def)
    then have "x \<in> set ns" unfolding ns by force
    moreover have "node_at u (locate u (path_join f x)) = Some DirNode" using dir by (simp add: at)
    moreover have "absolute (path_join f x)" by (rule absolute_join [OF Suc.prems])
    ultimately show False
      using entries_reach [of x ns u f fuel "path_join f x"] Suc.IH [of "path_join f x"] u(3) v by auto
  qed
qed simp

end
