(* ===== verification/Adapter_Factory.thy ===== *)
theory Adapter_Factory
  imports Blob_Storage Mounted_Storage
begin

text \<open>
  The factory that builds the adapter of a source from its configuration
  (\<open>apps/vfs-desktop/src-tauri/src/vfs/adapters/factories.rs\<close>; the factories of the cache and of the clipboard call one constructor each).

  The adapters live over different worlds, so what is built is the adapter with its state (\<open>built_adapter\<close>). Building the operators of \<open>opendal\<close> and reading the
  environment are the record \<open>operator_builders\<close>.
\<close>

record 'w operator_builders =
  ob_env :: "string \<Rightarrow> string option"
  ob_s3 :: "s3_params \<Rightarrow> (string, 'w s3_operator) outcome"
  ob_gcs :: "string \<Rightarrow> string option \<Rightarrow> (string, 'w s3_operator) outcome"
  ob_azure :: "azure_params \<Rightarrow> (string, 'w s3_operator) outcome"
  ob_not_found :: "string \<Rightarrow> bool"

datatype 'w built_adapter =
    BuiltLocal local_storage
  | BuiltS3 "'w s3_storage"
  | BuiltGcs "'w gcs_storage"
  | BuiltAzure "'w blob_storage"
  | BuiltOracle "'w blob_storage"
  | BuiltFsx fsx_storage

definition built :: "string \<Rightarrow> ('a \<Rightarrow> 'b) \<Rightarrow> (string, 'a) outcome \<Rightarrow> (string, 'b) outcome" where
  "built msg f r = (case r of Ok a \<Rightarrow> Ok (f a) | Err e \<Rightarrow> Err msg | Panic \<Rightarrow> Panic)"

definition s3_config_params :: "adapter_config \<Rightarrow> string \<Rightarrow> s3_params" where
  "s3_config_params c region =
     \<lparr>s3_bucket = ac_path_or_bucket c, s3_region = region, s3_access_key = ac_access_key c, s3_secret_key = ac_secret_key c,
      s3_session_token = None, s3_endpoint = ac_endpoint c, s3_name = ac_path_or_bucket c\<rparr>"

text \<open>The namespace of Oracle is the first label of the host of the endpoint, or else the access key.\<close>

definition oracle_namespace :: "adapter_config \<Rightarrow> string" where
  "oracle_namespace c =
     (case ac_endpoint c of
        Some e \<Rightarrow>
          (case strip_prefix ''https://'' e of
             Some h \<Rightarrow> hd (split_on (\<lambda>x. x = CHR ''.'') h)
           | None \<Rightarrow> (case ac_access_key c of Some k \<Rightarrow> k | None \<Rightarrow> ''default''))
      | None \<Rightarrow> (case ac_access_key c of Some k \<Rightarrow> k | None \<Rightarrow> ''default''))"

definition create_adapter :: "'w operator_builders \<Rightarrow> adapter_config \<Rightarrow> (string, 'w built_adapter) outcome" where
  "create_adapter ob c =
     (let target = ac_path_or_bucket c in
      case ac_type c of
        LocalDir \<Rightarrow> Ok (BuiltLocal (local_storage_new target (name_or ''Local Storage'' target)))
      | S3 \<Rightarrow>
          (case ac_region c of
             None \<Rightarrow> Err ''Region is required for S3''
           | Some region \<Rightarrow> built ''Failed to create S3 adapter'' BuiltS3 (s3_new (ob_env ob) (ob_s3 ob) (s3_config_params c region)))
      | Gcs \<Rightarrow> built ''Failed to create GCS adapter'' BuiltGcs (gcs_new (ob_gcs ob) target (ac_access_key c) target)
      | AzureBlob \<Rightarrow>
          (case ac_region c of
             None \<Rightarrow> Err ''Account name (region field) is required for Azure Blob Storage''
           | Some account \<Rightarrow>
               built ''Failed to create Azure Blob Storage adapter'' BuiltAzure
                 (azure_new (ob_env ob) (ob_azure ob) (ob_not_found ob)
                    \<lparr>az_container = target, az_account_name = account, az_account_key = ac_access_key c, az_endpoint = ac_endpoint c\<rparr>
                    target))
      | S3Compatible \<Rightarrow>
          (let region = (case ac_region c of Some r \<Rightarrow> r | None \<Rightarrow> ''us-ashburn-1'');
               oracle = (case ac_endpoint c of Some e \<Rightarrow> str_contains ''oraclecloud.com'' e | None \<Rightarrow> False) in
           if oracle then
             built ''Failed to create Oracle Object Storage adapter'' BuiltOracle
               (oracle_new (ob_env ob) (ob_s3 ob) (ob_not_found ob) (oracle_namespace c) (s3_config_params c region))
           else built ''Failed to create S3-compatible adapter'' BuiltS3 (s3_new (ob_env ob) (ob_s3 ob) (s3_config_params c region)))
      | Nas \<Rightarrow> Err ''NAS adapter creation requires additional configuration''
      | FsxOntap \<Rightarrow> Ok (BuiltFsx (fsx_new target (name_or ''FSx ONTAP'' target) (ac_endpoint c) (ac_region c)))
      | CustomType i \<Rightarrow> Err ''Custom storage adapter creation not yet implemented''
      | _ \<Rightarrow> Err ''Storage adapter type not yet implemented'')"

text \<open>The kind of adapter follows from the type, and for services that are compatible with S3 from the endpoint. Volumes of the type
  \<open>FsxN\<close> and network shares are never built.\<close>

lemma created_kind:
  assumes "create_adapter ob c = Ok a"
  shows "(case a of
      BuiltLocal _ \<Rightarrow> ac_type c = LocalDir | BuiltS3 _ \<Rightarrow> ac_type c = S3 \<or> ac_type c = S3Compatible
    | BuiltGcs _ \<Rightarrow> ac_type c = Gcs | BuiltAzure _ \<Rightarrow> ac_type c = AzureBlob
    | BuiltOracle _ \<Rightarrow> ac_type c = S3Compatible \<and> (\<exists>e. ac_endpoint c = Some e \<and> str_contains ''oraclecloud.com'' e)
    | BuiltFsx _ \<Rightarrow> ac_type c = FsxOntap)"
  using assms by (cases "ac_type c") (auto simp: create_adapter_def built_def Let_def split: option.splits outcome.splits if_splits)

text \<open>An S3 adapter works on the bucket of the configuration, trimmed, and its operator is built for that bucket.\<close>

lemma created_s3:
  assumes "create_adapter ob c = Ok (BuiltS3 a)"
  shows "sg_bucket a = trim_white (ac_path_or_bucket c) \<and> 3 \<le> length (sg_bucket a) \<and> length (sg_bucket a) \<le> 63 \<and>
    (\<exists>p. ob_s3 ob p = Ok (sg_operator a) \<and> s3_bucket p = sg_bucket a \<and> s3_region p = sg_region a)"
proof -
  obtain region where "s3_new (ob_env ob) (ob_s3 ob) (s3_config_params c region) = Ok a"
    using assms by (cases "ac_type c") (auto simp: create_adapter_def built_def Let_def split: option.splits outcome.splits if_splits)
  then show ?thesis
    by (auto simp: s3_new_def s3_config_params_def Let_def split: if_splits outcome.splits intro!: exI)
qed

end
