(* ===== verification/Tiering.thy ===== *)
theory Tiering
  imports Gcs_Storage Operation_Tracking
begin

text \<open>
  Changing the storage tier of objects: the adapters \<open>object_storage_tiering.rs\<close> and \<open>s3_tiering.rs\<close>, and the commands of
  \<open>commands/sync.rs\<close> that move files to a tier and list the tiers of a source, under \<open>apps/vfs-desktop/src-tauri/src/vfs\<close>.

  The operator of \<open>opendal\<close> has no storage classes: the class that is meant for a tier appears in the log only. The commands run over the
  service and the tracking of operations; the text that describes a tier to the user is left out, and so is revealing a file in the file manager.
\<close>

section \<open>Storage classes\<close>

definition nearline_class :: "storage_source_type \<Rightarrow> string" where
  "nearline_class t = (if t = AzureBlob then ''Hot'' else ''STANDARD'')"

definition cold_class :: "storage_source_type \<Rightarrow> string" where
  "cold_class t = (if t = Gcs then ''COLDLINE'' else if t = AzureBlob then ''Archive'' else ''GLACIER_IR'')"

definition archive_class :: "storage_source_type \<Rightarrow> string" where
  "archive_class t = (if t = Gcs then ''NEARLINE'' else if t = AzureBlob then ''Cool'' else ''STANDARD_IA'')"

definition provider_name :: "storage_source_type \<Rightarrow> string" where
  "provider_name t =
     (if t = S3 then ''S3'' else if t = S3Compatible then ''S3-Compatible'' else if t = Gcs then ''GCS''
      else if t = AzureBlob then ''Azure Blob'' else ''Object Storage'')"

definition storage_class :: "storage_source_type \<Rightarrow> storage_tier \<Rightarrow> string" where
  "storage_class t tier =
     (case tier of
        Hot \<Rightarrow> nearline_class t | Warm \<Rightarrow> nearline_class t | Nearline \<Rightarrow> nearline_class t
      | Archive \<Rightarrow> archive_class t
      | Cold \<Rightarrow> cold_class t | InstantRetrieval \<Rightarrow> cold_class t)"

fun s3_class :: "storage_tier \<Rightarrow> string" where
  "s3_class Hot = ''STANDARD''"
| "s3_class Warm = ''STANDARD''"
| "s3_class Nearline = ''STANDARD''"
| "s3_class Archive = ''STANDARD_IA''"
| "s3_class Cold = ''GLACIER_IR''"
| "s3_class InstantRetrieval = ''GLACIER_IR''"

lemma s3_class_agrees: "storage_class S3 tier = s3_class tier"
  by (cases tier) (simp_all add: storage_class_def nearline_class_def cold_class_def archive_class_def)

section \<open>Rewriting an object\<close>

definition tiering_key :: "string \<Rightarrow> string" where
  "tiering_key k = k @ ''.tiering''"

definition change_object_storage_tier :: "'w s3_operator \<Rightarrow> storage_source_type \<Rightarrow> string \<Rightarrow> storage_tier \<Rightarrow> ('w, unit) io_act" where
  "change_object_storage_tier op t k tier =
     and_then (map_err (\<lambda>_. ''Failed to read object '' @ k @ '' for tier change'') (so_read op k))
       (\<lambda>d. and_then (map_err (\<lambda>_. ''Failed to write temporary object '' @ tiering_key k) (so_write op (tiering_key k) d))
       (\<lambda>_. and_then (delete_ok op k)
       (\<lambda>_. and_then (map_err (\<lambda>_. ''Failed to write object '' @ k @ '' with new storage class'') (so_write op k d))
       (\<lambda>_. delete_ok op (tiering_key k)))))"

definition change_s3_tier :: "'w s3_operator \<Rightarrow> string \<Rightarrow> storage_tier \<Rightarrow> ('w, unit) io_act" where
  "change_s3_tier op k tier = change_object_storage_tier op S3 k tier"

definition get_object_storage_class :: "'w s3_operator \<Rightarrow> string \<Rightarrow> ('w, string option) io_act" where
  "get_object_storage_class op k = and_then (so_stat op k) (\<lambda>_ w. (Ok None, w))"

lemma and_then_split:
  assumes "and_then m f s = (r, s')" and "r \<noteq> Panic"
  obtains (failed) e where "m s = (Err e, s')" "r = Err e" | (went_on) a u where "m s = (Ok a, u)" "f a u = (r, s')"
  using assms by (auto simp: and_then_def split: prod.splits outcome.splits)

lemma map_err_Err_iff: "map_err g m s = (Err e, s') \<longleftrightarrow> (\<exists>e'. m s = (Err e', s') \<and> e = g e')"
  by (auto simp: map_err_def split: prod.split outcome.split)

lemma delete_ok_cases:
  assumes "object_store op v" and "delete_ok op q u = (x, u')"
  shows "x \<noteq> Panic \<Longrightarrow> v u' = v u \<or> v u' = (v u)(q := None)" and "x = Ok () \<or> x = Panic"
  using assms(2) store_delete [OF assms(1), of q u] store_delete_failed(1) [OF assms(1), of q u]
  by (auto simp: delete_ok_def split: prod.splits outcome.splits)

text \<open>The last two steps, when the temporary object has the bytes.\<close>

lemma rewrite_object:
  assumes "object_store op v" and "object_key k" and "k' \<noteq> k" and "v w k' = Some d"
    and "and_then (map_err g (so_write op k d)) (\<lambda>_. delete_ok op k') w = (r, w')" and "r \<noteq> Panic"
  shows "(r = Ok () \<longrightarrow> v w' k = Some d) \<and> (v w' k = Some d \<or> v w' k' = Some d) \<and> (\<forall>q. q \<noteq> k \<and> q \<noteq> k' \<longrightarrow> v w' q = v w q)"
  using assms(5,6)
proof (cases rule: and_then_split)
  case (failed e)
  then show ?thesis using store_write_failed [OF assms(1)] assms(3,4) by (auto simp: map_err_Err_iff)
next
  case (went_on a u)
  then have "v u = (v w)(k \<mapsto> d)" using store_write [OF assms(1,2)] by simp
  then show ?thesis using delete_ok_cases(1) [OF assms(1) went_on(2) assms(6)] assms(3) by auto
qed

text \<open>
  (C20) Changing the tier of an object does not lose its bytes: when it succeeds the object has the bytes it had; when it fails they are still at the
  object or at the temporary key. No other object changes. What was at the temporary key before may be gone.
\<close>

theorem tier_change_keeps_bytes:
  assumes "object_store op v" and "object_key k" and "change_object_storage_tier op t k tier w = (r, w')" and "r \<noteq> Panic"
    and "v w k = Some d"
  shows "(r = Ok () \<longrightarrow> v w' k = Some d) \<and> (v w' k = Some d \<or> v w' (tiering_key k) = Some d) \<and>
    (\<forall>q. q \<noteq> k \<and> q \<noteq> tiering_key k \<longrightarrow> v w' q = v w q)"
proof -
  have k: "object_key (tiering_key k)" "tiering_key k \<noteq> k" by (simp_all add: object_key_def tiering_key_def)
  from assms(3,4) show ?thesis unfolding change_object_storage_tier_def
  proof (cases rule: and_then_split)
    case (failed e)
    then show ?thesis using store_read(1) [OF assms(1)] assms(5) by (auto simp: map_err_Err_iff)
  next
    case (went_on d' w1)
    then have r: "so_read op k w = (Ok d', w1)" by simp
    have w1: "v w1 = v w" "d' = d" using store_read [OF assms(1) r] assms(5) by simp_all
    from went_on(2) assms(4) show ?thesis
    proof (cases rule: and_then_split)
      case (failed e)
      then show ?thesis using store_write_failed [OF assms(1)] w1(1) k(2) assms(5) by (auto simp: map_err_Err_iff)
    next
      case (went_on u w2)
      then have w2: "v w2 = (v w)(tiering_key k \<mapsto> d)" using store_write [OF assms(1) k(1)] w1 by simp
      from went_on(2) assms(4) show ?thesis
      proof (cases rule: and_then_split)
        case (failed e)
        then show ?thesis using delete_ok_cases(2) [OF assms(1)] by blast
      next
        case (went_on u w3)
        have w3: "v w3 (tiering_key k) = Some d" "\<And>q. q \<noteq> k \<Longrightarrow> q \<noteq> tiering_key k \<Longrightarrow> v w3 q = v w q"
          using delete_ok_cases(1) [OF assms(1) went_on(1)] k(2) by (auto simp: w2)
        show ?thesis using rewrite_object [OF assms(1,2) k(2) w3(1) went_on(2) [unfolded w1(2)] assms(4)] w3(2) by auto
      qed
    qed
  qed
qed

theorem tier_change_keeps_bytes_witness:
  "\<exists>w. change_object_storage_tier bucket_operator S3 ''a'' Cold [(''a'', [1, 2]), (''b'', [3])] = (Ok (), w) \<and>
     hm_get w ''a'' = Some [1, 2] \<and> hm_get w ''b'' = Some [3]"
proof -
  let ?w = "[(''a'', [1, 2 :: u8]), (''b'', [3])]"
  let ?run = "change_object_storage_tier bucket_operator S3 ''a'' Cold ?w"
  have ok: "fst ?run = Ok ()" by code_simp
  then obtain w where w: "?run = (Ok (), w)" by (metis prod.collapse)
  have k: "object_key ''a''" "''b'' \<noteq> ''a'' \<and> ''b'' \<noteq> tiering_key ''a''" by (simp_all add: object_key_def tiering_key_def)
  show ?thesis using tier_change_keeps_bytes [OF object_store_bucket k(1) w, of "[1, 2]"] k(2) w by auto
qed

section \<open>The commands\<close>

definition parse_tier :: "string \<Rightarrow> storage_tier option" where
  "parse_tier s =
     (if s = ''hot'' then Some Hot else if s = ''warm'' then Some Warm else if s = ''cold'' then Some Cold
      else if s = ''nearline'' then Some Nearline else if s = ''archive'' then Some Archive
      else if s = ''instant-retrieval'' then Some InstantRetrieval else None)"

lemma parse_tier_as_str: "parse_tier (tier_as_str t) = Some t"
  by (cases t) (simp_all add: parse_tier_def)

record sync_report =
  sy_files_synced :: nat
  sy_files_failed :: nat
  sy_errors :: "string list"
  sy_operation_ids :: "string list"

text \<open>Each path is one tracked operation; a failure is counted, and the next path is tried.\<close>

definition sync_record :: "string \<Rightarrow> sync_report \<Rightarrow> string \<Rightarrow> (string, 'b) outcome \<Rightarrow> tracking \<Rightarrow> (string, sync_report) outcome \<times> tracking" where
  "sync_record p rep k r t =
     (case r of
        Ok b \<Rightarrow>
          (Ok (rep\<lparr>sy_files_synced := Suc (sy_files_synced rep), sy_operation_ids := sy_operation_ids rep @ [k]\<rparr>),
           snd (helper_complete_operation k t))
      | Err e \<Rightarrow>
          (Ok (rep\<lparr>sy_files_failed := Suc (sy_files_failed rep), sy_errors := sy_errors rep @ [p @ '': '' @ e],
                  sy_operation_ids := sy_operation_ids rep @ [k]\<rparr>),
           snd (helper_fail_operation k (p @ '': '' @ e) t))
      | Panic \<Rightarrow> (Panic, t))"

definition sync_one ::
    "string \<Rightarrow> (string \<Rightarrow> string) \<Rightarrow> (string \<Rightarrow> ('c, 'w, 'b) svc_act) \<Rightarrow> string \<Rightarrow> sync_report \<Rightarrow>
     (('c, 'w) vfs_service, sync_report) tracked" where
  "sync_one i dest change p rep =
     and_then (on_files (size_if_known (Some (\<lambda>q. and_then (svc_stat i q) (\<lambda>st s. (Ok (fs_size st), s)))) p))
       (\<lambda>file_size. and_then (on_tracking (track_operation_start Copy i p (Some (dest p)) file_size))
       (\<lambda>k st. let (c, s) = change p (fst st); ended = sync_record p rep k c (snd st) in (fst ended, (s, snd ended))))"

fun sync_all ::
    "string \<Rightarrow> (string \<Rightarrow> string) \<Rightarrow> (string \<Rightarrow> ('c, 'w, 'b) svc_act) \<Rightarrow> string list \<Rightarrow> sync_report \<Rightarrow>
     (('c, 'w) vfs_service, sync_report) tracked" where
  "sync_all i dest change [] rep s = (Ok rep, s)"
| "sync_all i dest change (p # ps) rep s = and_then (sync_one i dest change p rep) (sync_all i dest change ps) s"

text \<open>The operator of an object store is built anew, from the environment.\<close>

definition sync_to_tier ::
    "nat \<Rightarrow> (string \<Rightarrow> string option) \<Rightarrow> (s3_params \<Rightarrow> (string, 'w s3_operator) outcome) \<Rightarrow> string \<Rightarrow> string list \<Rightarrow> string \<Rightarrow>
     string option \<Rightarrow> (('c, 'w) vfs_service, sync_report) tracked" where
  "sync_to_tier fuel env build i paths target_tier target st =
     (let s = fst st; none = \<lparr>sy_files_synced = 0, sy_files_failed = 0, sy_errors = [], sy_operation_ids = []\<rparr> in
      case get_source i s of
        None \<Rightarrow> (Err (''Storage source not found: '' @ i), st)
      | Some src \<Rightarrow>
          (case parse_tier target_tier of
             None \<Rightarrow> (Err (''Invalid tier: '' @ target_tier), st)
           | Some tier \<Rightarrow>
               (case target of
                  Some j \<Rightarrow>
                    (if get_source j s = None then (Err (''Target storage source not found: '' @ j), st)
                     else sync_all i (\<lambda>_. j @ '':/'') (\<lambda>p. copy_to_source fuel i p j ''/'') paths none st)
                | None \<Rightarrow>
                    (case category (ss_type src) of
                       CloudCat \<Rightarrow>
                         (if ss_type src = S3 \<or> ss_type src = S3Compatible then
                            (case s3_new env build
                                 \<lparr>s3_bucket = sc_path_or_bucket (ss_config src),
                                  s3_region = (case sc_region (ss_config src) of Some r \<Rightarrow> r | None \<Rightarrow> ''us-east-1''),
                                  s3_access_key = env ''AWS_ACCESS_KEY_ID'', s3_secret_key = env ''AWS_SECRET_ACCESS_KEY'',
                                  s3_session_token = env ''AWS_SESSION_TOKEN'', s3_endpoint = sc_endpoint (ss_config src),
                                  s3_name = ss_name src\<rparr> of
                               Err e \<Rightarrow> (Err (''Failed to create S3 adapter: '' @ e), st)
                             | Panic \<Rightarrow> (Panic, st)
                             | Ok a \<Rightarrow>
                                 sync_all i id
                                   (\<lambda>p. on_world (change_object_storage_tier (sg_operator a) (ss_type src)
                                      (trim_start_matches slash p) tier)) paths none st)
                          else (Err ''Tier changes are not yet implemented. Only S3 is supported.'', st))
                     | LocalCat \<Rightarrow>
                         (Err ''Tier changes for local storage require a target cloud storage source. Please select a target source.'', st)
                     | _ \<Rightarrow> (Err ''Tier changes are not supported for storage type'', st)))))"

definition change_tier ::
    "nat \<Rightarrow> (string \<Rightarrow> string option) \<Rightarrow> (s3_params \<Rightarrow> (string, 'w s3_operator) outcome) \<Rightarrow> string \<Rightarrow> string \<Rightarrow> string \<Rightarrow>
     (('c, 'w) vfs_service, unit) tracked" where
  "change_tier fuel env build i p tier =
     and_then (sync_to_tier fuel env build i [p] tier None)
       (\<lambda>rep st. if sy_files_failed rep > 0 then (Err (''Failed to change tier: '' @ concat (sy_errors rep)), st) else (Ok (), st))"

text \<open>What the report counts: every path once, with an operation; and every failure, with its error.\<close>

lemma sync_one_counts:
  fixes change :: "string \<Rightarrow> ('c, 'w, 'b) svc_act"
  assumes "sync_one i dest change p rep st = (Ok rep', st')"
  shows "sy_files_synced rep' + sy_files_failed rep' = Suc (sy_files_synced rep + sy_files_failed rep) \<and>
    length (sy_operation_ids rep') = Suc (length (sy_operation_ids rep)) \<and>
    length (sy_errors rep') + sy_files_failed rep = length (sy_errors rep) + sy_files_failed rep'"
proof -
  have "\<exists>k (r :: (string, 'b) outcome) t. fst (sync_record p rep k r t) = Ok rep'"
    using assms by (auto simp: sync_one_def and_then_Ok_iff Let_def case_prod_beta)
  then obtain k t and r :: "(string, 'b) outcome" where "fst (sync_record p rep k r t) = Ok rep'" by blast
  then show ?thesis by (cases r) (auto simp: sync_record_def)
qed

lemma sync_all_counts:
  "sync_all i dest change ps rep st = (Ok rep', st') \<Longrightarrow>
     sy_files_synced rep' + sy_files_failed rep' = length ps + sy_files_synced rep + sy_files_failed rep \<and>
     length (sy_operation_ids rep') = length ps + length (sy_operation_ids rep) \<and>
     length (sy_errors rep') + sy_files_failed rep = length (sy_errors rep) + sy_files_failed rep'"
proof (induction ps arbitrary: rep st)
  case (Cons p ps)
  then obtain rep1 st1 where one: "sync_one i dest change p rep st = (Ok rep1, st1)"
    "sync_all i dest change ps rep1 st1 = (Ok rep', st')" by (auto simp: and_then_Ok_iff)
  show ?case using sync_one_counts [OF one(1)] Cons.IH [OF one(2)] by simp
qed simp

lemma change_tier_needs_s3:
  assumes "change_tier fuel env build i p tier st = (Ok (), st')"
  shows "\<exists>src. get_source i (fst st) = Some src \<and> ss_type src \<in> {S3, S3Compatible} \<and> parse_tier tier \<noteq> None"
proof -
  obtain rep st1 where "sync_to_tier fuel env build i [p] tier None st = (Ok rep, st1)"
    using assms by (auto simp: change_tier_def and_then_Ok_iff)
  then show ?thesis
    by (cases "get_source i (fst st)")
      (auto simp: sync_to_tier_def Let_def split: option.splits storage_category.splits if_splits outcome.splits)
qed

text \<open>The tiers that are offered for a source.\<close>

record tier_target =
  tg_tier :: string
  tg_tier_name :: string
  tg_target_source_id :: "string option"
  tg_requires_target_source :: bool
  tg_provider_name :: "string option"
  tg_storage_class :: "string option"

definition own_tier :: "string \<Rightarrow> string \<Rightarrow> string \<Rightarrow> string \<Rightarrow> tier_target" where
  "own_tier tier name provider class =
     \<lparr>tg_tier = tier, tg_tier_name = name, tg_target_source_id = None, tg_requires_target_source = False,
      tg_provider_name = Some provider, tg_storage_class = Some class\<rparr>"

definition cloud_tiers :: "storage_source \<Rightarrow> tier_target list" where
  "cloud_tiers src =
     (case ss_type src of
        S3 \<Rightarrow> [own_tier ''nearline'' ''Nearline'' ''AWS S3'' ''STANDARD'', own_tier ''cold'' ''Cold'' ''AWS S3'' ''GLACIER_IR'']
      | S3Compatible \<Rightarrow> [own_tier ''nearline'' ''Nearline'' ''AWS S3'' ''STANDARD'', own_tier ''cold'' ''Cold'' ''AWS S3'' ''GLACIER_IR'']
      | Gcs \<Rightarrow>
          [own_tier ''nearline'' ''Nearline'' ''Google Cloud Storage'' ''STANDARD'',
           own_tier ''cold'' ''Coldline'' ''Google Cloud Storage'' ''COLDLINE'']
      | AzureBlob \<Rightarrow>
          [own_tier ''nearline'' ''Nearline'' ''Azure Blob Storage'' ''Hot'', own_tier ''cold'' ''Cold'' ''Azure Blob Storage'' ''Archive'']
      | _ \<Rightarrow>
          (case sc_endpoint (ss_config src) of
             Some e \<Rightarrow>
               (if str_contains ''oraclecloud.com'' e
                then [own_tier ''nearline'' ''Nearline'' ''Oracle Object Storage'' ''STANDARD'',
                      own_tier ''cold'' ''Cold'' ''Oracle Object Storage'' ''ARCHIVE'']
                else [])
           | None \<Rightarrow> []))"

definition cloud_label :: "storage_source_type \<Rightarrow> string" where
  "cloud_label t =
     (if t = S3 \<or> t = S3Compatible then ''S3'' else if t = Gcs then ''GCS'' else if t = AzureBlob then ''Azure Blob'' else ''Cloud Storage'')"

definition move_target :: "storage_source \<Rightarrow> tier_target" where
  "move_target src =
     \<lparr>tg_tier = ''cold'', tg_tier_name = ''Move to '' @ ss_name src, tg_target_source_id = Some (ss_id src),
      tg_requires_target_source = True, tg_provider_name = Some (cloud_label (ss_type src)), tg_storage_class = None\<rparr>"

definition no_target :: tier_target where
  "no_target =
     \<lparr>tg_tier = ''local'', tg_tier_name = ''Local Storage Only'', tg_target_source_id = None, tg_requires_target_source = False,
      tg_provider_name = None, tg_storage_class = None\<rparr>"

definition get_tier_targets :: "string \<Rightarrow> ('c, 'w) vfs_service \<Rightarrow> (string, tier_target list) outcome" where
  "get_tier_targets i s =
     (case get_source i s of
        None \<Rightarrow> Err (''Storage source not found: '' @ i)
      | Some src \<Rightarrow>
          (case category (ss_type src) of
             CloudCat \<Rightarrow> Ok (cloud_tiers src)
           | LocalCat \<Rightarrow>
               (let ts = map move_target (filter (\<lambda>src. category (ss_type src) = CloudCat) (list_sources s)) in
                Ok (if ts = [] then [no_target] else ts))
           | _ \<Rightarrow> Ok []))"

text \<open>The tiers of Oracle are never offered: its sources have a type that is dealt with before.\<close>

lemma oracle_tiers_unreached:
  assumes "category (ss_type src) = CloudCat" and "tg \<in> set (cloud_tiers src)"
  shows "tg_provider_name tg \<noteq> Some ''Oracle Object Storage''"
  using assms by (cases "ss_type src") (auto simp: cloud_tiers_def own_tier_def)

end
