(* ===== verification/Thumbnail_Queue.thy ===== *)
theory Thumbnail_Queue
  imports Prelude
begin

text \<open>
  The queue of thumbnails of the desktop application
  (\<open>apps/vfs-desktop/src-tauri/src/vfs/adapters/thumbnail_queue.rs\<close>): a cache in memory, a cache on disk, and a semaphore that
  bounds how many thumbnails are made at a time.

  Requests run concurrently: \<open>tq_step\<close> is the step relation of the queue with the requests that were made, one step per section of \<open>get_thumbnail\<close> in which no
  other task takes part. What the adapter makes of a file is any data or a failure. The key under which a thumbnail is stored on disk is a hash of path and size, an
  argument; files have times of modification. Of a thumbnail the timestamp, which is always zero, is left out. A path is its
  components, by which paths are compared and hashed.
\<close>

section \<open>State\<close>

type_synonym path = "string list"

record thumbnail_data =
  td_data :: bytes
  td_width :: u32
  td_height :: u32

record thumbnail_request =
  rq_path :: path
  rq_size :: u32

record thumbnail_result =
  rs_path :: path
  rs_thumbnail :: "thumbnail_data option"
  rs_error :: "string option"

record 'k thumbnail_queue =
  tq_permits :: nat
  tq_cache :: "(path, thumbnail_data) hash_map"
  tq_max_concurrent :: nat
  tq_disk :: "('k, bytes \<times> nat) hash_map"
  tq_modified :: "path \<Rightarrow> nat option"

definition thumbnail_queue_new :: "nat \<Rightarrow> ('k, bytes \<times> nat) hash_map \<Rightarrow> (path \<Rightarrow> nat option) \<Rightarrow> 'k thumbnail_queue" where
  "thumbnail_queue_new max_concurrent disk modified =
     \<lparr>tq_permits = max_concurrent, tq_cache = [], tq_max_concurrent = max_concurrent, tq_disk = disk, tq_modified = modified\<rparr>"

text \<open>A thumbnail on disk counts when it is not older than its file.\<close>

definition check_persistent_cache :: "(path \<Rightarrow> u32 \<Rightarrow> 'k) \<Rightarrow> path \<Rightarrow> u32 \<Rightarrow> 'k thumbnail_queue \<Rightarrow> thumbnail_data option" where
  "check_persistent_cache key path sz q =
     (case hm_get (tq_disk q) (key path sz) of
        None \<Rightarrow> None
      | Some (b, made) \<Rightarrow>
          (case tq_modified q path of
             None \<Rightarrow> None
           | Some changed \<Rightarrow> if changed \<le> made then Some \<lparr>td_data = b, td_width = sz, td_height = sz\<rparr> else None))"

definition save_to_persistent_cache ::
    "(path \<Rightarrow> u32 \<Rightarrow> 'k) \<Rightarrow> nat \<Rightarrow> bool \<Rightarrow> path \<Rightarrow> u32 \<Rightarrow> thumbnail_data \<Rightarrow> 'k thumbnail_queue \<Rightarrow> 'k thumbnail_queue" where
  "save_to_persistent_cache key now writes path sz d q =
     (if writes then q\<lparr>tq_disk := hm_insert (key path sz) (td_data d, now) (tq_disk q)\<rparr> else q)"

definition cache_thumbnail :: "path \<Rightarrow> thumbnail_data \<Rightarrow> 'k thumbnail_queue \<Rightarrow> 'k thumbnail_queue" where
  "cache_thumbnail path d q = q\<lparr>tq_cache := hm_insert path d (tq_cache q)\<rparr>"

definition clear_cache :: "'k thumbnail_queue \<Rightarrow> 'k thumbnail_queue" where
  "clear_cache q = q\<lparr>tq_cache := []\<rparr>"

definition acquire_permit :: "'k thumbnail_queue \<Rightarrow> 'k thumbnail_queue" where
  "acquire_permit q = q\<lparr>tq_permits := tq_permits q - 1\<rparr>"

definition release_permit :: "'k thumbnail_queue \<Rightarrow> 'k thumbnail_queue" where
  "release_permit q = q\<lparr>tq_permits := Suc (tq_permits q)\<rparr>"

section \<open>Requests\<close>

datatype request_phase = Asked | Missed | Waiting | Holding | Generating | Got "thumbnail_data option"

text \<open>The sections of \<open>get_thumbnail\<close>: the look in memory, the look on disk, the second look in memory once a permit is held, and the end of making
  a thumbnail.\<close>

definition look_in_memory :: "thumbnail_request \<Rightarrow> 'k thumbnail_queue \<Rightarrow> request_phase" where
  "look_in_memory r q = (case hm_get (tq_cache q) (rq_path r) of Some d \<Rightarrow> Got (Some d) | None \<Rightarrow> Missed)"

definition look_on_disk :: "(path \<Rightarrow> u32 \<Rightarrow> 'k) \<Rightarrow> thumbnail_request \<Rightarrow> 'k thumbnail_queue \<Rightarrow> request_phase \<times> 'k thumbnail_queue" where
  "look_on_disk key r q =
     (case check_persistent_cache key (rq_path r) (rq_size r) q of
        Some d \<Rightarrow> (Got (Some d), cache_thumbnail (rq_path r) d q)
      | None \<Rightarrow> (Waiting, q))"

definition look_again :: "thumbnail_request \<Rightarrow> 'k thumbnail_queue \<Rightarrow> request_phase \<times> 'k thumbnail_queue" where
  "look_again r q =
     (case hm_get (tq_cache q) (rq_path r) of
        Some d \<Rightarrow> (Got (Some d), release_permit q)
      | None \<Rightarrow> (Generating, q))"

definition finish_generating ::
    "(path \<Rightarrow> u32 \<Rightarrow> 'k) \<Rightarrow> nat \<Rightarrow> bool \<Rightarrow> thumbnail_data option \<Rightarrow> thumbnail_request \<Rightarrow> 'k thumbnail_queue \<Rightarrow>
     request_phase \<times> 'k thumbnail_queue" where
  "finish_generating key now writes made r q =
     (case made of
        Some d \<Rightarrow>
          (Got (Some d),
           release_permit (save_to_persistent_cache key now writes (rq_path r) (rq_size r) d (cache_thumbnail (rq_path r) d q)))
      | None \<Rightarrow> (Got None, release_permit q))"

type_synonym 'k queue_run = "'k thumbnail_queue \<times> (thumbnail_request \<times> request_phase) list"

text \<open>\<open>makes path size d\<close>: the adapter can make \<open>d\<close> of the file.\<close>

inductive tq_step :: "(path \<Rightarrow> u32 \<Rightarrow> 'k) \<Rightarrow> (path \<Rightarrow> u32 \<Rightarrow> thumbnail_data \<Rightarrow> bool) \<Rightarrow> 'k queue_run \<Rightarrow> 'k queue_run \<Rightarrow> bool"
  for key makes where
  asked: "tq_step key makes (q, rs) (q, rs @ [(r, Asked)])"
| memory: "i < length rs \<Longrightarrow> rs ! i = (r, Asked) \<Longrightarrow> tq_step key makes (q, rs) (q, rs[i := (r, look_in_memory r q)])"
| disk: "i < length rs \<Longrightarrow> rs ! i = (r, Missed) \<Longrightarrow> look_on_disk key r q = (ph, q') \<Longrightarrow> tq_step key makes (q, rs) (q', rs[i := (r, ph)])"
| permit: "i < length rs \<Longrightarrow> rs ! i = (r, Waiting) \<Longrightarrow> 0 < tq_permits q \<Longrightarrow>
    tq_step key makes (q, rs) (acquire_permit q, rs[i := (r, Holding)])"
| again: "i < length rs \<Longrightarrow> rs ! i = (r, Holding) \<Longrightarrow> look_again r q = (ph, q') \<Longrightarrow> tq_step key makes (q, rs) (q', rs[i := (r, ph)])"
| generated: "i < length rs \<Longrightarrow> rs ! i = (r, Generating) \<Longrightarrow> (\<And>d. made = Some d \<Longrightarrow> makes (rq_path r) (rq_size r) d) \<Longrightarrow>
    finish_generating key now writes made r q = (ph, q') \<Longrightarrow> tq_step key makes (q, rs) (q', rs[i := (r, ph)])"
| cleared: "tq_step key makes (q, rs) (clear_cache q, rs)"
| touched: "tq_step key makes (q, rs) (q\<lparr>tq_modified := m\<rparr>, rs)"

inductive tq_reach :: "(path \<Rightarrow> u32 \<Rightarrow> 'k) \<Rightarrow> (path \<Rightarrow> u32 \<Rightarrow> thumbnail_data \<Rightarrow> bool) \<Rightarrow> nat \<Rightarrow>
    ('k, bytes \<times> nat) hash_map \<Rightarrow> 'k queue_run \<Rightarrow> bool" for key makes n disk where
  fresh: "tq_reach key makes n disk (thumbnail_queue_new n disk m, [])"
| step: "tq_reach key makes n disk c \<Longrightarrow> tq_step key makes c c' \<Longrightarrow> tq_reach key makes n disk c'"

section \<open>Batches\<close>

text \<open>\<open>chunks\<close> of a slice panics on zero. The answers of a chunk come in the order of its requests.\<close>

function chunks :: "nat \<Rightarrow> 'a list \<Rightarrow> 'a list list" where
  "chunks n xs = (if n = 0 \<or> xs = [] then [] else take n xs # chunks n (drop n xs))"
  by pat_completeness auto

termination by (relation "measure (\<lambda>(n, xs). length xs)") auto

declare chunks.simps [simp del]

definition thumbnail_result_of :: "thumbnail_request \<Rightarrow> (string, thumbnail_data option) outcome \<Rightarrow> thumbnail_result" where
  "thumbnail_result_of r answer =
     (case answer of
        Ok d \<Rightarrow> \<lparr>rs_path = rq_path r, rs_thumbnail = d, rs_error = None\<rparr>
      | Err e \<Rightarrow> \<lparr>rs_path = rq_path r, rs_thumbnail = None, rs_error = Some e\<rparr>
      | Panic \<Rightarrow> \<lparr>rs_path = rq_path r, rs_thumbnail = None, rs_error = None\<rparr>)"

definition get_thumbnails_batch ::
    "(thumbnail_request \<Rightarrow> (string, thumbnail_data option) outcome) \<Rightarrow> nat \<Rightarrow> thumbnail_request list \<Rightarrow>
     (string, thumbnail_result list) outcome" where
  "get_thumbnails_batch answer max_concurrent requests =
     (if max_concurrent = 0 \<or> (\<exists>r\<in>set requests. answer r = Panic) then Panic
      else Ok (concat (map (map (\<lambda>r. thumbnail_result_of r (answer r))) (chunks max_concurrent requests))))"

lemma concat_chunks: "0 < n \<Longrightarrow> concat (chunks n xs) = xs"
proof (induction n xs rule: chunks.induct)
  case (1 n xs)
  then show ?case by (subst chunks.simps) auto
qed

lemma batch_in_order:
  assumes "0 < n" and "\<forall>r\<in>set rs. answer r \<noteq> Panic"
  shows "get_thumbnails_batch answer n rs = Ok (map (\<lambda>r. thumbnail_result_of r (answer r)) rs)"
  using assms concat_chunks [OF assms(1), of rs] by (auto simp: get_thumbnails_batch_def simp flip: map_concat)

section \<open>How many thumbnails are made at a time, and of what\<close>

definition holds_permit :: "thumbnail_request \<times> request_phase \<Rightarrow> bool" where
  "holds_permit x \<longleftrightarrow> snd x = Holding \<or> snd x = Generating"

abbreviation permits_held :: "(thumbnail_request \<times> request_phase) list \<Rightarrow> nat" where
  "permits_held rs \<equiv> length (filter holds_permit rs)"

lemma permits_held_update:
  assumes "i < length rs"
  shows "permits_held (rs[i := x]) + (if holds_permit (rs ! i) then 1 else 0) = permits_held rs + (if holds_permit x then 1 else 0)"
  using assms
proof (induction rs arbitrary: i)
  case (Cons y rs)
  then show ?case by (cases i) fastforce+
qed simp

text \<open>\<open>good path\<close> holds of the bytes of thumbnails of the file.\<close>

definition tq_inv :: "(path \<Rightarrow> u32 \<Rightarrow> 'k) \<Rightarrow> (path \<Rightarrow> bytes \<Rightarrow> bool) \<Rightarrow> nat \<Rightarrow> 'k queue_run \<Rightarrow> bool" where
  "tq_inv key good n c \<longleftrightarrow>
     (let (q, rs) = c in
      tq_permits q + permits_held rs = n \<and>
      (\<forall>p d. hm_get (tq_cache q) p = Some d \<longrightarrow> good p (td_data d)) \<and>
      (\<forall>p sz b made. hm_get (tq_disk q) (key p sz) = Some (b, made) \<longrightarrow> good p b) \<and>
      (\<forall>r d. (r, Got (Some d)) \<in> set rs \<longrightarrow> good (rq_path r) (td_data d)))"

lemma set_update_Got:
  "(r, Got (Some d)) \<in> set (rs[i := (r', ph)]) \<Longrightarrow> (r, Got (Some d)) \<in> set rs \<or> r = r' \<and> ph = Got (Some d)"
  using set_update_subset_insert [of rs i "(r', ph)"] by blast

lemma tq_step_inv:
  assumes "tq_step key makes c c'" and "tq_inv key good n c"
    and "\<And>p sz d. makes p sz d \<Longrightarrow> good p (td_data d)" and "\<And>p sz p' sz'. key p sz = key p' sz' \<Longrightarrow> p = p'"
  shows "tq_inv key good n c'"
  using assms(1,2)
proof (induction rule: tq_step.induct)
  case (memory i rs r q)
  then show ?case using permits_held_update [of i rs "(r, look_in_memory r q)"]
    by (auto simp: tq_inv_def look_in_memory_def holds_permit_def dest!: set_update_Got split: option.splits)
next
  case (disk i rs r q ph q')
  then show ?case using permits_held_update [of i rs "(r, ph)"]
    by (auto simp: tq_inv_def look_on_disk_def check_persistent_cache_def cache_thumbnail_def holds_permit_def
        dest!: set_update_Got split: option.splits if_splits; blast)
next
  case (permit i rs r q)
  then show ?case using permits_held_update [of i rs "(r, Holding)"]
    by (auto simp: tq_inv_def acquire_permit_def holds_permit_def dest!: set_update_Got)
next
  case (again i rs r q ph q')
  then show ?case using permits_held_update [of i rs "(r, ph)"]
    by (auto simp: tq_inv_def look_again_def release_permit_def holds_permit_def dest!: set_update_Got split: option.splits; blast)
next
  case (generated i rs r made now writes q ph q')
  then show ?case using permits_held_update [of i rs "(r, ph)"] assms(3,4)
    by (auto simp: tq_inv_def finish_generating_def cache_thumbnail_def save_to_persistent_cache_def release_permit_def holds_permit_def
        dest!: set_update_Got split: option.splits if_splits; (blast | metis))
qed (auto simp: tq_inv_def clear_cache_def holds_permit_def)


text \<open>A thumbnail that was made for one size answers a request for another.\<close>

definition small :: thumbnail_data where
  "small = \<lparr>td_data = [1], td_width = 16, td_height = 16\<rparr>"

definition demo_key :: "path \<Rightarrow> u32 \<Rightarrow> path \<times> u32" where
  "demo_key p sz = (p, sz)"

definition demo_makes :: "path \<Rightarrow> u32 \<Rightarrow> thumbnail_data \<Rightarrow> bool" where
  "demo_makes p sz d \<longleftrightarrow> p = [''a''] \<and> sz = 16 \<and> d = small"

lemma wrong_size_reach:
  "\<exists>q. tq_reach demo_key demo_makes 1 [] (q, [(\<lparr>rq_path = [''a''], rq_size = 16\<rparr>, Got (Some small)), (\<lparr>rq_path = [''a''], rq_size = 512\<rparr>, Got (Some small))])"
proof -
  let ?r = "\<lparr>rq_path = [''a''], rq_size = 16\<rparr>" and ?r2 = "\<lparr>rq_path = [''a''], rq_size = 512\<rparr>"
  let ?q = "thumbnail_queue_new 1 [] (\<lambda>_. Some 0)"
  let ?reach = "tq_reach demo_key demo_makes 1 []"
  let ?q2 = "acquire_permit ?q"
  let ?q3 = "snd (finish_generating demo_key 1 True (Some small) ?r ?q2)"
  have "?reach (?q, [])" by (rule fresh)
  then have "?reach (?q, [(?r, Asked)])" using step [OF _ asked [of demo_key demo_makes ?q "[]" ?r]] by simp
  moreover have "tq_step demo_key demo_makes (?q, [(?r, Asked)]) (?q, [(?r, Missed)])"
    using memory [of 0 "[(?r, Asked)]" ?r demo_key demo_makes ?q] by (simp add: look_in_memory_def thumbnail_queue_new_def)
  moreover have "tq_step demo_key demo_makes (?q, [(?r, Missed)]) (?q, [(?r, Waiting)])"
    using disk [of 0 "[(?r, Missed)]" ?r demo_key ?q Waiting ?q]
    by (simp add: look_on_disk_def check_persistent_cache_def thumbnail_queue_new_def)
  moreover have "tq_step demo_key demo_makes (?q, [(?r, Waiting)]) (?q2, [(?r, Holding)])"
    using permit [of 0 "[(?r, Waiting)]" ?r ?q] by (simp add: thumbnail_queue_new_def)
  moreover have "tq_step demo_key demo_makes (?q2, [(?r, Holding)]) (?q2, [(?r, Generating)])"
    using again [of 0 "[(?r, Holding)]" ?r ?q2 Generating ?q2]
    by (simp add: look_again_def acquire_permit_def thumbnail_queue_new_def)
  moreover have "tq_step demo_key demo_makes (?q2, [(?r, Generating)]) (?q3, [(?r, Got (Some small))])"
    using generated [of 0 "[(?r, Generating)]" ?r "Some small" demo_makes demo_key 1 True ?q2 "Got (Some small)" ?q3]
    by (simp add: demo_makes_def finish_generating_def)
  moreover have "tq_step demo_key demo_makes (?q3, [(?r, Got (Some small))]) (?q3, [(?r, Got (Some small)), (?r2, Asked)])"
    using asked [of demo_key demo_makes ?q3 "[(?r, Got (Some small))]" ?r2] by simp
  moreover have "tq_step demo_key demo_makes (?q3, [(?r, Got (Some small)), (?r2, Asked)]) (?q3, [(?r, Got (Some small)), (?r2, Got (Some small))])"
    using memory [of 1 "[(?r, Got (Some small)), (?r2, Asked)]" ?r2 demo_key demo_makes ?q3]
    by (simp add: look_in_memory_def finish_generating_def release_permit_def save_to_persistent_cache_def cache_thumbnail_def)
  ultimately show ?thesis by (meson step)
qed


end
