(* ===== verification/Network_Monitor.thy ===== *)
theory Network_Monitor
  imports Prelude
begin

text \<open>
  Time limits, retries and the connection monitor of network storage
  (\<open>apps/vfs-desktop/src-tauri/src/vfs/platform/network.rs\<close>; the commands that mount shares on Windows are left out).

  Durations are nanoseconds. What an operation does within a limit of time is an argument: its result and the time it took, or nothing.
  Checks of one monitor run concurrently: \<open>cm_step\<close> is the step relation of a monitor and the checks that were called, one step per section of
  \<open>check_path_connection\<close> that no other task can interrupt. Sleeping between attempts is recorded as the list of delays.
\<close>

section \<open>Time limits\<close>

abbreviation seconds :: "nat \<Rightarrow> nat" where
  "seconds n \<equiv> n * 10 ^ 9"

definition DEFAULT_TIMEOUT :: nat where
  "DEFAULT_TIMEOUT = seconds 30"

definition MAX_RECONNECT_ATTEMPTS :: u32 where
  "MAX_RECONNECT_ATTEMPTS = 3"

definition RECONNECT_DELAY_BASE :: nat where
  "RECONNECT_DELAY_BASE = seconds 1"

type_synonym ('s, 'a) timed = "nat \<Rightarrow> 's \<Rightarrow> ((string, 'a) outcome \<times> nat) option \<times> 's"

record 'a timed_result =
  tr_result :: 'a
  tr_duration :: nat

definition with_timeout :: "(nat \<Rightarrow> string) \<Rightarrow> nat \<Rightarrow> ('s, 'a) timed \<Rightarrow> ('s, string, 'a timed_result) act" where
  "with_timeout show_t limit operation s =
     (case operation limit s of
        (Some (Ok a, d), s) \<Rightarrow> (Ok \<lparr>tr_result = a, tr_duration = d\<rparr>, s)
      | (Some (Err e, d), s) \<Rightarrow> (Err e, s)
      | (Some (Panic, d), s) \<Rightarrow> (Panic, s)
      | (None, s) \<Rightarrow> (Err (''Operation timed out after '' @ show_t limit), s))"

definition with_default_timeout :: "(nat \<Rightarrow> string) \<Rightarrow> ('s, 'a) timed \<Rightarrow> ('s, string, 'a timed_result) act" where
  "with_default_timeout show_t operation = with_timeout show_t DEFAULT_TIMEOUT operation"

text \<open>Whether a directory can be listed: a failed listing is an answer.\<close>

definition check_smb_share :: "(nat \<Rightarrow> string) \<Rightarrow> ('s, unit) timed \<Rightarrow> ('s, string, bool) act" where
  "check_smb_share show_t list_dir s =
     (case with_timeout show_t (seconds 10)
         (\<lambda>limit s. case list_dir limit s of
            (Some (Ok u, d), s) \<Rightarrow> (Some (Ok True, d), s)
          | (Some (Err e, d), s) \<Rightarrow> (Some (Ok False, d), s)
          | (Some (Panic, d), s) \<Rightarrow> (Some (Panic, d), s)
          | (None, s) \<Rightarrow> (None, s)) s of
        (Ok r, s) \<Rightarrow> (Ok (tr_result r), s)
      | (Err e, s) \<Rightarrow> (Ok False, s)
      | (Panic, s) \<Rightarrow> (Panic, s))"

section \<open>Retries\<close>

text \<open>The factor is a power in 32 bits, which wraps; multiplying a duration panics beyond \<open>2 ^ 64\<close> seconds.\<close>

definition backoff_factor :: "nat \<Rightarrow> nat" where
  "backoff_factor k = unat (2 ^ k :: u32)"

definition DURATION_LIMIT :: nat where
  "DURATION_LIMIT = seconds (2 ^ 64)"

function retry_loop ::
    "nat \<Rightarrow> nat \<Rightarrow> ('s, string, 'a) act \<Rightarrow> nat \<Rightarrow> string option \<Rightarrow> 's \<Rightarrow> ((string, 'a) outcome \<times> 's) \<times> nat list" where
  "retry_loop max_attempts base operation attempt lerr s =
     (if attempt < max_attempts then
        (case operation s of
           (Ok a, s) \<Rightarrow> ((Ok a, s), [])
         | (Panic, s) \<Rightarrow> ((Panic, s), [])
         | (Err e, s) \<Rightarrow>
             if Suc attempt < max_attempts then
               (let delay = base * backoff_factor attempt in
                if DURATION_LIMIT \<le> delay then ((Panic, s), [])
                else apsnd (Cons delay) (retry_loop max_attempts base operation (Suc attempt) (Some e) s))
             else retry_loop max_attempts base operation (Suc attempt) (Some e) s)
      else
        ((Err (case lerr of Some e \<Rightarrow> e | None \<Rightarrow> ''Operation failed after '' @ dec max_attempts @ '' attempts''), s), []))"
  by pat_completeness auto

termination
  by (relation "measure (\<lambda>(max_attempts, base, operation, attempt, lerr, s). max_attempts - attempt)") auto

declare retry_loop.simps [simp del]

definition retry_with_backoff ::
    "u32 \<Rightarrow> nat \<Rightarrow> ('s, string, 'a) act \<Rightarrow> 's \<Rightarrow> ((string, 'a) outcome \<times> 's) \<times> nat list" where
  "retry_with_backoff max_attempts base operation s = retry_loop (unat max_attempts) base operation 0 None s"

definition network_operation ::
    "(nat \<Rightarrow> string) \<Rightarrow> ('s, 'a) timed \<Rightarrow> nat \<Rightarrow> u32 \<Rightarrow> 's \<Rightarrow> ((string, 'a) outcome \<times> 's) \<times> nat list" where
  "network_operation show_t operation limit max_retries =
     retry_with_backoff max_retries RECONNECT_DELAY_BASE
       (and_then (with_timeout show_t limit operation) (\<lambda>r s. (Ok (tr_result r), s)))"

section \<open>The monitor\<close>

datatype connection_state = Connected | Disconnected | Connecting | ConnectionError

record connection_monitor =
  cm_state :: connection_state
  cm_checking :: bool
  cm_last_connected :: u64
  cm_failure_count :: u64
  cm_endpoint :: string

definition connection_monitor_new :: "string \<Rightarrow> connection_monitor" where
  "connection_monitor_new endpoint =
     \<lparr>cm_state = Disconnected, cm_checking = False, cm_last_connected = 0, cm_failure_count = 0, cm_endpoint = endpoint\<rparr>"

definition is_connected :: "connection_monitor \<Rightarrow> bool" where
  "is_connected m \<longleftrightarrow> cm_state m = Connected"

definition mark_connected :: "u64 \<Rightarrow> connection_monitor \<Rightarrow> connection_monitor" where
  "mark_connected now m = m\<lparr>cm_state := Connected, cm_failure_count := 0, cm_last_connected := now\<rparr>"

text \<open>Both additions wrap.\<close>

definition mark_connection_failed :: "connection_monitor \<Rightarrow> connection_monitor" where
  "mark_connection_failed m =
     (let failures = cm_failure_count m + 1 in
      m\<lparr>cm_failure_count := failures, cm_state := (if failures \<ge> ucast MAX_RECONNECT_ATTEMPTS then ConnectionError else Disconnected)\<rparr>)"

text \<open>The sections of \<open>check_path_connection\<close>, and where a call of it stands. \<open>Listed ok\<close> has the result of listing the directory.\<close>

datatype check_phase = Entered | Busy | Listing | Listed bool | Answered bool

definition check_enter :: "connection_monitor \<Rightarrow> check_phase \<times> connection_monitor" where
  "check_enter m = (if cm_checking m then Busy else Entered, m\<lparr>cm_checking := True\<rparr>)"

definition check_connecting :: "connection_monitor \<Rightarrow> connection_monitor" where
  "check_connecting m = m\<lparr>cm_state := Connecting\<rparr>"

definition check_release :: "connection_monitor \<Rightarrow> connection_monitor" where
  "check_release m = m\<lparr>cm_checking := False\<rparr>"

definition check_mark :: "bool \<Rightarrow> u64 \<Rightarrow> connection_monitor \<Rightarrow> connection_monitor" where
  "check_mark ok now m = (if ok then mark_connected now m else mark_connection_failed m)"

text \<open>A call that nothing interrupts.\<close>

definition check_path_connection :: "bool \<Rightarrow> u64 \<Rightarrow> connection_monitor \<Rightarrow> bool \<times> connection_monitor" where
  "check_path_connection ok now m =
     (case check_enter m of
        (Busy, m) \<Rightarrow> (is_connected m, m)
      | (_, m) \<Rightarrow> (ok, check_mark ok now (check_release (check_connecting m))))"

inductive cm_step :: "connection_monitor \<times> check_phase list \<Rightarrow> connection_monitor \<times> check_phase list \<Rightarrow> bool" where
  called: "check_enter m = (c, m') \<Longrightarrow> cm_step (m, cs) (m', cs @ [c])"
| busy: "i < length cs \<Longrightarrow> cs ! i = Busy \<Longrightarrow> cm_step (m, cs) (m, cs[i := Answered (is_connected m)])"
| connecting: "i < length cs \<Longrightarrow> cs ! i = Entered \<Longrightarrow> cm_step (m, cs) (check_connecting m, cs[i := Listing])"
| released: "i < length cs \<Longrightarrow> cs ! i = Listing \<Longrightarrow> cm_step (m, cs) (check_release m, cs[i := Listed ok])"
| marked: "i < length cs \<Longrightarrow> cs ! i = Listed ok \<Longrightarrow> cm_step (m, cs) (check_mark ok now m, cs[i := Answered ok])"

inductive cm_reach :: "connection_monitor \<times> check_phase list \<Rightarrow> bool" where
  fresh: "cm_reach (connection_monitor_new endpoint, [])"
| step: "cm_reach c \<Longrightarrow> cm_step c c' \<Longrightarrow> cm_reach c'"

section \<open>Checks exclude each other\<close>

definition holds :: "check_phase \<Rightarrow> bool" where
  "holds c \<longleftrightarrow> c = Entered \<or> c = Listing"

abbreviation holders :: "check_phase list \<Rightarrow> nat" where
  "holders cs \<equiv> length (filter holds cs)"

definition cm_inv :: "connection_monitor \<times> check_phase list \<Rightarrow> bool" where
  "cm_inv c \<longleftrightarrow>
     (let (m, cs) = c in
      holders cs = (if cm_checking m then 1 else 0) \<and>
      (cm_state m = Connected \<longrightarrow> cm_failure_count m = 0) \<and>
      (cm_state m = ConnectionError \<longrightarrow> 3 \<le> cm_failure_count m) \<and>
      (cm_state m = Disconnected \<longrightarrow> cm_failure_count m < 3))"

lemma holders_update:
  assumes "i < length cs"
  shows "holders (cs[i := c]) + (if holds (cs ! i) then 1 else 0) = holders cs + (if holds c then 1 else 0)"
  using assms
proof (induction cs arbitrary: i)
  case (Cons d cs)
  then show ?case by (cases i) fastforce+
qed simp

lemma mark_connection_failed_state:
  "cm_state (mark_connection_failed m) = ConnectionError \<longleftrightarrow> 3 \<le> cm_failure_count (mark_connection_failed m)"
  "cm_state (mark_connection_failed m) = Disconnected \<longleftrightarrow> cm_failure_count (mark_connection_failed m) < 3"
  "cm_state (mark_connection_failed m) \<noteq> Connected" "cm_checking (mark_connection_failed m) = cm_checking m"
  by (auto simp: mark_connection_failed_def MAX_RECONNECT_ATTEMPTS_def Let_def)

lemma cm_step_inv: "cm_step c c' \<Longrightarrow> cm_inv c \<Longrightarrow> cm_inv c'"
proof (induction rule: cm_step.induct)
  case (called m c m' cs)
  then show ?case by (auto simp: cm_inv_def check_enter_def holds_def)
next
  case (busy i cs m)
  then show ?case using holders_update [of i cs "Answered (is_connected m)"] by (simp add: cm_inv_def holds_def)
next
  case (connecting i cs m)
  then show ?case using holders_update [of i cs Listing] by (simp add: cm_inv_def holds_def check_connecting_def)
next
  case (released i cs m ok)
  then show ?case using holders_update [of i cs "Listed ok"]
    by (auto simp: cm_inv_def holds_def check_release_def split: if_splits)
next
  case (marked i cs ok m now)
  then show ?case using holders_update [of i cs "Answered ok"] mark_connection_failed_state [of m]
    by (simp add: cm_inv_def holds_def check_mark_def mark_connected_def)
qed

lemma cm_reach_inv: "cm_reach c \<Longrightarrow> cm_inv c"
proof (induction rule: cm_reach.induct)
  case (fresh endpoint)
  show ?case by (simp add: cm_inv_def connection_monitor_new_def)
qed (rule cm_step_inv)

text \<open>
  (C24) However checks of a monitor interleave, at most one of them lists the directory at a time, and the state agrees with the failures counted:
  none when connected, three or more in the error state, fewer than three when disconnected.
\<close>

theorem monitor_consistent:
  assumes "cm_reach (m, cs)"
  shows "holders cs \<le> 1 \<and> (cm_state m = Connected \<longrightarrow> cm_failure_count m = 0) \<and>
    (cm_state m = ConnectionError \<longrightarrow> 3 \<le> cm_failure_count m) \<and> (cm_state m = Disconnected \<longrightarrow> cm_failure_count m < 3)"
  using cm_reach_inv [OF assms] by (simp add: cm_inv_def)

text \<open>A check that is called while another lists the directory answers that the mount is not connected, whatever the other finds: the other
  has set the state to connecting.\<close>

lemma busy_reach:
  "\<exists>m. cm_reach (m, [Answered True, Answered False]) \<and> is_connected m"
proof -
  let ?m = "connection_monitor_new []"
  let ?m1 = "check_connecting (snd (check_enter ?m))"
  have "cm_step (?m, []) (snd (check_enter ?m), [Entered])"
    using called [of ?m Entered "snd (check_enter ?m)" "[]"] by (simp add: check_enter_def connection_monitor_new_def)
  moreover have "cm_step (snd (check_enter ?m), [Entered]) (?m1, [Listing])"
    using connecting [of 0 "[Entered]" "snd (check_enter ?m)"] by simp
  moreover have "cm_step (?m1, [Listing]) (?m1, [Listing, Busy])"
    using called [of ?m1 Busy ?m1 "[Listing]"] by (simp add: check_enter_def check_connecting_def)
  moreover have "cm_step (?m1, [Listing, Busy]) (?m1, [Listing, Answered False])"
    using busy [of 1 "[Listing, Busy]" ?m1] by (simp add: is_connected_def check_connecting_def)
  moreover have "cm_step (?m1, [Listing, Answered False]) (check_release ?m1, [Listed True, Answered False])"
    using released [of 0 "[Listing, Answered False]" ?m1 True] by simp
  moreover have "cm_step (check_release ?m1, [Listed True, Answered False]) (check_mark True 1 (check_release ?m1), [Answered True, Answered False])"
    using marked [of 0 "[Listed True, Answered False]" True "check_release ?m1" 1] by simp
  ultimately have "cm_reach (check_mark True 1 (check_release ?m1), [Answered True, Answered False])"
    using fresh [of "[]"] by (meson step)
  then show ?thesis by (intro exI) (auto simp: is_connected_def check_mark_def mark_connected_def)
qed

theorem monitor_consistent_witness:
  "\<exists>m. cm_reach (m, [Answered True, Answered False]) \<and> cm_state m = Connected \<and> cm_failure_count m = 0"
  using busy_reach monitor_consistent unfolding is_connected_def by blast

text \<open>Alone, a check answers what listing gives, and says so in the state.\<close>

lemma check_alone:
  assumes "\<not> cm_checking m"
  shows "fst (check_path_connection ok now m) = ok" "is_connected (snd (check_path_connection ok now m)) = ok"
    "\<not> cm_checking (snd (check_path_connection ok now m))"
  using assms mark_connection_failed_state [of "check_release (check_connecting (snd (check_enter m)))"]
  by (auto simp: check_path_connection_def check_enter_def check_mark_def mark_connected_def is_connected_def check_release_def
      check_connecting_def)

section \<open>How often an operation is tried\<close>

text \<open>The state after \<open>k\<close> calls that all fail, and the last error.\<close>

fun failures :: "('s, string, 'a) act \<Rightarrow> nat \<Rightarrow> string option \<Rightarrow> 's \<Rightarrow> (string option \<times> 's) option" where
  "failures operation 0 lerr s = Some (lerr, s)"
| "failures operation (Suc k) lerr s =
     (case operation s of (Err e, s) \<Rightarrow> failures operation k (Some e) s | _ \<Rightarrow> None)"

lemma retry_failures:
  assumes "failures operation k lerr s = Some (lerr', s')" and "attempt + k \<le> n" and "\<forall>j<n. base * backoff_factor j < DURATION_LIMIT"
  shows "retry_loop n base operation attempt lerr s =
    apsnd ((@) (map (\<lambda>j. base * backoff_factor j) [attempt..<min (attempt + k) (n - 1)]))
      (retry_loop n base operation (attempt + k) lerr' s')"
  using assms
proof (induction k arbitrary: attempt lerr s)
  case (Suc k)
  then obtain e s1 where op: "operation s = (Err e, s1)" "failures operation k (Some e) s1 = Some (lerr', s')"
    by (auto split: prod.splits outcome.splits)
  have lt: "attempt < n" using Suc.prems(2) by simp
  then have ok: "\<not> DURATION_LIMIT \<le> base * backoff_factor attempt" using Suc.prems(3) by (simp add: not_le)
  note IH = Suc.IH [OF op(2), of "Suc attempt"]
  show ?case
  proof (cases "Suc attempt < n")
    case True
    then have "[attempt..<min (attempt + Suc k) (n - 1)] = attempt # [Suc attempt..<min (attempt + Suc k) (n - 1)]"
      by (intro upt_conv_Cons) simp
    then show ?thesis using IH Suc.prems lt ok op(1) True
      by (subst retry_loop.simps) (simp add: Let_def apsnd_compose comp_def)
  next
    case False
    then have "k = 0" "n = Suc attempt" using Suc.prems(2) lt by simp_all
    then show ?thesis using op lt by (subst retry_loop.simps) (simp add: apsnd_def map_prod_def split: prod.split)
  qed
qed (simp add: apsnd_def map_prod_def split: prod.split)

lemma backoff_factor_power: "j < 32 \<Longrightarrow> backoff_factor j = 2 ^ j"
proof -
  assume "j < 32"
  then have "(2::nat) ^ j < 2 ^ 32" by (intro power_strict_increasing) simp_all
  then show ?thesis using unat_of_nat_le [of "2 ^ j", where 'a = 32] by (simp add: backoff_factor_def)
qed

text \<open>
  Retrying, with at most 32 attempts and a base delay below \<open>2 ^ 32\<close> seconds: an operation that fails \<open>k\<close> times and then succeeds, within the
  attempts, gives its value after delays that double from the base; one that fails in every attempt gives its last error, and the last attempt is
  not followed by a delay. It is never called again after a success or after the last attempt.
\<close>

theorem retry_doubles_delay:
  assumes "unat n \<le> 32" and "base < seconds (2 ^ 32)" and "failures operation k None s = Some (lerr, s')" and "k \<le> unat n"
  shows "(k < unat n \<and> operation s' = (Ok a, t) \<longrightarrow>
      retry_with_backoff n base operation s = ((Ok a, t), map (\<lambda>j. base * 2 ^ j) [0..<k])) \<and>
    (k = unat n \<and> lerr = Some e \<longrightarrow>
      retry_with_backoff n base operation s = ((Err e, s'), map (\<lambda>j. base * 2 ^ j) [0..<k - 1]))"
proof -
  have limit: "\<forall>j<unat n. base * backoff_factor j < DURATION_LIMIT"
  proof (intro allI impI)
    fix j assume "j < unat n"
    then have j: "j < 32" using assms(1) by simp
    then have "(2::nat) ^ j < 2 ^ 32" by (intro power_strict_increasing) simp_all
    then have "base * 2 ^ j < seconds (2 ^ 32) * 2 ^ 32" by (intro mult_strict_mono) (use assms(2) in simp_all)
    then show "base * backoff_factor j < DURATION_LIMIT" using j by (simp add: DURATION_LIMIT_def backoff_factor_power)
  qed
  have delays: "map (\<lambda>j. base * backoff_factor j) [0..<i] = map (\<lambda>j. base * 2 ^ j) [0..<i]" if "i \<le> 32" for i
    using that by (simp add: backoff_factor_power)
  have run: "retry_with_backoff n base operation s =
      apsnd ((@) (map (\<lambda>j. base * backoff_factor j) [0..<min k (unat n - 1)])) (retry_loop (unat n) base operation k lerr s')"
    using retry_failures [OF assms(3), of 0 "unat n" base] assms(4) limit by (simp add: retry_with_backoff_def)
  have "retry_with_backoff n base operation s = ((Ok a, t), map (\<lambda>j. base * 2 ^ j) [0..<k])"
    if "k < unat n" "operation s' = (Ok a, t)"
  proof -
    have "min k (unat n - 1) = k" "k \<le> 32" using that(1) assms(1) by simp_all
    moreover have "retry_loop (unat n) base operation k lerr s' = ((Ok a, t), [])" using that by (subst retry_loop.simps) simp
    ultimately show ?thesis using run delays [of k] by simp
  qed
  moreover have "retry_with_backoff n base operation s = ((Err e, s'), map (\<lambda>j. base * 2 ^ j) [0..<k - 1])"
    if "k = unat n" "lerr = Some e"
  proof -
    have "min k (unat n - 1) = k - 1" "k - 1 \<le> 32" using that(1) assms(1) by simp_all
    moreover have "retry_loop (unat n) base operation k lerr s' = ((Err e, s'), [])" using that by (subst retry_loop.simps) simp
    ultimately show ?thesis using run delays [of "k - 1"] by simp
  qed
  ultimately show ?thesis by blast
qed

definition flaky :: "(nat, string, nat) act" where
  "flaky n = (if n = 0 then Ok 7 else Err ''down'', n - 1)"

theorem retry_doubles_delay_witness:
  "retry_with_backoff 3 10 flaky 2 = ((Ok 7, 0), [10, 20]) \<and> retry_with_backoff 3 10 flaky 5 = ((Err ''down'', 2), [10, 20])"
proof -
  have f: "failures flaky 2 None 2 = Some (Some ''down'', 0)" "failures flaky 3 None 5 = Some (Some ''down'', 2)"
    "flaky 0 = (Ok 7, 0)" by code_simp+
  have d: "map (\<lambda>j. 10 * 2 ^ j) [0..<2] = [10, 20 :: nat]" by (simp add: upt_rec)
  show ?thesis
    using retry_doubles_delay [of 3 10 flaky 2 2 "Some ''down''" 0 7 0 "''down''"] retry_doubles_delay [of 3 10 flaky 3 5 "Some ''down''" 2 0 0 "''down''"]
      f d by simp
qed

end
