(* ===== verification/Stream_Ingest.thy ===== *)
theory Stream_Ingest
  imports Vfs_Types
begin

text \<open>
  The adapters that turn a media source into a stream of events (\<open>crates/diaspor-stream-ingest/src\<close>): the events and errors of
  \<open>lib.rs\<close>, the replay of a file (\<open>file.rs\<close>), and the adapters for HLS, WHIP and meeting bots, which report that they are not implemented.

  A stream built with \<open>unfold\<close> is the function that makes the next item from the state of the driver; \<open>stream_events\<close> takes items
  until there is none. A file in memory is shorter than half of the address space, so an offset is a natural number. What reading the file gives and the clock at its end are
  arguments.
\<close>

section \<open>Sessions, events and errors\<close>

datatype stream_session_id = SessionId (session_str: string)

datatype session_end_reason = Completed | ClientDisconnected | Failed string | BotEjected | BotConsentDeclined

datatype ingest_event =
    SessionStarted (ev_session: stream_session_id) (started_at: int)
  | FramesArrived (ev_session: stream_session_id) (batch_bytes: bytes) (timestamp_us: u64)
  | SessionEnded (ev_session: stream_session_id) (end_reason: session_end_reason) (ended_at: int)

datatype stream_ingest_error =
    NotImplemented string
  | InvalidConfig string
  | Transport string
  | ConsentViolation string

fun ingest_error_text :: "stream_ingest_error \<Rightarrow> string" where
  "ingest_error_text (NotImplemented transport) =
     ''stream-ingest transport `'' @ transport @ ''` is not implemented yet''"
| "ingest_error_text (InvalidConfig e) = ''invalid stream-ingest config: '' @ e"
| "ingest_error_text (Transport e) = ''transport failure: '' @ e"
| "ingest_error_text (ConsentViolation e) = ''consent violation: '' @ e"

definition vfs_error_of_ingest :: "stream_ingest_error \<Rightarrow> vfs_error" where
  "vfs_error_of_ingest e = Backend (ingest_error_text e)"

section \<open>A file as a stream\<close>

definition FILE_BATCH_BYTES :: nat where
  "FILE_BATCH_BYTES = 65536"

record file_ingest =
  fi_path :: string
  fi_session_id :: "stream_session_id option"

definition file_ingest_new :: "string \<Rightarrow> file_ingest" where
  "file_ingest_new p = \<lparr>fi_path = p, fi_session_id = None\<rparr>"

definition with_session_id :: "stream_session_id \<Rightarrow> file_ingest \<Rightarrow> file_ingest" where
  "with_session_id i f = f\<lparr>fi_session_id := Some i\<rparr>"

definition derive_session_id :: "file_ingest \<Rightarrow> stream_session_id" where
  "derive_session_id f = (case fi_session_id f of Some i \<Rightarrow> i | None \<Rightarrow> SessionId (''file::'' @ fi_path f))"

record file_stream_state =
  st_session_id :: stream_session_id
  st_bytes :: bytes
  st_offset :: nat
  st_started_at :: int
  st_emitted_start :: bool
  st_emitted_end :: bool

definition file_stream_start :: "stream_session_id \<Rightarrow> bytes \<Rightarrow> int \<Rightarrow> file_stream_state" where
  "file_stream_start i b started =
     \<lparr>st_session_id = i, st_bytes = b, st_offset = 0, st_started_at = started, st_emitted_start = False, st_emitted_end = False\<rparr>"

definition file_stream_next :: "int \<Rightarrow> file_stream_state \<Rightarrow> (ingest_event \<times> file_stream_state) option" where
  "file_stream_next now s =
     (if \<not> st_emitted_start s then
        Some (SessionStarted (st_session_id s) (st_started_at s), s\<lparr>st_emitted_start := True\<rparr>)
      else if st_offset s < length (st_bytes s) then
        (let stop = min (st_offset s + FILE_BATCH_BYTES) (length (st_bytes s)) in
         Some (FramesArrived (st_session_id s) (take (stop - st_offset s) (drop (st_offset s) (st_bytes s))) (of_nat (st_offset s)),
               s\<lparr>st_offset := stop\<rparr>))
      else if \<not> st_emitted_end s then
        Some (SessionEnded (st_session_id s) Completed now, s\<lparr>st_emitted_end := True\<rparr>)
      else None)"

function stream_events :: "int \<Rightarrow> file_stream_state \<Rightarrow> ingest_event list" where
  "stream_events now s = (case file_stream_next now s of None \<Rightarrow> [] | Some (e, s') \<Rightarrow> e # stream_events now s')"
  by pat_completeness auto

termination
  by (relation "measure (\<lambda>(now, s). (if st_emitted_start s then 0 else 1) + (if st_emitted_end s then 0 else 1) +
        (length (st_bytes s) - st_offset s))")
    (auto simp: file_stream_next_def FILE_BATCH_BYTES_def Let_def split: if_splits)

declare stream_events.simps [simp del]

definition file_ingest_start ::
    "(string, bytes) outcome \<Rightarrow> int \<Rightarrow> int \<Rightarrow> file_ingest \<Rightarrow> (vfs_error, ingest_event list) outcome" where
  "file_ingest_start got started ended f =
     (case got of
        Ok b \<Rightarrow> Ok (stream_events ended (file_stream_start (derive_session_id f) b started))
      | Err e \<Rightarrow> Err (vfs_error_of_ingest (Transport (''failed to read '' @ fi_path f @ '': '' @ e)))
      | Panic \<Rightarrow> Panic)"

section \<open>The adapters to come\<close>

record hls_config =
  hls_manifest_url :: string
  hls_max_lag_seconds :: u32

record whip_config =
  whip_sfu_endpoint :: string
  whip_auth_token :: string

datatype bot_provider = RecallAi | ZoomSdk | GoogleMeetMediaApi | TeamsBotFramework

fun bot_provider_str :: "bot_provider \<Rightarrow> string" where
  "bot_provider_str RecallAi = ''recall-ai''"
| "bot_provider_str ZoomSdk = ''zoom-sdk''"
| "bot_provider_str GoogleMeetMediaApi = ''google-meet-media-api''"
| "bot_provider_str TeamsBotFramework = ''teams-bot-framework''"

record meeting_bot_config =
  mb_provider :: bot_provider
  mb_api_key :: string
  mb_bot_display_name :: string
  mb_consent_script :: string
  mb_recording_delay_seconds :: u32
  mb_meeting_url :: string

definition hls_start :: "hls_config \<Rightarrow> (vfs_error, ingest_event list) outcome" where
  "hls_start c = Err (vfs_error_of_ingest (NotImplemented ''hls''))"

definition whip_start :: "whip_config \<Rightarrow> (vfs_error, ingest_event list) outcome" where
  "whip_start c = Err (vfs_error_of_ingest (NotImplemented ''whip''))"

definition meeting_bot_start :: "meeting_bot_config \<Rightarrow> (vfs_error, ingest_event list) outcome" where
  "meeting_bot_start c = Err (vfs_error_of_ingest (NotImplemented ''meeting-bot''))"

section \<open>The events of a file\<close>

text \<open>The frames of a session, and those that a file has from an offset on.\<close>

definition frames :: "ingest_event list \<Rightarrow> (nat \<times> bytes) list" where
  "frames es = List.map_filter (\<lambda>e. case e of FramesArrived i b t \<Rightarrow> Some (unat t, b) | _ \<Rightarrow> None) es"

lemma frames_simps [simp]:
  "frames [] = []" "frames (SessionStarted i t # es) = frames es" "frames (SessionEnded i r u # es) = frames es"
  "frames (FramesArrived i b w # es) = (unat w, b) # frames es"
  by (simp_all add: frames_def List.map_filter_def)

text \<open>Consecutive pieces of \<open>b\<close> from \<open>off\<close> on, none empty and none longer than \<open>n\<close>, each with its position.\<close>

fun cuts :: "nat \<Rightarrow> bytes \<Rightarrow> nat \<Rightarrow> (nat \<times> bytes) list \<Rightarrow> bool" where
  "cuts n b off [] \<longleftrightarrow> length b \<le> off"
| "cuts n b off ((k, p) # ps) \<longleftrightarrow>
     k = off \<and> p \<noteq> [] \<and> length p \<le> n \<and> p = take (length p) (drop off b) \<and> cuts n b (off + length p) ps"

lemma cuts_concat: "cuts n b off ps \<Longrightarrow> concat (map snd ps) = drop off b"
proof (induction ps arbitrary: off)
  case (Cons kp ps)
  obtain k p where kp: "kp = (k, p)" by force
  with Cons.prems have p: "p = take (length p) (drop off b)" "cuts n b (off + length p) ps" by auto
  have "concat (map snd (kp # ps)) = take (length p) (drop off b) @ drop (off + length p) b"
    using Cons.IH [OF p(2)] p(1) kp by simp
  also have "\<dots> = drop off b" by (metis append_take_drop_id drop_drop add.commute)
  finally show ?case .
qed simp

lemma cuts_positions: "cuts n b off ps \<Longrightarrow> sorted_wrt (<) (map fst ps) \<and> (\<forall>k\<in>set (map fst ps). off \<le> k)"
proof (induction ps arbitrary: off)
  case (Cons kp ps)
  obtain k p where kp: "kp = (k, p)" by force
  with Cons.prems have p: "k = off" "p \<noteq> []" "cuts n b (off + length p) ps" by auto
  have "off < off + length p" using p(2) by simp
  then have "\<forall>k\<in>set (map fst ps). off < k" using Cons.IH [OF p(3)] by (meson less_le_trans)
  then show ?case using Cons.IH [OF p(3)] p(1) kp by (simp add: less_imp_le)
qed simp

definition middle :: "stream_session_id \<Rightarrow> ingest_event \<Rightarrow> bool" where
  "middle i e \<longleftrightarrow> (\<exists>b t. e = FramesArrived i b t)"

lemma frames_append_end: "list_all (middle i) es \<Longrightarrow> frames (es @ [SessionEnded i r t]) = frames es"
  by (induction es) (auto simp: middle_def)

lemma stream_from:
  assumes "st_emitted_start s" and "\<not> st_emitted_end s" and "length (st_bytes s) < 2 ^ 64"
  shows "\<exists>es. stream_events now s = es @ [SessionEnded (st_session_id s) Completed now] \<and>
    list_all (middle (st_session_id s)) es \<and> cuts FILE_BATCH_BYTES (st_bytes s) (st_offset s) (frames es)"
  using assms
proof (induction "length (st_bytes s) - st_offset s" arbitrary: s rule: less_induct)
  case less
  show ?case
  proof (cases "st_offset s < length (st_bytes s)")
    case False
    define s' where "s' = s\<lparr>st_emitted_end := True\<rparr>"
    have "stream_events now s' = []"
      using less.prems False by (subst stream_events.simps) (simp add: file_stream_next_def s'_def)
    then have "stream_events now s = [SessionEnded (st_session_id s) Completed now]"
      using less.prems False by (subst stream_events.simps) (simp add: file_stream_next_def s'_def)
    then show ?thesis using False by (intro exI [of _ "[]"]) simp
  next
    case True
    define stop where "stop = min (st_offset s + FILE_BATCH_BYTES) (length (st_bytes s))"
    define p where "p = take (stop - st_offset s) (drop (st_offset s) (st_bytes s))"
    define s' where "s' = s\<lparr>st_offset := stop\<rparr>"
    have gt: "st_offset s < stop" using True by (simp add: stop_def FILE_BATCH_BYTES_def)
    have run: "stream_events now s = FramesArrived (st_session_id s) p (of_nat (st_offset s)) # stream_events now s'"
      using less.prems True by (subst stream_events.simps) (simp add: file_stream_next_def stop_def p_def s'_def Let_def)
    obtain es where es: "stream_events now s' = es @ [SessionEnded (st_session_id s) Completed now]"
      "list_all (middle (st_session_id s)) es" "cuts FILE_BATCH_BYTES (st_bytes s) stop (frames es)"
      using less.hyps [of s'] less.prems gt True by (fastforce simp: s'_def diff_less_mono2)
    have len: "length p = stop - st_offset s" "stop - st_offset s \<le> FILE_BATCH_BYTES"
      by (simp_all add: p_def stop_def)
    then have piece: "p \<noteq> [] \<and> p = take (length p) (drop (st_offset s) (st_bytes s)) \<and> st_offset s + length p = stop"
      using gt by (auto simp: p_def)
    have "unat (of_nat (st_offset s) :: u64) = st_offset s"
      by (rule unat_of_nat_le) (use True less.prems(3) in simp)
    then show ?thesis
      using run es piece len gt True by (intro exI [of _ "FramesArrived (st_session_id s) p (of_nat (st_offset s)) # es"]) (simp add: middle_def)
  qed
qed

text \<open>
  (C23) Replaying a file: the stream begins with the start of the session and ends with its end, and between the two are frames only.
  Together the frames are the bytes of the file, in order, none is empty or longer than a batch, and their times increase strictly. (The
  times, which are to be microseconds, are the offsets of the bytes.)
\<close>

theorem file_stream_replays:
  assumes "length b < 2 ^ 64" and "es = stream_events ended (file_stream_start i b started)"
  shows "\<exists>mid. es = SessionStarted i started # mid @ [SessionEnded i Completed ended] \<and> list_all (middle i) mid \<and>
    concat (map snd (frames es)) = b \<and> sorted_wrt (<) (map fst (frames es)) \<and>
    cuts FILE_BATCH_BYTES b 0 (frames es)"
proof -
  define s where "s = (file_stream_start i b started)\<lparr>st_emitted_start := True\<rparr>"
  have "es = SessionStarted i started # stream_events ended s"
    unfolding assms(2) by (subst stream_events.simps) (simp add: file_stream_next_def file_stream_start_def s_def)
  moreover obtain mid where mid: "stream_events ended s = mid @ [SessionEnded i Completed ended]" "list_all (middle i) mid"
    "cuts FILE_BATCH_BYTES b 0 (frames mid)"
    using stream_from [of s ended] assms(1) by (auto simp: s_def file_stream_start_def)
  ultimately show ?thesis
    using cuts_concat [OF mid(3)] cuts_positions [OF mid(3)] frames_append_end [OF mid(2)] mid
    by (intro exI [of _ mid]) simp
qed

theorem file_stream_replays_witness:
  "concat (map snd (frames (stream_events 9 (file_stream_start (SessionId ''s'') (replicate 70000 7) 5)))) = replicate 70000 (7 :: u8)"
  using file_stream_replays [OF _ refl, of "replicate 70000 7" 9 "SessionId ''s''" 5] by fastforce

text \<open>An adapter that is not there yet reports it.\<close>

lemma stubs_refuse:
  "\<exists>e. hls_start h = Err (Backend e)" "\<exists>e. whip_start w = Err (Backend e)" "\<exists>e. meeting_bot_start m = Err (Backend e)"
  by (simp_all add: hls_start_def whip_start_def meeting_bot_start_def vfs_error_of_ingest_def)

end
