(* ===== verification/Content_Index.thy ===== *)
theory Content_Index
  imports Vfs_Path Vfs_Types
begin

text \<open>
  The indexing pipeline (\<open>crates/diaspor-index/src\<close>) and the frame pipeline (\<open>crates/diaspor-frame-pipeline/src\<close>): their data,
  their errors, the composed pipeline, and the decoders and samplers, which are placeholders.

  Extractor, transcriber and tagger are methods over a state; floating-point numbers are only passed through, and their type is the parameter
  \<open>'d\<close>. A stream of batches is the list of its items, errors included.
\<close>

section \<open>The index\<close>

datatype index_error =
    FfmpegFailed string
  | TranscriberFailed string
  | TaggerFailed string
  | UnsupportedMedia string

fun index_error_text :: "index_error \<Rightarrow> string" where
  "index_error_text (FfmpegFailed e) = ''ffmpeg failed: '' @ e"
| "index_error_text (TranscriberFailed e) = ''transcriber failed: '' @ e"
| "index_error_text (TaggerFailed e) = ''tagger failed: '' @ e"
| "index_error_text (UnsupportedMedia p) = ''unsupported media format at '' @ p"

record 'd media_info =
  mi_container :: string
  mi_duration_seconds :: "'d option"
  mi_audio_codec :: "string option"
  mi_audio_sample_rate :: "u32 option"
  mi_audio_channels :: "16 word option"
  mi_video_codec :: "string option"

record 'd transcript_segment =
  ts_start_seconds :: 'd
  ts_end_seconds :: 'd
  ts_segment_text :: string

record 'd transcript =
  tx_language :: "string option"
  tx_text :: string
  tx_segments :: "'d transcript_segment list"

record tag_set =
  tg_tags :: "string list"
  tg_categories :: "string list"
  tg_summary :: "string option"

record 'd sidecar_record =
  sr_path :: string
  sr_media :: "'d media_info"
  sr_transcript :: "'d transcript"
  sr_tags :: tag_set
  sr_extracted_with :: string
  sr_extracted_at :: int

record ('s, 'd) content_pipeline =
  cp_probe :: "vfs_path \<Rightarrow> bytes \<Rightarrow> ('s, vfs_error, 'd media_info) act"
  cp_extract_audio_pcm :: "vfs_path \<Rightarrow> bytes \<Rightarrow> ('s, vfs_error, bytes) act"
  cp_transcriber_name :: string
  cp_transcribe :: "bytes \<Rightarrow> ('s, vfs_error, 'd transcript) act"
  cp_tagger_name :: string
  cp_tag :: "string \<Rightarrow> ('s, vfs_error, tag_set) act"

definition process :: "int \<Rightarrow> ('s, 'd) content_pipeline \<Rightarrow> vfs_path \<Rightarrow> bytes \<Rightarrow> ('s, vfs_error, 'd sidecar_record) act" where
  "process now p path b =
     and_then (cp_probe p path b) (\<lambda>info.
     and_then (cp_extract_audio_pcm p path b) (\<lambda>pcm.
     and_then (cp_transcribe p pcm) (\<lambda>transcript.
     and_then (cp_tag p (tx_text transcript)) (\<lambda>tags s.
       (Ok \<lparr>sr_path = as_str path, sr_media = info, sr_transcript = transcript, sr_tags = tags,
            sr_extracted_with = cp_transcriber_name p @ ''+'' @ cp_tagger_name p, sr_extracted_at = now\<rparr>, s)))))"

text \<open>A record is of the file given: its audio was transcribed, and the text of that transcript was tagged.\<close>

lemma process_record:
  assumes "process now p path b s = (Ok r, t)"
  shows "sr_path r = as_str path \<and>
    (\<exists>info pcm s1 s2 s3. cp_probe p path b s = (Ok info, s1) \<and> cp_extract_audio_pcm p path b s1 = (Ok pcm, s2) \<and>
      cp_transcribe p pcm s2 = (Ok (sr_transcript r), s3) \<and> cp_tag p (tx_text (sr_transcript r)) s3 = (Ok (sr_tags r), t) \<and> sr_media r = info)"
  using assms by (auto simp: process_def and_then_Ok_iff)

section \<open>Frames\<close>

datatype frame_pipeline_error =
    DecoderUnavailable (fpe_backend: string) (fpe_reason: string)
  | DecodeFailed (fpe_backend: string) (fpe_reason: string)
  | UnsupportedCodec (fpe_backend: string) (fpe_codec: string)
  | SamplerFailed (fpe_reason: string)
  | NotImplemented (fpe_backend: string)

fun frame_error_text :: "frame_pipeline_error \<Rightarrow> string" where
  "frame_error_text (DecoderUnavailable b r) = ''decoder unavailable ('' @ b @ ''): '' @ r"
| "frame_error_text (DecodeFailed b r) = ''decode failed ('' @ b @ ''): '' @ r"
| "frame_error_text (UnsupportedCodec b c) = ''unsupported codec '' @ [CHR 39] @ c @ [CHR 39] @ '' on backend '' @ [CHR 39] @ b @ [CHR 39]"
| "frame_error_text (SamplerFailed r) = ''sampler failed: '' @ r"
| "frame_error_text (NotImplemented b) = ''backend '' @ [CHR 39] @ b @ [CHR 39] @ '' is not implemented yet''"

definition vfs_error_of_frame :: "frame_pipeline_error \<Rightarrow> vfs_error" where
  "vfs_error_of_frame e = Backend (frame_error_text e)"

datatype pixel_format = Yuv420p | Nv12 | Rgb24 | Bgra

record frame_batch =
  fb_data :: bytes
  fb_width :: u32
  fb_height :: u32
  fb_pixel_format :: pixel_format
  fb_timestamp_us :: u64
  fb_frame_index :: u64

type_synonym frame_batch_stream = "(vfs_error, frame_batch) outcome list"

definition ffmpeg_decode :: "vfs_path \<Rightarrow> bytes \<Rightarrow> (vfs_error, frame_batch_stream) outcome" where
  "ffmpeg_decode path b = Err (vfs_error_of_frame (NotImplemented ''ffmpeg''))"

definition deepstream_decode :: "vfs_path \<Rightarrow> bytes \<Rightarrow> (vfs_error, frame_batch_stream) outcome" where
  "deepstream_decode path b = Err (vfs_error_of_frame (NotImplemented ''deepstream''))"

definition videotoolbox_decode :: "vfs_path \<Rightarrow> bytes \<Rightarrow> (vfs_error, frame_batch_stream) outcome" where
  "videotoolbox_decode path b = Err (vfs_error_of_frame (NotImplemented ''videotoolbox''))"

text \<open>The samplers pass on every batch.\<close>

definition uniform_sample :: "u32 \<Rightarrow> frame_batch_stream \<Rightarrow> (vfs_error, frame_batch_stream) outcome" where
  "uniform_sample fps input = Ok input"

definition keyframe_aligned_sample :: "frame_batch_stream \<Rightarrow> (vfs_error, frame_batch_stream) outcome" where
  "keyframe_aligned_sample input = Ok input"

definition face_triggered_sample :: "'f \<Rightarrow> frame_batch_stream \<Rightarrow> (vfs_error, frame_batch_stream) outcome" where
  "face_triggered_sample min_confidence input = Ok input"

end
