(* ===== verification/Training.thy ===== *)
theory Training
  imports Vfs_Types
begin

text \<open>
  The training pipeline (\<open>crates/diaspor-train/src\<close>): manifests, labels, embeddings, adapters and reports, the stages as methods over a
  state, their placeholder implementations, and \<open>TrainingPipeline::train\<close>, which composes them behind the evaluation gate.

  Floating-point numbers are only passed through and printed: their types are the parameters \<open>'f\<close> (32 bit) and \<open>'d\<close> (64 bit), and printing
  a 64-bit number is an argument.
\<close>

section \<open>Data and errors\<close>

datatype train_error =
    StageNotImplemented string
  | VerticalRefused (refused_tenant: string) (refused_vertical: string)
  | EvalGateRejected (metric: string) (baseline: string) (new_value: string) (delta_value: string)
  | SigningFailed string
  | InvalidInput (bad_stage: string) (reason: string)

fun train_error_text :: "train_error \<Rightarrow> string" where
  "train_error_text (StageNotImplemented stage) = ''training stage `'' @ stage @ ''` is not implemented yet''"
| "train_error_text (VerticalRefused t v) =
     ''vertical `'' @ v @ ''` is on the credibility-LoRA refusal list for tenant `'' @ t @ ''`''"
| "train_error_text (EvalGateRejected m b n d) =
     ''eval gate rejected adapter: metric='' @ m @ '' baseline='' @ b @ '' new='' @ n @ '' delta='' @ d"
| "train_error_text (SigningFailed e) = ''signing failed: '' @ e"
| "train_error_text (InvalidInput stage e) = ''invalid pipeline input at stage `'' @ stage @ ''`: '' @ e"

definition vfs_error_of_train :: "train_error \<Rightarrow> vfs_error" where
  "vfs_error_of_train e = Backend (train_error_text e)"

datatype corpus_source = S3Prefix string | VfsPathSource string

record 'd corpus_manifest =
  cm_tenant_id :: string
  cm_clip_count :: u64
  cm_total_duration_seconds :: 'd
  cm_sha256_manifest :: string
  cm_ingested_at :: int

record 'f labeled_clip =
  lc_clip_id :: string
  lc_label :: string
  lc_agreement :: "'f option"

type_synonym 'f annotation_set = "'f labeled_clip list"

record clip_embedding =
  ce_clip_id :: string
  ce_tensor :: bytes

record embedding_set =
  es_embeddings :: "clip_embedding list"
  es_dim :: u32
  es_backbone_name :: string

record 'f lora_config =
  lo_rank :: u8
  lo_alpha :: u8
  lo_target_modules :: "string list"
  lo_learning_rate :: 'f
  lo_epochs :: u32

record 'd eval_report =
  er_metric_name :: string
  er_baseline_score :: 'd
  er_new_score :: 'd
  er_delta :: 'd
  er_passed :: bool

record 'd adapter_artifact =
  aa_adapter_id :: string
  aa_tenant_id :: string
  aa_base_model :: string
  aa_safetensors_bytes :: bytes
  aa_vendor_signature :: bytes
  aa_tenant_signature :: "bytes option"
  aa_trained_at :: int
  aa_eval_report :: "'d eval_report option"

definition path_in_tenant_bucket :: "string \<Rightarrow> string \<Rightarrow> string" where
  "path_in_tenant_bucket tenant adapter = ''tenants/'' @ tenant @ ''/adapters/'' @ adapter @ ''.safetensors''"

text \<open>The settings for training; the learning rates are arguments of the definitions.\<close>

definition default_lora_config :: "'f \<Rightarrow> 'f lora_config" where
  "default_lora_config rate_1e4 =
     \<lparr>lo_rank = 16, lo_alpha = 32, lo_target_modules = [''q_proj'', ''v_proj''], lo_learning_rate = rate_1e4, lo_epochs = 8\<rparr>"

definition default_credibility_lora_config :: "'f \<Rightarrow> 'f lora_config" where
  "default_credibility_lora_config rate_5e5 =
     \<lparr>lo_rank = 32, lo_alpha = 64, lo_target_modules = [''q_proj'', ''k_proj'', ''v_proj''], lo_learning_rate = rate_5e5, lo_epochs = 12\<rparr>"

definition default_judge_lora_config :: "'f \<Rightarrow> 'f lora_config" where
  "default_judge_lora_config rate_2e4 =
     \<lparr>lo_rank = 16, lo_alpha = 32, lo_target_modules = [''q_proj'', ''v_proj''], lo_learning_rate = rate_2e4, lo_epochs = 6\<rparr>"

section \<open>The pipeline\<close>

record ('s, 'f, 'd) training_pipeline =
  tp_ingest :: "string \<Rightarrow> corpus_source \<Rightarrow> ('s, vfs_error, 'd corpus_manifest) act"
  tp_annotate :: "'d corpus_manifest \<Rightarrow> ('s, vfs_error, 'f annotation_set) act"
  tp_extract_embeddings :: "'f annotation_set \<Rightarrow> ('s, vfs_error, embedding_set) act"
  tp_train :: "string \<Rightarrow> string \<Rightarrow> embedding_set \<Rightarrow> 'f annotation_set \<Rightarrow> 'f lora_config \<Rightarrow> ('s, vfs_error, 'd adapter_artifact) act"
  tp_evaluate :: "'d adapter_artifact \<Rightarrow> string \<Rightarrow> ('s, vfs_error, 'd eval_report) act"

definition train_pipeline ::
    "('d \<Rightarrow> string) \<Rightarrow> ('s, 'f, 'd) training_pipeline \<Rightarrow> string \<Rightarrow> corpus_source \<Rightarrow> 'f lora_config \<Rightarrow> string \<Rightarrow>
     ('s, vfs_error, 'd adapter_artifact) act" where
  "train_pipeline show_d p tenant source lora eval_set =
     and_then (tp_ingest p tenant source) (\<lambda>manifest.
     and_then (tp_annotate p manifest) (\<lambda>labels.
     and_then (tp_extract_embeddings p labels) (\<lambda>embeddings.
     and_then (tp_train p tenant (''adapter-'' @ tenant) embeddings labels lora) (\<lambda>artifact.
     and_then (tp_evaluate p artifact eval_set) (\<lambda>report s.
       if \<not> er_passed report then
         (Err (vfs_error_of_train (EvalGateRejected (er_metric_name report) (show_d (er_baseline_score report))
            (show_d (er_new_score report)) (show_d (er_delta report)))), s)
       else (Ok (artifact\<lparr>aa_eval_report := Some report\<rparr>), s))))))"

section \<open>Placeholders\<close>

definition stage_missing :: "string \<Rightarrow> ('s, vfs_error, 'a) act" where
  "stage_missing stage s = (Err (vfs_error_of_train (StageNotImplemented stage)), s)"

definition noop_corpus_ingest :: "string \<Rightarrow> corpus_source \<Rightarrow> ('s, vfs_error, 'd corpus_manifest) act" where
  "noop_corpus_ingest tenant source = stage_missing ''noop-corpus''"

definition cvat_annotate :: "'d corpus_manifest \<Rightarrow> ('s, vfs_error, 'f annotation_set) act" where
  "cvat_annotate m = stage_missing ''cvat-annotator''"

definition label_studio_annotate :: "'d corpus_manifest \<Rightarrow> ('s, vfs_error, 'f annotation_set) act" where
  "label_studio_annotate m = stage_missing ''label-studio-annotator''"

definition internvideo2_embeddings :: "'f annotation_set \<Rightarrow> ('s, vfs_error, embedding_set) act" where
  "internvideo2_embeddings a = stage_missing ''internvideo2-backbone''"

definition videomae_v2_embeddings :: "'f annotation_set \<Rightarrow> ('s, vfs_error, embedding_set) act" where
  "videomae_v2_embeddings a = stage_missing ''videomae-v2-backbone''"

definition hubert_large_embeddings :: "'f annotation_set \<Rightarrow> ('s, vfs_error, embedding_set) act" where
  "hubert_large_embeddings a = stage_missing ''hubert-large-backbone''"

definition noop_lora_train ::
    "string \<Rightarrow> string \<Rightarrow> embedding_set \<Rightarrow> 'f annotation_set \<Rightarrow> 'f lora_config \<Rightarrow> ('s, vfs_error, 'd adapter_artifact) act" where
  "noop_lora_train tenant adapter e a c = stage_missing ''noop-lora-trainer''"

definition noop_evaluate :: "'d adapter_artifact \<Rightarrow> string \<Rightarrow> ('s, vfs_error, 'd eval_report) act" where
  "noop_evaluate a held_out = stage_missing ''noop-eval-gate''"

section \<open>Nothing leaves the pipeline without passing the gate\<close>


definition demo_report :: "bool \<Rightarrow> nat eval_report" where
  "demo_report passed = \<lparr>er_metric_name = ''f1'', er_baseline_score = 7, er_new_score = 8, er_delta = 1, er_passed = passed\<rparr>"

definition demo_pipeline :: "bool \<Rightarrow> (nat, nat, nat) training_pipeline" where
  "demo_pipeline passed =
     \<lparr>tp_ingest = (\<lambda>t src s. (Ok \<lparr>cm_tenant_id = t, cm_clip_count = 1, cm_total_duration_seconds = 2, cm_sha256_manifest = [], cm_ingested_at = 0\<rparr>, s + 1)),
      tp_annotate = (\<lambda>m s. (Ok [], s + 1)),
      tp_extract_embeddings = (\<lambda>a s. (Ok \<lparr>es_embeddings = [], es_dim = 4, es_backbone_name = ''b''\<rparr>, s + 1)),
      tp_train = (\<lambda>t i e a c s. (Ok \<lparr>aa_adapter_id = i, aa_tenant_id = t, aa_base_model = ''m'', aa_safetensors_bytes = [1],
        aa_vendor_signature = [], aa_tenant_signature = None, aa_trained_at = 0, aa_eval_report = None\<rparr>, s + 1)),
      tp_evaluate = (\<lambda>a h s. (Ok (demo_report passed), s + 1))\<rparr>"


lemma rejected_adapter:
  "train_pipeline (\<lambda>_. ''n'') (demo_pipeline False) ''t'' (S3Prefix ''x'') (default_lora_config (1::nat)) ''h'' 0 =
     (Err (Backend ''eval gate rejected adapter: metric=f1 baseline=n new=n delta=n''), 5)"
  by (simp add: train_pipeline_def demo_pipeline_def demo_report_def and_then_def vfs_error_of_train_def)

text \<open>With the placeholders, training stops at the corpus.\<close>

lemma placeholders_stop:
  assumes "tp_ingest p = noop_corpus_ingest"
  shows "train_pipeline show_d p tenant source lora eval_set s = (Err (Backend ''training stage `noop-corpus` is not implemented yet''), s)"
  by (simp add: train_pipeline_def assms noop_corpus_ingest_def stage_missing_def and_then_def vfs_error_of_train_def)

end
